(* ===== verification/Prelude.thy ===== *)
theory Prelude
  imports Main "HOL-Library.Word" "HOL-Library.List_Lexorder" "HOL-Library.Char_ord"
    "HOL-Library.Product_Lexorder"
begin

text \<open>
  Shared vocabulary of the development: Rust results as sums with the \<open>?\<close> operator as
  \<open>and_then\<close>, the loops the code writes over slices, the integer conversions and string
  functions of the Rust standard library that the code calls, and the generic lemmas on keyed
  lists that the SQL tables of the storage component are built on.
\<close>

section \<open>Machine types\<close>

type_synonym byte = "8 word"
type_synonym u32 = "32 word"
type_synonym u64 = "64 word"
type_synonym blob = "byte list"

text \<open>
  \<open>i64\<close> values (SQL integers and Unix timestamps) are \<open>int\<close>: the code only compares them and
  converts them with checked conversions, whose bounds are written out below.
\<close>

section \<open>Results and the question-mark operator\<close>

named_theorems result_simps
named_theorems result_elims

definition and_then :: "'e + 'a \<Rightarrow> ('a \<Rightarrow> 'e + 'b) \<Rightarrow> 'e + 'b" where
  "and_then m f = (case m of Inl e \<Rightarrow> Inl e | Inr x \<Rightarrow> f x)"

definition ensure :: "bool \<Rightarrow> 'e \<Rightarrow> 'e + unit" where
  "ensure c e = (if c then Inr () else Inl e)"

definition ok_or :: "'e \<Rightarrow> 'a option \<Rightarrow> 'e + 'a" where
  "ok_or e v = (case v of None \<Rightarrow> Inl e | Some x \<Rightarrow> Inr x)"

definition map_err :: "('e \<Rightarrow> 'f) \<Rightarrow> 'e + 'a \<Rightarrow> 'f + 'a" where
  "map_err g m = (case m of Inl e \<Rightarrow> Inl (g e) | Inr x \<Rightarrow> Inr x)"

definition map_ok :: "('a \<Rightarrow> 'b) \<Rightarrow> 'e + 'a \<Rightarrow> 'e + 'b" where
  "map_ok g m = (case m of Inl e \<Rightarrow> Inl e | Inr x \<Rightarrow> Inr (g x))"

definition result_ok :: "'e + 'a \<Rightarrow> 'a option" where
  "result_ok m = (case m of Inl e \<Rightarrow> None | Inr x \<Rightarrow> Some x)"

text \<open>\<open>opt.map(f).transpose()\<close>.\<close>

definition transpose_map :: "('a \<Rightarrow> 'e + 'b) \<Rightarrow> 'a option \<Rightarrow> 'e + 'b option" where
  "transpose_map f v = (case v of None \<Rightarrow> Inr None | Some x \<Rightarrow> map_ok Some (f x))"

text \<open>A \<open>for\<close> loop whose body can fail: without state, with state, and collecting.\<close>

fun for_each :: "('a \<Rightarrow> 'e + unit) \<Rightarrow> 'a list \<Rightarrow> 'e + unit" where
  "for_each f [] = Inr ()"
| "for_each f (x # xs) = and_then (f x) (\<lambda>_. for_each f xs)"

fun fold_result :: "('a \<Rightarrow> 's \<Rightarrow> 'e + 's) \<Rightarrow> 'a list \<Rightarrow> 's \<Rightarrow> 'e + 's" where
  "fold_result f [] s = Inr s"
| "fold_result f (x # xs) s = and_then (f x s) (fold_result f xs)"

fun collect_result :: "('a \<Rightarrow> 'e + 'b) \<Rightarrow> 'a list \<Rightarrow> 'e + 'b list" where
  "collect_result f [] = Inr []"
| "collect_result f (x # xs) =
     and_then (f x) (\<lambda>y. and_then (collect_result f xs) (\<lambda>ys. Inr (y # ys)))"

lemma and_then_simps [simp]:
  "and_then (Inl e) f = Inl e" "and_then (Inr x) f = f x"
  by (simp_all add: and_then_def)

lemma ensure_simps [simp]: "ensure True e = Inr ()" "ensure False e = Inl e"
  by (simp_all add: ensure_def)

lemma ok_or_simps [simp]: "ok_or e (Some x) = Inr x" "ok_or e None = Inl e"
  by (simp_all add: ok_or_def)

lemma map_err_simps [simp]: "map_err g (Inl e) = Inl (g e)" "map_err g (Inr x) = Inr x"
  by (simp_all add: map_err_def)

lemma map_ok_simps [simp]: "map_ok g (Inl e) = Inl e" "map_ok g (Inr x) = Inr (g x)"
  by (simp_all add: map_ok_def)

lemma result_ok_simps [simp]: "result_ok (Inl e) = None" "result_ok (Inr x) = Some x"
  by (simp_all add: result_ok_def)

lemma transpose_map_simps [simp]:
  "transpose_map f None = Inr None" "transpose_map f (Some x) = map_ok Some (f x)"
  by (simp_all add: transpose_map_def)

text \<open>Inversion of a successful or failed step; \<open>result_simps\<close> opens a whole chain.\<close>

lemma and_then_Inr [result_simps]: "and_then m f = Inr y \<longleftrightarrow> (\<exists>x. m = Inr x \<and> f x = Inr y)"
  by (auto simp: and_then_def split: sum.splits)

lemma and_then_Inl [result_simps]:
  "and_then m f = Inl e \<longleftrightarrow> m = Inl e \<or> (\<exists>x. m = Inr x \<and> f x = Inl e)"
  by (auto simp: and_then_def split: sum.splits)

lemma ensure_Inr [result_simps]: "ensure c e = Inr u \<longleftrightarrow> c"
  by (auto simp: ensure_def)

lemma ensure_Inl [result_simps]: "ensure c e = Inl e' \<longleftrightarrow> \<not> c \<and> e' = e"
  by (auto simp: ensure_def)

lemma ok_or_Inr [result_simps]: "ok_or e v = Inr x \<longleftrightarrow> v = Some x"
  by (cases v) auto

lemma ok_or_Inl [result_simps]: "ok_or e v = Inl e' \<longleftrightarrow> v = None \<and> e' = e"
  by (cases v) auto

lemma map_err_Inr [result_simps]: "map_err g m = Inr x \<longleftrightarrow> m = Inr x"
  by (cases m) auto

lemma map_err_Inl [result_simps]: "map_err g m = Inl e \<longleftrightarrow> (\<exists>e'. m = Inl e' \<and> e = g e')"
  by (cases m) auto

lemma map_ok_Inr [result_simps]: "map_ok g m = Inr y \<longleftrightarrow> (\<exists>x. m = Inr x \<and> y = g x)"
  by (cases m) auto

lemma map_ok_Inl [result_simps]: "map_ok g m = Inl e \<longleftrightarrow> m = Inl e"
  by (cases m) auto

lemma transpose_map_Inr [result_simps]:
  "transpose_map f v = Inr r \<longleftrightarrow>
     (case v of None \<Rightarrow> r = None | Some x \<Rightarrow> (\<exists>y. f x = Inr y \<and> r = Some y))"
  by (auto simp: transpose_map_def result_simps split: option.splits)

lemma for_each_Inr: "for_each f xs = Inr u \<longleftrightarrow> (\<forall>x \<in> set xs. f x = Inr ())"
  by (induction xs) (auto simp: result_simps)

lemma for_each_Inl: "for_each f xs = Inl e \<Longrightarrow> \<exists>x \<in> set xs. f x = Inl e"
  by (induction xs) (auto simp: result_simps)

lemma collect_result_Inr:
  "collect_result f xs = Inr ys \<longleftrightarrow> list_all2 (\<lambda>x y. f x = Inr y) xs ys"
  by (induction xs arbitrary: ys) (auto simp: result_simps list_all2_Cons1)

lemma collect_result_map:
  "(\<And>x. x \<in> set xs \<Longrightarrow> f x = Inr (g x)) \<Longrightarrow> collect_result f xs = Inr (map g xs)"
  by (induction xs) auto

lemma collect_result_Inl: "collect_result f xs = Inl e \<Longrightarrow> \<exists>x \<in> set xs. f x = Inl e"
  by (induction xs) (auto simp: result_simps)

lemma fold_result_append:
  "fold_result f (xs @ ys) s = and_then (fold_result f xs s) (fold_result f ys)"
  by (induction xs arbitrary: s) (auto simp: and_then_def split: sum.splits)

text \<open>An invariant kept by every successful iteration is kept by the loop.\<close>

lemma fold_result_invariant:
  assumes "fold_result f xs s = Inr t" and "P s"
    and "\<And>x s t. x \<in> set xs \<Longrightarrow> P s \<Longrightarrow> f x s = Inr t \<Longrightarrow> P t"
  shows "P t"
  using assms
proof (induction xs arbitrary: s)
  case (Cons x xs)
  then obtain u where "f x s = Inr u" "fold_result f xs u = Inr t" by (auto simp: result_simps)
  with Cons.IH [of u] Cons.prems(2,3) show ?case by simp blast
qed simp

lemma fold_result_error:
  assumes "fold_result f xs s = Inl e" and "P s"
    and "\<And>x s t. x \<in> set xs \<Longrightarrow> P s \<Longrightarrow> f x s = Inr t \<Longrightarrow> P t"
  shows "\<exists>x \<in> set xs. \<exists>s'. P s' \<and> f x s' = Inl e"
  using assms
proof (induction xs arbitrary: s)
  case (Cons x xs)
  show ?case
  proof (cases "f x s")
    case (Inl a)
    with Cons.prems(1,2) show ?thesis by auto
  next
    case (Inr u)
    then have "P u" using Cons.prems(2) Cons.prems(3) [of x s u] by simp
    moreover from Inr Cons.prems(1) have "fold_result f xs u = Inl e" by simp
    ultimately show ?thesis using Cons.IH [of u] Cons.prems(3) by auto
  qed
qed simp

section \<open>Checked integer conversions\<close>

definition u32_try_from :: "int \<Rightarrow> u32 option" where
  "u32_try_from i = (if 0 \<le> i \<and> i < 2 ^ 32 then Some (word_of_int i) else None)"

definition u64_try_from :: "int \<Rightarrow> u64 option" where
  "u64_try_from i = (if 0 \<le> i \<and> i < 2 ^ 64 then Some (word_of_int i) else None)"

definition i64_try_from_u64 :: "u64 \<Rightarrow> int option" where
  "i64_try_from_u64 w = (if uint w < 2 ^ 63 then Some (uint w) else None)"

definition checked_add_u64 :: "u64 \<Rightarrow> u64 \<Rightarrow> u64 option" where
  "checked_add_u64 a b = (if uint a + uint b < 2 ^ 64 then Some (a + b) else None)"

definition checked_add_u32 :: "u32 \<Rightarrow> u32 \<Rightarrow> u32 option" where
  "checked_add_u32 a b = (if uint a + uint b < 2 ^ 32 then Some (a + b) else None)"

lemma u32_try_from_uint [simp]: "u32_try_from (uint (w :: u32)) = Some w"
  using uint_lt2p [of w] by (simp add: u32_try_from_def)

lemma u32_try_from_Some: "u32_try_from i = Some w \<Longrightarrow> uint w = i"
  by (auto simp: u32_try_from_def uint_word_of_int split: if_splits)

lemma u64_try_from_Some: "u64_try_from i = Some w \<Longrightarrow> uint w = i"
  by (auto simp: u64_try_from_def uint_word_of_int split: if_splits)

lemma u64_try_from_i64: "0 \<le> i \<Longrightarrow> i < 2 ^ 63 \<Longrightarrow> u64_try_from i = Some (word_of_int i)"
  by (simp add: u64_try_from_def)

lemma u64_try_from_i64_to_u64: "i64_try_from_u64 w = Some i \<Longrightarrow> u64_try_from i = Some w"
  using uint_lt2p [of w] by (auto simp: i64_try_from_u64_def u64_try_from_def split: if_splits)

lemma checked_add_u64_Some: "checked_add_u64 a b = Some c \<Longrightarrow> uint c = uint a + uint b"
  by (auto simp: checked_add_u64_def uint_word_ariths split: if_splits)

lemma checked_add_u32_Some: "checked_add_u32 a b = Some c \<Longrightarrow> uint c = uint a + uint b"
  by (auto simp: checked_add_u32_def uint_word_ariths split: if_splits)

section \<open>Fixed-size byte arrays\<close>

text \<open>A \<open>[u8; n]\<close> is the word of its \<open>8 n\<close> bits; these are its bytes, most significant first.\<close>

definition be_bytes :: "nat \<Rightarrow> 'a::len word \<Rightarrow> blob" where
  "be_bytes n w = map (\<lambda>i. ucast (drop_bit (8 * (n - 1 - i)) w)) [0..<n]"

lemma length_be_bytes [simp]: "length (be_bytes n w) = n"
  by (simp add: be_bytes_def)

lemma bit_word_rcat:
  "bit (word_rcat (bs :: blob) :: 'a::len word) n \<longleftrightarrow>
     n < LENGTH('a) \<and> n div 8 < length bs \<and> bit (rev bs ! (n div 8)) (n mod 8)"
proof -
  have "bit (horner_sum uint (2 ^ LENGTH(8)) (rev bs)) n \<longleftrightarrow>
      n div LENGTH(8) < length (rev bs) \<and> bit (rev bs ! (n div LENGTH(8))) (n mod LENGTH(8))"
    by (rule bit_horner_sum_uint_exp_iff)
  then show ?thesis by (auto simp: word_rcat_def bit_word_of_int_iff)
qed

lemma bit_be_bytes: "k < n \<Longrightarrow> bit (rev (be_bytes n w) ! k) m \<longleftrightarrow> m < 8 \<and> bit w (8 * k + m)"
  by (auto simp: be_bytes_def rev_nth bit_ucast_iff bit_drop_bit_eq)

lemma word_rcat_be_bytes: "LENGTH('a::len) = 8 * n \<Longrightarrow> word_rcat (be_bytes n w) = (w :: 'a word)"
  by (rule bit_word_eqI) (simp add: bit_word_rcat bit_be_bytes less_mult_imp_div_less mult.commute)

lemma be_bytes_rcat:
  assumes "LENGTH('a::len) = 8 * n" and "length bs = n"
  shows "be_bytes n (word_rcat bs :: 'a word) = bs"
proof (rule nth_equalityI)
  fix i assume "i < length (be_bytes n (word_rcat bs :: 'a word))"
  then have i: "i < n" by simp
  show "be_bytes n (word_rcat bs :: 'a word) ! i = bs ! i"
  proof (rule bit_word_eqI)
    fix m assume m: "m < LENGTH(8)"
    have "be_bytes n (word_rcat bs :: 'a word) ! i = rev (be_bytes n (word_rcat bs :: 'a word)) ! (n - 1 - i)"
      using i by (simp add: rev_nth)
    moreover have "rev bs ! (n - 1 - i) = bs ! i" using i assms by (simp add: rev_nth)
    moreover have "n - 1 - i < n" "8 * (n - 1 - i) + m < 8 * n" using i m by auto
    ultimately show "bit (be_bytes n (word_rcat bs :: 'a word) ! i) m = bit (bs ! i) m"
      using assms m by (simp add: bit_be_bytes bit_word_rcat)
  qed
qed (simp add: assms)

section \<open>Keyed lists\<close>

text \<open>
  A SQL table with a primary key is a list of rows, distinct under the key; \<open>find\<close> by key is the
  single-row \<open>SELECT\<close> of the code.
\<close>

named_theorems table_simps

lemma find_append [table_simps]:
  "find P (xs @ ys) = (case find P xs of Some x \<Rightarrow> Some x | None \<Rightarrow> find P ys)"
  by (induction xs) auto

lemma find_None_set: "find P xs = None \<longleftrightarrow> (\<forall>x \<in> set xs. \<not> P x)"
  by (induction xs) auto

lemma find_Some_set: "find P xs = Some x \<Longrightarrow> x \<in> set xs \<and> P x"
  by (induction xs) (auto split: if_splits)

lemma find_key_unique:
  "distinct (map key xs) \<Longrightarrow> x \<in> set xs \<Longrightarrow> find (\<lambda>r. key r = key x) xs = Some x"
  by (induction xs) (auto simp: rev_image_eqI)

lemma find_filter_imp:
  "(\<And>x. x \<in> set xs \<Longrightarrow> P x \<Longrightarrow> Q x) \<Longrightarrow> find P (filter Q xs) = find P xs"
  by (induction xs) auto

lemma find_filter_disj:
  "(\<And>x. x \<in> set xs \<Longrightarrow> Q x \<Longrightarrow> \<not> P x) \<Longrightarrow> find P (filter Q xs) = None"
  by (induction xs) auto

lemma find_map_cong:
  "(\<And>x. x \<in> set xs \<Longrightarrow> P (f x) = P x) \<Longrightarrow> find P (map f xs) = map_option f (find P xs)"
  by (induction xs) auto

lemma find_cong_set: "(\<And>x. x \<in> set xs \<Longrightarrow> P x = Q x) \<Longrightarrow> find P xs = find Q xs"
  by (induction xs) auto

lemma distinct_map_filter_key: "distinct (map key xs) \<Longrightarrow> distinct (map key (filter P xs))"
  by (induction xs) auto

lemma filter_find_deleted:
  "distinct (map key xs) \<Longrightarrow> find (\<lambda>r. key r = k) xs = Some x \<Longrightarrow>
   find (\<lambda>r. key r = k') (filter (\<lambda>r. key r \<noteq> k) xs) =
     (if k' = k then None else find (\<lambda>r. key r = k') xs)"
  by (auto intro: find_filter_imp find_filter_disj)

text \<open>Sorting by a key that sees through a map.\<close>

lemma sort_key_under_map: "sort_key f (map g xs) = map g (sort_key (\<lambda>x. f (g x)) xs)"
proof -
  have "insort_key f (g x) (map g ys) = map g (insort_key (\<lambda>x. f (g x)) x ys)" for x ys
    by (induction ys) auto
  then show ?thesis by (induction xs) simp_all
qed

end
