(* ===== verification/Schema_Keys.thy ===== *)
theory Schema_Keys
  imports Rust_Text
begin

text \<open>
  The public identifiers of the world model (\<open>crates/sdk/src/world.rs\<close>): opaque 128-bit
  identifiers with their 16-byte form, timestamps, schema kinds, and the versioned schema keys
  with their parser and canonical text form.
\<close>

section \<open>Opaque 128-bit identifiers\<close>

text \<open>
  The macro \<open>opaque_world_id!\<close> generates one newtype around a UUID per entity; here one
  polymorphic newtype is instantiated at a tag type per macro call. The bytes of a UUID are the
  big-endian bytes of its 128-bit value.
\<close>

type_synonym uuid = "128 word"

datatype 'tag opaque_id = OpaqueId (as_uuid: uuid)

typedecl world_tag
typedecl entity_tag
typedecl relation_tag
typedecl command_tag
typedecl event_tag
typedecl job_tag
typedecl principal_tag
typedecl grant_tag
typedecl correlation_tag

type_synonym world_id = "world_tag opaque_id"
type_synonym entity_id = "entity_tag opaque_id"
type_synonym relation_id = "relation_tag opaque_id"
type_synonym command_id = "command_tag opaque_id"
type_synonym world_event_id = "event_tag opaque_id"
type_synonym effect_job_id = "job_tag opaque_id"
type_synonym principal_id = "principal_tag opaque_id"
type_synonym control_grant_id = "grant_tag opaque_id"
type_synonym correlation_id = "correlation_tag opaque_id"

definition into_bytes :: "'tag opaque_id \<Rightarrow> blob" where
  "into_bytes i = be_bytes 16 (as_uuid i)"

definition from_bytes :: "blob \<Rightarrow> 'tag opaque_id" where
  "from_bytes bs = OpaqueId (word_rcat bs)"

lemma length_into_bytes [simp]: "length (into_bytes i) = 16"
  by (simp add: into_bytes_def)

lemma from_into_bytes [simp]: "from_bytes (into_bytes i) = i"
  by (cases i) (simp add: from_bytes_def into_bytes_def word_rcat_be_bytes)

lemma into_from_bytes: "length bs = 16 \<Longrightarrow> into_bytes (from_bytes bs) = bs"
  by (simp add: into_bytes_def from_bytes_def be_bytes_rcat)

lemma into_bytes_inject [simp]: "into_bytes i = into_bytes j \<longleftrightarrow> i = j"
  by (metis from_into_bytes)

text \<open>\<open>UnixTimeMillis(i64)\<close>.\<close>

datatype unix_time = UnixTimeMillis (time_millis: int)

section \<open>Schema kinds and keys\<close>

datatype schema_kind = Entity | Relation | Facet | Command | Event | Effect | Projection

datatype schema_id = SchemaId (schema_id_text: string)
datatype schema_version = SchemaVersion (version_number: u32)
datatype schema_key = SchemaKey (key_id: schema_id) (key_version: schema_version)

text \<open>The derived order of \<open>SchemaKey\<close>: identifier text first, then the version.\<close>

definition key_rank :: "schema_key \<Rightarrow> string \<times> u32" where
  "key_rank k = (schema_id_text (key_id k), version_number (key_version k))"

lemma key_rank_inject: "key_rank k = key_rank k' \<Longrightarrow> k = k'"
  by (cases k; cases k'; cases "key_id k"; cases "key_id k'"; cases "key_version k";
      cases "key_version k'") (simp add: key_rank_def)

instantiation schema_key :: linorder
begin
definition less_eq_schema_key where "less_eq_schema_key k k' \<longleftrightarrow> key_rank k \<le> key_rank k'"
definition less_schema_key where "less_schema_key k k' \<longleftrightarrow> key_rank k < key_rank k'"
instance
  by standard (auto simp: less_eq_schema_key_def less_schema_key_def key_rank_inject)
end

datatype schema_identifier_error = SchemaIdentifierError string string

datatype schema_key_parse_error =
    MissingVersion
  | Identifier schema_identifier_error
  | Version string

definition MAX_SCHEMA_ID_BYTES :: nat where
  "MAX_SCHEMA_ID_BYTES = 128"

definition is_schema_segment :: "string \<Rightarrow> bool" where
  "is_schema_segment segment =
     (case segment of
        [] \<Rightarrow> False
      | first # rest \<Rightarrow>
          is_ascii_lowercase first \<and>
          list_all (\<lambda>b. is_ascii_lowercase b \<or> is_ascii_digit b \<or> b = CHR ''-'' \<or> b = CHR ''_'') rest)"

definition validate_schema_id :: "string \<Rightarrow> schema_identifier_error + unit" where
  "validate_schema_id value =
     (if value = [] then Inl (SchemaIdentifierError value ''identifier is empty'')
      else if length value > MAX_SCHEMA_ID_BYTES
        then Inl (SchemaIdentifierError value ''identifier is too long'')
      else (case split_on (CHR ''.'') value of
              [] \<Rightarrow> Inl (SchemaIdentifierError value ''identifier is empty'')
            | [first] \<Rightarrow> Inl (SchemaIdentifierError value
                ''identifier must contain at least two namespace segments'')
            | first # second # segments \<Rightarrow>
                if \<not> is_schema_segment first \<or> \<not> is_schema_segment second
                   \<or> \<not> list_all is_schema_segment segments
                then Inl (SchemaIdentifierError value
                  (''segments must start with lowercase ASCII letters and contain only lowercase letters, digits, ''
                   @ [CHR 0x27] @ ''-'' @ [CHR 0x27] @ '' or '' @ [CHR 0x27] @ ''_'' @ [CHR 0x27]))
                else Inr ()))"

definition schema_id_parse :: "string \<Rightarrow> schema_identifier_error + schema_id" where
  "schema_id_parse value = and_then (validate_schema_id value) (\<lambda>_. Inr (SchemaId value))"

text \<open>\<open>SchemaVersion::new\<close>: \<open>NonZeroU32::new\<close>, \<open>None\<close> for the \<open>SchemaVersionError\<close>.\<close>

definition schema_version_new :: "u32 \<Rightarrow> schema_version option" where
  "schema_version_new value = (if value = 0 then None else Some (SchemaVersion value))"

definition schema_key_from_str :: "string \<Rightarrow> schema_key_parse_error + schema_key" where
  "schema_key_from_str value =
     (case rsplit_once (CHR ''@'') value of
        None \<Rightarrow> Inl MissingVersion
      | Some (ident, version) \<Rightarrow>
          and_then (map_err Identifier (schema_id_parse ident)) (\<lambda>ident.
          and_then (ok_or (Version version) (parse_u32 version)) (\<lambda>parsed.
          and_then (ok_or (Version version) (schema_version_new parsed)) (\<lambda>ver.
          Inr (SchemaKey ident ver)))))"

definition schema_key_display :: "schema_key \<Rightarrow> string" where
  "schema_key_display k =
     schema_id_text (key_id k) @ ''@'' @ show_u32 (version_number (key_version k))"

text \<open>
  The keys the parsers can produce. Deserialisation by \<open>serde\<close> builds a \<open>SchemaId\<close> without
  \<open>parse\<close>, so the type alone does not imply it.
\<close>

definition canonical_key :: "schema_key \<Rightarrow> bool" where
  "canonical_key k \<longleftrightarrow>
     validate_schema_id (schema_id_text (key_id k)) = Inr () \<and> version_number (key_version k) \<noteq> 0"

section \<open>Properties of the parser\<close>

lemma schema_segment_no_at: "is_schema_segment s \<Longrightarrow> CHR ''@'' \<notin> set s"
  by (cases s) (auto simp: is_schema_segment_def list_all_iff is_ascii_lowercase_def is_ascii_digit_def)

lemma validate_schema_id_segments:
  "validate_schema_id v = Inr () \<Longrightarrow> \<forall>s \<in> set (split_on (CHR ''.'') v). is_schema_segment s"
  by (auto simp: validate_schema_id_def list_all_iff split: if_splits list.splits)

lemma validate_schema_id_no_at: "validate_schema_id v = Inr () \<Longrightarrow> CHR ''@'' \<notin> set v"
  using set_split_on [of "CHR ''@''" v "CHR ''.''"] validate_schema_id_segments schema_segment_no_at
  by fastforce

lemma schema_id_parse_Inr:
  "schema_id_parse v = Inr i \<longleftrightarrow> validate_schema_id v = Inr () \<and> i = SchemaId v"
  by (auto simp: schema_id_parse_def result_simps)

lemma schema_key_from_str_canonical: "schema_key_from_str s = Inr k \<Longrightarrow> canonical_key k"
  by (auto simp: schema_key_from_str_def canonical_key_def schema_id_parse_Inr
      schema_version_new_def result_simps split: option.splits if_splits)

text \<open>
  C34. The text form of a schema key is a faithful name: parsing what \<open>Display\<close> prints gives the
  key back exactly when the key is canonical.
\<close>

theorem schema_key_display_parse:
  "schema_key_from_str (schema_key_display k) = Inr k \<longleftrightarrow> canonical_key k"
proof
  assume "canonical_key k"
  moreover obtain i v where k: "k = SchemaKey (SchemaId i) (SchemaVersion v)"
    by (metis schema_id.exhaust schema_key.exhaust schema_version.exhaust)
  ultimately have "validate_schema_id i = Inr ()" "v \<noteq> 0" by (simp_all add: canonical_key_def)
  then show "schema_key_from_str (schema_key_display k) = Inr k"
    by (simp add: k schema_key_from_str_def schema_key_display_def rsplit_once_append
        show_u32_no_at parse_show_u32 schema_version_new_def schema_id_parse_def)
qed (rule schema_key_from_str_canonical)

end
