(* ===== verification/Json.thy ===== *)
theory Json
  imports Schema_Keys "HOL-Library.Multiset"
begin

text \<open>
  JSON values (\<open>serde_json::Value\<close>) and the canonical form that the storage component hashes
  (\<open>canonical_json\<close> of \<open>crates/storage/src/sqlite/commit.rs\<close>). An object holds its entries in
  iteration order; the keys of a \<open>serde_json::Map\<close> are distinct.
\<close>

datatype json_number = PosInt u64 | NegInt int | Float u64

datatype json =
    JNull
  | JBool bool
  | JNumber json_number
  | JString string
  | JArray "json list"
  | JObject "(string \<times> json) list"

lemma json_entry_size [termination_simp]:
  "(k, v) \<in> set kvs \<Longrightarrow> size v < Suc (size_list (size_prod (\<lambda>_. 0) size) kvs)"
  by (induction kvs) (auto simp: less_Suc_eq_le trans_le_add2 le_SucI)

text \<open>
  \<open>canonical_json\<close>: arrays elementwise, objects with their entries sorted by key (\<open>sort_by\<close> is
  stable, as \<open>sort_key\<close> is) and reinserted in that order, scalars unchanged.
\<close>

function canonical_json :: "json \<Rightarrow> json" where
  "canonical_json (JArray values) = JArray (map canonical_json values)"
| "canonical_json (JObject entries) =
     JObject (map (\<lambda>(k, v). (k, canonical_json v)) (sort_key fst entries))"
| "canonical_json JNull = JNull"
| "canonical_json (JBool b) = JBool b"
| "canonical_json (JNumber n) = JNumber n"
| "canonical_json (JString s) = JString s"
  by pat_completeness auto
termination
  by (relation "measure size") (auto simp: json_entry_size less_Suc_eq_le size_list_estimation')

text \<open>The invariant of \<open>serde_json::Map\<close>, at every level of a value.\<close>

function json_wf :: "json \<Rightarrow> bool" where
  "json_wf (JArray values) = list_all json_wf values"
| "json_wf (JObject entries) =
     (distinct (map fst entries) \<and> list_all (\<lambda>(k, v). json_wf v) entries)"
| "json_wf JNull = True"
| "json_wf (JBool b) = True"
| "json_wf (JNumber n) = True"
| "json_wf (JString s) = True"
  by pat_completeness auto
termination
  by (relation "measure size") (auto simp: json_entry_size less_Suc_eq_le size_list_estimation')

text \<open>Two values are the same document when they differ only in the order of object entries.\<close>

inductive json_same :: "json \<Rightarrow> json \<Rightarrow> bool" where
  null: "json_same JNull JNull"
| bool: "json_same (JBool b) (JBool b)"
| number: "json_same (JNumber n) (JNumber n)"
| string: "json_same (JString s) (JString s)"
| array: "list_all2 json_same xs ys \<Longrightarrow> json_same (JArray xs) (JArray ys)"
| object: "mset es = mset es' \<Longrightarrow>
    list_all2 (\<lambda>a b. fst a = fst b \<and> json_same (snd a) (snd b)) es' fs \<Longrightarrow>
    json_same (JObject es) (JObject fs)"
  monos list_all2_mono

section \<open>Canonical form decides sameness\<close>

lemma sort_key_unique:
  assumes "distinct (map fst es)" and "mset es = mset fs"
  shows "sort_key fst es = sort_key fst fs"
  using assms by (intro sort_key_inj_key_eq) (auto simp: distinct_map)

lemma insort_key_map: "(\<And>x. fst (g x) = fst x) \<Longrightarrow>
    insort_key fst (g x) (map g xs) = map g (insort_key fst x xs)"
  by (induction xs) auto

lemma sort_key_map: "(\<And>x. fst (g x) = fst x) \<Longrightarrow> sort_key fst (map g xs) = map g (sort_key fst xs)"
  by (induction xs) (auto simp: insort_key_map)

abbreviation canonical_entry :: "string \<times> json \<Rightarrow> string \<times> json" where
  "canonical_entry \<equiv> \<lambda>(k, v). (k, canonical_json v)"

lemma canonical_object:
  "canonical_json (JObject es) = JObject (sort_key fst (map canonical_entry es))"
  by (subst sort_key_map) auto

lemma json_same_canonical: "json_same a b \<Longrightarrow> json_wf a \<Longrightarrow> canonical_json a = canonical_json b"
proof (induction rule: json_same.induct)
  case (array xs ys)
  then have "list_all2 (\<lambda>x y. canonical_json x = canonical_json y) xs ys"
    by (auto simp: list_all2_conv_all_nth list_all_iff)
  then show ?case by (auto simp: list_all2_conv_all_nth intro: nth_equalityI)
next
  case (object es es' fs)
  have wf': "\<forall>e \<in> set es'. json_wf (snd e)"
    using object.prems mset_eq_setD [OF object.hyps] by (auto simp: list_all_iff)
  have "list_all2 (\<lambda>a b. canonical_entry a = canonical_entry b) es' fs"
    using object.IH wf' by (auto simp: list_all2_conv_all_nth split_beta)
  then have eq: "map canonical_entry es' = map canonical_entry fs"
    by (auto simp: list_all2_conv_all_nth intro: nth_equalityI)
  have "sort_key fst es = sort_key fst es'"
    using object.prems object.hyps by (intro sort_key_unique) auto
  then have "sort_key fst (map canonical_entry es) = sort_key fst (map canonical_entry es')"
    by (simp add: sort_key_map split_beta)
  with eq show ?case by (simp only: canonical_object)
qed simp_all

lemma canonical_json_same: "canonical_json a = canonical_json b \<Longrightarrow> json_same a b"
proof (induction a arbitrary: b rule: canonical_json.induct)
  case (1 xs)
  from 1(2) obtain ys where b: "b = JArray ys" by (cases b) auto
  with 1 have "list_all2 json_same xs ys"
    by (auto simp: list_all2_conv_all_nth list_eq_iff_nth_eq)
  with b show ?case by (simp add: json_same.array)
next
  case (2 es)
  from 2(2) obtain fs where b: "b = JObject fs" by (cases b) auto
  with 2 have eq: "map canonical_entry (sort_key fst es) = map canonical_entry (sort_key fst fs)"
    by simp
  have "list_all2 (\<lambda>b a. fst a = fst b \<and> json_same (snd a) (snd b)) (sort_key fst fs) (sort_key fst es)"
    unfolding list_all2_conv_all_nth
  proof (intro conjI allI impI)
    show len: "length (sort_key fst fs) = length (sort_key fst es)"
      using map_eq_imp_length_eq [OF eq] by simp
    fix i assume "i < length (sort_key fst fs)"
    with len have i: "i < length (sort_key fst es)" by simp
    have e: "canonical_entry (sort_key fst es ! i) = canonical_entry (sort_key fst fs ! i)"
      using arg_cong [OF eq, of "\<lambda>l. l ! i"] i len by (simp only: nth_map)
    obtain k v k' v' where kv: "sort_key fst es ! i = (k, v)" "sort_key fst fs ! i = (k', v')"
      by (metis surj_pair)
    with e have "k = k'" "canonical_json v = canonical_json v'" by auto
    moreover from i have "(k, v) \<in> set (sort_key fst es)" unfolding kv(1) [symmetric] by (rule nth_mem)
    ultimately show "fst (sort_key fst es ! i) = fst (sort_key fst fs ! i)"
      and "json_same (snd (sort_key fst es ! i)) (snd (sort_key fst fs ! i))"
      using "2.IH" [of "(k, v)" k v v'] kv by simp_all
  qed
  then obtain es' where
    "list_all2 (\<lambda>b a. fst a = fst b \<and> json_same (snd a) (snd b)) fs es'" "mset es' = mset es"
    using list_all2_reorder_left_invariance [of _ "sort_key fst fs" "sort_key fst es" fs] by auto
  then show ?case unfolding b
    by (intro json_same.object [of es es']) (auto simp: list_all2_conv_all_nth)
next
  case 3 then show ?case by (cases b) (auto intro: json_same.intros)
next
  case 4 then show ?case by (cases b) (auto intro: json_same.intros)
next
  case 5 then show ?case by (cases b) (auto intro: json_same.intros)
next
  case 6 then show ?case by (cases b) (auto intro: json_same.intros)
qed

text \<open>
  Two values have the same canonical form exactly when they are the same document up to the
  order of object entries, so the bytes the command digest is computed from depend on nothing else.
\<close>

theorem canonical_json_iff_same:
  "json_wf a \<Longrightarrow> canonical_json a = canonical_json b \<longleftrightarrow> json_same a b"
  using json_same_canonical canonical_json_same by blast

text \<open>The hypothesis holds of an object whose entries are out of order.\<close>

lemma canonical_json_iff_same_witness:
  "canonical_json (JObject [(''b'', JNull), (''a'', JBool True)])
     = canonical_json (JObject [(''a'', JBool True), (''b'', JNull)])
   \<longleftrightarrow> json_same (JObject [(''b'', JNull), (''a'', JBool True)])
         (JObject [(''a'', JBool True), (''b'', JNull)])"
  by (rule canonical_json_iff_same) simp

end
