(* ===== verification/World_Model.thy ===== *)
theory World_Model
  imports Json
begin

text \<open>
  The feature-neutral world model (\<open>crates/world/src\<close>): actors and control grants, the schema
  registry, command envelopes, current-state records and mutations, transactions with their
  validation, and the receipts and stored records the storage component returns.
\<close>

section \<open>Actors and control grants (authority.rs)\<close>

datatype actor_ref = ActorPrincipal principal_id | ActorEntity entity_id

text \<open>The \<open>BTreeSet\<close> of an exact scope is its list in iteration order.\<close>

datatype control_scope = AnyCommand | ExactSchemas "schema_key list"

definition btree_set :: "schema_key list \<Rightarrow> schema_key list" where
  "btree_set schemas = sort (remdups schemas)"

record control_grant =
  grant_id :: control_grant_id
  grant_principal :: principal_id
  grant_actor_entity :: entity_id
  grant_scope :: control_scope
  grant_valid_through :: "u64 option"

section \<open>Errors (error.rs)\<close>

datatype world_error =
    SchemaConflict schema_key string string
  | InvalidSchemaDefinition schema_key string
  | SchemaNotRegistered schema_key
  | SchemaKindMismatch schema_key schema_kind schema_kind
  | PayloadValidationFailed schema_key string string
  | EmptyControlScope
  | ControlGrantAlreadyExists control_grant_id
  | ControlGrantNotFound control_grant_id
  | ActorUnauthorized principal_id actor_ref schema_key
  | EmptyTransaction
  | DuplicateEventId world_event_id
  | DuplicateEffectJobId effect_job_id
  | CommandIdConflict command_id
  | WorldEventAlreadyExists world_event_id
  | EffectJobAlreadyExists effect_job_id
  | WorldChangedSinceEvaluation u64 u64
  | StaleWorldPosition u64 u64
  | CommitPositionOverflow
  | EntityAlreadyExists entity_id
  | EntityNotFound entity_id
  | RelationAlreadyExists relation_id
  | RelationNotFound relation_id
  | RelationEndpointNotFound relation_id entity_id
  | FacetTargetNotFound

definition control_scope_exact :: "schema_key list \<Rightarrow> world_error + control_scope" where
  "control_scope_exact schemas =
     (let schemas = btree_set schemas
      in if schemas = [] then Inl EmptyControlScope else Inr (ExactSchemas schemas))"

definition exact_schemas :: "control_scope \<Rightarrow> schema_key list option" where
  "exact_schemas scope = (case scope of AnyCommand \<Rightarrow> None | ExactSchemas schemas \<Rightarrow> Some schemas)"

definition scope_allows :: "control_scope \<Rightarrow> schema_key \<Rightarrow> bool" where
  "scope_allows scope schema =
     (case scope of AnyCommand \<Rightarrow> True | ExactSchemas schemas \<Rightarrow> schema \<in> set schemas)"

definition grant_allows :: "control_grant \<Rightarrow> schema_key \<Rightarrow> u64 \<Rightarrow> bool" where
  "grant_allows grant schema position \<longleftrightarrow>
     scope_allows (grant_scope grant) schema \<and>
     (case grant_valid_through grant of None \<Rightarrow> True | Some valid_through \<Rightarrow> position \<le> valid_through)"

section \<open>Schema definitions and registry (schema.rs)\<close>

record schema_definition =
  definition_key :: schema_key
  definition_kind :: schema_kind
  definition_owner :: string
  definition_document :: json

datatype schema_registration = Registered | AlreadyPresent

text \<open>
  A compiled validator is a function of the payload: \<open>None\<close> when it accepts, otherwise the
  instance path and the masked reason of the first error. Compilation is the third-party
  \<open>jsonschema::validator_for\<close>, a parameter.
\<close>

type_synonym validator = "json \<Rightarrow> (string \<times> string) option"
type_synonym compiler = "json \<Rightarrow> string + validator"

record schema_registry =
  definitions :: "schema_key \<rightharpoonup> schema_definition"
  validators :: "schema_key \<rightharpoonup> validator"

definition schema_registry_new :: schema_registry where
  "schema_registry_new = \<lparr>definitions = Map.empty, validators = Map.empty\<rparr>"

definition registry_register ::
  "compiler \<Rightarrow> schema_registry \<Rightarrow> schema_definition \<Rightarrow> world_error + schema_registration \<times> schema_registry"
  where
  "registry_register validator_for reg d =
     (case definitions reg (definition_key d) of
        Some existing \<Rightarrow>
          if existing = d then Inr (AlreadyPresent, reg)
          else Inl (SchemaConflict (definition_key d) (definition_owner existing) (definition_owner d))
      | None \<Rightarrow>
          and_then (map_err (InvalidSchemaDefinition (definition_key d))
              (validator_for (definition_document d))) (\<lambda>validator.
          Inr (Registered,
               \<lparr>definitions = (definitions reg)(definition_key d \<mapsto> d),
                validators = (validators reg)(definition_key d \<mapsto> validator)\<rparr>)))"

definition require_kind :: "schema_registry \<Rightarrow> schema_key \<Rightarrow> schema_kind \<Rightarrow> world_error + unit" where
  "require_kind reg key expected =
     and_then (ok_or (SchemaNotRegistered key) (definitions reg key)) (\<lambda>d.
     if definition_kind d \<noteq> expected
     then Inl (SchemaKindMismatch key expected (definition_kind d)) else Inr ())"

definition validate_payload ::
  "schema_registry \<Rightarrow> schema_key \<Rightarrow> schema_kind \<Rightarrow> json \<Rightarrow> world_error + unit" where
  "validate_payload reg key expected payload =
     and_then (require_kind reg key expected) (\<lambda>_.
     and_then (ok_or (SchemaNotRegistered key) (validators reg key)) (\<lambda>validator.
     case validator payload of
       Some (instance_path, reason) \<Rightarrow> Inl (PayloadValidationFailed key instance_path reason)
     | None \<Rightarrow> Inr ()))"

section \<open>Commands (command.rs)\<close>

datatype causation_ref =
    CausedByCommand command_id
  | CausedByEvent world_event_id
  | CausedByEffect effect_job_id

record world_command =
  command_id :: command_id
  command_schema :: schema_key
  command_principal :: principal_id
  command_actor :: actor_ref
  expected_position :: "u64 option"
  command_causation :: "causation_ref option"
  command_correlation :: correlation_id
  command_effective_at :: "unix_time option"
  command_payload :: json

definition command_with_ids ::
  "command_id \<Rightarrow> correlation_id \<Rightarrow> schema_key \<Rightarrow> principal_id \<Rightarrow> actor_ref \<Rightarrow> json \<Rightarrow> world_command" where
  "command_with_ids i correlation schema p actor payload =
     \<lparr>command_id = i, command_schema = schema, command_principal = p,
      command_actor = actor, expected_position = None, command_causation = None,
      command_correlation = correlation, command_effective_at = None, command_payload = payload\<rparr>"

definition expecting_position :: "u64 \<Rightarrow> world_command \<Rightarrow> world_command" where
  "expecting_position position c = c\<lparr>expected_position := Some position\<rparr>"

definition caused_by :: "causation_ref \<Rightarrow> world_command \<Rightarrow> world_command" where
  "caused_by causation c = c\<lparr>command_causation := Some causation\<rparr>"

definition validate_command_schema :: "schema_registry \<Rightarrow> world_command \<Rightarrow> world_error + unit" where
  "validate_command_schema schemas c =
     validate_payload schemas (command_schema c) Command (command_payload c)"

section \<open>Current state (state.rs)\<close>

record entity_record =
  entity_id :: entity_id
  entity_schema :: schema_key

record relation_record =
  relation_id :: relation_id
  relation_schema :: schema_key
  relation_from :: entity_id
  relation_to :: entity_id

datatype facet_target = TargetWorld | TargetEntity entity_id | TargetRelation relation_id

record facet_record =
  facet_target :: facet_target
  facet_schema :: schema_key
  facet_payload :: json

datatype world_mutation =
    CreateEntity entity_record
  | DeleteEntity entity_id
  | CreateRelation relation_record
  | DeleteRelation relation_id
  | SetFacet facet_record
  | RemoveFacet facet_target schema_key
  | GrantControl control_grant
  | RevokeControl control_grant_id

section \<open>Transactions (transaction.rs)\<close>

definition WORLD_MUTATION_FORMAT_VERSION :: u32 where
  "WORLD_MUTATION_FORMAT_VERSION = 1"

record event_draft =
  draft_event_id :: world_event_id
  draft_event_schema :: schema_key
  draft_event_payload :: json

record effect_draft =
  draft_effect_id :: effect_job_id
  draft_effect_schema :: schema_key
  draft_effect_payload :: json

record world_transaction =
  tx_mutations :: "world_mutation list"
  tx_events :: "event_draft list"
  tx_effects :: "effect_draft list"

definition transaction_new :: world_transaction where
  "transaction_new = \<lparr>tx_mutations = [], tx_events = [], tx_effects = []\<rparr>"

definition push_mutation :: "world_mutation \<Rightarrow> world_transaction \<Rightarrow> world_transaction" where
  "push_mutation m t = t\<lparr>tx_mutations := tx_mutations t @ [m]\<rparr>"

definition push_event :: "event_draft \<Rightarrow> world_transaction \<Rightarrow> world_transaction" where
  "push_event e t = t\<lparr>tx_events := tx_events t @ [e]\<rparr>"

definition push_effect :: "effect_draft \<Rightarrow> world_transaction \<Rightarrow> world_transaction" where
  "push_effect e t = t\<lparr>tx_effects := tx_effects t @ [e]\<rparr>"

text \<open>The loop over a \<open>HashSet\<close> of identities: the first repeated one is the error.\<close>

fun reject_duplicates :: "('i \<Rightarrow> world_error) \<Rightarrow> 'i set \<Rightarrow> 'i list \<Rightarrow> world_error + unit" where
  "reject_duplicates err seen [] = Inr ()"
| "reject_duplicates err seen (i # is) =
     (if i \<in> seen then Inl (err i) else reject_duplicates err (insert i seen) is)"

definition validate_mutation_schema :: "schema_registry \<Rightarrow> world_mutation \<Rightarrow> world_error + unit" where
  "validate_mutation_schema schemas m =
     (case m of
        CreateEntity e \<Rightarrow> require_kind schemas (entity_schema e) Entity
      | DeleteEntity _ \<Rightarrow> Inr ()
      | DeleteRelation _ \<Rightarrow> Inr ()
      | CreateRelation r \<Rightarrow> require_kind schemas (relation_schema r) Relation
      | SetFacet f \<Rightarrow> validate_payload schemas (facet_schema f) Facet (facet_payload f)
      | RemoveFacet _ schema \<Rightarrow> require_kind schemas schema Facet
      | GrantControl g \<Rightarrow>
          (case exact_schemas (grant_scope g) of
             None \<Rightarrow> Inr ()
           | Some command_schemas \<Rightarrow>
               if command_schemas = [] then Inl EmptyControlScope
               else for_each (\<lambda>s. require_kind schemas s Command) command_schemas)
      | RevokeControl _ \<Rightarrow> Inr ())"

definition validate_transaction :: "schema_registry \<Rightarrow> world_transaction \<Rightarrow> world_error + unit" where
  "validate_transaction schemas t =
     (if tx_mutations t = [] \<and> tx_events t = [] \<and> tx_effects t = [] then Inl EmptyTransaction
      else
        and_then (reject_duplicates DuplicateEventId {} (map draft_event_id (tx_events t))) (\<lambda>_.
        and_then (reject_duplicates DuplicateEffectJobId {} (map draft_effect_id (tx_effects t))) (\<lambda>_.
        and_then (for_each (validate_mutation_schema schemas) (tx_mutations t)) (\<lambda>_.
        and_then (for_each (\<lambda>e. validate_payload schemas (draft_event_schema e) Event
                                  (draft_event_payload e)) (tx_events t)) (\<lambda>_.
        for_each (\<lambda>e. validate_payload schemas (draft_effect_schema e) Effect
                         (draft_effect_payload e)) (tx_effects t))))))"

datatype commit_disposition = Committed | AlreadyCommitted

record commit_receipt =
  receipt_disposition :: commit_disposition
  receipt_command_id :: command_id
  receipt_position :: u64
  receipt_event_ids :: "world_event_id list"
  receipt_effect_job_ids :: "effect_job_id list"

record stored_mutation =
  stored_mutation_position :: u64
  stored_mutation_index :: u32
  stored_mutation_format :: u32
  stored_mutation :: world_mutation

record command_provenance =
  prov_command_id :: command_id
  prov_command_schema :: schema_key
  prov_principal :: principal_id
  prov_actor :: actor_ref
  prov_causation :: "causation_ref option"
  prov_correlation :: correlation_id
  prov_effective_at :: "unix_time option"
  prov_recorded_at :: unix_time

record stored_event =
  event_world_id :: world_id
  event_id :: world_event_id
  event_position :: u64
  event_index :: u32
  event_provenance :: command_provenance
  event_schema :: schema_key
  event_payload :: json

record stored_job =
  job_world_id :: world_id
  job_id :: effect_job_id
  job_position :: u64
  job_index :: u32
  job_provenance :: command_provenance
  job_schema :: schema_key
  job_payload :: json
  job_attempt_count :: u32

section \<open>Sessions (session.rs)\<close>

definition WORLD_FORMAT_VERSION :: u32 where
  "WORLD_FORMAT_VERSION = 1"

record world_session_state =
  session_world_id :: world_id
  session_commit_position :: u64
  session_schemas :: schema_registry

definition session_new :: "world_id \<Rightarrow> world_session_state" where
  "session_new i = \<lparr>session_world_id = i, session_commit_position = 0,
                    session_schemas = schema_registry_new\<rparr>"

definition session_restore :: "world_id \<Rightarrow> u64 \<Rightarrow> schema_registry \<Rightarrow> world_session_state" where
  "session_restore i position schemas =
     \<lparr>session_world_id = i, session_commit_position = position, session_schemas = schemas\<rparr>"

end
