(* ===== verification/World_Model_Facts.thy ===== *)
theory World_Model_Facts
  imports World_Model
begin

text \<open>
  The contracts of the world model: what the schema registry keeps, and what a validated command
  or transaction is known to satisfy.
\<close>

section \<open>The schema registry\<close>

text \<open>Every definition was compiled, and is stored under its own key.\<close>

definition registry_ok :: "schema_registry \<Rightarrow> bool" where
  "registry_ok reg \<longleftrightarrow>
     (\<forall>k. validators reg k = None \<longleftrightarrow> definitions reg k = None) \<and>
     (\<forall>k d. definitions reg k = Some d \<longrightarrow> definition_key d = k)"

lemma registry_ok_new [simp]: "registry_ok schema_registry_new"
  by (simp add: registry_ok_def schema_registry_new_def)

lemma registry_register_Inr:
  "registry_register cmp reg d = Inr (r, reg') \<longleftrightarrow>
     (definitions reg (definition_key d) = Some d \<and> r = AlreadyPresent \<and> reg' = reg) \<or>
     (definitions reg (definition_key d) = None \<and> r = Registered \<and>
      (\<exists>v. cmp (definition_document d) = Inr v \<and>
           reg' = \<lparr>definitions = (definitions reg)(definition_key d \<mapsto> d),
                   validators = (validators reg)(definition_key d \<mapsto> v)\<rparr>))"
  by (auto simp: registry_register_def result_simps split: option.splits if_splits)

lemma registry_register_ok:
  "registry_ok reg \<Longrightarrow> registry_register cmp reg d = Inr (r, reg') \<Longrightarrow> registry_ok reg'"
proof -
  assume ok: "registry_ok reg" and "registry_register cmp reg d = Inr (r, reg')"
  then consider "reg' = reg" | v where "reg' = \<lparr>definitions = (definitions reg)(definition_key d \<mapsto> d),
      validators = (validators reg)(definition_key d \<mapsto> v)\<rparr>"
    unfolding registry_register_Inr by blast
  then show ?thesis using ok by cases (simp_all add: registry_ok_def)
qed

lemma require_kind_Inr:
  "require_kind reg key kind = Inr u \<longleftrightarrow>
     (\<exists>d. definitions reg key = Some d \<and> definition_kind d = kind)"
  by (auto simp: require_kind_def result_simps split: if_splits)

lemma validate_payload_Inr:
  "validate_payload reg key kind payload = Inr u \<longleftrightarrow>
     (\<exists>d v. definitions reg key = Some d \<and> definition_kind d = kind \<and>
            validators reg key = Some v \<and> v payload = None)"
proof -
  have "(case r of Some (p, s) \<Rightarrow> Inl (PayloadValidationFailed key p s) | None \<Rightarrow> Inr ()) = Inr u \<longleftrightarrow> r = None"
    for r by (auto split: option.splits)
  then show ?thesis by (auto simp: validate_payload_def require_kind_Inr result_simps)
qed

text \<open>
  C27. Registration is append-only and idempotent: it answers \<open>AlreadyPresent\<close> and changes nothing
  exactly for a definition that is registered already, a success leaves every earlier definition as
  it was and makes the new one visible, and the same definition can then be registered again.
\<close>

theorem registry_register_contract:
  "registry_register cmp reg d = Inr (r, reg') \<Longrightarrow>
     definitions reg \<subseteq>\<^sub>m definitions reg' \<and> definitions reg' (definition_key d) = Some d \<and>
     (r = AlreadyPresent \<longleftrightarrow> definitions reg (definition_key d) = Some d) \<and>
     (r = AlreadyPresent \<longrightarrow> reg' = reg) \<and>
     registry_register cmp reg' d = Inr (AlreadyPresent, reg')"
  by (auto simp: registry_register_Inr map_le_def)

definition example_key :: schema_key where
  "example_key = SchemaKey (SchemaId ''example.note'') (SchemaVersion 1)"

definition example_definition :: schema_definition where
  "example_definition = \<lparr>definition_key = example_key, definition_kind = Facet,
     definition_owner = ''example'', definition_document = JBool True\<rparr>"

definition accept_all :: compiler where
  "accept_all _ = Inr (\<lambda>_. None)"

lemma registry_register_contract_witness:
  "\<exists>reg'. registry_register accept_all schema_registry_new example_definition = Inr (Registered, reg')
     \<and> registry_register accept_all reg' example_definition = Inr (AlreadyPresent, reg')"
proof -
  obtain reg' where "registry_register accept_all schema_registry_new example_definition
      = Inr (Registered, reg')"
    by (simp add: registry_register_def schema_registry_new_def accept_all_def)
  with registry_register_contract [OF this] show ?thesis by blast
qed

section \<open>Transaction validation\<close>

lemma reject_duplicates_Inr:
  "reject_duplicates err seen is = Inr u \<longleftrightarrow> distinct is \<and> set is \<inter> seen = {}"
  by (induction "is" arbitrary: seen) auto

text \<open>What a well-typed mutation refers to.\<close>

definition mutation_well_typed :: "schema_registry \<Rightarrow> world_mutation \<Rightarrow> bool" where
  "mutation_well_typed reg m =
     (case m of
        CreateEntity e \<Rightarrow> require_kind reg (entity_schema e) Entity = Inr ()
      | CreateRelation r \<Rightarrow> require_kind reg (relation_schema r) Relation = Inr ()
      | SetFacet f \<Rightarrow> validate_payload reg (facet_schema f) Facet (facet_payload f) = Inr ()
      | RemoveFacet t k \<Rightarrow> require_kind reg k Facet = Inr ()
      | GrantControl g \<Rightarrow>
          (case grant_scope g of
             AnyCommand \<Rightarrow> True
           | ExactSchemas ks \<Rightarrow> ks \<noteq> [] \<and> (\<forall>k \<in> set ks. require_kind reg k Command = Inr ()))
      | _ \<Rightarrow> True)"

lemma validate_mutation_schema_Inr:
  "validate_mutation_schema reg m = Inr u \<longleftrightarrow> mutation_well_typed reg m"
  by (auto simp: validate_mutation_schema_def mutation_well_typed_def exact_schemas_def for_each_Inr
      split: world_mutation.splits control_scope.splits)

lemma validate_transaction_Inr:
  "validate_transaction reg t = Inr () \<longleftrightarrow>
     (tx_mutations t \<noteq> [] \<or> tx_events t \<noteq> [] \<or> tx_effects t \<noteq> []) \<and>
     distinct (map draft_event_id (tx_events t)) \<and> distinct (map draft_effect_id (tx_effects t)) \<and>
     (\<forall>m \<in> set (tx_mutations t). mutation_well_typed reg m) \<and>
     (\<forall>e \<in> set (tx_events t).
        validate_payload reg (draft_event_schema e) Event (draft_event_payload e) = Inr ()) \<and>
     (\<forall>e \<in> set (tx_effects t).
        validate_payload reg (draft_effect_schema e) Effect (draft_effect_payload e) = Inr ())"
  by (auto simp: validate_transaction_def result_simps reject_duplicates_Inr for_each_Inr
      validate_mutation_schema_Inr)

text \<open>
  A transaction validates exactly when it proposes something, repeats no event or effect
  identity, and every schema reference and payload in it is registered, of the right kind and
  accepted by the compiled schema.
\<close>

theorem validate_transaction_iff:
  "validate_transaction reg t = Inr () \<longleftrightarrow>
     (tx_mutations t \<noteq> [] \<or> tx_events t \<noteq> [] \<or> tx_effects t \<noteq> []) \<and>
     distinct (map draft_event_id (tx_events t)) \<and> distinct (map draft_effect_id (tx_effects t)) \<and>
     (\<forall>m \<in> set (tx_mutations t). mutation_well_typed reg m) \<and>
     (\<forall>e \<in> set (tx_events t).
        validate_payload reg (draft_event_schema e) Event (draft_event_payload e) = Inr ()) \<and>
     (\<forall>e \<in> set (tx_effects t).
        validate_payload reg (draft_effect_schema e) Effect (draft_effect_payload e) = Inr ())"
  by (rule validate_transaction_Inr)

definition example_registry :: schema_registry where
  "example_registry = \<lparr>definitions = [example_key \<mapsto> example_definition],
     validators = [example_key \<mapsto> (\<lambda>_. None)]\<rparr>"

definition example_transaction :: world_transaction where
  "example_transaction =
     push_mutation (SetFacet \<lparr>facet_target = TargetWorld, facet_schema = example_key,
       facet_payload = JNull\<rparr>) transaction_new"

lemma validate_transaction_iff_witness: "validate_transaction example_registry example_transaction = Inr ()"
  by (simp add: validate_transaction_iff example_transaction_def push_mutation_def transaction_new_def
      mutation_well_typed_def validate_payload_Inr example_registry_def example_definition_def)

end
