(* ===== verification/Sql_Tables.thy ===== *)
theory Sql_Tables
  imports World_Model_Facts
begin

text \<open>
  The SQLite tables of one world database (the \<open>CREATE TABLE\<close> statements of
  \<open>crates/storage/src/sqlite/migration.rs\<close> at storage schema version 3). A table is the list of
  its rows in insertion order; columns have their SQL storage classes: \<open>BLOB\<close> a byte list,
  \<open>TEXT\<close> a string, \<open>INTEGER\<close> an integer, nullable columns an option. An \<open>INSERT\<close> checks the
  primary keys, \<open>UNIQUE\<close> and \<open>CHECK\<close> constraints and foreign keys the table declares and is
  \<open>None\<close> where SQLite reports a constraint error; \<open>DELETE\<close> follows the declared cascades.
\<close>

section \<open>Rows\<close>

record metadata_row =
  md_world_id :: blob
  md_world_format :: int
  md_position :: int

record schema_row =
  sc_id :: string
  sc_version :: int
  sc_kind :: int
  sc_owner :: string
  sc_definition :: string

record commit_row =
  cm_position :: int
  cm_command_id :: blob
  cm_schema_id :: string
  cm_schema_version :: int
  cm_principal :: blob
  cm_actor_kind :: int
  cm_actor_id :: blob
  cm_causation_kind :: "int option"
  cm_causation_id :: "blob option"
  cm_correlation :: blob
  cm_expected :: "int option"
  cm_effective :: "int option"
  cm_recorded :: int
  cm_payload :: string
  cm_digest :: blob

record entity_row =
  en_id :: blob
  en_schema_id :: string
  en_schema_version :: int
  en_created :: int

record grant_row =
  gr_id :: blob
  gr_principal :: blob
  gr_actor :: blob
  gr_scope_kind :: int
  gr_valid_through :: "int option"
  gr_created :: int

record grant_schema_row =
  gs_grant :: blob
  gs_schema_id :: string
  gs_schema_version :: int

record relation_row =
  rl_id :: blob
  rl_schema_id :: string
  rl_schema_version :: int
  rl_from :: blob
  rl_to :: blob
  rl_created :: int

text \<open>
  The three facet tables have the same columns but for the owner: none for \<open>world_facets\<close>, the
  entity or relation identity for the other two.
\<close>

record 'owner facet_row =
  fc_owner :: 'owner
  fc_schema_id :: string
  fc_schema_version :: int
  fc_payload :: string
  fc_updated :: int

record mutation_row =
  mu_position :: int
  mu_index :: int
  mu_format :: int
  mu_json :: string

record event_row =
  ev_id :: blob
  ev_position :: int
  ev_index :: int
  ev_schema_id :: string
  ev_schema_version :: int
  ev_payload :: string

record job_row =
  jb_id :: blob
  jb_position :: int
  jb_index :: int
  jb_schema_id :: string
  jb_schema_version :: int
  jb_payload :: string
  jb_status :: int
  jb_attempts :: int
  jb_available :: int
  jb_lease :: "int option"
  jb_error :: "string option"

record world_db =
  db_metadata :: "metadata_row option"
  db_schemas :: "schema_row list"
  db_commits :: "commit_row list"
  db_entities :: "entity_row list"
  db_grants :: "grant_row list"
  db_grant_schemas :: "grant_schema_row list"
  db_relations :: "relation_row list"
  db_world_facets :: "unit facet_row list"
  db_entity_facets :: "blob facet_row list"
  db_relation_facets :: "blob facet_row list"
  db_mutations :: "mutation_row list"
  db_events :: "event_row list"
  db_jobs :: "job_row list"

section \<open>Foreign keys\<close>

definition schema_exists :: "world_db \<Rightarrow> string \<Rightarrow> int \<Rightarrow> bool" where
  "schema_exists db i v \<longleftrightarrow> (i, v) \<in> set (map (\<lambda>r. (sc_id r, sc_version r)) (db_schemas db))"

definition commit_exists :: "world_db \<Rightarrow> int \<Rightarrow> bool" where
  "commit_exists db p \<longleftrightarrow> p \<in> set (map cm_position (db_commits db))"

definition entity_row_exists :: "world_db \<Rightarrow> blob \<Rightarrow> bool" where
  "entity_row_exists db i \<longleftrightarrow> i \<in> set (map en_id (db_entities db))"

definition relation_row_exists :: "world_db \<Rightarrow> blob \<Rightarrow> bool" where
  "relation_row_exists db i \<longleftrightarrow> i \<in> set (map rl_id (db_relations db))"

definition grant_row_exists :: "world_db \<Rightarrow> blob \<Rightarrow> bool" where
  "grant_row_exists db i \<longleftrightarrow> i \<in> set (map gr_id (db_grants db))"

section \<open>Inserts\<close>

definition guarded :: "bool \<Rightarrow> 'a \<Rightarrow> 'a option" where
  "guarded c x = (if c then Some x else None)"

definition schema_row_ok :: "schema_row \<Rightarrow> bool" where
  "schema_row_ok r \<longleftrightarrow> sc_version r > 0"

definition insert_schema_row :: "schema_row \<Rightarrow> world_db \<Rightarrow> world_db option" where
  "insert_schema_row r db =
     guarded (schema_row_ok r \<and> \<not> schema_exists db (sc_id r) (sc_version r))
       (db\<lparr>db_schemas := db_schemas db @ [r]\<rparr>)"

definition commit_row_ok :: "commit_row \<Rightarrow> bool" where
  "commit_row_ok r \<longleftrightarrow>
     cm_position r > 0 \<and> length (cm_command_id r) = 16 \<and> cm_schema_version r > 0 \<and>
     length (cm_principal r) = 16 \<and> cm_actor_kind r \<in> {1, 2} \<and> length (cm_actor_id r) = 16 \<and>
     (case cm_causation_kind r of None \<Rightarrow> True | Some k \<Rightarrow> k \<in> {1, 2, 3}) \<and>
     (case cm_causation_id r of None \<Rightarrow> True | Some b \<Rightarrow> length b = 16) \<and>
     length (cm_correlation r) = 16 \<and>
     (case cm_expected r of None \<Rightarrow> True | Some p \<Rightarrow> p \<ge> 0) \<and>
     length (cm_digest r) = 32 \<and>
     (cm_causation_kind r = None \<longleftrightarrow> cm_causation_id r = None)"

definition insert_commit_row :: "commit_row \<Rightarrow> world_db \<Rightarrow> world_db option" where
  "insert_commit_row r db =
     guarded (commit_row_ok r \<and> \<not> commit_exists db (cm_position r) \<and>
              cm_command_id r \<notin> set (map cm_command_id (db_commits db)) \<and>
              schema_exists db (cm_schema_id r) (cm_schema_version r))
       (db\<lparr>db_commits := db_commits db @ [r]\<rparr>)"

definition insert_entity_row :: "entity_row \<Rightarrow> world_db \<Rightarrow> world_db option" where
  "insert_entity_row r db =
     guarded (length (en_id r) = 16 \<and> en_schema_version r > 0 \<and> \<not> entity_row_exists db (en_id r) \<and>
              schema_exists db (en_schema_id r) (en_schema_version r) \<and>
              commit_exists db (en_created r))
       (db\<lparr>db_entities := db_entities db @ [r]\<rparr>)"

definition insert_grant_row :: "grant_row \<Rightarrow> world_db \<Rightarrow> world_db option" where
  "insert_grant_row r db =
     guarded (length (gr_id r) = 16 \<and> length (gr_principal r) = 16 \<and> length (gr_actor r) = 16 \<and>
              gr_scope_kind r \<in> {1, 2} \<and>
              (case gr_valid_through r of None \<Rightarrow> True | Some p \<Rightarrow> p \<ge> 0) \<and>
              \<not> grant_row_exists db (gr_id r) \<and> entity_row_exists db (gr_actor r) \<and>
              commit_exists db (gr_created r))
       (db\<lparr>db_grants := db_grants db @ [r]\<rparr>)"

definition insert_grant_schema_row :: "grant_schema_row \<Rightarrow> world_db \<Rightarrow> world_db option" where
  "insert_grant_schema_row r db =
     guarded (length (gs_grant r) = 16 \<and> gs_schema_version r > 0 \<and>
              r \<notin> set (db_grant_schemas db) \<and> grant_row_exists db (gs_grant r) \<and>
              schema_exists db (gs_schema_id r) (gs_schema_version r))
       (db\<lparr>db_grant_schemas := db_grant_schemas db @ [r]\<rparr>)"

definition insert_relation_row :: "relation_row \<Rightarrow> world_db \<Rightarrow> world_db option" where
  "insert_relation_row r db =
     guarded (length (rl_id r) = 16 \<and> rl_schema_version r > 0 \<and> length (rl_from r) = 16 \<and>
              length (rl_to r) = 16 \<and> \<not> relation_row_exists db (rl_id r) \<and>
              schema_exists db (rl_schema_id r) (rl_schema_version r) \<and>
              entity_row_exists db (rl_from r) \<and> entity_row_exists db (rl_to r) \<and>
              commit_exists db (rl_created r))
       (db\<lparr>db_relations := db_relations db @ [r]\<rparr>)"

text \<open>
  \<open>INSERT ... ON CONFLICT(key) DO UPDATE SET payload_json, updated_position\<close>: the row with the same
  key is updated in place, or the row is appended.
\<close>

definition facet_key :: "('owner, 'm) facet_row_scheme \<Rightarrow> 'owner \<times> string \<times> int" where
  "facet_key r = (fc_owner r, fc_schema_id r, fc_schema_version r)"

definition upsert_facet :: "'owner facet_row \<Rightarrow> 'owner facet_row list \<Rightarrow> 'owner facet_row list" where
  "upsert_facet r rows =
     (if facet_key r \<in> set (map facet_key rows)
      then map (\<lambda>x. if facet_key x = facet_key r
                    then x\<lparr>fc_payload := fc_payload r, fc_updated := fc_updated r\<rparr> else x) rows
      else rows @ [r])"

definition facet_columns_ok :: "world_db \<Rightarrow> 'owner facet_row \<Rightarrow> bool" where
  "facet_columns_ok db r \<longleftrightarrow>
     fc_schema_version r > 0 \<and> schema_exists db (fc_schema_id r) (fc_schema_version r) \<and>
     commit_exists db (fc_updated r)"

definition upsert_world_facet :: "unit facet_row \<Rightarrow> world_db \<Rightarrow> world_db option" where
  "upsert_world_facet r db =
     guarded (facet_columns_ok db r) (db\<lparr>db_world_facets := upsert_facet r (db_world_facets db)\<rparr>)"

definition upsert_entity_facet :: "blob facet_row \<Rightarrow> world_db \<Rightarrow> world_db option" where
  "upsert_entity_facet r db =
     guarded (facet_columns_ok db r \<and> length (fc_owner r) = 16 \<and> entity_row_exists db (fc_owner r))
       (db\<lparr>db_entity_facets := upsert_facet r (db_entity_facets db)\<rparr>)"

definition upsert_relation_facet :: "blob facet_row \<Rightarrow> world_db \<Rightarrow> world_db option" where
  "upsert_relation_facet r db =
     guarded (facet_columns_ok db r \<and> length (fc_owner r) = 16 \<and> relation_row_exists db (fc_owner r))
       (db\<lparr>db_relation_facets := upsert_facet r (db_relation_facets db)\<rparr>)"

definition insert_mutation_row :: "mutation_row \<Rightarrow> world_db \<Rightarrow> world_db option" where
  "insert_mutation_row r db =
     guarded (mu_index r \<ge> 0 \<and> mu_format r > 0 \<and> commit_exists db (mu_position r) \<and>
              (mu_position r, mu_index r) \<notin> set (map (\<lambda>x. (mu_position x, mu_index x)) (db_mutations db)))
       (db\<lparr>db_mutations := db_mutations db @ [r]\<rparr>)"

definition insert_event_row :: "event_row \<Rightarrow> world_db \<Rightarrow> world_db option" where
  "insert_event_row r db =
     guarded (length (ev_id r) = 16 \<and> ev_index r \<ge> 0 \<and> ev_schema_version r > 0 \<and>
              ev_id r \<notin> set (map ev_id (db_events db)) \<and>
              (ev_position r, ev_index r) \<notin> set (map (\<lambda>x. (ev_position x, ev_index x)) (db_events db)) \<and>
              commit_exists db (ev_position r) \<and>
              schema_exists db (ev_schema_id r) (ev_schema_version r))
       (db\<lparr>db_events := db_events db @ [r]\<rparr>)"

definition job_row_ok :: "job_row \<Rightarrow> bool" where
  "job_row_ok r \<longleftrightarrow>
     length (jb_id r) = 16 \<and> jb_index r \<ge> 0 \<and> jb_schema_version r > 0 \<and>
     jb_status r \<in> {0, 1, 2, 3} \<and> jb_attempts r \<ge> 0 \<and> (jb_status r = 1 \<longleftrightarrow> jb_lease r \<noteq> None)"

definition insert_job_row :: "job_row \<Rightarrow> world_db \<Rightarrow> world_db option" where
  "insert_job_row r db =
     guarded (job_row_ok r \<and> jb_id r \<notin> set (map jb_id (db_jobs db)) \<and>
              (jb_position r, jb_index r) \<notin> set (map (\<lambda>x. (jb_position x, jb_index x)) (db_jobs db)) \<and>
              commit_exists db (jb_position r) \<and>
              schema_exists db (jb_schema_id r) (jb_schema_version r))
       (db\<lparr>db_jobs := db_jobs db @ [r]\<rparr>)"

section \<open>Deletes with their cascades\<close>

text \<open>A deleted relation takes its facets along; the other cascades start from an entity.\<close>

definition delete_relations :: "(relation_row \<Rightarrow> bool) \<Rightarrow> world_db \<Rightarrow> world_db" where
  "delete_relations P db =
     db\<lparr>db_relations := filter (\<lambda>r. \<not> P r) (db_relations db),
        db_relation_facets := filter (\<lambda>f. \<not> (\<exists>r \<in> set (db_relations db). P r \<and> rl_id r = fc_owner f))
          (db_relation_facets db)\<rparr>"

definition delete_grants :: "(grant_row \<Rightarrow> bool) \<Rightarrow> world_db \<Rightarrow> world_db" where
  "delete_grants P db =
     db\<lparr>db_grants := filter (\<lambda>g. \<not> P g) (db_grants db),
        db_grant_schemas := filter (\<lambda>s. \<not> (\<exists>g \<in> set (db_grants db). P g \<and> gr_id g = gs_grant s))
          (db_grant_schemas db)\<rparr>"

definition delete_entity_row :: "blob \<Rightarrow> world_db \<Rightarrow> nat \<times> world_db" where
  "delete_entity_row i db =
     (length (filter (\<lambda>r. en_id r = i) (db_entities db)),
      if entity_row_exists db i
      then delete_grants (\<lambda>g. gr_actor g = i)
             (delete_relations (\<lambda>r. rl_from r = i \<or> rl_to r = i)
               (db\<lparr>db_entities := filter (\<lambda>r. en_id r \<noteq> i) (db_entities db),
                   db_entity_facets := filter (\<lambda>f. fc_owner f \<noteq> i) (db_entity_facets db)\<rparr>))
      else db)"

definition delete_relation_row :: "blob \<Rightarrow> world_db \<Rightarrow> nat \<times> world_db" where
  "delete_relation_row i db =
     (length (filter (\<lambda>r. rl_id r = i) (db_relations db)), delete_relations (\<lambda>r. rl_id r = i) db)"

definition delete_grant_row :: "blob \<Rightarrow> world_db \<Rightarrow> nat \<times> world_db" where
  "delete_grant_row i db =
     (length (filter (\<lambda>g. gr_id g = i) (db_grants db)), delete_grants (\<lambda>g. gr_id g = i) db)"

definition delete_facets :: "('owner \<times> string \<times> int) \<Rightarrow> 'owner facet_row list \<Rightarrow> 'owner facet_row list" where
  "delete_facets k rows = filter (\<lambda>f. facet_key f \<noteq> k) rows"

end
