(* ===== verification/Sql_Codec.thy ===== *)
theory Sql_Codec
  imports Sql_Tables
begin

text \<open>
  Decoding of columns (\<open>crates/storage/src/sqlite/codec.rs\<close>), the storage errors
  (\<open>crates/storage/src/error.rs\<close>), and the third-party code the storage component calls.
\<close>

section \<open>Third-party code\<close>

text \<open>
  What the code calls in \<open>serde_json\<close>, the \<open>serde\<close>-generated coder of \<open>WorldMutation\<close>,
  \<open>jsonschema\<close>, \<open>uuid\<close> and \<open>sha2\<close>: parameters of the model, packed in one record.
\<close>

record externs =
  json_text :: "json \<Rightarrow> string"
  json_parse :: "string \<Rightarrow> json option"
  mutation_text :: "world_mutation \<Rightarrow> string"
  mutation_parse :: "string \<Rightarrow> world_mutation option"
  validator_for :: compiler
  uuid_text :: "uuid \<Rightarrow> string"
  sha256 :: "string \<Rightarrow> 256 word"

text \<open>
  The documented round trip of the coders at one value. It is stated per value because the default
  float parsing of \<open>serde_json\<close> is not exact for every number.
\<close>

definition json_stable :: "externs \<Rightarrow> json \<Rightarrow> bool" where
  "json_stable X v \<longleftrightarrow> json_parse X (json_text X v) = Some v"

definition mutation_stable :: "externs \<Rightarrow> world_mutation \<Rightarrow> bool" where
  "mutation_stable X m \<longleftrightarrow> mutation_parse X (mutation_text X m) = Some m"

section \<open>Storage errors\<close>

datatype storage_error =
    Io
  | Sqlite
  | Json_Error
  | World world_error
  | AlreadyExists string
  | NotFound string
  | InvalidEntry string string
  | Uninitialized
  | UnsupportedStorageSchema u32 u32
  | UnsupportedWorldFormat u32 u32
  | UnsupportedMutationFormat u32 u32
  | CorruptData string
  | IndexOutOfRange string
  | EffectJobNotFound effect_job_id
  | InvalidEffectLease
  | EffectJobClaimLost effect_job_id
  | EffectAttemptOverflow effect_job_id
  | EffectJobTerminal effect_job_id
  | EffectErrorTooLarge nat nat
  | ConnectionUnavailable

abbreviation sql :: "'a option \<Rightarrow> storage_error + 'a" where
  "sql v \<equiv> ok_or Sqlite v"

abbreviation world :: "world_error + 'a \<Rightarrow> storage_error + 'a" where
  "world m \<equiv> map_err World m"

section \<open>Identifiers\<close>

definition fixed_id_bytes :: "blob \<Rightarrow> string \<Rightarrow> storage_error + blob" where
  "fixed_id_bytes bytes label =
     (if length bytes = 16 then Inr bytes else Inl (CorruptData (label @ '' must contain 16 bytes'')))"

definition id_from_blob :: "string \<Rightarrow> blob \<Rightarrow> storage_error + 'tag opaque_id" where
  "id_from_blob label bytes = map_ok from_bytes (fixed_id_bytes bytes label)"

definition world_id_from_blob :: "blob \<Rightarrow> storage_error + world_id" where
  "world_id_from_blob = id_from_blob ''world_id''"
definition entity_id_from_blob :: "blob \<Rightarrow> storage_error + entity_id" where
  "entity_id_from_blob = id_from_blob ''entity_id''"
definition relation_id_from_blob :: "blob \<Rightarrow> storage_error + relation_id" where
  "relation_id_from_blob = id_from_blob ''relation_id''"
definition command_id_from_blob :: "blob \<Rightarrow> storage_error + command_id" where
  "command_id_from_blob = id_from_blob ''command_id''"
definition event_id_from_blob :: "blob \<Rightarrow> storage_error + world_event_id" where
  "event_id_from_blob = id_from_blob ''event_id''"
definition principal_id_from_blob :: "blob \<Rightarrow> storage_error + principal_id" where
  "principal_id_from_blob = id_from_blob ''principal_id''"
definition correlation_id_from_blob :: "blob \<Rightarrow> storage_error + correlation_id" where
  "correlation_id_from_blob = id_from_blob ''correlation_id''"
definition effect_job_id_from_blob :: "blob \<Rightarrow> storage_error + effect_job_id" where
  "effect_job_id_from_blob = id_from_blob ''effect_job_id''"

lemmas id_from_blob_defs = world_id_from_blob_def entity_id_from_blob_def relation_id_from_blob_def
  command_id_from_blob_def event_id_from_blob_def principal_id_from_blob_def
  correlation_id_from_blob_def effect_job_id_from_blob_def

definition digest_bytes :: "256 word \<Rightarrow> blob" where
  "digest_bytes d = be_bytes 32 d"

definition digest_from_blob :: "blob \<Rightarrow> storage_error + 256 word" where
  "digest_from_blob bytes =
     (if length bytes = 32 then Inr (word_rcat bytes)
      else Inl (CorruptData ''command digest must contain 32 bytes''))"

section \<open>Schema keys and kinds\<close>

abbreviation key_text :: "schema_key \<Rightarrow> string" where
  "key_text k \<equiv> schema_id_text (key_id k)"

abbreviation key_int :: "schema_key \<Rightarrow> int" where
  "key_int k \<equiv> uint (version_number (key_version k))"

fun identifier_error_display :: "schema_identifier_error \<Rightarrow> string" where
  "identifier_error_display (SchemaIdentifierError value reason) =
     ''invalid schema identifier '' @ value @ '': '' @ reason"

definition decode_schema_key :: "string \<Rightarrow> int \<Rightarrow> storage_error + schema_key" where
  "decode_schema_key ident version =
     and_then (map_err (\<lambda>e. CorruptData (identifier_error_display e)) (schema_id_parse ident)) (\<lambda>ident.
     and_then (ok_or (CorruptData ''invalid schema version'')
        (Option.bind (u32_try_from version) schema_version_new)) (\<lambda>version.
     Inr (SchemaKey ident version)))"

fun schema_kind_code :: "schema_kind \<Rightarrow> int" where
  "schema_kind_code Entity = 1"
| "schema_kind_code Relation = 2"
| "schema_kind_code Facet = 3"
| "schema_kind_code Command = 4"
| "schema_kind_code Event = 5"
| "schema_kind_code Effect = 6"
| "schema_kind_code Projection = 7"

definition show_int :: "int \<Rightarrow> string" where
  "show_int i = (if i < 0 then ''-'' @ show_nat (nat (- i)) else show_nat (nat i))"

definition schema_kind_from_code :: "int \<Rightarrow> storage_error + schema_kind" where
  "schema_kind_from_code code =
     (if code = 1 then Inr Entity else if code = 2 then Inr Relation else if code = 3 then Inr Facet
      else if code = 4 then Inr Command else if code = 5 then Inr Event else if code = 6 then Inr Effect
      else if code = 7 then Inr Projection else Inl (CorruptData (''unknown schema kind code '' @ show_int code)))"

definition decode_schema ::
  "externs \<Rightarrow> string \<Rightarrow> int \<Rightarrow> int \<Rightarrow> string \<Rightarrow> string \<Rightarrow> storage_error + schema_definition" where
  "decode_schema X ident version kind owner definition_json =
     and_then (decode_schema_key ident version) (\<lambda>key.
     and_then (ok_or Json_Error (json_parse X definition_json)) (\<lambda>document.
     and_then (schema_kind_from_code kind) (\<lambda>kind.
     Inr \<lparr>definition_key = key, definition_kind = kind, definition_owner = owner,
          definition_document = document\<rparr>)))"

section \<open>Loading schemas\<close>

definition register_row :: "externs \<Rightarrow> schema_row \<Rightarrow> schema_registry \<Rightarrow> storage_error + schema_registry" where
  "register_row X r reg =
     and_then (decode_schema X (sc_id r) (sc_version r) (sc_kind r) (sc_owner r) (sc_definition r)) (\<lambda>d.
     map_ok snd (world (registry_register (validator_for X) reg d)))"

text \<open>\<open>SELECT ... ORDER BY schema_id, schema_version\<close>, registering row after row.\<close>

definition load_schema_registry :: "externs \<Rightarrow> world_db \<Rightarrow> storage_error + schema_registry" where
  "load_schema_registry X db =
     fold_result (register_row X) (sort_key (\<lambda>r. (sc_id r, sc_version r)) (db_schemas db)) schema_registry_new"

definition load_schema :: "externs \<Rightarrow> world_db \<Rightarrow> schema_key \<Rightarrow> storage_error + schema_definition option" where
  "load_schema X db key =
     transpose_map
       (\<lambda>r. decode_schema X (key_text key) (key_int key) (sc_kind r) (sc_owner r) (sc_definition r))
       (find (\<lambda>r. sc_id r = key_text key \<and> sc_version r = key_int key) (db_schemas db))"

definition encode_schema :: "externs \<Rightarrow> schema_definition \<Rightarrow> schema_row" where
  "encode_schema X d =
     \<lparr>sc_id = key_text (definition_key d), sc_version = key_int (definition_key d),
      sc_kind = schema_kind_code (definition_kind d), sc_owner = definition_owner d,
      sc_definition = json_text X (definition_document d)\<rparr>"

section \<open>Facts\<close>

lemma id_from_blob_into_bytes [simp]: "id_from_blob l (into_bytes i) = Inr i"
  by (simp add: id_from_blob_def fixed_id_bytes_def)

lemma id_from_blob_Inr:
  "id_from_blob l b = Inr i \<longleftrightarrow> length b = 16 \<and> b = into_bytes i"
  by (auto simp: id_from_blob_def fixed_id_bytes_def result_simps into_from_bytes split: if_splits)

lemma digest_from_bytes [simp]: "digest_from_blob (digest_bytes d) = Inr d"
  by (simp add: digest_from_blob_def digest_bytes_def word_rcat_be_bytes)

lemma length_digest_bytes [simp]: "length (digest_bytes d) = 32"
  by (simp add: digest_bytes_def)

lemma schema_kind_code_decode [simp]: "schema_kind_from_code (schema_kind_code k) = Inr k"
  by (cases k) (simp_all add: schema_kind_from_code_def)

lemma key_columns_inject: "key_text k = key_text k' \<Longrightarrow> key_int k = key_int k' \<Longrightarrow> k = k'"
  by (intro key_rank_inject) (simp add: key_rank_def word_uint_eq_iff)

lemma decode_schema_key_columns [simp]:
  "canonical_key k \<Longrightarrow> decode_schema_key (key_text k) (key_int k) = Inr k"
  by (cases k; cases "key_id k"; cases "key_version k")
    (simp add: decode_schema_key_def schema_id_parse_def canonical_key_def schema_version_new_def)

lemma decode_schema_key_Inr:
  "decode_schema_key i v = Inr k \<longleftrightarrow> canonical_key k \<and> key_text k = i \<and> key_int k = v"
proof
  assume "decode_schema_key i v = Inr k"
  then obtain w where "validate_schema_id i = Inr ()" "u32_try_from v = Some w" "w \<noteq> 0"
    "k = SchemaKey (SchemaId i) (SchemaVersion w)"
    by (auto simp: decode_schema_key_def schema_id_parse_Inr schema_version_new_def result_simps
        bind_eq_Some_conv split: if_splits)
  then show "canonical_key k \<and> key_text k = i \<and> key_int k = v"
    by (simp add: canonical_key_def u32_try_from_Some)
qed (use decode_schema_key_columns in blast)

end
