(* ===== verification/Sql_Query.thy ===== *)
theory Sql_Query
  imports Sql_Codec
begin

text \<open>
  The read side of the storage component (\<open>crates/storage/src/sqlite/query.rs\<close>): single-row
  loads, the authority query, and the ordered, bounded reads of the mutation log, the event log and
  the effect outbox. \<open>ORDER BY\<close> is \<open>sort_key\<close>, \<open>LIMIT\<close> is \<open>take\<close>, the inner joins
  with \<open>world_commits\<close> pair every row with the commits at its position.
\<close>

section \<open>Conversions\<close>

definition MAX_READ_BATCH :: nat where
  "MAX_READ_BATCH = 1024"

definition bounded_limit :: "nat \<Rightarrow> nat" where
  "bounded_limit limit = min limit MAX_READ_BATCH"

definition position_to_sql :: "u64 \<Rightarrow> storage_error + int" where
  "position_to_sql position = ok_or (IndexOutOfRange ''commit_position'') (i64_try_from_u64 position)"

definition position_from_sql :: "int \<Rightarrow> storage_error + u64" where
  "position_from_sql position =
     ok_or (CorruptData ''negative world commit position'') (u64_try_from position)"

definition index_from_sql :: "int \<Rightarrow> string \<Rightarrow> storage_error + u32" where
  "index_from_sql index label = ok_or (CorruptData (''invalid '' @ label)) (u32_try_from index)"

section \<open>Current state\<close>

definition load_entity :: "world_db \<Rightarrow> entity_id \<Rightarrow> storage_error + entity_record option" where
  "load_entity db i =
     transpose_map
       (\<lambda>r. and_then (entity_id_from_blob (en_id r)) (\<lambda>i.
            and_then (decode_schema_key (en_schema_id r) (en_schema_version r)) (\<lambda>k.
            Inr \<lparr>entity_id = i, entity_schema = k\<rparr>)))
       (find (\<lambda>r. en_id r = into_bytes i) (db_entities db))"

definition load_relation :: "world_db \<Rightarrow> relation_id \<Rightarrow> storage_error + relation_record option" where
  "load_relation db i =
     transpose_map
       (\<lambda>r. and_then (relation_id_from_blob (rl_id r)) (\<lambda>i.
            and_then (decode_schema_key (rl_schema_id r) (rl_schema_version r)) (\<lambda>k.
            and_then (entity_id_from_blob (rl_from r)) (\<lambda>f.
            and_then (entity_id_from_blob (rl_to r)) (\<lambda>t.
            Inr \<lparr>relation_id = i, relation_schema = k, relation_from = f, relation_to = t\<rparr>)))))
       (find (\<lambda>r. rl_id r = into_bytes i) (db_relations db))"

definition facet_payload_text :: "world_db \<Rightarrow> facet_target \<Rightarrow> schema_key \<Rightarrow> string option" where
  "facet_payload_text db target k =
     (case target of
        TargetWorld \<Rightarrow> map_option fc_payload
          (find (\<lambda>f. facet_key f = ((), key_text k, key_int k)) (db_world_facets db))
      | TargetEntity i \<Rightarrow> map_option fc_payload
          (find (\<lambda>f. facet_key f = (into_bytes i, key_text k, key_int k)) (db_entity_facets db))
      | TargetRelation i \<Rightarrow> map_option fc_payload
          (find (\<lambda>f. facet_key f = (into_bytes i, key_text k, key_int k)) (db_relation_facets db)))"

definition load_facet ::
  "externs \<Rightarrow> world_db \<Rightarrow> facet_target \<Rightarrow> schema_key \<Rightarrow> storage_error + facet_record option" where
  "load_facet X db target k =
     transpose_map
       (\<lambda>payload. and_then (ok_or Json_Error (json_parse X payload)) (\<lambda>v.
          Inr \<lparr>facet_target = target, facet_schema = k, facet_payload = v\<rparr>))
       (facet_payload_text db target k)"

section \<open>Authority\<close>

definition principal_can_control ::
  "world_db \<Rightarrow> principal_id \<Rightarrow> entity_id \<Rightarrow> schema_key \<Rightarrow> u64 \<Rightarrow> storage_error + bool" where
  "principal_can_control db principal_id actor_entity k position =
     and_then (position_to_sql position) (\<lambda>p.
     Inr (list_ex (\<lambda>g.
        gr_principal g = into_bytes principal_id \<and> gr_actor g = into_bytes actor_entity \<and>
        (case gr_valid_through g of None \<Rightarrow> True | Some v \<Rightarrow> v \<ge> p) \<and>
        (gr_scope_kind g = 1 \<or>
         gr_scope_kind g = 2 \<and>
           list_ex (\<lambda>s. gs_grant s = gr_id g \<and> gs_schema_id s = key_text k \<and>
                        gs_schema_version s = key_int k) (db_grant_schemas db)))
       (db_grants db)))"

section \<open>Mutation log\<close>

definition decode_mutation_row :: "externs \<Rightarrow> mutation_row \<Rightarrow> storage_error + stored_mutation" where
  "decode_mutation_row X r =
     and_then (ok_or (CorruptData ''invalid mutation format version'') (u32_try_from (mu_format r))) (\<lambda>format.
     if format \<noteq> WORLD_MUTATION_FORMAT_VERSION
     then Inl (UnsupportedMutationFormat format WORLD_MUTATION_FORMAT_VERSION)
     else
       and_then (ok_or Json_Error (mutation_parse X (mu_json r))) (\<lambda>m.
       and_then (position_from_sql (mu_position r)) (\<lambda>p.
       and_then (index_from_sql (mu_index r) ''mutation_index'') (\<lambda>i.
       Inr \<lparr>stored_mutation_position = p, stored_mutation_index = i, stored_mutation_format = format,
            stored_mutation = m\<rparr>))))"

definition mutations_after :: "externs \<Rightarrow> world_db \<Rightarrow> u64 \<Rightarrow> nat \<Rightarrow> storage_error + stored_mutation list" where
  "mutations_after X db position limit =
     (let limit = bounded_limit limit
      in if limit = 0 then Inr []
         else and_then (position_to_sql position) (\<lambda>p.
           collect_result (decode_mutation_row X)
             (take limit (sort_key (\<lambda>r. (mu_position r, mu_index r))
               (filter (\<lambda>r. mu_position r > p) (db_mutations db))))))"

section \<open>Provenance\<close>

definition decode_actor :: "commit_row \<Rightarrow> storage_error + actor_ref" where
  "decode_actor r =
     (if cm_actor_kind r = 1 then map_ok ActorPrincipal (principal_id_from_blob (cm_actor_id r))
      else if cm_actor_kind r = 2 then map_ok ActorEntity (entity_id_from_blob (cm_actor_id r))
      else Inl (CorruptData (''unknown actor kind code '' @ show_int (cm_actor_kind r))))"

definition decode_causation :: "commit_row \<Rightarrow> storage_error + causation_ref option" where
  "decode_causation r =
     (case (cm_causation_kind r, cm_causation_id r) of
        (None, None) \<Rightarrow> Inr None
      | (Some code, Some i) \<Rightarrow>
          if code = 1 then map_ok (Some \<circ> CausedByCommand) (command_id_from_blob i)
          else if code = 2 then map_ok (Some \<circ> CausedByEvent) (event_id_from_blob i)
          else if code = 3 then map_ok (Some \<circ> CausedByEffect) (effect_job_id_from_blob i)
          else Inl (CorruptData (''unknown causation kind code '' @ show_int code))
      | _ \<Rightarrow> Inl (CorruptData ''causation kind/id presence mismatch''))"

definition decode_provenance :: "commit_row \<Rightarrow> storage_error + command_provenance" where
  "decode_provenance r =
     and_then (principal_id_from_blob (cm_principal r)) (\<lambda>p.
     and_then (decode_actor r) (\<lambda>actor.
     and_then (decode_causation r) (\<lambda>causation.
     and_then (command_id_from_blob (cm_command_id r)) (\<lambda>c.
     and_then (decode_schema_key (cm_schema_id r) (cm_schema_version r)) (\<lambda>k.
     and_then (correlation_id_from_blob (cm_correlation r)) (\<lambda>correlation.
     Inr \<lparr>prov_command_id = c, prov_command_schema = k, prov_principal = p, prov_actor = actor,
          prov_causation = causation, prov_correlation = correlation,
          prov_effective_at = map_option UnixTimeMillis (cm_effective r),
          prov_recorded_at = UnixTimeMillis (cm_recorded r)\<rparr>))))))"

section \<open>Event log\<close>

text \<open>\<open>world_events e JOIN world_commits c ON c.commit_position = e.commit_position\<close>.\<close>

definition join_events :: "world_db \<Rightarrow> (event_row \<times> commit_row) list" where
  "join_events db =
     concat (map (\<lambda>e. map (Pair e) (filter (\<lambda>c. cm_position c = ev_position e) (db_commits db)))
       (db_events db))"

definition decode_event :: "externs \<Rightarrow> world_id \<Rightarrow> event_row \<times> commit_row \<Rightarrow> storage_error + stored_event" where
  "decode_event X w ec =
     (let e = fst ec in
      and_then (event_id_from_blob (ev_id e)) (\<lambda>i.
      and_then (position_from_sql (ev_position e)) (\<lambda>p.
      and_then (index_from_sql (ev_index e) ''event_index'') (\<lambda>n.
      and_then (decode_provenance (snd ec)) (\<lambda>prov.
      and_then (decode_schema_key (ev_schema_id e) (ev_schema_version e)) (\<lambda>k.
      and_then (ok_or Json_Error (json_parse X (ev_payload e))) (\<lambda>v.
      Inr \<lparr>event_world_id = w, event_id = i, event_position = p, event_index = n,
           event_provenance = prov, event_schema = k, event_payload = v\<rparr>)))))))"

definition events_at_position :: "externs \<Rightarrow> world_db \<Rightarrow> world_id \<Rightarrow> u64 \<Rightarrow> storage_error + stored_event list" where
  "events_at_position X db w position =
     and_then (position_to_sql position) (\<lambda>p.
     collect_result (decode_event X w)
       (sort_key (\<lambda>ec. ev_index (fst ec)) (filter (\<lambda>ec. ev_position (fst ec) = p) (join_events db))))"

definition events_after :: "externs \<Rightarrow> world_db \<Rightarrow> world_id \<Rightarrow> u64 \<Rightarrow> nat \<Rightarrow> storage_error + stored_event list" where
  "events_after X db w position limit =
     (let limit = bounded_limit limit
      in if limit = 0 then Inr []
         else and_then (position_to_sql position) (\<lambda>p.
           collect_result (decode_event X w)
             (take limit (sort_key (\<lambda>ec. (ev_position (fst ec), ev_index (fst ec)))
               (filter (\<lambda>ec. ev_position (fst ec) > p) (join_events db))))))"

section \<open>Effect outbox reads\<close>

definition join_jobs :: "world_db \<Rightarrow> (job_row \<times> commit_row) list" where
  "join_jobs db =
     concat (map (\<lambda>j. map (Pair j) (filter (\<lambda>c. cm_position c = jb_position j) (db_commits db)))
       (db_jobs db))"

definition decode_job :: "externs \<Rightarrow> world_id \<Rightarrow> job_row \<times> commit_row \<Rightarrow> storage_error + stored_job" where
  "decode_job X w jc =
     (let j = fst jc in
      and_then (effect_job_id_from_blob (jb_id j)) (\<lambda>i.
      and_then (position_from_sql (jb_position j)) (\<lambda>p.
      and_then (index_from_sql (jb_index j) ''job_index'') (\<lambda>n.
      and_then (decode_provenance (snd jc)) (\<lambda>prov.
      and_then (decode_schema_key (jb_schema_id j) (jb_schema_version j)) (\<lambda>k.
      and_then (ok_or Json_Error (json_parse X (jb_payload j))) (\<lambda>v.
      and_then (index_from_sql (jb_attempts j) ''attempt_count'') (\<lambda>attempts.
      Inr \<lparr>job_world_id = w, job_id = i, job_position = p, job_index = n, job_provenance = prov,
           job_schema = k, job_payload = v, job_attempt_count = attempts\<rparr>))))))))"

definition effect_job_by_id ::
  "externs \<Rightarrow> world_db \<Rightarrow> world_id \<Rightarrow> effect_job_id \<Rightarrow> storage_error + stored_job option" where
  "effect_job_by_id X db w i =
     transpose_map (decode_job X w) (find (\<lambda>jc. jb_id (fst jc) = into_bytes i) (join_jobs db))"

definition pending_effects :: "externs \<Rightarrow> world_db \<Rightarrow> world_id \<Rightarrow> nat \<Rightarrow> storage_error + stored_job list" where
  "pending_effects X db w limit =
     (let limit = bounded_limit limit
      in if limit = 0 then Inr []
         else collect_result (decode_job X w)
           (take limit (sort_key (\<lambda>jc. (jb_position (fst jc), jb_index (fst jc)))
             (filter (\<lambda>jc. jb_status (fst jc) = 0) (join_jobs db)))))"

end
