(* ===== verification/Sql_Commit.thy ===== *)
theory Sql_Commit
  imports Sql_Query
begin

text \<open>
  The atomic commit (\<open>crates/storage/src/sqlite/commit.rs\<close>): command digests, idempotent receipts,
  authorisation, and the application of a transaction's mutations, events and effects. A function
  that runs inside the SQLite transaction returns the new database or the error; \<open>commit\<close> rolls
  back to the old database on an error, as dropping the \<open>rusqlite::Transaction\<close> does.
\<close>

section \<open>Command digest\<close>

text \<open>The \<open>serde\<close> form of a command: object keys in the order of \<open>serde_json::Map\<close>.\<close>

definition id_value :: "externs \<Rightarrow> 'tag opaque_id \<Rightarrow> json" where
  "id_value X i = JString (uuid_text X (as_uuid i))"

definition option_value :: "('a \<Rightarrow> json) \<Rightarrow> 'a option \<Rightarrow> json" where
  "option_value f v = (case v of None \<Rightarrow> JNull | Some x \<Rightarrow> f x)"

definition u64_value :: "u64 \<Rightarrow> json" where
  "u64_value w = JNumber (PosInt w)"

definition i64_value :: "int \<Rightarrow> json" where
  "i64_value i = JNumber (if i < 0 then NegInt i else PosInt (word_of_int i))"

definition schema_key_value :: "schema_key \<Rightarrow> json" where
  "schema_key_value k =
     JObject [(''id'', JString (key_text k)), (''version'', u64_value (ucast (version_number (key_version k))))]"

definition tagged_id :: "externs \<Rightarrow> string \<Rightarrow> 'tag opaque_id \<Rightarrow> json" where
  "tagged_id X kind i = JObject [(''id'', id_value X i), (''kind'', JString kind)]"

definition actor_value :: "externs \<Rightarrow> actor_ref \<Rightarrow> json" where
  "actor_value X a =
     (case a of ActorPrincipal i \<Rightarrow> tagged_id X ''principal'' i | ActorEntity i \<Rightarrow> tagged_id X ''entity'' i)"

definition causation_value :: "externs \<Rightarrow> causation_ref \<Rightarrow> json" where
  "causation_value X c =
     (case c of
        CausedByCommand i \<Rightarrow> tagged_id X ''command'' i
      | CausedByEvent i \<Rightarrow> tagged_id X ''event'' i
      | CausedByEffect i \<Rightarrow> tagged_id X ''effect'' i)"

definition command_value :: "externs \<Rightarrow> world_command \<Rightarrow> json" where
  "command_value X c =
     JObject [
       (''actor'', actor_value X (command_actor c)),
       (''causation'', option_value (causation_value X) (command_causation c)),
       (''correlation_id'', id_value X (command_correlation c)),
       (''effective_at'', option_value (i64_value \<circ> time_millis) (command_effective_at c)),
       (''expected_position'', option_value u64_value (expected_position c)),
       (''id'', id_value X (command_id c)),
       (''payload'', command_payload c),
       (''principal'', id_value X (command_principal c)),
       (''schema'', schema_key_value (command_schema c))]"

definition command_digest :: "externs \<Rightarrow> world_command \<Rightarrow> 256 word" where
  "command_digest X c = sha256 X (json_text X (canonical_json (command_value X c)))"

section \<open>Receipts of committed commands\<close>

definition event_ids_for_position :: "world_db \<Rightarrow> u64 \<Rightarrow> storage_error + world_event_id list" where
  "event_ids_for_position db position =
     and_then (position_to_sql position) (\<lambda>p.
     collect_result (\<lambda>r. event_id_from_blob (ev_id r))
       (sort_key ev_index (filter (\<lambda>r. ev_position r = p) (db_events db))))"

definition effect_ids_for_position :: "world_db \<Rightarrow> u64 \<Rightarrow> storage_error + effect_job_id list" where
  "effect_ids_for_position db position =
     and_then (position_to_sql position) (\<lambda>p.
     collect_result (\<lambda>r. effect_job_id_from_blob (jb_id r))
       (sort_key jb_index (filter (\<lambda>r. jb_position r = p) (db_jobs db))))"

definition load_existing_receipt ::
  "world_db \<Rightarrow> command_id \<Rightarrow> 256 word \<Rightarrow> storage_error + commit_receipt option" where
  "load_existing_receipt db i digest =
     (case find (\<lambda>r. cm_command_id r = into_bytes i) (db_commits db) of
        None \<Rightarrow> Inr None
      | Some r \<Rightarrow>
          and_then (digest_from_blob (cm_digest r)) (\<lambda>stored_digest.
          if stored_digest \<noteq> digest then Inl (World (CommandIdConflict i))
          else
            and_then (position_from_sql (cm_position r)) (\<lambda>position.
            and_then (event_ids_for_position db position) (\<lambda>event_ids.
            and_then (effect_ids_for_position db position) (\<lambda>effect_job_ids.
            Inr (Some \<lparr>receipt_disposition = AlreadyCommitted, receipt_command_id = i,
                       receipt_position = position, receipt_event_ids = event_ids,
                       receipt_effect_job_ids = effect_job_ids\<rparr>))))))"

definition committed_receipt :: "externs \<Rightarrow> world_db \<Rightarrow> world_command \<Rightarrow> storage_error + commit_receipt option" where
  "committed_receipt X db c = load_existing_receipt db (command_id c) (command_digest X c)"

section \<open>Validation and authority\<close>

definition current_position :: "world_db \<Rightarrow> storage_error + u64" where
  "current_position db = and_then (sql (db_metadata db)) (\<lambda>m. position_from_sql (md_position m))"

definition authorize_command :: "world_db \<Rightarrow> world_command \<Rightarrow> u64 \<Rightarrow> storage_error + unit" where
  "authorize_command db c position =
     (let unauthorized = World (ActorUnauthorized (command_principal c) (command_actor c) (command_schema c))
      in case command_actor c of
           ActorPrincipal actor_principal \<Rightarrow>
             if actor_principal = command_principal c then Inr () else Inl unauthorized
         | ActorEntity actor_entity \<Rightarrow>
             and_then (principal_can_control db (command_principal c) actor_entity (command_schema c) position)
               (\<lambda>allowed. if allowed then Inr () else Inl unauthorized))"

definition check_expected :: "world_command \<Rightarrow> u64 \<Rightarrow> storage_error + unit" where
  "check_expected c position =
     (case expected_position c of
        None \<Rightarrow> Inr ()
      | Some expected \<Rightarrow>
          if expected \<noteq> position then Inl (World (StaleWorldPosition expected position)) else Inr ())"

definition validate_command :: "externs \<Rightarrow> world_db \<Rightarrow> world_command \<Rightarrow> storage_error + u64" where
  "validate_command X db c =
     and_then (load_schema_registry X db) (\<lambda>schemas.
     and_then (world (validate_command_schema schemas c)) (\<lambda>_.
     and_then (current_position db) (\<lambda>position.
     and_then (check_expected c position) (\<lambda>_.
     and_then (authorize_command db c position) (\<lambda>_.
     Inr position)))))"

definition reject_reused_ids :: "world_db \<Rightarrow> world_transaction \<Rightarrow> storage_error + unit" where
  "reject_reused_ids db t =
     and_then (for_each (\<lambda>e. ensure (into_bytes (draft_event_id e) \<notin> set (map ev_id (db_events db)))
                               (World (WorldEventAlreadyExists (draft_event_id e)))) (tx_events t)) (\<lambda>_.
     for_each (\<lambda>e. ensure (into_bytes (draft_effect_id e) \<notin> set (map jb_id (db_jobs db)))
                     (World (EffectJobAlreadyExists (draft_effect_id e)))) (tx_effects t))"

section \<open>Inserting the commit\<close>

text \<open>The host clock relative to the epoch: whether it is before it, and by how many milliseconds.\<close>

datatype clock = AfterEpoch nat | BeforeEpoch nat

fun recorded_at_now :: "clock \<Rightarrow> storage_error + unix_time" where
  "recorded_at_now (AfterEpoch millis) =
     (if millis < 2 ^ 63 then Inr (UnixTimeMillis (int millis)) else Inl (IndexOutOfRange ''recorded_at_ms''))"
| "recorded_at_now (BeforeEpoch millis) =
     (if millis < 2 ^ 63 then Inr (UnixTimeMillis (- int millis)) else Inl (IndexOutOfRange ''recorded_at_ms''))"

fun actor_parts :: "actor_ref \<Rightarrow> int \<times> blob" where
  "actor_parts (ActorPrincipal i) = (1, into_bytes i)"
| "actor_parts (ActorEntity i) = (2, into_bytes i)"

fun causation_parts :: "causation_ref option \<Rightarrow> int option \<times> blob option" where
  "causation_parts None = (None, None)"
| "causation_parts (Some (CausedByCommand i)) = (Some 1, Some (into_bytes i))"
| "causation_parts (Some (CausedByEvent i)) = (Some 2, Some (into_bytes i))"
| "causation_parts (Some (CausedByEffect i)) = (Some 3, Some (into_bytes i))"

definition encode_commit ::
  "externs \<Rightarrow> world_command \<Rightarrow> 256 word \<Rightarrow> int \<Rightarrow> int option \<Rightarrow> unix_time \<Rightarrow> commit_row" where
  "encode_commit X c digest position expected recorded_at =
     \<lparr>cm_position = position, cm_command_id = into_bytes (command_id c),
      cm_schema_id = key_text (command_schema c), cm_schema_version = key_int (command_schema c),
      cm_principal = into_bytes (command_principal c),
      cm_actor_kind = fst (actor_parts (command_actor c)),
      cm_actor_id = snd (actor_parts (command_actor c)),
      cm_causation_kind = fst (causation_parts (command_causation c)),
      cm_causation_id = snd (causation_parts (command_causation c)),
      cm_correlation = into_bytes (command_correlation c),
      cm_expected = expected, cm_effective = map_option time_millis (command_effective_at c),
      cm_recorded = time_millis recorded_at, cm_payload = json_text X (command_payload c),
      cm_digest = digest_bytes digest\<rparr>"

definition insert_commit ::
  "externs \<Rightarrow> world_command \<Rightarrow> 256 word \<Rightarrow> int \<Rightarrow> clock \<Rightarrow> world_db \<Rightarrow> storage_error + world_db" where
  "insert_commit X c digest position now db =
     and_then (transpose_map position_to_sql (expected_position c)) (\<lambda>expected.
     and_then (recorded_at_now now) (\<lambda>recorded_at.
     sql (insert_commit_row (encode_commit X c digest position expected recorded_at) db)))"

section \<open>Applying mutations\<close>

definition entity_exists :: "world_db \<Rightarrow> entity_id \<Rightarrow> bool" where
  "entity_exists db i = entity_row_exists db (into_bytes i)"

definition relation_exists :: "world_db \<Rightarrow> relation_id \<Rightarrow> bool" where
  "relation_exists db i = relation_row_exists db (into_bytes i)"

definition ensure_relation_endpoint :: "world_db \<Rightarrow> relation_id \<Rightarrow> entity_id \<Rightarrow> storage_error + unit" where
  "ensure_relation_endpoint db r i =
     (if entity_exists db i then Inr () else Inl (World (RelationEndpointNotFound r i)))"

definition facet_row_of :: "externs \<Rightarrow> 'owner \<Rightarrow> facet_record \<Rightarrow> int \<Rightarrow> 'owner facet_row" where
  "facet_row_of X owner f position =
     \<lparr>fc_owner = owner, fc_schema_id = key_text (facet_schema f),
      fc_schema_version = key_int (facet_schema f), fc_payload = json_text X (facet_payload f),
      fc_updated = position\<rparr>"

definition set_facet :: "externs \<Rightarrow> facet_record \<Rightarrow> int \<Rightarrow> world_db \<Rightarrow> storage_error + world_db" where
  "set_facet X f position db =
     (case facet_target f of
        TargetWorld \<Rightarrow> sql (upsert_world_facet (facet_row_of X () f position) db)
      | TargetEntity i \<Rightarrow>
          if \<not> entity_exists db i then Inl (World FacetTargetNotFound)
          else sql (upsert_entity_facet (facet_row_of X (into_bytes i) f position) db)
      | TargetRelation i \<Rightarrow>
          if \<not> relation_exists db i then Inl (World FacetTargetNotFound)
          else sql (upsert_relation_facet (facet_row_of X (into_bytes i) f position) db))"

definition remove_facet :: "facet_target \<Rightarrow> schema_key \<Rightarrow> world_db \<Rightarrow> storage_error + world_db" where
  "remove_facet target k db =
     (case target of
        TargetWorld \<Rightarrow>
          Inr (db\<lparr>db_world_facets := delete_facets ((), key_text k, key_int k) (db_world_facets db)\<rparr>)
      | TargetEntity i \<Rightarrow>
          if \<not> entity_exists db i then Inl (World FacetTargetNotFound)
          else Inr (db\<lparr>db_entity_facets :=
                 delete_facets (into_bytes i, key_text k, key_int k) (db_entity_facets db)\<rparr>)
      | TargetRelation i \<Rightarrow>
          if \<not> relation_exists db i then Inl (World FacetTargetNotFound)
          else Inr (db\<lparr>db_relation_facets :=
                 delete_facets (into_bytes i, key_text k, key_int k) (db_relation_facets db)\<rparr>))"

definition insert_grant_schemas :: "control_grant_id \<Rightarrow> schema_key list \<Rightarrow> world_db \<Rightarrow> storage_error + world_db" where
  "insert_grant_schemas g schemas db =
     fold_result (\<lambda>k db. sql (insert_grant_schema_row
       \<lparr>gs_grant = into_bytes g, gs_schema_id = key_text k, gs_schema_version = key_int k\<rparr> db)) schemas db"

definition grant_control :: "control_grant \<Rightarrow> int \<Rightarrow> world_db \<Rightarrow> storage_error + world_db" where
  "grant_control g position db =
     (if \<not> entity_exists db (grant_actor_entity g) then Inl (World (EntityNotFound (grant_actor_entity g)))
      else if grant_row_exists db (into_bytes (grant_id g))
        then Inl (World (ControlGrantAlreadyExists (grant_id g)))
      else
        and_then (transpose_map position_to_sql (grant_valid_through g)) (\<lambda>valid_through.
        and_then (sql (insert_grant_row
          \<lparr>gr_id = into_bytes (grant_id g), gr_principal = into_bytes (grant_principal g),
           gr_actor = into_bytes (grant_actor_entity g),
           gr_scope_kind = (case grant_scope g of AnyCommand \<Rightarrow> 1 | ExactSchemas _ \<Rightarrow> 2),
           gr_valid_through = valid_through, gr_created = position\<rparr> db)) (\<lambda>db.
        case exact_schemas (grant_scope g) of
          None \<Rightarrow> Inr db
        | Some schemas \<Rightarrow> insert_grant_schemas (grant_id g) schemas db)))"

definition apply_mutation :: "externs \<Rightarrow> world_mutation \<Rightarrow> int \<Rightarrow> world_db \<Rightarrow> storage_error + world_db" where
  "apply_mutation X m position db =
     (case m of
        CreateEntity e \<Rightarrow>
          if entity_exists db (entity_id e) then Inl (World (EntityAlreadyExists (entity_id e)))
          else sql (insert_entity_row
            \<lparr>en_id = into_bytes (entity_id e), en_schema_id = key_text (entity_schema e),
             en_schema_version = key_int (entity_schema e), en_created = position\<rparr> db)
      | DeleteEntity i \<Rightarrow>
          (let (changed, db') = delete_entity_row (into_bytes i) db
           in if changed = 0 then Inl (World (EntityNotFound i)) else Inr db')
      | CreateRelation r \<Rightarrow>
          if relation_exists db (relation_id r) then Inl (World (RelationAlreadyExists (relation_id r)))
          else
            and_then (ensure_relation_endpoint db (relation_id r) (relation_from r)) (\<lambda>_.
            and_then (ensure_relation_endpoint db (relation_id r) (relation_to r)) (\<lambda>_.
            sql (insert_relation_row
              \<lparr>rl_id = into_bytes (relation_id r), rl_schema_id = key_text (relation_schema r),
               rl_schema_version = key_int (relation_schema r),
               rl_from = into_bytes (relation_from r), rl_to = into_bytes (relation_to r),
               rl_created = position\<rparr> db)))
      | DeleteRelation i \<Rightarrow>
          (let (changed, db') = delete_relation_row (into_bytes i) db
           in if changed = 0 then Inl (World (RelationNotFound i)) else Inr db')
      | SetFacet f \<Rightarrow> set_facet X f position db
      | RemoveFacet target k \<Rightarrow> remove_facet target k db
      | GrantControl g \<Rightarrow> grant_control g position db
      | RevokeControl i \<Rightarrow>
          (let (changed, db') = delete_grant_row (into_bytes i) db
           in if changed = 0 then Inl (World (ControlGrantNotFound i)) else Inr db'))"

section \<open>The commit transaction\<close>

definition index_to_sql :: "nat \<Rightarrow> string \<Rightarrow> storage_error + int" where
  "index_to_sql index label = (if index < 2 ^ 32 then Inr (int index) else Inl (IndexOutOfRange label))"

definition commit_mutation :: "externs \<Rightarrow> int \<Rightarrow> nat \<times> world_mutation \<Rightarrow> world_db \<Rightarrow> storage_error + world_db" where
  "commit_mutation X position im db =
     and_then (index_to_sql (fst im) ''mutation_index'') (\<lambda>index.
     and_then (sql (insert_mutation_row
        \<lparr>mu_position = position, mu_index = index, mu_format = uint WORLD_MUTATION_FORMAT_VERSION,
         mu_json = mutation_text X (snd im)\<rparr> db)) (\<lambda>db.
     apply_mutation X (snd im) position db))"

definition commit_event :: "externs \<Rightarrow> int \<Rightarrow> nat \<times> event_draft \<Rightarrow> world_db \<Rightarrow> storage_error + world_db" where
  "commit_event X position ie db =
     and_then (index_to_sql (fst ie) ''event_index'') (\<lambda>index.
     sql (insert_event_row
       \<lparr>ev_id = into_bytes (draft_event_id (snd ie)), ev_position = position, ev_index = index,
        ev_schema_id = key_text (draft_event_schema (snd ie)),
        ev_schema_version = key_int (draft_event_schema (snd ie)),
        ev_payload = json_text X (draft_event_payload (snd ie))\<rparr> db))"

text \<open>The columns the \<open>INSERT\<close> leaves out take their declared defaults: pending, no attempt, due at 0.\<close>

definition commit_effect :: "externs \<Rightarrow> int \<Rightarrow> nat \<times> effect_draft \<Rightarrow> world_db \<Rightarrow> storage_error + world_db" where
  "commit_effect X position ie db =
     and_then (index_to_sql (fst ie) ''job_index'') (\<lambda>index.
     sql (insert_job_row
       \<lparr>jb_id = into_bytes (draft_effect_id (snd ie)), jb_position = position, jb_index = index,
        jb_schema_id = key_text (draft_effect_schema (snd ie)),
        jb_schema_version = key_int (draft_effect_schema (snd ie)),
        jb_payload = json_text X (draft_effect_payload (snd ie)),
        jb_status = 0, jb_attempts = 0, jb_available = 0, jb_lease = None, jb_error = None\<rparr> db))"

definition advance_position :: "int \<Rightarrow> int \<Rightarrow> world_db \<Rightarrow> storage_error + world_db" where
  "advance_position new old db =
     (case db_metadata db of
        Some m \<Rightarrow>
          if md_position m = old then Inr (db\<lparr>db_metadata := Some (m\<lparr>md_position := new\<rparr>)\<rparr>)
          else Inl (CorruptData ''world metadata commit position changed inside serialized transaction'')
      | None \<Rightarrow> Inl (CorruptData ''world metadata commit position changed inside serialized transaction''))"

text \<open>Everything after the checks: the rows of the new commit, in the order the code writes them.\<close>

definition write_commit ::
  "externs \<Rightarrow> world_command \<Rightarrow> world_transaction \<Rightarrow> u64 \<Rightarrow> clock \<Rightarrow> world_db \<Rightarrow> storage_error + commit_receipt \<times> world_db"
  where
  "write_commit X c t current now db =
     and_then (ok_or (World CommitPositionOverflow) (checked_add_u64 current 1)) (\<lambda>position.
     and_then (position_to_sql position) (\<lambda>p.
     and_then (insert_commit X c (command_digest X c) p now db) (\<lambda>db.
     and_then (fold_result (commit_mutation X p) (enumerate 0 (tx_mutations t)) db) (\<lambda>db.
     and_then (fold_result (commit_event X p) (enumerate 0 (tx_events t)) db) (\<lambda>db.
     and_then (fold_result (commit_effect X p) (enumerate 0 (tx_effects t)) db) (\<lambda>db.
     and_then (position_to_sql current) (\<lambda>old.
     and_then (advance_position p old db) (\<lambda>db.
     Inr (\<lparr>receipt_disposition = Committed, receipt_command_id = command_id c,
           receipt_position = position,
           receipt_event_ids = map draft_event_id (tx_events t),
           receipt_effect_job_ids = map draft_effect_id (tx_effects t)\<rparr>, db)))))))))"

definition check_commit ::
  "externs \<Rightarrow> world_command \<Rightarrow> world_transaction \<Rightarrow> u64 \<Rightarrow> world_db \<Rightarrow> storage_error + u64" where
  "check_commit X c t evaluated db =
     and_then (load_schema_registry X db) (\<lambda>schemas.
     and_then (world (validate_command_schema schemas c)) (\<lambda>_.
     and_then (world (validate_transaction schemas t)) (\<lambda>_.
     and_then (reject_reused_ids db t) (\<lambda>_.
     and_then (current_position db) (\<lambda>current.
     and_then (if current \<noteq> evaluated then Inl (World (WorldChangedSinceEvaluation evaluated current))
               else Inr ()) (\<lambda>_.
     and_then (check_expected c current) (\<lambda>_.
     and_then (authorize_command db c current) (\<lambda>_.
     Inr current))))))))"

definition commit_transaction ::
  "externs \<Rightarrow> world_command \<Rightarrow> world_transaction \<Rightarrow> u64 \<Rightarrow> clock \<Rightarrow> world_db \<Rightarrow> storage_error + commit_receipt \<times> world_db"
  where
  "commit_transaction X c t evaluated now db =
     and_then (load_existing_receipt db (command_id c) (command_digest X c)) (\<lambda>existing.
     case existing of
       Some receipt \<Rightarrow> Inr (receipt, db)
     | None \<Rightarrow>
         and_then (check_commit X c t evaluated db) (\<lambda>current.
         write_commit X c t current now db))"

text \<open>A failed transaction is dropped and rolled back.\<close>

definition commit ::
  "externs \<Rightarrow> world_command \<Rightarrow> world_transaction \<Rightarrow> u64 \<Rightarrow> clock \<Rightarrow> world_db \<Rightarrow> (storage_error + commit_receipt) \<times> world_db"
  where
  "commit X c t evaluated now db =
     (case commit_transaction X c t evaluated now db of
        Inl e \<Rightarrow> (Inl e, db)
      | Inr (receipt, db') \<Rightarrow> (Inr receipt, db'))"

end
