(* ===== verification/Sql_Invariant.thy ===== *)
theory Sql_Invariant
  imports Sql_Commit
begin

text \<open>
  The well-formedness of a world database, table by table, and its preservation by every statement
  of the commit path: keys stay unique, every reference resolves (the cascades remove exactly the
  rows that would dangle), and the commits are numbered without gaps.
\<close>

named_theorems wf_defs

section \<open>Well-formed tables\<close>

definition schemas_wf :: "externs \<Rightarrow> world_db \<Rightarrow> bool" where
  "schemas_wf X db \<longleftrightarrow>
     distinct (map (\<lambda>r. (sc_id r, sc_version r)) (db_schemas db)) \<and>
     (\<forall>r \<in> set (db_schemas db). \<exists>d v.
        decode_schema X (sc_id r) (sc_version r) (sc_kind r) (sc_owner r) (sc_definition r) = Inr d \<and>
        validator_for X (definition_document d) = Inr v)"

definition commits_wf :: "nat \<Rightarrow> world_db \<Rightarrow> bool" where [wf_defs]:
  "commits_wf n db \<longleftrightarrow>
     map cm_position (db_commits db) = map int [1..<Suc n] \<and>
     distinct (map cm_command_id (db_commits db)) \<and>
     (\<forall>r \<in> set (db_commits db). commit_row_ok r \<and> schema_exists db (cm_schema_id r) (cm_schema_version r))"

definition entities_wf :: "world_db \<Rightarrow> bool" where [wf_defs]:
  "entities_wf db \<longleftrightarrow>
     distinct (map en_id (db_entities db)) \<and>
     (\<forall>r \<in> set (db_entities db). length (en_id r) = 16 \<and>
        schema_exists db (en_schema_id r) (en_schema_version r))"

definition relations_wf :: "world_db \<Rightarrow> bool" where [wf_defs]:
  "relations_wf db \<longleftrightarrow>
     distinct (map rl_id (db_relations db)) \<and>
     (\<forall>r \<in> set (db_relations db). length (rl_id r) = 16 \<and>
        schema_exists db (rl_schema_id r) (rl_schema_version r) \<and>
        length (rl_from r) = 16 \<and> length (rl_to r) = 16 \<and>
        entity_row_exists db (rl_from r) \<and> entity_row_exists db (rl_to r))"

definition grants_wf :: "world_db \<Rightarrow> bool" where [wf_defs]:
  "grants_wf db \<longleftrightarrow>
     distinct (map gr_id (db_grants db)) \<and>
     (\<forall>g \<in> set (db_grants db). length (gr_id g) = 16 \<and> length (gr_principal g) = 16 \<and>
        length (gr_actor g) = 16 \<and> gr_scope_kind g \<in> {1, 2} \<and> entity_row_exists db (gr_actor g)) \<and>
     distinct (db_grant_schemas db) \<and>
     (\<forall>s \<in> set (db_grant_schemas db). grant_row_exists db (gs_grant s) \<and>
        schema_exists db (gs_schema_id s) (gs_schema_version s))"

definition facets_wf :: "world_db \<Rightarrow> bool" where [wf_defs]:
  "facets_wf db \<longleftrightarrow>
     distinct (map facet_key (db_world_facets db)) \<and>
     distinct (map facet_key (db_entity_facets db)) \<and>
     distinct (map facet_key (db_relation_facets db)) \<and>
     (\<forall>f \<in> set (db_world_facets db). schema_exists db (fc_schema_id f) (fc_schema_version f)) \<and>
     (\<forall>f \<in> set (db_entity_facets db). schema_exists db (fc_schema_id f) (fc_schema_version f) \<and>
        entity_row_exists db (fc_owner f)) \<and>
     (\<forall>f \<in> set (db_relation_facets db). schema_exists db (fc_schema_id f) (fc_schema_version f) \<and>
        relation_row_exists db (fc_owner f))"

definition logs_wf :: "world_db \<Rightarrow> bool" where [wf_defs]:
  "logs_wf db \<longleftrightarrow>
     distinct (map (\<lambda>r. (mu_position r, mu_index r)) (db_mutations db)) \<and>
     (\<forall>r \<in> set (db_mutations db). commit_exists db (mu_position r)) \<and>
     distinct (map ev_id (db_events db)) \<and>
     distinct (map (\<lambda>r. (ev_position r, ev_index r)) (db_events db)) \<and>
     (\<forall>r \<in> set (db_events db). length (ev_id r) = 16 \<and> commit_exists db (ev_position r) \<and>
        schema_exists db (ev_schema_id r) (ev_schema_version r))"

definition jobs_wf :: "world_db \<Rightarrow> bool" where [wf_defs]:
  "jobs_wf db \<longleftrightarrow>
     distinct (map jb_id (db_jobs db)) \<and>
     distinct (map (\<lambda>r. (jb_position r, jb_index r)) (db_jobs db)) \<and>
     (\<forall>r \<in> set (db_jobs db). job_row_ok r \<and> commit_exists db (jb_position r) \<and>
        schema_exists db (jb_schema_id r) (jb_schema_version r))"

definition tables_wf :: "nat \<Rightarrow> world_db \<Rightarrow> bool" where
  "tables_wf n db \<longleftrightarrow>
     commits_wf n db \<and> entities_wf db \<and> relations_wf db \<and> grants_wf db \<and> facets_wf db \<and>
     logs_wf db \<and> jobs_wf db"

definition metadata_at :: "nat \<Rightarrow> world_db \<Rightarrow> bool" where
  "metadata_at n db \<longleftrightarrow>
     (\<exists>m. db_metadata db = Some m \<and> md_position m = int n \<and> length (md_world_id m) = 16 \<and>
          md_world_format m = uint WORLD_FORMAT_VERSION)"

definition db_wf :: "externs \<Rightarrow> world_db \<Rightarrow> bool" where
  "db_wf X db \<longleftrightarrow> schemas_wf X db \<and> (\<exists>n. n < 2 ^ 63 \<and> metadata_at n db \<and> tables_wf n db)"

section \<open>Statements keep the tables well-formed\<close>

lemma guarded_Some [simp]: "guarded c x = Some y \<longleftrightarrow> c \<and> y = x"
  by (auto simp: guarded_def)

lemma guarded_None [simp]: "guarded c x = None \<longleftrightarrow> \<not> c"
  by (auto simp: guarded_def)

lemmas exists_defs = schema_exists_def commit_exists_def entity_row_exists_def
  relation_row_exists_def grant_row_exists_def

text \<open>Frame rules: which tables a foreign key and a part of the invariant read.\<close>

lemma schema_exists_frame [simp]:
  "schema_exists (db\<lparr>db_commits := x1\<rparr>) = schema_exists db"
  "schema_exists (db\<lparr>db_entities := x2\<rparr>) = schema_exists db"
  "schema_exists (db\<lparr>db_grants := x3\<rparr>) = schema_exists db"
  "schema_exists (db\<lparr>db_grant_schemas := x4\<rparr>) = schema_exists db"
  "schema_exists (db\<lparr>db_relations := x5\<rparr>) = schema_exists db"
  "schema_exists (db\<lparr>db_world_facets := x6\<rparr>) = schema_exists db"
  "schema_exists (db\<lparr>db_entity_facets := x7\<rparr>) = schema_exists db"
  "schema_exists (db\<lparr>db_relation_facets := x8\<rparr>) = schema_exists db"
  "schema_exists (db\<lparr>db_mutations := x9\<rparr>) = schema_exists db"
  "schema_exists (db\<lparr>db_events := x10\<rparr>) = schema_exists db"
  "schema_exists (db\<lparr>db_jobs := x11\<rparr>) = schema_exists db"
  "schema_exists (db\<lparr>db_metadata := x12\<rparr>) = schema_exists db"
  by (simp_all add: schema_exists_def fun_eq_iff)

lemma commit_exists_frame [simp]:
  "commit_exists (db\<lparr>db_schemas := x0\<rparr>) = commit_exists db"
  "commit_exists (db\<lparr>db_entities := x2\<rparr>) = commit_exists db"
  "commit_exists (db\<lparr>db_grants := x3\<rparr>) = commit_exists db"
  "commit_exists (db\<lparr>db_grant_schemas := x4\<rparr>) = commit_exists db"
  "commit_exists (db\<lparr>db_relations := x5\<rparr>) = commit_exists db"
  "commit_exists (db\<lparr>db_world_facets := x6\<rparr>) = commit_exists db"
  "commit_exists (db\<lparr>db_entity_facets := x7\<rparr>) = commit_exists db"
  "commit_exists (db\<lparr>db_relation_facets := x8\<rparr>) = commit_exists db"
  "commit_exists (db\<lparr>db_mutations := x9\<rparr>) = commit_exists db"
  "commit_exists (db\<lparr>db_events := x10\<rparr>) = commit_exists db"
  "commit_exists (db\<lparr>db_jobs := x11\<rparr>) = commit_exists db"
  "commit_exists (db\<lparr>db_metadata := x12\<rparr>) = commit_exists db"
  by (simp_all add: commit_exists_def fun_eq_iff)

lemma entity_row_exists_frame [simp]:
  "entity_row_exists (db\<lparr>db_schemas := x0\<rparr>) = entity_row_exists db"
  "entity_row_exists (db\<lparr>db_commits := x1\<rparr>) = entity_row_exists db"
  "entity_row_exists (db\<lparr>db_grants := x3\<rparr>) = entity_row_exists db"
  "entity_row_exists (db\<lparr>db_grant_schemas := x4\<rparr>) = entity_row_exists db"
  "entity_row_exists (db\<lparr>db_relations := x5\<rparr>) = entity_row_exists db"
  "entity_row_exists (db\<lparr>db_world_facets := x6\<rparr>) = entity_row_exists db"
  "entity_row_exists (db\<lparr>db_entity_facets := x7\<rparr>) = entity_row_exists db"
  "entity_row_exists (db\<lparr>db_relation_facets := x8\<rparr>) = entity_row_exists db"
  "entity_row_exists (db\<lparr>db_mutations := x9\<rparr>) = entity_row_exists db"
  "entity_row_exists (db\<lparr>db_events := x10\<rparr>) = entity_row_exists db"
  "entity_row_exists (db\<lparr>db_jobs := x11\<rparr>) = entity_row_exists db"
  "entity_row_exists (db\<lparr>db_metadata := x12\<rparr>) = entity_row_exists db"
  by (simp_all add: entity_row_exists_def fun_eq_iff)

lemma relation_row_exists_frame [simp]:
  "relation_row_exists (db\<lparr>db_schemas := x0\<rparr>) = relation_row_exists db"
  "relation_row_exists (db\<lparr>db_commits := x1\<rparr>) = relation_row_exists db"
  "relation_row_exists (db\<lparr>db_entities := x2\<rparr>) = relation_row_exists db"
  "relation_row_exists (db\<lparr>db_grants := x3\<rparr>) = relation_row_exists db"
  "relation_row_exists (db\<lparr>db_grant_schemas := x4\<rparr>) = relation_row_exists db"
  "relation_row_exists (db\<lparr>db_world_facets := x6\<rparr>) = relation_row_exists db"
  "relation_row_exists (db\<lparr>db_entity_facets := x7\<rparr>) = relation_row_exists db"
  "relation_row_exists (db\<lparr>db_relation_facets := x8\<rparr>) = relation_row_exists db"
  "relation_row_exists (db\<lparr>db_mutations := x9\<rparr>) = relation_row_exists db"
  "relation_row_exists (db\<lparr>db_events := x10\<rparr>) = relation_row_exists db"
  "relation_row_exists (db\<lparr>db_jobs := x11\<rparr>) = relation_row_exists db"
  "relation_row_exists (db\<lparr>db_metadata := x12\<rparr>) = relation_row_exists db"
  by (simp_all add: relation_row_exists_def fun_eq_iff)

lemma grant_row_exists_frame [simp]:
  "grant_row_exists (db\<lparr>db_schemas := x0\<rparr>) = grant_row_exists db"
  "grant_row_exists (db\<lparr>db_commits := x1\<rparr>) = grant_row_exists db"
  "grant_row_exists (db\<lparr>db_entities := x2\<rparr>) = grant_row_exists db"
  "grant_row_exists (db\<lparr>db_grant_schemas := x4\<rparr>) = grant_row_exists db"
  "grant_row_exists (db\<lparr>db_relations := x5\<rparr>) = grant_row_exists db"
  "grant_row_exists (db\<lparr>db_world_facets := x6\<rparr>) = grant_row_exists db"
  "grant_row_exists (db\<lparr>db_entity_facets := x7\<rparr>) = grant_row_exists db"
  "grant_row_exists (db\<lparr>db_relation_facets := x8\<rparr>) = grant_row_exists db"
  "grant_row_exists (db\<lparr>db_mutations := x9\<rparr>) = grant_row_exists db"
  "grant_row_exists (db\<lparr>db_events := x10\<rparr>) = grant_row_exists db"
  "grant_row_exists (db\<lparr>db_jobs := x11\<rparr>) = grant_row_exists db"
  "grant_row_exists (db\<lparr>db_metadata := x12\<rparr>) = grant_row_exists db"
  by (simp_all add: grant_row_exists_def fun_eq_iff)

lemma commits_wf_frame [simp]:
  "commits_wf n (db\<lparr>db_entities := x2\<rparr>) = commits_wf n db"
  "commits_wf n (db\<lparr>db_grants := x3\<rparr>) = commits_wf n db"
  "commits_wf n (db\<lparr>db_grant_schemas := x4\<rparr>) = commits_wf n db"
  "commits_wf n (db\<lparr>db_relations := x5\<rparr>) = commits_wf n db"
  "commits_wf n (db\<lparr>db_world_facets := x6\<rparr>) = commits_wf n db"
  "commits_wf n (db\<lparr>db_entity_facets := x7\<rparr>) = commits_wf n db"
  "commits_wf n (db\<lparr>db_relation_facets := x8\<rparr>) = commits_wf n db"
  "commits_wf n (db\<lparr>db_mutations := x9\<rparr>) = commits_wf n db"
  "commits_wf n (db\<lparr>db_events := x10\<rparr>) = commits_wf n db"
  "commits_wf n (db\<lparr>db_jobs := x11\<rparr>) = commits_wf n db"
  "commits_wf n (db\<lparr>db_metadata := x12\<rparr>) = commits_wf n db"
  by (simp_all add: commits_wf_def)

lemma entities_wf_frame [simp]:
  "entities_wf (db\<lparr>db_commits := x1\<rparr>) = entities_wf db"
  "entities_wf (db\<lparr>db_grants := x3\<rparr>) = entities_wf db"
  "entities_wf (db\<lparr>db_grant_schemas := x4\<rparr>) = entities_wf db"
  "entities_wf (db\<lparr>db_relations := x5\<rparr>) = entities_wf db"
  "entities_wf (db\<lparr>db_world_facets := x6\<rparr>) = entities_wf db"
  "entities_wf (db\<lparr>db_entity_facets := x7\<rparr>) = entities_wf db"
  "entities_wf (db\<lparr>db_relation_facets := x8\<rparr>) = entities_wf db"
  "entities_wf (db\<lparr>db_mutations := x9\<rparr>) = entities_wf db"
  "entities_wf (db\<lparr>db_events := x10\<rparr>) = entities_wf db"
  "entities_wf (db\<lparr>db_jobs := x11\<rparr>) = entities_wf db"
  "entities_wf (db\<lparr>db_metadata := x12\<rparr>) = entities_wf db"
  by (simp_all add: entities_wf_def)

lemma relations_wf_frame [simp]:
  "relations_wf (db\<lparr>db_commits := x1\<rparr>) = relations_wf db"
  "relations_wf (db\<lparr>db_grants := x3\<rparr>) = relations_wf db"
  "relations_wf (db\<lparr>db_grant_schemas := x4\<rparr>) = relations_wf db"
  "relations_wf (db\<lparr>db_world_facets := x6\<rparr>) = relations_wf db"
  "relations_wf (db\<lparr>db_entity_facets := x7\<rparr>) = relations_wf db"
  "relations_wf (db\<lparr>db_relation_facets := x8\<rparr>) = relations_wf db"
  "relations_wf (db\<lparr>db_mutations := x9\<rparr>) = relations_wf db"
  "relations_wf (db\<lparr>db_events := x10\<rparr>) = relations_wf db"
  "relations_wf (db\<lparr>db_jobs := x11\<rparr>) = relations_wf db"
  "relations_wf (db\<lparr>db_metadata := x12\<rparr>) = relations_wf db"
  by (simp_all add: relations_wf_def)

lemma grants_wf_frame [simp]:
  "grants_wf (db\<lparr>db_commits := x1\<rparr>) = grants_wf db"
  "grants_wf (db\<lparr>db_relations := x5\<rparr>) = grants_wf db"
  "grants_wf (db\<lparr>db_world_facets := x6\<rparr>) = grants_wf db"
  "grants_wf (db\<lparr>db_entity_facets := x7\<rparr>) = grants_wf db"
  "grants_wf (db\<lparr>db_relation_facets := x8\<rparr>) = grants_wf db"
  "grants_wf (db\<lparr>db_mutations := x9\<rparr>) = grants_wf db"
  "grants_wf (db\<lparr>db_events := x10\<rparr>) = grants_wf db"
  "grants_wf (db\<lparr>db_jobs := x11\<rparr>) = grants_wf db"
  "grants_wf (db\<lparr>db_metadata := x12\<rparr>) = grants_wf db"
  by (simp_all add: grants_wf_def)

lemma facets_wf_frame [simp]:
  "facets_wf (db\<lparr>db_commits := x1\<rparr>) = facets_wf db"
  "facets_wf (db\<lparr>db_grants := x3\<rparr>) = facets_wf db"
  "facets_wf (db\<lparr>db_grant_schemas := x4\<rparr>) = facets_wf db"
  "facets_wf (db\<lparr>db_mutations := x9\<rparr>) = facets_wf db"
  "facets_wf (db\<lparr>db_events := x10\<rparr>) = facets_wf db"
  "facets_wf (db\<lparr>db_jobs := x11\<rparr>) = facets_wf db"
  "facets_wf (db\<lparr>db_metadata := x12\<rparr>) = facets_wf db"
  by (simp_all add: facets_wf_def)

lemma logs_wf_frame [simp]:
  "logs_wf (db\<lparr>db_entities := x2\<rparr>) = logs_wf db"
  "logs_wf (db\<lparr>db_grants := x3\<rparr>) = logs_wf db"
  "logs_wf (db\<lparr>db_grant_schemas := x4\<rparr>) = logs_wf db"
  "logs_wf (db\<lparr>db_relations := x5\<rparr>) = logs_wf db"
  "logs_wf (db\<lparr>db_world_facets := x6\<rparr>) = logs_wf db"
  "logs_wf (db\<lparr>db_entity_facets := x7\<rparr>) = logs_wf db"
  "logs_wf (db\<lparr>db_relation_facets := x8\<rparr>) = logs_wf db"
  "logs_wf (db\<lparr>db_jobs := x11\<rparr>) = logs_wf db"
  "logs_wf (db\<lparr>db_metadata := x12\<rparr>) = logs_wf db"
  by (simp_all add: logs_wf_def)

lemma jobs_wf_frame [simp]:
  "jobs_wf (db\<lparr>db_entities := x2\<rparr>) = jobs_wf db"
  "jobs_wf (db\<lparr>db_grants := x3\<rparr>) = jobs_wf db"
  "jobs_wf (db\<lparr>db_grant_schemas := x4\<rparr>) = jobs_wf db"
  "jobs_wf (db\<lparr>db_relations := x5\<rparr>) = jobs_wf db"
  "jobs_wf (db\<lparr>db_world_facets := x6\<rparr>) = jobs_wf db"
  "jobs_wf (db\<lparr>db_entity_facets := x7\<rparr>) = jobs_wf db"
  "jobs_wf (db\<lparr>db_relation_facets := x8\<rparr>) = jobs_wf db"
  "jobs_wf (db\<lparr>db_mutations := x9\<rparr>) = jobs_wf db"
  "jobs_wf (db\<lparr>db_events := x10\<rparr>) = jobs_wf db"
  "jobs_wf (db\<lparr>db_metadata := x12\<rparr>) = jobs_wf db"
  by (simp_all add: jobs_wf_def)

lemma exists_append [simp]:
  "entity_row_exists (db\<lparr>db_entities := db_entities db @ [e]\<rparr>) i \<longleftrightarrow> entity_row_exists db i \<or> i = en_id e"
  "relation_row_exists (db\<lparr>db_relations := db_relations db @ [r]\<rparr>) i \<longleftrightarrow> relation_row_exists db i \<or> i = rl_id r"
  "grant_row_exists (db\<lparr>db_grants := db_grants db @ [g]\<rparr>) i \<longleftrightarrow> grant_row_exists db i \<or> i = gr_id g"
  "commit_exists (db\<lparr>db_commits := db_commits db @ [c]\<rparr>) p \<longleftrightarrow> commit_exists db p \<or> p = cm_position c"
  by (auto simp: exists_defs)

lemma schemas_wf_cong: "db_schemas db' = db_schemas db \<Longrightarrow> schemas_wf X db' = schemas_wf X db"
  by (simp add: schemas_wf_def)

lemma upto_commits: "[1..<Suc (Suc n)] = [1..<Suc n] @ [Suc n]"
  by simp

lemma insert_commit_row_wf:
  assumes "insert_commit_row r db = Some db'" and "tables_wf n db" and "cm_position r = int (Suc n)"
  shows "tables_wf (Suc n) db'"
proof -
  have "commits_wf (Suc n) db'"
    using assms by (simp add: insert_commit_row_def tables_wf_def commits_wf_def upto_commits)
  moreover have "logs_wf db'" "jobs_wf db'"
    using assms by (auto simp: insert_commit_row_def tables_wf_def logs_wf_def jobs_wf_def)
  ultimately show ?thesis
    using assms by (auto simp: insert_commit_row_def tables_wf_def)
qed

lemma insert_entity_row_wf:
  "insert_entity_row r db = Some db' \<Longrightarrow> tables_wf n db \<Longrightarrow> tables_wf n db'"
  by (clarsimp simp: insert_entity_row_def tables_wf_def entity_row_exists_def) (simp add: entities_wf_def relations_wf_def grants_wf_def facets_wf_def)

lemma insert_relation_row_wf:
  "insert_relation_row r db = Some db' \<Longrightarrow> tables_wf n db \<Longrightarrow> tables_wf n db'"
  by (clarsimp simp: insert_relation_row_def tables_wf_def relation_row_exists_def) (simp add: relations_wf_def facets_wf_def)

lemma insert_grant_row_wf:
  "insert_grant_row r db = Some db' \<Longrightarrow> tables_wf n db \<Longrightarrow> tables_wf n db'"
  by (clarsimp simp: insert_grant_row_def tables_wf_def grant_row_exists_def) (simp add: grants_wf_def)

lemma insert_grant_schema_row_wf:
  "insert_grant_schema_row r db = Some db' \<Longrightarrow> tables_wf n db \<Longrightarrow> tables_wf n db'"
  by (clarsimp simp: insert_grant_schema_row_def tables_wf_def ) (simp add: grants_wf_def)

lemma insert_mutation_row_wf:
  "insert_mutation_row r db = Some db' \<Longrightarrow> tables_wf n db \<Longrightarrow> tables_wf n db'"
  by (clarsimp simp: insert_mutation_row_def tables_wf_def ) (simp add: logs_wf_def)

lemma insert_event_row_wf:
  "insert_event_row r db = Some db' \<Longrightarrow> tables_wf n db \<Longrightarrow> tables_wf n db'"
  by (clarsimp simp: insert_event_row_def tables_wf_def ) (simp add: logs_wf_def)

lemma insert_job_row_wf:
  "insert_job_row r db = Some db' \<Longrightarrow> tables_wf n db \<Longrightarrow> tables_wf n db'"
  by (clarsimp simp: insert_job_row_def tables_wf_def ) (simp add: jobs_wf_def)

subsection \<open>Facets\<close>

lemma facet_key_update [simp]:
  "facet_key (x\<lparr>fc_payload := p, fc_updated := u\<rparr>) = facet_key x"
  by (simp add: facet_key_def)

lemma upsert_facet_keys:
  "map facet_key (upsert_facet r rows) =
     (if facet_key r \<in> set (map facet_key rows) then map facet_key rows
      else map facet_key rows @ [facet_key r])"
  by (auto simp: upsert_facet_def)

lemma upsert_facet_distinct:
  "distinct (map facet_key rows) \<Longrightarrow> distinct (map facet_key (upsert_facet r rows))"
  by (simp add: upsert_facet_keys)

text \<open>Every row of the updated table has the key of an old row or of the new one.\<close>

lemma upsert_facet_row:
  "x \<in> set (upsert_facet r rows) \<Longrightarrow> \<exists>y \<in> insert r (set rows). facet_key x = facet_key y"
  by (auto simp: upsert_facet_def split: if_splits)

lemma upsert_world_facet_wf:
  assumes ins: "upsert_world_facet r db = Some db'" and wf: "tables_wf n db"
  shows "tables_wf n db'"
proof -
  have "\<forall>x \<in> set (upsert_facet r (db_world_facets db)). schema_exists db (fc_schema_id x) (fc_schema_version x)"
  proof
    fix x assume "x \<in> set (upsert_facet r (db_world_facets db))"
    then obtain y where "y \<in> insert r (set (db_world_facets db))" "facet_key x = facet_key y"
      using upsert_facet_row by blast
    with ins wf show "schema_exists db (fc_schema_id x) (fc_schema_version x)"
      by (auto simp: upsert_world_facet_def facet_columns_ok_def tables_wf_def facets_wf_def facet_key_def)
  qed
  with assms show ?thesis
    by (clarsimp simp: upsert_world_facet_def tables_wf_def) (simp add: facets_wf_def upsert_facet_distinct)
qed

lemma upsert_entity_facet_wf:
  assumes ins: "upsert_entity_facet r db = Some db'" and wf: "tables_wf n db"
  shows "tables_wf n db'"
proof -
  have "\<forall>x \<in> set (upsert_facet r (db_entity_facets db)). schema_exists db (fc_schema_id x) (fc_schema_version x) \<and> entity_row_exists db (fc_owner x)"
  proof
    fix x assume "x \<in> set (upsert_facet r (db_entity_facets db))"
    then obtain y where "y \<in> insert r (set (db_entity_facets db))" "facet_key x = facet_key y"
      using upsert_facet_row by blast
    with ins wf show "schema_exists db (fc_schema_id x) (fc_schema_version x) \<and> entity_row_exists db (fc_owner x)"
      by (auto simp: upsert_entity_facet_def facet_columns_ok_def tables_wf_def facets_wf_def facet_key_def)
  qed
  with assms show ?thesis
    by (clarsimp simp: upsert_entity_facet_def tables_wf_def) (simp add: facets_wf_def upsert_facet_distinct)
qed

lemma upsert_relation_facet_wf:
  assumes ins: "upsert_relation_facet r db = Some db'" and wf: "tables_wf n db"
  shows "tables_wf n db'"
proof -
  have "\<forall>x \<in> set (upsert_facet r (db_relation_facets db)). schema_exists db (fc_schema_id x) (fc_schema_version x) \<and> relation_row_exists db (fc_owner x)"
  proof
    fix x assume "x \<in> set (upsert_facet r (db_relation_facets db))"
    then obtain y where "y \<in> insert r (set (db_relation_facets db))" "facet_key x = facet_key y"
      using upsert_facet_row by blast
    with ins wf show "schema_exists db (fc_schema_id x) (fc_schema_version x) \<and> relation_row_exists db (fc_owner x)"
      by (auto simp: upsert_relation_facet_def facet_columns_ok_def tables_wf_def facets_wf_def facet_key_def)
  qed
  with assms show ?thesis
    by (clarsimp simp: upsert_relation_facet_def tables_wf_def) (simp add: facets_wf_def upsert_facet_distinct)
qed

subsection \<open>Deletes\<close>

lemma distinct_map_filterI: "distinct (map f xs) \<Longrightarrow> distinct (map f (filter P xs))"
  by (simp add: distinct_map_filter_key)

lemma filtered_key: "k \<in> key ` A \<Longrightarrow> \<forall>x \<in> A. P x \<longrightarrow> key x \<noteq> k \<Longrightarrow> k \<in> key ` {x \<in> A. \<not> P x}"
  by auto

text \<open>Deleting relations removes the facets of exactly these, so every facet keeps its relation.\<close>

lemma delete_relations_frame [simp]:
  "commits_wf n (delete_relations P db) = commits_wf n db"
  "entities_wf (delete_relations P db) = entities_wf db"
  "grants_wf (delete_relations P db) = grants_wf db"
  "logs_wf (delete_relations P db) = logs_wf db"
  "jobs_wf (delete_relations P db) = jobs_wf db"
  by (simp_all add: delete_relations_def)

lemma delete_relations_relations_wf: "relations_wf db \<Longrightarrow> relations_wf (delete_relations P db)"
  by (simp add: delete_relations_def relations_wf_def distinct_map_filterI)

lemma delete_relations_exists:
  assumes "relation_row_exists db i" and "\<not> (\<exists>r \<in> set (db_relations db). P r \<and> rl_id r = i)"
  shows "relation_row_exists (delete_relations P db) i"
  using assms by (auto simp: delete_relations_def relation_row_exists_def)

lemma delete_relations_facets_wf: "facets_wf db \<Longrightarrow> facets_wf (delete_relations P db)"
proof -
  assume wf: "facets_wf db"
  have "\<forall>f \<in> set (db_relation_facets (delete_relations P db)).
      relation_row_exists (delete_relations P db) (fc_owner f)"
    using wf by (auto simp: facets_wf_def delete_relations_def relation_row_exists_def intro: filtered_key)
  moreover have "set (db_relation_facets (delete_relations P db)) \<subseteq> set (db_relation_facets db)"
    by (auto simp: delete_relations_def)
  moreover have "distinct (map facet_key (db_relation_facets (delete_relations P db)))"
    using wf by (simp add: delete_relations_def facets_wf_def distinct_map_filterI)
  ultimately show ?thesis
    using wf by (auto simp: facets_wf_def delete_relations_def)
qed

lemma delete_relations_wf: "tables_wf n db \<Longrightarrow> tables_wf n (delete_relations P db)"
  by (simp add: tables_wf_def delete_relations_relations_wf delete_relations_facets_wf)

lemma delete_grants_frame [simp]:
  "commits_wf n (delete_grants P db) = commits_wf n db"
  "entities_wf (delete_grants P db) = entities_wf db"
  "relations_wf (delete_grants P db) = relations_wf db"
  "facets_wf (delete_grants P db) = facets_wf db"
  "logs_wf (delete_grants P db) = logs_wf db"
  "jobs_wf (delete_grants P db) = jobs_wf db"
  by (simp_all add: delete_grants_def)

lemma delete_grants_grants_wf: "grants_wf db \<Longrightarrow> grants_wf (delete_grants P db)"
proof -
  assume wf: "grants_wf db"
  have "\<forall>s \<in> set (db_grant_schemas (delete_grants P db)).
      grant_row_exists (delete_grants P db) (gs_grant s)"
    using wf by (auto simp: grants_wf_def delete_grants_def grant_row_exists_def intro: filtered_key)
  then show ?thesis
    using wf by (auto simp: grants_wf_def delete_grants_def distinct_map_filterI)
qed

lemma delete_grants_wf: "tables_wf n db \<Longrightarrow> tables_wf n (delete_grants P db)"
  by (simp add: tables_wf_def delete_grants_grants_wf)

text \<open>Deleting an entity: what refers to it is gone before the references are checked again.\<close>

lemma delete_entity_row_wf:
  assumes wf: "tables_wf n db"
  shows "tables_wf n (snd (delete_entity_row i db))"
proof (cases "entity_row_exists db i")
  case True
  define db1 where "db1 = db\<lparr>db_entities := filter (\<lambda>r. en_id r \<noteq> i) (db_entities db),
      db_entity_facets := filter (\<lambda>f. fc_owner f \<noteq> i) (db_entity_facets db)\<rparr>"
  define db2 where "db2 = delete_relations (\<lambda>r. rl_from r = i \<or> rl_to r = i) db1"
  define db3 where "db3 = delete_grants (\<lambda>g. gr_actor g = i) db2"
  have ex: "entity_row_exists db1 j \<longleftrightarrow> entity_row_exists db j \<and> j \<noteq> i" for j
    by (auto simp: db1_def entity_row_exists_def)
  have ex2: "entity_row_exists db2 = entity_row_exists db1" "entity_row_exists db3 = entity_row_exists db1"
    by (simp_all add: db2_def db3_def delete_relations_def delete_grants_def)
  have sch: "schema_exists db1 = schema_exists db" by (simp add: db1_def)
  have rel1: "db_relations db1 = db_relations db" "db_relation_facets db1 = db_relation_facets db"
    "db_world_facets db1 = db_world_facets db" "db_grants db1 = db_grants db"
    "db_grant_schemas db1 = db_grant_schemas db"
    by (simp_all add: db1_def)
  have w: "relations_wf db" "grants_wf db" "facets_wf db" using wf by (simp_all add: tables_wf_def)
  have "facets_wf db1"
  proof -
    have "\<forall>f \<in> set (db_entity_facets db1). schema_exists db (fc_schema_id f) (fc_schema_version f) \<and>
        entity_row_exists db1 (fc_owner f)"
      using w(3) unfolding ex by (auto simp: facets_wf_def db1_def)
    moreover have "relation_row_exists db1 = relation_row_exists db"
      by (simp add: db1_def)
    moreover have "distinct (map facet_key (db_entity_facets db1))"
      using w(3) by (simp add: db1_def facets_wf_def distinct_map_filterI)
    ultimately show ?thesis using w(3) sch rel1 by (simp add: facets_wf_def)
  qed
  then have f: "facets_wf db3" by (simp add: db3_def db2_def delete_relations_facets_wf)
  have r: "relations_wf db3"
  proof -
    have "\<forall>r \<in> set (db_relations db2). entity_row_exists db1 (rl_from r) \<and> entity_row_exists db1 (rl_to r)"
      unfolding ex using w(1) rel1 by (auto simp: db2_def delete_relations_def relations_wf_def)
    moreover have "schema_exists db2 = schema_exists db"
      by (simp add: db2_def delete_relations_def sch)
    moreover have "set (db_relations db2) \<subseteq> set (db_relations db)"
      "distinct (map rl_id (db_relations db2))"
      using w(1) rel1 by (auto simp: db2_def delete_relations_def relations_wf_def distinct_map_filterI)
    ultimately have "relations_wf db2" using w(1) ex2 by (auto simp: relations_wf_def)
    then show ?thesis by (simp add: db3_def)
  qed
  have g: "grants_wf db3"
  proof -
    have g2: "db_grants db2 = db_grants db" "db_grant_schemas db2 = db_grant_schemas db"
      "schema_exists db2 = schema_exists db"
      by (simp_all add: db2_def delete_relations_def rel1 sch)
    then have "\<forall>s \<in> set (db_grant_schemas db3). grant_row_exists db3 (gs_grant s) \<and>
        schema_exists db3 (gs_schema_id s) (gs_schema_version s)"
      using w(2) by (auto simp: db3_def delete_grants_def grants_wf_def grant_row_exists_def intro: filtered_key)
    moreover have "\<forall>g \<in> set (db_grants db3). length (gr_id g) = 16 \<and> length (gr_principal g) = 16 \<and>
        length (gr_actor g) = 16 \<and> gr_scope_kind g \<in> {1, 2} \<and> entity_row_exists db3 (gr_actor g)"
      unfolding ex2 ex using w(2) g2 by (auto simp: db3_def delete_grants_def grants_wf_def)
    moreover have "distinct (map gr_id (db_grants db3))" "distinct (db_grant_schemas db3)"
      using w(2) g2 by (simp_all add: db3_def delete_grants_def grants_wf_def distinct_map_filterI)
    ultimately show ?thesis unfolding grants_wf_def by blast
  qed
  have e: "entities_wf db3"
  proof -
    have "entities_wf db1"
      using wf sch by (auto simp: tables_wf_def entities_wf_def db1_def distinct_map_filterI)
    then show ?thesis by (simp add: db3_def db2_def)
  qed
  have "snd (delete_entity_row i db) = db3"
    using True by (simp add: delete_entity_row_def db1_def db2_def db3_def)
  moreover have "commits_wf n db3" "logs_wf db3" "jobs_wf db3"
    using wf by (simp_all add: db3_def db2_def db1_def tables_wf_def)
  ultimately show ?thesis using e f r g by (simp add: tables_wf_def)
qed (use wf in \<open>simp add: delete_entity_row_def\<close>)

lemma delete_relation_row_wf: "tables_wf n db \<Longrightarrow> tables_wf n (snd (delete_relation_row i db))"
  by (simp add: delete_relation_row_def delete_relations_wf)

lemma delete_grant_row_wf: "tables_wf n db \<Longrightarrow> tables_wf n (snd (delete_grant_row i db))"
  by (simp add: delete_grant_row_def delete_grants_wf)

lemma delete_facets_wf:
  assumes "tables_wf n db"
  shows "tables_wf n (db\<lparr>db_world_facets := delete_facets k (db_world_facets db)\<rparr>)"
    and "tables_wf n (db\<lparr>db_entity_facets := delete_facets k' (db_entity_facets db)\<rparr>)"
    and "tables_wf n (db\<lparr>db_relation_facets := delete_facets k'' (db_relation_facets db)\<rparr>)"
  using assms by (simp_all add: tables_wf_def facets_wf_def delete_facets_def distinct_map_filterI)

end
