(* ===== verification/Sql_Preservation.thy ===== *)
theory Sql_Preservation
  imports Sql_Invariant
begin

text \<open>
  The commit keeps a well-formed world database well-formed: every mutation does, the loops over the
  drafts do, and the transaction as a whole advances the position by one.
\<close>

section \<open>What a mutation leaves alone\<close>

text \<open>The tables a mutation never writes: metadata, schemas, commits and the three logs.\<close>

definition same_logs :: "world_db \<Rightarrow> world_db \<Rightarrow> bool" where
  "same_logs db db' \<longleftrightarrow>
     db_metadata db' = db_metadata db \<and> db_schemas db' = db_schemas db \<and>
     db_commits db' = db_commits db \<and> db_mutations db' = db_mutations db \<and>
     db_events db' = db_events db \<and> db_jobs db' = db_jobs db"

lemma same_logs_refl [simp]: "same_logs db db"
  by (simp add: same_logs_def)

lemma same_logs_trans: "same_logs a b \<Longrightarrow> same_logs b c \<Longrightarrow> same_logs a c"
  by (simp add: same_logs_def)

lemma delete_same_logs:
  "same_logs db (delete_relations P db)" "same_logs db (delete_grants Q db)"
  "same_logs db (snd (delete_entity_row i db))" "same_logs db (snd (delete_relation_row i db))"
  "same_logs db (snd (delete_grant_row i db))"
  by (simp_all add: same_logs_def delete_relations_def delete_grants_def delete_entity_row_def
      delete_relation_row_def delete_grant_row_def)

lemma insert_same_logs:
  "insert_entity_row a db = Some db' \<Longrightarrow> same_logs db db'"
  "insert_relation_row b db = Some db' \<Longrightarrow> same_logs db db'"
  "insert_grant_row c db = Some db' \<Longrightarrow> same_logs db db'"
  "insert_grant_schema_row d db = Some db' \<Longrightarrow> same_logs db db'"
  "upsert_world_facet e db = Some db' \<Longrightarrow> same_logs db db'"
  "upsert_entity_facet f db = Some db' \<Longrightarrow> same_logs db db'"
  "upsert_relation_facet f db = Some db' \<Longrightarrow> same_logs db db'"
  by (auto simp: same_logs_def insert_entity_row_def insert_relation_row_def insert_grant_row_def
      insert_grant_schema_row_def upsert_world_facet_def upsert_entity_facet_def
      upsert_relation_facet_def)

lemma insert_grant_schemas_same_logs: "insert_grant_schemas g ks db = Inr db' \<Longrightarrow> same_logs db db'"
  unfolding insert_grant_schemas_def
  by (erule fold_result_invariant) (auto simp: result_simps intro: same_logs_trans insert_same_logs)

lemma set_facet_same_logs: "set_facet X f p db = Inr db' \<Longrightarrow> same_logs db db'"
  by (auto simp: set_facet_def result_simps intro: insert_same_logs split: facet_target.splits if_splits)

lemma remove_facet_same_logs: "remove_facet target k db = Inr db' \<Longrightarrow> same_logs db db'"
  by (auto simp: remove_facet_def same_logs_def split: facet_target.splits if_splits)

lemma grant_control_steps:
  assumes "grant_control g p db = Inr db'"
  obtains r db1 where "insert_grant_row r db = Some db1"
    and "db' = db1 \<or> (\<exists>ks. insert_grant_schemas (grant_id g) ks db1 = Inr db')"
proof -
  from assms obtain r db1 where "insert_grant_row r db = Some db1"
      and "(case exact_schemas (grant_scope g) of None \<Rightarrow> Inr db1
            | Some ks \<Rightarrow> insert_grant_schemas (grant_id g) ks db1) = Inr db'"
    unfolding grant_control_def and_then_Inr ok_or_Inr by (fastforce simp: result_simps split: if_splits)
  then show ?thesis using that by (auto split: option.splits)
qed

lemma grant_control_same_logs: "grant_control g p db = Inr db' \<Longrightarrow> same_logs db db'"
  by (elim grant_control_steps)
    (auto intro: insert_same_logs same_logs_trans dest: insert_same_logs(3) insert_grant_schemas_same_logs)

lemma apply_mutation_same_logs: "apply_mutation X m p db = Inr db' \<Longrightarrow> same_logs db db'"
  by (auto simp: apply_mutation_def result_simps split_def Let_def split: world_mutation.splits if_splits
      intro: insert_same_logs delete_same_logs set_facet_same_logs remove_facet_same_logs
        grant_control_same_logs)

section \<open>Mutations keep the tables well-formed\<close>

lemma insert_grant_schemas_wf:
  "insert_grant_schemas g ks db = Inr db' \<Longrightarrow> tables_wf n db \<Longrightarrow> tables_wf n db'"
  unfolding insert_grant_schemas_def
  by (erule fold_result_invariant) (auto simp: result_simps intro: insert_grant_schema_row_wf)

lemma set_facet_wf: "set_facet X f p db = Inr db' \<Longrightarrow> tables_wf n db \<Longrightarrow> tables_wf n db'"
  by (auto simp: set_facet_def result_simps split: facet_target.splits if_splits
      intro: upsert_world_facet_wf upsert_entity_facet_wf upsert_relation_facet_wf)

lemma remove_facet_wf: "remove_facet target k db = Inr db' \<Longrightarrow> tables_wf n db \<Longrightarrow> tables_wf n db'"
  by (auto simp: remove_facet_def delete_facets_wf split: facet_target.splits if_splits)

lemma grant_control_wf: "grant_control g p db = Inr db' \<Longrightarrow> tables_wf n db \<Longrightarrow> tables_wf n db'"
  by (elim grant_control_steps) (auto dest: insert_grant_row_wf insert_grant_schemas_wf)

lemma apply_mutation_wf: "apply_mutation X m p db = Inr db' \<Longrightarrow> tables_wf n db \<Longrightarrow> tables_wf n db'"
  by (auto simp: apply_mutation_def result_simps split_def Let_def split: world_mutation.splits if_splits
      intro: insert_entity_row_wf insert_relation_row_wf delete_entity_row_wf delete_relation_row_wf
        delete_grant_row_wf set_facet_wf remove_facet_wf grant_control_wf)

section \<open>The loops of the commit\<close>

text \<open>The tables a commit writes only before or after the loops.\<close>

definition same_heads :: "world_db \<Rightarrow> world_db \<Rightarrow> bool" where
  "same_heads db db' \<longleftrightarrow>
     db_metadata db' = db_metadata db \<and> db_schemas db' = db_schemas db \<and> db_commits db' = db_commits db"

lemma same_logs_heads: "same_logs db db' \<Longrightarrow> same_heads db db'"
  by (simp add: same_logs_def same_heads_def)

lemma commit_mutation_step:
  assumes "commit_mutation X p im db = Inr db'"
  shows "same_heads db db'" and "tables_wf n db \<Longrightarrow> tables_wf n db'"
proof -
  from assms obtain i db1 where
    ins: "insert_mutation_row \<lparr>mu_position = p, mu_index = i, mu_format = uint WORLD_MUTATION_FORMAT_VERSION,
        mu_json = mutation_text X (snd im)\<rparr> db = Some db1"
    and app: "apply_mutation X (snd im) p db1 = Inr db'"
    by (auto simp: commit_mutation_def result_simps)
  from ins have "same_heads db db1" by (auto simp: insert_mutation_row_def same_heads_def)
  with same_logs_heads [OF apply_mutation_same_logs [OF app]] show "same_heads db db'"
    by (simp add: same_heads_def)
  show "tables_wf n db \<Longrightarrow> tables_wf n db'"
    using insert_mutation_row_wf [OF ins] apply_mutation_wf [OF app] by blast
qed

lemma commit_event_step:
  assumes "commit_event X p ie db = Inr db'"
  shows "same_heads db db'" and "tables_wf n db \<Longrightarrow> tables_wf n db'"
  using assms insert_event_row_wf
  by (auto simp: commit_event_def result_simps same_heads_def insert_event_row_def)

lemma commit_effect_step:
  assumes "commit_effect X p ie db = Inr db'"
  shows "same_heads db db'" and "tables_wf n db \<Longrightarrow> tables_wf n db'"
  using assms insert_job_row_wf
  by (auto simp: commit_effect_def result_simps same_heads_def insert_job_row_def)

lemma loop_step:
  assumes "fold_result f xs db = Inr db'"
    and "\<And>x a b. f x a = Inr b \<Longrightarrow> same_heads a b"
    and "\<And>x a b. f x a = Inr b \<Longrightarrow> tables_wf n a \<Longrightarrow> tables_wf n b"
  shows "same_heads db db'" and "tables_wf n db \<Longrightarrow> tables_wf n db'"
proof -
  show "same_heads db db'"
    by (rule fold_result_invariant [where P = "same_heads db", OF assms(1)])
      (use assms(2) in \<open>force simp: same_heads_def\<close>)+
  show "tables_wf n db \<Longrightarrow> tables_wf n db'"
    by (rule fold_result_invariant [where P = "tables_wf n", OF assms(1)]) (auto intro: assms(3))
qed

lemma mutation_loop:
  assumes "fold_result (commit_mutation X p) xs db = Inr db'"
  shows "same_heads db db'" and "tables_wf n db \<Longrightarrow> tables_wf n db'"
  using loop_step [OF assms] commit_mutation_step by blast+

lemma event_loop:
  assumes "fold_result (commit_event X p) xs db = Inr db'"
  shows "same_heads db db'" and "tables_wf n db \<Longrightarrow> tables_wf n db'"
  using loop_step [OF assms] commit_event_step by blast+

lemma effect_loop:
  assumes "fold_result (commit_effect X p) xs db = Inr db'"
  shows "same_heads db db'" and "tables_wf n db \<Longrightarrow> tables_wf n db'"
  using loop_step [OF assms] commit_effect_step by blast+

section \<open>The commit\<close>

lemma current_position_Inr: "metadata_at n db \<Longrightarrow> current_position db = Inr w \<Longrightarrow> uint w = int n"
  by (auto simp: metadata_at_def current_position_def position_from_sql_def result_simps
      dest: u64_try_from_Some)

lemma current_position_at: "metadata_at n db \<Longrightarrow> n < 2 ^ 63 \<Longrightarrow> current_position db = Inr (word_of_nat n)"
  by (auto simp: metadata_at_def current_position_def position_from_sql_def u64_try_from_def)

lemma position_to_sql_Inr: "position_to_sql w = Inr i \<longleftrightarrow> uint w < 2 ^ 63 \<and> i = uint w"
  by (auto simp: position_to_sql_def i64_try_from_u64_def result_simps split: if_splits)

lemma next_position:
  assumes "checked_add_u64 w 1 = Some w'" and "position_to_sql w' = Inr p" and "uint w = int n"
  shows "p = int (Suc n)" and "Suc n < 2 ^ 63"
  using checked_add_u64_Some [OF assms(1)] assms(2,3) by (auto simp: position_to_sql_Inr)

text \<open>The stages of a successful \<open>write_commit\<close>.\<close>

lemma write_commit_stages:
  assumes "write_commit X c t current now db = Inr (receipt, db')"
  obtains w p db1 db2 db3 db4 where
    "checked_add_u64 current 1 = Some w" "position_to_sql w = Inr p"
    "insert_commit X c (command_digest X c) p now db = Inr db1"
    "fold_result (commit_mutation X p) (enumerate 0 (tx_mutations t)) db1 = Inr db2"
    "fold_result (commit_event X p) (enumerate 0 (tx_events t)) db2 = Inr db3"
    "fold_result (commit_effect X p) (enumerate 0 (tx_effects t)) db3 = Inr db4"
    "advance_position p (uint current) db4 = Inr db'" "uint current < 2 ^ 63"
    "receipt = \<lparr>receipt_disposition = Committed, receipt_command_id = command_id c,
       receipt_position = w, receipt_event_ids = map draft_event_id (tx_events t),
       receipt_effect_job_ids = map draft_effect_id (tx_effects t)\<rparr>"
  using assms unfolding write_commit_def and_then_Inr ok_or_Inr by (fastforce simp: position_to_sql_Inr)

lemma insert_commit_Inr:
  assumes "insert_commit X c d p now db = Inr db'"
  obtains r where "insert_commit_row r db = Some db'" "cm_position r = p"
    "cm_command_id r = into_bytes (command_id c)" "cm_digest r = digest_bytes d"
  using assms by (auto simp: insert_commit_def encode_commit_def result_simps)

lemma insert_commit_row_heads:
  "insert_commit_row r db = Some db' \<Longrightarrow>
     db_metadata db' = db_metadata db \<and> db_schemas db' = db_schemas db \<and>
     db_commits db' = db_commits db @ [r]"
  by (auto simp: insert_commit_row_def)

lemma tables_wf_metadata [simp]: "tables_wf n (db\<lparr>db_metadata := m\<rparr>) = tables_wf n db"
  by (simp add: tables_wf_def)

lemma advance_position_Inr:
  "advance_position p q db = Inr db' \<longleftrightarrow>
     (\<exists>m. db_metadata db = Some m \<and> md_position m = q \<and>
          db' = db\<lparr>db_metadata := Some (m\<lparr>md_position := p\<rparr>)\<rparr>)"
  by (auto simp: advance_position_def split: option.splits if_splits)

lemma write_commit_wf:
  assumes w: "write_commit X c t current now db = Inr (receipt, db')"
    and wf: "tables_wf n db" and md: "metadata_at n db" and cur: "uint current = int n"
  shows "tables_wf (Suc n) db' \<and> metadata_at (Suc n) db' \<and> db_schemas db' = db_schemas db \<and> Suc n < 2 ^ 63"
  using w
proof (rule write_commit_stages)
  fix w p db1 db2 db3 db4
  assume pos: "checked_add_u64 current 1 = Some w" "position_to_sql w = Inr p"
    and ins: "insert_commit X c (command_digest X c) p now db = Inr db1"
    and loops: "fold_result (commit_mutation X p) (enumerate 0 (tx_mutations t)) db1 = Inr db2"
      "fold_result (commit_event X p) (enumerate 0 (tx_events t)) db2 = Inr db3"
      "fold_result (commit_effect X p) (enumerate 0 (tx_effects t)) db3 = Inr db4"
    and adv: "advance_position p (uint current) db4 = Inr db'"
  note p = next_position [OF pos cur]
  from ins obtain r where r: "insert_commit_row r db = Some db1" "cm_position r = p"
    by (rule insert_commit_Inr)
  have "tables_wf (Suc n) db1" using insert_commit_row_wf [OF r(1) wf] r(2) p(1) by simp
  then have t4: "tables_wf (Suc n) db4"
    using mutation_loop(2) [OF loops(1)] event_loop(2) [OF loops(2)] effect_loop(2) [OF loops(3)] by blast
  have heads: "same_heads db1 db4"
    using mutation_loop(1) [OF loops(1)] event_loop(1) [OF loops(2)] effect_loop(1) [OF loops(3)]
    by (simp add: same_heads_def)
  from adv obtain m where m: "db_metadata db4 = Some m"
      "db' = db4\<lparr>db_metadata := Some (m\<lparr>md_position := p\<rparr>)\<rparr>"
    unfolding advance_position_Inr by blast
  have "db_metadata db = Some m" "db_schemas db4 = db_schemas db"
    using heads insert_commit_row_heads [OF r(1)] m(1) by (simp_all add: same_heads_def)
  with md m(2) p t4 show ?thesis by (auto simp: metadata_at_def)
qed

lemma check_commit_Inr_position:
  "check_commit X c t evaluated db = Inr w \<Longrightarrow> current_position db = Inr w \<and> w = evaluated"
  by (auto simp: check_commit_def result_simps split: if_splits)

lemma commit_cases [consumes 1, case_names failed replayed written]:
  assumes "commit X c t evaluated now db = (res, db')"
  obtains e where "res = Inl e" "db' = db"
  | receipt where "committed_receipt X db c = Inr (Some receipt)" "res = Inr receipt" "db' = db"
  | receipt current where "committed_receipt X db c = Inr None"
      "check_commit X c t evaluated db = Inr current"
      "write_commit X c t current now db = Inr (receipt, db')" "res = Inr receipt"
  using assms unfolding commit_def commit_transaction_def committed_receipt_def
  by (cases "load_existing_receipt db (command_id c) (command_digest X c)")
    (auto simp: result_simps split: sum.splits option.splits)

text \<open>The well-formedness invariant survives every call of \<open>commit\<close>, failed calls included.\<close>

lemma commit_keeps_wf: "db_wf X db \<Longrightarrow> commit X c t evaluated now db = (res, db') \<Longrightarrow> db_wf X db'"
proof (erule commit_cases)
  fix receipt current
  assume wf: "db_wf X db" and chk: "check_commit X c t evaluated db = Inr current"
    and wr: "write_commit X c t current now db = Inr (receipt, db')"
  from wf obtain n where n: "n < 2 ^ 63" "metadata_at n db" "tables_wf n db" "schemas_wf X db"
    by (auto simp: db_wf_def)
  have "uint current = int n"
    using current_position_Inr [OF n(2)] check_commit_Inr_position [OF chk] by blast
  from write_commit_wf [OF wr n(3,2) this] n(4) show "db_wf X db'"
    unfolding db_wf_def by (metis schemas_wf_cong)
qed simp_all

end
