(* ===== verification/Sql_Schemas.thy ===== *)
theory Sql_Schemas
  imports Sql_Preservation
begin

text \<open>
  The durable schema registry (\<open>register_schema\<close> and \<open>register_schemas\<close> of
  \<open>crates/storage/src/sqlite/mod.rs\<close>), and the agreement of the two ways the component reads
  it: the whole registry, as commits do, and one row, as snapshots do.
\<close>

section \<open>Reading\<close>

definition row_key :: "schema_row \<Rightarrow> string \<times> int" where
  "row_key r = (sc_id r, sc_version r)"

definition key_columns :: "schema_key \<Rightarrow> string \<times> int" where
  "key_columns k = (key_text k, key_int k)"

definition decode_row :: "externs \<Rightarrow> schema_row \<Rightarrow> storage_error + schema_definition" where
  "decode_row X r = decode_schema X (sc_id r) (sc_version r) (sc_kind r) (sc_owner r) (sc_definition r)"

definition row_wf :: "externs \<Rightarrow> schema_row \<Rightarrow> bool" where
  "row_wf X r \<longleftrightarrow> (\<exists>d v. decode_row X r = Inr d \<and> validator_for X (definition_document d) = Inr v)"

lemma schemas_wf_rows:
  "schemas_wf X db \<longleftrightarrow> distinct (map row_key (db_schemas db)) \<and> (\<forall>r \<in> set (db_schemas db). row_wf X r)"
  by (simp add: schemas_wf_def row_key_def [abs_def] row_wf_def decode_row_def)

lemma decode_row_key: "decode_row X r = Inr d \<Longrightarrow> key_columns (definition_key d) = row_key r"
  by (auto simp: decode_row_def decode_schema_def key_columns_def row_key_def decode_schema_key_Inr
      result_simps)

lemma decode_row_canonical: "decode_row X r = Inr d \<Longrightarrow> canonical_key (definition_key d)"
  by (auto simp: decode_row_def decode_schema_def decode_schema_key_Inr result_simps)

lemma key_columns_eq [simp]: "key_columns k = key_columns k' \<longleftrightarrow> k = k'"
  by (auto simp: key_columns_def intro: key_columns_inject)

definition find_schema :: "schema_key \<Rightarrow> schema_row list \<Rightarrow> schema_row option" where
  "find_schema k rows = find (\<lambda>r. row_key r = key_columns k) rows"

lemma find_schema_simps [simp]:
  "find_schema k [] = None"
  "find_schema k (r # rs) = (if row_key r = key_columns k then Some r else find_schema k rs)"
  by (simp_all add: find_schema_def)

lemma find_schema_None: "find_schema k rs = None \<longleftrightarrow> key_columns k \<notin> row_key ` set rs"
  by (induction rs) auto

lemma find_schema_distinct:
  "distinct (map row_key rs) \<Longrightarrow> find_schema k rs = Some r \<longleftrightarrow> r \<in> set rs \<and> row_key r = key_columns k"
  by (induction rs) (auto simp: rev_image_eqI)

lemma find_schema_sorted:
  assumes "distinct (map row_key rs)"
  shows "find_schema k (sort_key f rs) = find_schema k rs"
proof -
  have "distinct (map row_key (sort_key f rs))"
    using assms by (simp add: distinct_map)
  then have "find_schema k (sort_key f rs) = Some r \<longleftrightarrow> find_schema k rs = Some r" for r
    using assms by (simp add: find_schema_distinct)
  then show ?thesis by (metis not_None_eq)
qed

lemma load_schema_find:
  "load_schema X db k = transpose_map (decode_row X) (find_schema k (db_schemas db))"
proof -
  have rows: "find (\<lambda>r. sc_id r = key_text k \<and> sc_version r = key_int k) (db_schemas db)
      = find_schema k (db_schemas db)"
    by (simp add: find_schema_def row_key_def key_columns_def)
  show ?thesis
  proof (cases "find_schema k (db_schemas db)")
    case (Some r)
    then have "row_key r = key_columns k" unfolding find_schema_def using find_Some_set by fast
    then have "sc_id r = key_text k" "sc_version r = key_int k" by (simp_all add: row_key_def key_columns_def)
    then show ?thesis by (simp add: load_schema_def rows Some decode_row_def)
  qed (simp add: load_schema_def rows)
qed

lemma registry_new [simp]: "definitions schema_registry_new = Map.empty" "validators schema_registry_new = Map.empty"
  by (simp_all add: schema_registry_new_def)

text \<open>Registering well-formed rows with distinct keys never conflicts, and adds exactly these rows.\<close>

lemma register_rows:
  assumes "distinct (map row_key rs)" and "\<forall>r \<in> set rs. row_wf X r"
    and "registry_ok reg" and "\<forall>k. definitions reg k \<noteq> None \<longrightarrow> find_schema k rs = None"
  shows "\<exists>reg'. fold_result (register_row X) rs reg = Inr reg' \<and> registry_ok reg' \<and>
    (\<forall>k. definitions reg' k = (case find_schema k rs of None \<Rightarrow> definitions reg k | Some r \<Rightarrow> result_ok (decode_row X r))) \<and>
    (\<forall>k. validators reg' k = (case find_schema k rs of None \<Rightarrow> validators reg k
       | Some r \<Rightarrow> Option.bind (result_ok (decode_row X r)) (\<lambda>d. result_ok (validator_for X (definition_document d)))))"
  using assms
proof (induction rs arbitrary: reg)
  case (Cons r rs)
  from Cons.prems(2) obtain d v where d: "decode_row X r = Inr d" "validator_for X (definition_document d) = Inr v"
    by (auto simp: row_wf_def)
  note key = decode_row_key [OF d(1)]
  have new: "definitions reg (definition_key d) = None"
    using Cons.prems(4) key by (force split: if_splits)
  define reg1 where "reg1 = \<lparr>definitions = (definitions reg)(definition_key d \<mapsto> d),
      validators = (validators reg)(definition_key d \<mapsto> v)\<rparr>"
  have reg: "registry_register (validator_for X) reg d = Inr (Registered, reg1)"
    using new d(2) by (simp add: registry_register_Inr reg1_def)
  then have step: "register_row X r reg = Inr reg1"
    using d(1) by (simp add: register_row_def decode_row_def)
  have fresh: "find_schema (definition_key d) rs = None"
    using Cons.prems(1) key by (auto simp: find_schema_None)
  have "registry_ok reg1" by (rule registry_register_ok [OF Cons.prems(3) reg])
  moreover have "\<forall>k. definitions reg1 k \<noteq> None \<longrightarrow> find_schema k rs = None"
    using Cons.prems(4) fresh by (metis (no_types, lifting) find_schema_simps(2) fun_upd_apply not_None_eq reg1_def schema_registry.select_convs(1))
  ultimately obtain reg' where reg': "fold_result (register_row X) rs reg1 = Inr reg'" "registry_ok reg'"
      "\<forall>k. definitions reg' k = (case find_schema k rs of None \<Rightarrow> definitions reg1 k | Some r \<Rightarrow> result_ok (decode_row X r))"
      "\<forall>k. validators reg' k = (case find_schema k rs of None \<Rightarrow> validators reg1 k
         | Some r \<Rightarrow> Option.bind (result_ok (decode_row X r)) (\<lambda>d. result_ok (validator_for X (definition_document d))))"
    using Cons.IH [of reg1] Cons.prems by auto
  have "row_key r = key_columns k \<longleftrightarrow> k = definition_key d" for k
    using key by (metis key_columns_eq)
  then show ?case
    using reg' step fresh d by (auto simp: reg1_def split: option.splits)
qed auto

lemma load_schema_registry_agrees:
  assumes "schemas_wf X db"
  shows "\<exists>reg. load_schema_registry X db = Inr reg \<and> registry_ok reg \<and>
    (\<forall>k. load_schema X db k = Inr (definitions reg k)) \<and>
    (\<forall>k d. definitions reg k = Some d \<longrightarrow> (\<exists>v. validator_for X (definition_document d) = Inr v \<and> validators reg k = Some v))"
proof -
  define rs where "rs = sort_key (\<lambda>r. (sc_id r, sc_version r)) (db_schemas db)"
  from assms have dist: "distinct (map row_key (db_schemas db))" and wf: "\<forall>r \<in> set (db_schemas db). row_wf X r"
    by (auto simp: schemas_wf_rows)
  have find: "find_schema k rs = find_schema k (db_schemas db)" for k
    unfolding rs_def by (rule find_schema_sorted [OF dist])
  have found: "row_wf X r" if "find_schema k (db_schemas db) = Some r" for k r
    using that wf find_schema_distinct [OF dist] by blast
  have "distinct (map row_key rs)" "\<forall>r \<in> set rs. row_wf X r"
    using dist wf by (simp_all add: rs_def distinct_map)
  then obtain reg where reg: "fold_result (register_row X) rs schema_registry_new = Inr reg" "registry_ok reg"
      "\<forall>k. definitions reg k = (case find_schema k rs of None \<Rightarrow> definitions schema_registry_new k | Some r \<Rightarrow> result_ok (decode_row X r))"
      "\<forall>k. validators reg k = (case find_schema k rs of None \<Rightarrow> validators schema_registry_new k
         | Some r \<Rightarrow> Option.bind (result_ok (decode_row X r)) (\<lambda>d. result_ok (validator_for X (definition_document d))))"
    using register_rows [of rs X schema_registry_new] by auto
  have "load_schema X db k = Inr (definitions reg k)" for k
    using found by (force simp: load_schema_find reg(3) find row_wf_def split: option.splits)
  moreover have "\<exists>v. validator_for X (definition_document d) = Inr v \<and> validators reg k = Some v"
    if "definitions reg k = Some d" for k d
    using that found by (force simp: reg(3,4) find row_wf_def split: option.splits)
  ultimately show ?thesis using reg(1,2) by (auto simp: load_schema_registry_def rs_def)
qed

section \<open>Writing\<close>

definition register_schema ::
  "externs \<Rightarrow> schema_definition \<Rightarrow> world_db \<Rightarrow> storage_error + schema_registration \<times> world_db" where
  "register_schema X d db =
     and_then (load_schema X db (definition_key d)) (\<lambda>existing.
     case existing of
       Some e \<Rightarrow>
         and_then (world (registry_register (validator_for X) schema_registry_new e)) (\<lambda>(_, reg).
         and_then (world (registry_register (validator_for X) reg d)) (\<lambda>(r, _).
         Inr (r, db)))
     | None \<Rightarrow>
         and_then (world (registry_register (validator_for X) schema_registry_new d)) (\<lambda>_.
         and_then (sql (insert_schema_row (encode_schema X d) db)) (\<lambda>db.
         Inr (Registered, db))))"

text \<open>One iteration over the batch: the in-memory registry, the database, the answers so far.\<close>

definition register_one ::
  "externs \<Rightarrow> schema_definition \<Rightarrow> schema_registry \<times> world_db \<times> schema_registration list \<Rightarrow>
   storage_error + schema_registry \<times> world_db \<times> schema_registration list" where
  "register_one X d = (\<lambda>(reg, db, answers).
     and_then (world (registry_register (validator_for X) reg d)) (\<lambda>(r, reg).
     and_then (if r = Registered then sql (insert_schema_row (encode_schema X d) db) else Inr db) (\<lambda>db.
     Inr (reg, db, answers @ [r]))))"

definition register_schemas ::
  "externs \<Rightarrow> schema_definition list \<Rightarrow> world_db \<Rightarrow> (storage_error + schema_registration list) \<times> world_db" where
  "register_schemas X ds db =
     (if ds = [] then (Inr [], db)
      else (case and_then (load_schema_registry X db) (\<lambda>reg. fold_result (register_one X) ds (reg, db, [])) of
              Inl e \<Rightarrow> (Inl e, db)
            | Inr (_, db', answers) \<Rightarrow> (Inr answers, db')))"

section \<open>Registration keeps the database and the registry in step\<close>

text \<open>The in-memory registry of a batch mirrors the schema table.\<close>

definition mirrors :: "externs \<Rightarrow> schema_registry \<Rightarrow> world_db \<Rightarrow> bool" where
  "mirrors X reg db \<longleftrightarrow>
     schemas_wf X db \<and> registry_ok reg \<and> (\<forall>k. load_schema X db k = Inr (definitions reg k)) \<and>
     (\<forall>k d. definitions reg k = Some d \<longrightarrow>
        (\<exists>v. validator_for X (definition_document d) = Inr v \<and> validators reg k = Some v))"

lemma register_one_step:
  "register_one X d (reg, db, answers) =
     and_then (world (registry_register (validator_for X) reg d)) (\<lambda>(r, reg).
     and_then (if r = Registered then sql (insert_schema_row (encode_schema X d) db) else Inr db) (\<lambda>db.
     Inr (reg, db, answers @ [r])))"
  by (simp add: register_one_def)

text \<open>What the host guarantees of a definition: a parsed key and a JSON document that survives storage.\<close>

definition storable :: "externs \<Rightarrow> schema_definition \<Rightarrow> bool" where
  "storable X d \<longleftrightarrow> canonical_key (definition_key d) \<and> json_stable X (definition_document d)"

lemma decode_encode_schema: "storable X d \<Longrightarrow> decode_row X (encode_schema X d) = Inr d"
  by (simp add: storable_def decode_row_def encode_schema_def decode_schema_def json_stable_def)

lemma row_key_encode [simp]: "row_key (encode_schema X d) = key_columns (definition_key d)"
  by (simp add: row_key_def key_columns_def encode_schema_def)

lemma find_schema_append: "find_schema k (rs @ ss) = (case find_schema k rs of None \<Rightarrow> find_schema k ss | Some r \<Rightarrow> Some r)"
  by (induction rs) auto

lemma insert_schema_row_Some:
  assumes "load_schema X db (definition_key d) = Inr None" and "storable X d"
  shows "insert_schema_row (encode_schema X d) db = Some (db\<lparr>db_schemas := db_schemas db @ [encode_schema X d]\<rparr>)"
proof -
  have "find_schema (definition_key d) (db_schemas db) = None"
    using assms(1) by (auto simp: load_schema_find result_simps split: option.splits)
  then have "\<not> schema_exists db (key_text (definition_key d)) (key_int (definition_key d))"
    by (simp add: find_schema_None schema_exists_def key_columns_def row_key_def [abs_def])
  moreover have "0 < key_int (definition_key d)"
    using assms(2) uint_ge_0 [of "version_number (key_version (definition_key d))"]
    by (auto simp: storable_def canonical_key_def order.order_iff_strict uint_0_iff)
  ultimately show ?thesis
    by (simp add: insert_schema_row_def schema_row_ok_def encode_schema_def)
qed

lemma schemas_wf_insert:
  assumes "schemas_wf X db" and "load_schema X db (definition_key d) = Inr None" and "storable X d"
    and "validator_for X (definition_document d) = Inr v"
  shows "schemas_wf X (db\<lparr>db_schemas := db_schemas db @ [encode_schema X d]\<rparr>)"
proof -
  have "find_schema (definition_key d) (db_schemas db) = None"
    using assms(2) by (auto simp: load_schema_find result_simps split: option.splits)
  then show ?thesis
    using assms decode_encode_schema [OF assms(3)]
    by (auto simp: schemas_wf_rows find_schema_None row_wf_def)
qed

lemma register_one_mirrors:
  assumes m: "mirrors X reg db" and d: "storable X d"
    and reg: "registry_register (validator_for X) reg d = Inr (r, reg')"
  shows "\<exists>db'. (if r = Registered then sql (insert_schema_row (encode_schema X d) db) else Inr db) = Inr db' \<and>
     mirrors X reg' db' \<and> (db' = db \<or> db' = db\<lparr>db_schemas := db_schemas db @ [encode_schema X d]\<rparr>)"
proof (cases r)
  case AlreadyPresent
  then show ?thesis using reg m by (auto simp: registry_register_Inr)
next
  case Registered
  with reg obtain v where new: "definitions reg (definition_key d) = None"
      "validator_for X (definition_document d) = Inr v"
      "reg' = \<lparr>definitions = (definitions reg)(definition_key d \<mapsto> d),
               validators = (validators reg)(definition_key d \<mapsto> v)\<rparr>"
    by (auto simp: registry_register_Inr)
  define db' where "db' = db\<lparr>db_schemas := db_schemas db @ [encode_schema X d]\<rparr>"
  have free: "load_schema X db (definition_key d) = Inr None" using m new(1) by (simp add: mirrors_def)
  have wf: "schemas_wf X db'"
    using schemas_wf_insert [OF _ free d new(2)] m by (simp add: mirrors_def db'_def)
  have "load_schema X db' k = Inr (definitions reg' k)" for k
  proof (cases "k = definition_key d")
    case True
    have "find_schema k (db_schemas db) = None"
      using free True by (auto simp: load_schema_find result_simps split: option.splits)
    then show ?thesis
      using True decode_encode_schema [OF d] by (simp add: load_schema_find db'_def find_schema_append new(3))
  next
    case False
    then have "find_schema k (db_schemas db') = find_schema k (db_schemas db)"
      by (auto simp: db'_def find_schema_append split: option.splits)
    then show ?thesis using m False by (simp add: load_schema_find mirrors_def new(3))
  qed
  moreover have "registry_ok reg'" using registry_register_ok [OF _ reg] m by (simp add: mirrors_def)
  ultimately have "mirrors X reg' db'" using wf m new(2) by (auto simp: mirrors_def new(3) split: if_splits)
  then show ?thesis
    using insert_schema_row_Some [OF free d] Registered by (auto simp: db'_def)
qed

text \<open>New schemas only add foreign-key targets.\<close>

lemma tables_wf_more_schemas:
  assumes "tables_wf n db"
  shows "tables_wf n (db\<lparr>db_schemas := db_schemas db @ added\<rparr>)"
proof -
  have more: "schema_exists db i v \<Longrightarrow> schema_exists (db\<lparr>db_schemas := db_schemas db @ added\<rparr>) i v" for i v
    by (auto simp: schema_exists_def)
  show ?thesis
    using assms unfolding tables_wf_def
    by (simp add: commits_wf_def entities_wf_def relations_wf_def grants_wf_def facets_wf_def logs_wf_def jobs_wf_def more)
qed

text \<open>The loop over a batch, from a registry that mirrors the table.\<close>

lemma register_loop:
  assumes "fold_result (register_one X) ds (reg, db, answers) = Inr (reg', db', answers')"
    and "mirrors X reg db" and "\<forall>d \<in> set ds. storable X d"
  shows "mirrors X reg' db' \<and> definitions reg \<subseteq>\<^sub>m definitions reg' \<and>
    (\<forall>d \<in> set ds. definitions reg' (definition_key d) = Some d) \<and>
    (\<exists>added. db' = db\<lparr>db_schemas := db_schemas db @ added\<rparr>) \<and>
    length answers' = length answers + length ds"
  using assms
proof (induction ds arbitrary: reg db answers)
  case Nil
  then show ?case by (auto intro: exI [of _ "[]"])
next
  case (Cons d ds)
  from Cons.prems(1) obtain r reg1 db1 where
    reg: "registry_register (validator_for X) reg d = Inr (r, reg1)"
    and ins: "(if r = Registered then sql (insert_schema_row (encode_schema X d) db) else Inr db) = Inr db1"
    and rest: "fold_result (register_one X) ds (reg1, db1, answers @ [r]) = Inr (reg', db', answers')"
    by (auto simp: register_one_step result_simps simp del: if_split split: prod.splits)
  have m1: "mirrors X reg1 db1" and db1: "db1 = db \<or> db1 = db\<lparr>db_schemas := db_schemas db @ [encode_schema X d]\<rparr>"
    using register_one_mirrors [OF Cons.prems(2) _ reg] Cons.prems(3) ins by auto
  have d: "definitions reg \<subseteq>\<^sub>m definitions reg1" "definitions reg1 (definition_key d) = Some d"
    using reg by (auto simp: registry_register_Inr map_le_def)
  note IH = Cons.IH [OF rest m1]
  have "\<exists>added. db' = db\<lparr>db_schemas := db_schemas db @ added\<rparr>"
    using IH Cons.prems(3) db1 by auto
  moreover have "definitions reg1 \<subseteq>\<^sub>m definitions reg'" using IH Cons.prems(3) by simp
  then have "definitions reg' (definition_key d) = Some d" using d(2) by (auto simp: map_le_def dom_def)
  ultimately show ?case using IH Cons.prems(3) d(1) by (auto intro: map_le_trans)
qed

lemma register_loop_error:
  assumes "fold_result (register_one X) ds (reg, db, answers) = Inl e"
    and "mirrors X reg db" and "\<forall>d \<in> set ds. storable X d"
  shows "\<exists>w. e = World w"
  using assms
proof (induction ds arbitrary: reg db answers)
  case (Cons d ds)
  show ?case
  proof (cases "registry_register (validator_for X) reg d")
    case (Inl w)
    then show ?thesis using Cons.prems(1) by (auto simp: register_one_step)
  next
    case (Inr rr)
    obtain r reg1 where rr: "rr = (r, reg1)" by fastforce
    have sd: "storable X d" using Cons.prems(3) by simp
    obtain db1 where
      ins: "(if r = Registered then sql (insert_schema_row (encode_schema X d) db) else Inr db) = Inr db1"
      and m1: "mirrors X reg1 db1"
      using register_one_mirrors [OF Cons.prems(2) sd] Inr rr by blast
    have "fold_result (register_one X) ds (reg1, db1, answers @ [r]) = Inl e"
      using Cons.prems(1) Inr rr ins by (simp add: register_one_step del: if_split)
    from Cons.IH [OF this m1] Cons.prems(3) show ?thesis by simp
  qed
qed simp

lemma mirrors_load: "schemas_wf X db \<Longrightarrow> \<exists>reg. load_schema_registry X db = Inr reg \<and> mirrors X reg db"
  using load_schema_registry_agrees unfolding mirrors_def by blast

lemma register_schemas_result:
  assumes "db_wf X db" and "\<forall>d \<in> set ds. storable X d" and "register_schemas X ds db = (res, db')"
  shows "db_wf X db' \<and> (\<exists>added. db' = db\<lparr>db_schemas := db_schemas db @ added\<rparr>) \<and>
    (case res of
       Inl e \<Rightarrow> db' = db \<and> (\<exists>w. e = World w)
     | Inr answers \<Rightarrow> length answers = length ds \<and>
         (\<forall>d \<in> set ds. load_schema X db' (definition_key d) = Inr (Some d)) \<and>
         (\<forall>k d. load_schema X db k = Inr (Some d) \<longrightarrow> load_schema X db' k = Inr (Some d)))"
proof -
  have none: "\<exists>added. db = db\<lparr>db_schemas := db_schemas db @ added\<rparr>" by (rule exI [of _ "[]"]) simp
  obtain reg where reg: "load_schema_registry X db = Inr reg" "mirrors X reg db"
    using mirrors_load assms(1) by (auto simp: db_wf_def)
  show ?thesis
  proof (cases "ds = []")
    case True
    then show ?thesis using assms none by (auto simp: register_schemas_def)
  next
    case False
    show ?thesis
    proof (cases "fold_result (register_one X) ds (reg, db, [])")
      case (Inl e)
      with register_loop_error [OF this reg(2) assms(2)] show ?thesis
        using assms(1,3) False reg(1) none by (auto simp: register_schemas_def)
    next
      case (Inr out)
      obtain reg1 db1 answers where out: "out = (reg1, db1, answers)" by (metis prod.exhaust)
      note loop = register_loop [OF Inr [unfolded out] reg(2) assms(2)]
      have res: "res = Inr answers" "db' = db1"
        using assms(3) False reg(1) Inr out by (auto simp: register_schemas_def)
      have m: "mirrors X reg1 db1" and le: "definitions reg \<subseteq>\<^sub>m definitions reg1"
        and all: "\<forall>d \<in> set ds. definitions reg1 (definition_key d) = Some d"
        using loop by blast+
      obtain n where n: "n < 2 ^ 63" "metadata_at n db" "tables_wf n db" using assms(1) by (auto simp: db_wf_def)
      have "tables_wf n db1" "metadata_at n db1"
        using loop n tables_wf_more_schemas by (auto simp: metadata_at_def)
      then have "db_wf X db1" using m n(1) by (auto simp: db_wf_def mirrors_def)
      moreover have "load_schema X db1 k = Inr (Some d)" if "load_schema X db k = Inr (Some d)" for k d
        using that le m reg(2) by (auto simp: mirrors_def map_le_def dom_def)
      ultimately show ?thesis using m all loop by (auto simp: res mirrors_def)
    qed
  qed
qed

text \<open>
  Registering a batch of schemas is atomic and complete. A batch either fails with a schema
  error and changes nothing, or afterwards every definition of the batch and every earlier one
  reads back as it was given; in both cases the database stays well-formed.
\<close>

theorem register_schemas_contract:
  assumes "db_wf X db" and "\<forall>d \<in> set ds. storable X d" and "register_schemas X ds db = (res, db')"
  shows "db_wf X db' \<and>
    (case res of
       Inl e \<Rightarrow> db' = db \<and> (\<exists>w. e = World w)
     | Inr answers \<Rightarrow> length answers = length ds \<and>
         (\<forall>d \<in> set ds. load_schema X db' (definition_key d) = Inr (Some d)) \<and>
         (\<forall>k d. load_schema X db k = Inr (Some d) \<longrightarrow> load_schema X db' k = Inr (Some d)))"
  using register_schemas_result [OF assms] by blast

text \<open>
  The single-row path and the batch path of schema registration agree: registering one
  definition answers, fails and writes exactly as a batch of one does.
\<close>

theorem register_schema_as_batch:
  "schemas_wf X db \<Longrightarrow>
     register_schemas X [d] db =
       (case register_schema X d db of Inl e \<Rightarrow> (Inl e, db) | Inr (r, db') \<Rightarrow> (Inr [r], db'))"
proof -
  assume "schemas_wf X db"
  then obtain reg where reg: "load_schema_registry X db = Inr reg" "mirrors X reg db"
    using mirrors_load by blast
  then have load: "load_schema X db (definition_key d) = Inr (definitions reg (definition_key d))"
    by (simp add: mirrors_def)
  show ?thesis
  proof (cases "definitions reg (definition_key d)")
    case None
    show ?thesis
    proof (cases "validator_for X (definition_document d)")
      case (Inl a)
      with None show ?thesis using reg(1) load
        by (simp add: register_schemas_def register_schema_def register_one_step registry_register_def)
    next
      case (Inr v)
      with None show ?thesis using reg(1) load
        by (cases "insert_schema_row (encode_schema X d) db")
          (simp_all add: register_schemas_def register_schema_def register_one_step registry_register_def)
    qed
  next
    case (Some e)
    obtain v where v: "validator_for X (definition_document e) = Inr v"
      using reg(2) Some unfolding mirrors_def by blast
    moreover have "definition_key e = definition_key d"
      using reg(2) Some unfolding mirrors_def registry_ok_def by blast
    ultimately show ?thesis using reg(1) load Some
      by (simp add: register_schemas_def register_schema_def register_one_step registry_register_def)
  qed
qed

end
