(* ===== verification/World_Spec.thy ===== *)
theory World_Spec
  imports Sql_Schemas
begin

text \<open>
  The abstract world a database stands for: finite maps of entities, relations, facets and control
  grants, with one transition per mutation. The SQL tables with their cascades are shown to refine
  it in \<open>Sql_Refinement\<close>.
\<close>

section \<open>Abstract worlds\<close>

record abs_grant =
  ag_principal :: principal_id
  ag_actor :: entity_id
  ag_scope :: "schema_key set option"
  ag_valid :: "int option"

record abs_world =
  aw_entities :: "entity_id \<rightharpoonup> schema_key"
  aw_relations :: "relation_id \<rightharpoonup> schema_key \<times> entity_id \<times> entity_id"
  aw_facets :: "facet_target \<times> schema_key \<rightharpoonup> string"
  aw_grants :: "control_grant_id \<rightharpoonup> abs_grant"

text \<open>Selecting the part of a map whose values satisfy a predicate.\<close>

definition keep :: "('k \<Rightarrow> 'v \<Rightarrow> bool) \<Rightarrow> ('k \<rightharpoonup> 'v) \<Rightarrow> 'k \<rightharpoonup> 'v" where
  "keep P m = (\<lambda>k. case m k of None \<Rightarrow> None | Some v \<Rightarrow> if P k v then Some v else None)"

definition target_exists :: "abs_world \<Rightarrow> facet_target \<Rightarrow> bool" where
  "target_exists w t =
     (case t of
        TargetWorld \<Rightarrow> True
      | TargetEntity i \<Rightarrow> aw_entities w i \<noteq> None
      | TargetRelation r \<Rightarrow> aw_relations w r \<noteq> None)"

text \<open>What goes with an entity: the relations that touch it, and the facets of both.\<close>

definition touches :: "entity_id \<Rightarrow> schema_key \<times> entity_id \<times> entity_id \<Rightarrow> bool" where
  "touches i v = (case v of (_, f, t) \<Rightarrow> f = i \<or> t = i)"

definition abs_delete_relations :: "(relation_id \<Rightarrow> bool) \<Rightarrow> abs_world \<Rightarrow> abs_world" where
  "abs_delete_relations R w =
     w\<lparr>aw_relations := keep (\<lambda>r _. \<not> R r) (aw_relations w),
       aw_facets := keep (\<lambda>(t, _) _. case t of TargetRelation r \<Rightarrow> \<not> R r | _ \<Rightarrow> True) (aw_facets w)\<rparr>"

definition abs_delete_entity :: "entity_id \<Rightarrow> abs_world \<Rightarrow> abs_world" where
  "abs_delete_entity i w =
     (let w' = abs_delete_relations (\<lambda>r. \<exists>v. aw_relations w r = Some v \<and> touches i v) w
      in w'\<lparr>aw_entities := (aw_entities w')(i := None),
            aw_facets := keep (\<lambda>(t, _) _. t \<noteq> TargetEntity i) (aw_facets w'),
            aw_grants := keep (\<lambda>_ g. ag_actor g \<noteq> i) (aw_grants w')\<rparr>)"

definition abs_grant_of :: "control_grant \<Rightarrow> abs_grant" where
  "abs_grant_of g =
     \<lparr>ag_principal = grant_principal g, ag_actor = grant_actor_entity g,
      ag_scope = map_option set (exact_schemas (grant_scope g)),
      ag_valid = map_option uint (grant_valid_through g)\<rparr>"

definition abs_apply :: "externs \<Rightarrow> world_mutation \<Rightarrow> abs_world \<Rightarrow> world_error + abs_world" where
  "abs_apply X m w =
     (case m of
        CreateEntity e \<Rightarrow>
          if aw_entities w (entity_id e) \<noteq> None then Inl (EntityAlreadyExists (entity_id e))
          else Inr (w\<lparr>aw_entities := (aw_entities w)(entity_id e \<mapsto> entity_schema e)\<rparr>)
      | DeleteEntity i \<Rightarrow>
          if aw_entities w i = None then Inl (EntityNotFound i) else Inr (abs_delete_entity i w)
      | CreateRelation r \<Rightarrow>
          if aw_relations w (relation_id r) \<noteq> None then Inl (RelationAlreadyExists (relation_id r))
          else if aw_entities w (relation_from r) = None
            then Inl (RelationEndpointNotFound (relation_id r) (relation_from r))
          else if aw_entities w (relation_to r) = None
            then Inl (RelationEndpointNotFound (relation_id r) (relation_to r))
          else Inr (w\<lparr>aw_relations := (aw_relations w)
                 (relation_id r \<mapsto> (relation_schema r, relation_from r, relation_to r))\<rparr>)
      | DeleteRelation r \<Rightarrow>
          if aw_relations w r = None then Inl (RelationNotFound r)
          else Inr (abs_delete_relations (\<lambda>r'. r' = r) w)
      | SetFacet f \<Rightarrow>
          if \<not> target_exists w (facet_target f) then Inl FacetTargetNotFound
          else Inr (w\<lparr>aw_facets := (aw_facets w)
                 ((facet_target f, facet_schema f) \<mapsto> json_text X (facet_payload f))\<rparr>)
      | RemoveFacet t k \<Rightarrow>
          if \<not> target_exists w t then Inl FacetTargetNotFound
          else Inr (w\<lparr>aw_facets := (aw_facets w)((t, k) := None)\<rparr>)
      | GrantControl g \<Rightarrow>
          if aw_entities w (grant_actor_entity g) = None then Inl (EntityNotFound (grant_actor_entity g))
          else if aw_grants w (grant_id g) \<noteq> None then Inl (ControlGrantAlreadyExists (grant_id g))
          else Inr (w\<lparr>aw_grants := (aw_grants w)(grant_id g \<mapsto> abs_grant_of g)\<rparr>)
      | RevokeControl g \<Rightarrow>
          if aw_grants w g = None then Inl (ControlGrantNotFound g)
          else Inr (w\<lparr>aw_grants := (aw_grants w)(g := None)\<rparr>))"

section \<open>Abstract authority\<close>

definition abs_can_control :: "abs_world \<Rightarrow> principal_id \<Rightarrow> entity_id \<Rightarrow> schema_key \<Rightarrow> int \<Rightarrow> bool" where
  "abs_can_control w p e k position \<longleftrightarrow>
     (\<exists>i g. aw_grants w i = Some g \<and> ag_principal g = p \<and> ag_actor g = e \<and>
        (case ag_valid g of None \<Rightarrow> True | Some v \<Rightarrow> position \<le> v) \<and>
        (case ag_scope g of None \<Rightarrow> True | Some ks \<Rightarrow> k \<in> ks))"

section \<open>Abstract well-formedness\<close>

text \<open>No relation, facet or grant refers to something that is gone.\<close>

definition abs_wf :: "abs_world \<Rightarrow> bool" where
  "abs_wf w \<longleftrightarrow>
     (\<forall>r k f t. aw_relations w r = Some (k, f, t) \<longrightarrow> aw_entities w f \<noteq> None \<and> aw_entities w t \<noteq> None) \<and>
     (\<forall>t k s. aw_facets w (t, k) = Some s \<longrightarrow> target_exists w t) \<and>
     (\<forall>i g. aw_grants w i = Some g \<longrightarrow> aw_entities w (ag_actor g) \<noteq> None)"

lemma keep_Some [simp]: "keep P m k = Some v \<longleftrightarrow> m k = Some v \<and> P k v"
  by (auto simp: keep_def split: option.splits)

lemma keep_None: "keep P m k = None \<longleftrightarrow> (\<forall>v. m k = Some v \<longrightarrow> \<not> P k v)"
  by (auto simp: keep_def split: option.splits)

section \<open>Tables as maps\<close>

text \<open>The single-row lookup of a table by its primary key.\<close>

definition lookup :: "('r \<Rightarrow> 'k) \<Rightarrow> 'r list \<Rightarrow> 'k \<Rightarrow> 'r option" where
  "lookup key rows k = find (\<lambda>r. key r = k) rows"

lemma lookup_Nil [table_simps]: "lookup key [] k = None"
  by (simp add: lookup_def)

lemma lookup_None: "lookup key rows k = None \<longleftrightarrow> k \<notin> set (map key rows)"
  by (auto simp: lookup_def find_None_set)

lemma lookup_Some_D: "lookup key rows k = Some r \<Longrightarrow> r \<in> set rows \<and> key r = k"
  unfolding lookup_def by (drule find_Some_set) simp

lemma lookup_append [table_simps]:
  "lookup key (rows @ [r]) k = (case lookup key rows k of Some x \<Rightarrow> Some x | None \<Rightarrow> if key r = k then Some r else None)"
  by (auto simp: lookup_def find_append split: option.splits)

lemma lookup_Some:
  "distinct (map key rows) \<Longrightarrow> lookup key rows k = Some r \<longleftrightarrow> r \<in> set rows \<and> key r = k"
  by (metis lookup_Some_D lookup_def find_key_unique)

lemma lookup_filter:
  assumes "distinct (map key rows)"
  shows "lookup key (filter P rows) k = Option.bind (lookup key rows k) (\<lambda>r. if P r then Some r else None)"
proof -
  have "distinct (map key (filter P rows))" using assms by (rule distinct_map_filter_key)
  then have "lookup key (filter P rows) k = Some r \<longleftrightarrow>
      Option.bind (lookup key rows k) (\<lambda>r. if P r then Some r else None) = Some r" for r
    using assms by (auto simp: lookup_Some bind_eq_Some_conv)
  then show ?thesis by (metis not_None_eq)
qed

lemma lookup_upsert:
  "lookup facet_key (upsert_facet r rows) k =
     (if k = facet_key r
      then Some (case lookup facet_key rows k of None \<Rightarrow> r
                 | Some x \<Rightarrow> x\<lparr>fc_payload := fc_payload r, fc_updated := fc_updated r\<rparr>)
      else lookup facet_key rows k)"
proof (cases "facet_key r \<in> set (map facet_key rows)")
  case True
  define f where "f x = (if facet_key x = facet_key r
      then x\<lparr>fc_payload := fc_payload r, fc_updated := fc_updated r\<rparr> else x)" for x :: "'a facet_row"
  have "facet_key (f x) = facet_key x" for x by (simp add: f_def facet_key_def)
  then have "lookup facet_key (map f rows) k = map_option f (lookup facet_key rows k)"
    unfolding lookup_def by (intro find_map_cong) simp
  moreover have "upsert_facet r rows = map f rows" using True by (simp add: upsert_facet_def f_def [abs_def])
  moreover have "lookup facet_key rows (facet_key r) \<noteq> None" using True by (simp add: lookup_None)
  ultimately show ?thesis
    by (cases "lookup facet_key rows k") (auto simp: f_def dest: lookup_Some_D)
next
  case False
  then have "lookup facet_key rows (facet_key r) = None" by (simp add: lookup_None)
  with False show ?thesis by (auto simp: upsert_facet_def table_simps split: option.splits)
qed

lemma lookup_delete_facets:
  "lookup facet_key (delete_facets k rows) k' = (if k' = k then None else lookup facet_key rows k')"
  unfolding lookup_def delete_facets_def
  by (auto intro: find_filter_imp find_filter_disj)

end
