(* ===== verification/Sql_Refinement.thy ===== *)
theory Sql_Refinement
  imports World_Spec
begin

text \<open>
  The SQL tables implement the abstract world: every mutation the commit applies acts on the world
  the tables stand for exactly as the abstract transition does, errors included.
\<close>

section \<open>The world a database stands for\<close>

definition columns_key :: "string \<Rightarrow> int \<Rightarrow> schema_key" where
  "columns_key i v = SchemaKey (SchemaId i) (SchemaVersion (word_of_int v))"

lemma columns_key_of_key [simp]: "columns_key (key_text k) (key_int k) = k"
  by (cases k; cases "key_id k"; cases "key_version k") (simp add: columns_key_def)

definition grant_schema_of :: "blob \<Rightarrow> schema_key \<Rightarrow> grant_schema_row" where
  "grant_schema_of g k = \<lparr>gs_grant = g, gs_schema_id = key_text k, gs_schema_version = key_int k\<rparr>"

lemma grant_schema_of_inject [simp]: "grant_schema_of g k = grant_schema_of g' k' \<longleftrightarrow> g = g' \<and> k = k'"
  by (auto simp: grant_schema_of_def intro: key_columns_inject)

definition abs_grant_row :: "grant_schema_row list \<Rightarrow> grant_row \<Rightarrow> abs_grant" where
  "abs_grant_row scopes r =
     \<lparr>ag_principal = from_bytes (gr_principal r), ag_actor = from_bytes (gr_actor r),
      ag_scope = (if gr_scope_kind r = 1 then None
                  else Some {k. grant_schema_of (gr_id r) k \<in> set scopes}),
      ag_valid = gr_valid_through r\<rparr>"

definition abs_relation_row :: "relation_row \<Rightarrow> schema_key \<times> entity_id \<times> entity_id" where
  "abs_relation_row r =
     (columns_key (rl_schema_id r) (rl_schema_version r), from_bytes (rl_from r), from_bytes (rl_to r))"

definition abs_db :: "world_db \<Rightarrow> abs_world" where
  "abs_db db =
     \<lparr>aw_entities = (\<lambda>i. map_option (\<lambda>r. columns_key (en_schema_id r) (en_schema_version r))
                       (lookup en_id (db_entities db) (into_bytes i))),
      aw_relations = (\<lambda>i. map_option abs_relation_row (lookup rl_id (db_relations db) (into_bytes i))),
      aw_facets = (\<lambda>(t, k). facet_payload_text db t k),
      aw_grants = (\<lambda>i. map_option (abs_grant_row (db_grant_schemas db)) (lookup gr_id (db_grants db) (into_bytes i)))\<rparr>"

lemma entity_exists_abs: "entity_exists db i \<longleftrightarrow> aw_entities (abs_db db) i \<noteq> None"
  by (auto simp: entity_exists_def entity_row_exists_def abs_db_def lookup_None)

lemma relation_exists_abs: "relation_exists db i \<longleftrightarrow> aw_relations (abs_db db) i \<noteq> None"
  by (auto simp: relation_exists_def relation_row_exists_def abs_db_def lookup_None)

lemma grant_exists_abs: "grant_row_exists db (into_bytes i) \<longleftrightarrow> aw_grants (abs_db db) i \<noteq> None"
  by (auto simp: grant_row_exists_def abs_db_def lookup_None)

lemmas exists_abs = entity_exists_abs relation_exists_abs grant_exists_abs
  entity_exists_abs [unfolded entity_exists_def] relation_exists_abs [unfolded relation_exists_def]

lemma target_exists_abs:
  "target_exists (abs_db db) t \<longleftrightarrow>
     (case t of TargetWorld \<Rightarrow> True | TargetEntity i \<Rightarrow> entity_exists db i | TargetRelation r \<Rightarrow> relation_exists db r)"
  by (simp add: target_exists_def entity_exists_abs relation_exists_abs split: facet_target.splits)

lemma facet_payload_text_lookup:
  "facet_payload_text db t k =
     (case t of
        TargetWorld \<Rightarrow> map_option fc_payload (lookup facet_key (db_world_facets db) ((), key_text k, key_int k))
      | TargetEntity i \<Rightarrow> map_option fc_payload (lookup facet_key (db_entity_facets db) (into_bytes i, key_text k, key_int k))
      | TargetRelation i \<Rightarrow> map_option fc_payload (lookup facet_key (db_relation_facets db) (into_bytes i, key_text k, key_int k)))"
  by (simp add: facet_payload_text_def lookup_def split: facet_target.splits)

section \<open>Inserts\<close>

lemma abs_insert_entity:
  assumes "aw_entities (abs_db db) i = None"
  shows "abs_db (db\<lparr>db_entities := db_entities db @ [\<lparr>en_id = into_bytes i, en_schema_id = key_text k,
      en_schema_version = key_int k, en_created = p\<rparr>]\<rparr>) = (abs_db db)\<lparr>aw_entities := (aw_entities (abs_db db))(i \<mapsto> k)\<rparr>"
proof -
  have "lookup en_id (db_entities db) (into_bytes i) = None" using assms by (simp add: abs_db_def)
  then show ?thesis
    by (auto simp: abs_db_def fun_eq_iff table_simps facet_payload_text_lookup
        split: option.splits facet_target.splits)
qed

lemma abs_insert_relation:
  assumes "aw_relations (abs_db db) i = None"
  shows "abs_db (db\<lparr>db_relations := db_relations db @ [\<lparr>rl_id = into_bytes i, rl_schema_id = key_text k,
      rl_schema_version = key_int k, rl_from = into_bytes f, rl_to = into_bytes t, rl_created = p\<rparr>]\<rparr>) =
    (abs_db db)\<lparr>aw_relations := (aw_relations (abs_db db))(i \<mapsto> (k, f, t))\<rparr>"
proof -
  have "lookup rl_id (db_relations db) (into_bytes i) = None" using assms by (simp add: abs_db_def)
  then show ?thesis
    by (auto simp: abs_db_def fun_eq_iff table_simps facet_payload_text_lookup
        abs_relation_row_def split: option.splits facet_target.splits)
qed

lemma facet_key_row [simp]:
  "facet_key (facet_row_of X own f p) = (own, key_text (facet_schema f), key_int (facet_schema f))"
  by (simp add: facet_key_def facet_row_of_def)

lemma payload_facet_row [simp]: "fc_payload (facet_row_of X own f p) = json_text X (facet_payload f)"
  by (simp add: facet_row_of_def)

text \<open>The stored payload of one owner and schema.\<close>

definition facet_text :: "'owner facet_row list \<Rightarrow> 'owner \<Rightarrow> schema_key \<Rightarrow> string option" where
  "facet_text rows own k = map_option fc_payload (lookup facet_key rows (own, key_text k, key_int k))"

lemma facet_payload_text_rows:
  "facet_payload_text db t k =
     (case t of
        TargetWorld \<Rightarrow> facet_text (db_world_facets db) () k
      | TargetEntity i \<Rightarrow> facet_text (db_entity_facets db) (into_bytes i) k
      | TargetRelation i \<Rightarrow> facet_text (db_relation_facets db) (into_bytes i) k)"
  by (simp add: facet_payload_text_lookup facet_text_def split: facet_target.splits)

lemma upserted_payload:
  "facet_text (upsert_facet (facet_row_of X own f p) rows) own' k =
     (if own' = own \<and> k = facet_schema f then Some (json_text X (facet_payload f)) else facet_text rows own' k)"
  by (auto simp: facet_text_def lookup_upsert split: option.splits dest: key_columns_inject)

lemma deleted_payload:
  "facet_text (delete_facets (own, key_text s, key_int s) rows) own' k =
     (if own' = own \<and> k = s then None else facet_text rows own' k)"
  by (auto simp: facet_text_def lookup_delete_facets dest: key_columns_inject)

lemma abs_facets_only:
  assumes "\<And>t k. facet_payload_text db' t k = m (t, k)"
    and "db_entities db' = db_entities db" "db_relations db' = db_relations db"
      "db_grants db' = db_grants db" "db_grant_schemas db' = db_grant_schemas db"
  shows "abs_db db' = (abs_db db)\<lparr>aw_facets := m\<rparr>"
  using assms by (simp add: abs_db_def fun_eq_iff)

lemma set_facet_refines:
  assumes "set_facet X f p db = Inr db'"
  shows "abs_db db' = (abs_db db)\<lparr>aw_facets := (aw_facets (abs_db db))((facet_target f, facet_schema f) \<mapsto> json_text X (facet_payload f))\<rparr>"
proof (rule abs_facets_only)
  show "facet_payload_text db' t k = ((aw_facets (abs_db db))((facet_target f, facet_schema f) \<mapsto> json_text X (facet_payload f))) (t, k)" for t k
    using assms by (cases "facet_target f"; cases t)
      (auto simp: set_facet_def result_simps upsert_world_facet_def upsert_entity_facet_def
        upsert_relation_facet_def facet_payload_text_rows upserted_payload abs_db_def split: if_splits)
qed (use assms in \<open>auto simp: set_facet_def result_simps upsert_world_facet_def upsert_entity_facet_def
        upsert_relation_facet_def split: facet_target.splits if_splits\<close>)

lemma remove_facet_refines:
  assumes "remove_facet tgt s db = Inr db'"
  shows "abs_db db' = (abs_db db)\<lparr>aw_facets := (aw_facets (abs_db db))((tgt, s) := None)\<rparr>"
proof (rule abs_facets_only)
  show "facet_payload_text db' t k = ((aw_facets (abs_db db))((tgt, s) := None)) (t, k)" for t k
    using assms by (cases tgt; cases t)
      (auto simp: remove_facet_def facet_payload_text_rows deleted_payload abs_db_def split: if_splits)
qed (use assms in \<open>auto simp: remove_facet_def split: facet_target.splits if_splits\<close>)

section \<open>Deletes\<close>

lemma bytes_columns:
  assumes "length b = 16"
  shows "b = into_bytes i \<longleftrightarrow> from_bytes b = i"
  by (metis assms from_into_bytes into_from_bytes)

text \<open>Deleting the relations whose rows satisfy \<open>P\<close>, seen from outside.\<close>

lemma abs_delete_relations_refines:
  assumes rel: "relations_wf db" and fac: "facets_wf db"
    and R: "\<And>i r. lookup rl_id (db_relations db) (into_bytes i) = Some r \<Longrightarrow> R i \<longleftrightarrow> P r"
    and None_R: "\<And>i. lookup rl_id (db_relations db) (into_bytes i) = None \<Longrightarrow> \<not> R i"
  shows "abs_db (delete_relations P db) = abs_delete_relations R (abs_db db)"
proof -
  have dist: "distinct (map rl_id (db_relations db))" "distinct (map facet_key (db_relation_facets db))"
    using rel fac by (simp_all add: relations_wf_def facets_wf_def)
  have gone: "(\<exists>r \<in> set (db_relations db). P r \<and> rl_id r = into_bytes i) \<longleftrightarrow> R i" for i
  proof (cases "lookup rl_id (db_relations db) (into_bytes i)")
    case None
    then show ?thesis using None_R by (force simp: lookup_None)
  next
    case (Some row)
    then have "r \<in> set (db_relations db) \<and> rl_id r = into_bytes i \<longleftrightarrow> r = row" for r
      using lookup_Some [OF dist(1), of "into_bytes i" r] by auto
    then show ?thesis using R [OF Some] by metis
  qed
  have "lookup rl_id (filter (\<lambda>r. \<not> P r) (db_relations db)) (into_bytes i) =
      (if R i then None else lookup rl_id (db_relations db) (into_bytes i))" for i
    using R [of i] None_R [of i]
    by (cases "lookup rl_id (db_relations db) (into_bytes i)") (auto simp: lookup_filter [OF dist(1)])
  then have rels: "aw_relations (abs_db (delete_relations P db)) = keep (\<lambda>r _. \<not> R r) (aw_relations (abs_db db))"
    by (auto simp: abs_db_def delete_relations_def keep_def fun_eq_iff split: option.splits)
  have "lookup facet_key (filter (\<lambda>f. \<not> (\<exists>r \<in> set (db_relations db). P r \<and> rl_id r = fc_owner f)) (db_relation_facets db))
      (into_bytes i, key_text k, key_int k) =
      (if R i then None else lookup facet_key (db_relation_facets db) (into_bytes i, key_text k, key_int k))" for i k
    using gone [of i] lookup_Some_D [of facet_key "db_relation_facets db" "(into_bytes i, key_text k, key_int k)"]
    by (cases "lookup facet_key (db_relation_facets db) (into_bytes i, key_text k, key_int k)")
      (auto simp: lookup_filter [OF dist(2)] facet_key_def)
  then have facets: "aw_facets (abs_db (delete_relations P db)) =
      keep (\<lambda>(t, _) _. case t of TargetRelation r \<Rightarrow> \<not> R r | _ \<Rightarrow> True) (aw_facets (abs_db db))"
    by (auto simp: abs_db_def delete_relations_def keep_def fun_eq_iff facet_payload_text_lookup
        split: option.splits facet_target.splits)
  show ?thesis
    using rels facets by (simp add: abs_delete_relations_def abs_db_def delete_relations_def)
qed

lemma abs_delete_grants_refines:
  assumes gr: "grants_wf db"
    and G: "\<And>i r. lookup gr_id (db_grants db) (into_bytes i) = Some r \<Longrightarrow> G i (abs_grant_row (db_grant_schemas db) r) \<longleftrightarrow> \<not> Q r"
  shows "abs_db (delete_grants Q db) = (abs_db db)\<lparr>aw_grants := keep G (aw_grants (abs_db db))\<rparr>"
proof -
  have dist: "distinct (map gr_id (db_grants db))" using gr by (simp add: grants_wf_def)
  define gs where "gs = filter (\<lambda>s. \<not> (\<exists>g \<in> set (db_grants db). Q g \<and> gr_id g = gs_grant s)) (db_grant_schemas db)"
  have same: "abs_grant_row gs r = abs_grant_row (db_grant_schemas db) r" if "r \<in> set (db_grants db)" "\<not> Q r" for r
  proof -
    have "\<not> (\<exists>g \<in> set (db_grants db). Q g \<and> gr_id g = gr_id r)"
      using that dist by (metis (no_types, lifting) distinct_map inj_on_def)
    then show ?thesis by (simp add: abs_grant_row_def gs_def grant_schema_of_def)
  qed
  have "map_option (abs_grant_row gs) (lookup gr_id (filter (\<lambda>g. \<not> Q g) (db_grants db)) (into_bytes i)) =
      keep G (aw_grants (abs_db db)) i" for i
    using G [of i] lookup_Some_D [of gr_id "db_grants db" "into_bytes i"] same
    by (cases "lookup gr_id (db_grants db) (into_bytes i)") (auto simp: lookup_filter [OF dist] keep_def abs_db_def)
  then show ?thesis by (simp add: abs_db_def delete_grants_def gs_def fun_eq_iff facet_payload_text_def
      split: facet_target.splits)
qed

lemma abs_delete_entity_refines:
  assumes wf: "tables_wf n db" and ex: "entity_exists db i"
  shows "abs_db (snd (delete_entity_row (into_bytes i) db)) = abs_delete_entity i (abs_db db)"
proof -
  let ?b = "into_bytes i"
  define db1 where "db1 = db\<lparr>db_entities := filter (\<lambda>r. en_id r \<noteq> ?b) (db_entities db),
      db_entity_facets := filter (\<lambda>f. fc_owner f \<noteq> ?b) (db_entity_facets db)\<rparr>"
  define db2 where "db2 = delete_relations (\<lambda>r. rl_from r = ?b \<or> rl_to r = ?b) db"
  define db3 where "db3 = delete_grants (\<lambda>g. gr_actor g = ?b) db2"
  have w: "relations_wf db" "facets_wf db" "grants_wf db" using wf by (simp_all add: tables_wf_def)
  have "abs_db db2 = abs_delete_relations (\<lambda>r. \<exists>v. aw_relations (abs_db db) r = Some v \<and> touches i v) (abs_db db)"
    unfolding db2_def
  proof (rule abs_delete_relations_refines [OF w(1,2)])
    fix r :: relation_id and row assume row: "lookup rl_id (db_relations db) (into_bytes r) = Some row"
    then have "length (rl_from row) = 16" "length (rl_to row) = 16"
      using w(1) lookup_Some_D [OF row] by (auto simp: relations_wf_def)
    then show "(\<exists>v. aw_relations (abs_db db) r = Some v \<and> touches i v) \<longleftrightarrow> rl_from row = ?b \<or> rl_to row = ?b"
      using row by (simp add: abs_db_def abs_relation_row_def touches_def bytes_columns)
  qed (simp add: abs_db_def)
  moreover have "abs_db db3 = (abs_db db2)\<lparr>aw_grants := keep (\<lambda>_ g. ag_actor g \<noteq> i) (aw_grants (abs_db db2))\<rparr>"
    unfolding db3_def
  proof (rule abs_delete_grants_refines)
    show g2: "grants_wf db2" using w(3) by (simp add: db2_def)
    fix j :: control_grant_id and row assume row: "lookup gr_id (db_grants db2) (into_bytes j) = Some row"
    then have "length (gr_actor row) = 16" using g2 lookup_Some_D [OF row] by (auto simp: grants_wf_def)
    then show "ag_actor (abs_grant_row (db_grant_schemas db2) row) \<noteq> i \<longleftrightarrow> \<not> gr_actor row = ?b"
      by (simp add: abs_grant_row_def bytes_columns)
  qed
  moreover have "snd (delete_entity_row ?b db) = db3\<lparr>db_entities := db_entities db1, db_entity_facets := db_entity_facets db1\<rparr>"
    using ex by (simp add: delete_entity_row_def entity_exists_def db1_def db2_def db3_def
        delete_relations_def delete_grants_def)
  moreover have "db_entities db3 = db_entities db" "db_entity_facets db3 = db_entity_facets db"
    by (simp_all add: db3_def db2_def delete_relations_def delete_grants_def)
  moreover have "abs_db (d\<lparr>db_entities := db_entities db1, db_entity_facets := db_entity_facets db1\<rparr>) =
      (abs_db d)\<lparr>aw_entities := (aw_entities (abs_db d))(i := None),
        aw_facets := keep (\<lambda>(t, _) _. t \<noteq> TargetEntity i) (aw_facets (abs_db d))\<rparr>"
    if d: "db_entities d = db_entities db" "db_entity_facets d = db_entity_facets db" for d
  proof -
    have "lookup en_id (db_entities db1) (into_bytes j) = (if j = i then None else lookup en_id (db_entities db) (into_bytes j))" for j
      unfolding lookup_def db1_def by (auto intro: find_filter_imp find_filter_disj)
    moreover have "lookup facet_key (db_entity_facets db1) (into_bytes j, k) =
        (if j = i then None else lookup facet_key (db_entity_facets db) (into_bytes j, k))" for j k
      unfolding lookup_def db1_def by (auto simp: facet_key_def intro: find_filter_imp find_filter_disj)
    ultimately show ?thesis
      by (auto simp: abs_db_def fun_eq_iff keep_def facet_payload_text_lookup d split: facet_target.splits option.splits)
  qed
  ultimately show ?thesis by (simp add: abs_delete_entity_def Let_def)
qed

section \<open>Grants\<close>

lemma insert_grant_schemas_simps:
  "insert_grant_schemas g [] db = Inr db"
  "insert_grant_schemas g (k # ks) db =
     and_then (sql (insert_grant_schema_row (grant_schema_of (into_bytes g) k) db)) (insert_grant_schemas g ks)"
  by (simp_all add: insert_grant_schemas_def [abs_def] grant_schema_of_def)

lemma insert_grant_schemas_rows:
  "insert_grant_schemas g ks db = Inr db' \<Longrightarrow>
     db' = db\<lparr>db_grant_schemas := db_grant_schemas db @ map (grant_schema_of (into_bytes g)) ks\<rparr>"
proof (induction ks arbitrary: db)
  case (Cons k ks)
  then obtain db1 where one: "insert_grant_schema_row (grant_schema_of (into_bytes g) k) db = Some db1"
    and rest: "insert_grant_schemas g ks db1 = Inr db'"
    by (auto simp: result_simps insert_grant_schemas_simps)
  from one have "db1 = db\<lparr>db_grant_schemas := db_grant_schemas db @ [grant_schema_of (into_bytes g) k]\<rparr>"
    by (simp add: insert_grant_schema_row_def)
  with Cons.IH [OF rest] show ?case by simp
qed (simp add: insert_grant_schemas_simps)

text \<open>The key of a schema row a foreign key may name.\<close>

definition schema_stored :: "world_db \<Rightarrow> schema_key \<Rightarrow> bool" where
  "schema_stored db k \<longleftrightarrow> schema_exists db (key_text k) (key_int k) \<and> key_int k > 0"

lemma insert_grant_schemas_ok:
  assumes "\<forall>k \<in> set ks. schema_stored db k" and "grant_row_exists db (into_bytes g)"
    and "distinct ks" and "\<forall>k \<in> set ks. grant_schema_of (into_bytes g) k \<notin> set (db_grant_schemas db)"
  shows "\<exists>db'. insert_grant_schemas g ks db = Inr db'"
  using assms
proof (induction ks arbitrary: db)
  case (Cons k ks)
  define db1 where "db1 = db\<lparr>db_grant_schemas := db_grant_schemas db @ [grant_schema_of (into_bytes g) k]\<rparr>"
  have one: "insert_grant_schema_row (grant_schema_of (into_bytes g) k) db = Some db1"
    using Cons.prems by (simp add: insert_grant_schema_row_def schema_stored_def grant_schema_of_def db1_def)
  then have "\<forall>k \<in> set ks. schema_stored db1 k" "grant_row_exists db1 (into_bytes g)"
    "\<forall>k \<in> set ks. grant_schema_of (into_bytes g) k \<notin> set (db_grant_schemas db1)"
    using Cons.prems by (auto simp: db1_def schema_stored_def)
  with Cons.IH [of db1] Cons.prems(3) one show ?case by (simp add: insert_grant_schemas_simps)
qed (simp add: insert_grant_schemas_simps)

definition grant_storable :: "world_db \<Rightarrow> control_grant \<Rightarrow> bool" where
  "grant_storable db g \<longleftrightarrow>
     (case grant_valid_through g of None \<Rightarrow> True | Some v \<Rightarrow> uint v < 2 ^ 63) \<and>
     (case exact_schemas (grant_scope g) of None \<Rightarrow> True
      | Some ks \<Rightarrow> distinct ks \<and> (\<forall>k \<in> set ks. schema_stored db k))"

definition grant_row_of :: "control_grant \<Rightarrow> int \<Rightarrow> grant_row" where
  "grant_row_of g position =
     \<lparr>gr_id = into_bytes (grant_id g), gr_principal = into_bytes (grant_principal g),
      gr_actor = into_bytes (grant_actor_entity g),
      gr_scope_kind = (case grant_scope g of AnyCommand \<Rightarrow> 1 | ExactSchemas _ \<Rightarrow> 2),
      gr_valid_through = map_option uint (grant_valid_through g), gr_created = position\<rparr>"

lemma grant_control_result:
  assumes ex: "entity_exists db (grant_actor_entity g)" and new: "\<not> grant_row_exists db (into_bytes (grant_id g))"
    and ok: "grant_storable db g" and p: "commit_exists db p" and wf: "grants_wf db"
  shows "grant_control g p db = Inr (db\<lparr>db_grants := db_grants db @ [grant_row_of g p],
    db_grant_schemas := db_grant_schemas db @
      (case exact_schemas (grant_scope g) of None \<Rightarrow> [] | Some ks \<Rightarrow> map (grant_schema_of (into_bytes (grant_id g))) ks)\<rparr>)"
proof -
  define db1 where "db1 = db\<lparr>db_grants := db_grants db @ [grant_row_of g p]\<rparr>"
  have valid: "transpose_map position_to_sql (grant_valid_through g) = Inr (map_option uint (grant_valid_through g))"
    using ok by (auto simp: grant_storable_def transpose_map_Inr position_to_sql_Inr split: option.splits)
  have ins: "insert_grant_row (grant_row_of g p) db = Some db1"
    using ex new p ok by (auto simp: insert_grant_row_def grant_row_of_def entity_exists_def db1_def
        split: control_scope.splits option.splits)
  have fresh: "grant_schema_of (into_bytes (grant_id g)) k \<notin> set (db_grant_schemas db)" for k
    using wf new by (auto simp: grants_wf_def grant_schema_of_def)
  show ?thesis
  proof (cases "exact_schemas (grant_scope g)")
    case None
    then show ?thesis
      using ins valid ex new by (simp add: grant_control_def db1_def flip: grant_row_of_def)
  next
    case (Some ks)
    then have "\<forall>k \<in> set ks. schema_stored db1 k" "grant_row_exists db1 (into_bytes (grant_id g))" "distinct ks"
      "\<forall>k \<in> set ks. grant_schema_of (into_bytes (grant_id g)) k \<notin> set (db_grant_schemas db1)"
      using ok fresh by (auto simp: grant_storable_def db1_def schema_stored_def schema_exists_def grant_row_exists_def grant_row_of_def)
    then obtain db2 where "insert_grant_schemas (grant_id g) ks db1 = Inr db2"
      using insert_grant_schemas_ok by blast
    with insert_grant_schemas_rows [OF this] show ?thesis
      using ins valid ex new Some by (simp add: grant_control_def db1_def flip: grant_row_of_def)
  qed
qed

lemma abs_insert_grant:
  assumes new: "\<not> grant_row_exists db (into_bytes (grant_id g))" and wf: "grants_wf db"
  shows "abs_db (db\<lparr>db_grants := db_grants db @ [grant_row_of g p],
      db_grant_schemas := db_grant_schemas db @
        (case exact_schemas (grant_scope g) of None \<Rightarrow> [] | Some ks \<Rightarrow> map (grant_schema_of (into_bytes (grant_id g))) ks)\<rparr>) =
    (abs_db db)\<lparr>aw_grants := (aw_grants (abs_db db))(grant_id g \<mapsto> abs_grant_of g)\<rparr>"
proof -
  define more where "more = (case exact_schemas (grant_scope g) of None \<Rightarrow> []
      | Some ks \<Rightarrow> map (grant_schema_of (into_bytes (grant_id g))) ks)"
  have none: "lookup gr_id (db_grants db) (into_bytes (grant_id g)) = None"
    using new by (simp add: grant_row_exists_def lookup_None)
  have fresh: "grant_schema_of (into_bytes (grant_id g)) k \<notin> set (db_grant_schemas db)" for k
    using wf new by (auto simp: grants_wf_def grant_schema_of_def)
  have old: "abs_grant_row (db_grant_schemas db @ more) r = abs_grant_row (db_grant_schemas db) r"
    if "gr_id r \<noteq> into_bytes (grant_id g)" for r
    using that by (auto simp: abs_grant_row_def more_def split: option.splits)
  have "abs_grant_row (db_grant_schemas db @ more) (grant_row_of g p) = abs_grant_of g"
    using fresh by (cases "grant_scope g")
      (auto simp: abs_grant_row_def grant_row_of_def more_def abs_grant_of_def exact_schemas_def)
  moreover have "abs_grant_row (db_grant_schemas db @ more) r = abs_grant_row (db_grant_schemas db) r"
    if "grant_id g \<noteq> i" "lookup gr_id (db_grants db) (into_bytes i) = Some r" for i r
    using that old lookup_Some_D [OF that(2)] by simp
  moreover have "gr_id (grant_row_of g p) = into_bytes (grant_id g)" by (simp add: grant_row_of_def)
  ultimately show ?thesis
    unfolding more_def [symmetric] using none
    by (auto simp: abs_db_def fun_eq_iff table_simps facet_payload_text_def split: option.splits facet_target.splits)
qed

section \<open>The refinement\<close>

text \<open>
  What a validated mutation guarantees: the schemas it names are stored, and a bounded grant fits
  the integer column.
\<close>

definition mutation_storable :: "world_db \<Rightarrow> world_mutation \<Rightarrow> bool" where
  "mutation_storable db m =
     (case m of
        CreateEntity e \<Rightarrow> schema_stored db (entity_schema e)
      | CreateRelation r \<Rightarrow> schema_stored db (relation_schema r)
      | SetFacet f \<Rightarrow> schema_stored db (facet_schema f)
      | GrantControl g \<Rightarrow> grant_storable db g
      | _ \<Rightarrow> True)"

lemma set_facet_ok:
  assumes "schema_stored db (facet_schema f)" and "commit_exists db p" and "target_exists (abs_db db) (facet_target f)"
  shows "\<exists>db'. set_facet X f p db = Inr db'"
  using assms by (auto simp: set_facet_def target_exists_abs schema_stored_def upsert_world_facet_def
      upsert_entity_facet_def upsert_relation_facet_def facet_columns_ok_def facet_row_of_def
      entity_exists_def relation_exists_def guarded_def split: facet_target.splits)

lemma count_zero: "length (filter P xs) = 0 \<longleftrightarrow> (\<forall>x \<in> set xs. \<not> P x)"
  by (simp add: filter_empty_conv)

lemma count_deleted:
  "length (filter (\<lambda>r. en_id r = b) (db_entities db)) = 0 \<longleftrightarrow> \<not> entity_row_exists db b"
  "length (filter (\<lambda>r. rl_id r = b) (db_relations db)) = 0 \<longleftrightarrow> \<not> relation_row_exists db b"
  "length (filter (\<lambda>r. gr_id r = b) (db_grants db)) = 0 \<longleftrightarrow> \<not> grant_row_exists db b"
  unfolding count_zero by (auto simp: entity_row_exists_def relation_row_exists_def grant_row_exists_def)

lemma apply_mutation_simulates:
  assumes wf: "tables_wf n db" and p: "commit_exists db p" and ok: "mutation_storable db m"
  shows "map_ok abs_db (apply_mutation X m p db) = world (abs_apply X m (abs_db db))"
proof (cases m)
  case (CreateEntity e)
  then show ?thesis
    using p ok abs_insert_entity [of db "entity_id e"]
    by (cases "aw_entities (abs_db db) (entity_id e)")
      (simp_all add: apply_mutation_def abs_apply_def mutation_storable_def schema_stored_def
        insert_entity_row_def guarded_def exists_abs)
next
  case (DeleteEntity i)
  then show ?thesis
    using abs_delete_entity_refines [OF wf, of i] count_deleted(1) [of "into_bytes i" db]
    by (auto simp: apply_mutation_def abs_apply_def delete_entity_row_def exists_abs)
next
  case (CreateRelation r)
  then show ?thesis
    using p ok abs_insert_relation [of db "relation_id r"]
    by (cases "aw_relations (abs_db db) (relation_id r)"; cases "aw_entities (abs_db db) (relation_from r)";
        cases "aw_entities (abs_db db) (relation_to r)")
      (simp_all add: apply_mutation_def abs_apply_def mutation_storable_def schema_stored_def ensure_relation_endpoint_def
        insert_relation_row_def guarded_def exists_abs)
next
  case (DeleteRelation r)
  have w: "relations_wf db" "facets_wf db" using wf by (simp_all add: tables_wf_def)
  have "abs_db (delete_relations (\<lambda>row. rl_id row = into_bytes r) db) =
      abs_delete_relations (\<lambda>r'. r' = r) (abs_db db)" if "relation_exists db r"
    using that by (intro abs_delete_relations_refines w)
      (auto simp: relation_exists_def relation_row_exists_def lookup_None dest!: lookup_Some_D)
  with DeleteRelation show ?thesis
    using count_deleted(2) [of "into_bytes r" db]
    by (auto simp: apply_mutation_def abs_apply_def delete_relation_row_def exists_abs)
next
  case (SetFacet f)
  show ?thesis
  proof (cases "target_exists (abs_db db) (facet_target f)")
    case True
    then obtain db' where "set_facet X f p db = Inr db'"
      using set_facet_ok [of db f p X] p ok SetFacet by (auto simp: mutation_storable_def)
    with set_facet_refines [OF this] True SetFacet show ?thesis by (simp add: apply_mutation_def abs_apply_def)
  next
    case False
    then have "set_facet X f p db = Inl (World FacetTargetNotFound)"
      by (auto simp: target_exists_abs set_facet_def split: facet_target.splits)
    with False SetFacet show ?thesis by (simp add: apply_mutation_def abs_apply_def)
  qed
next
  case (RemoveFacet t k)
  show ?thesis
  proof (cases "target_exists (abs_db db) t")
    case True
    then obtain db' where "remove_facet t k db = Inr db'"
      by (auto simp: target_exists_abs remove_facet_def split: facet_target.splits)
    with remove_facet_refines [OF this] True RemoveFacet show ?thesis by (simp add: apply_mutation_def abs_apply_def)
  next
    case False
    then have "remove_facet t k db = Inl (World FacetTargetNotFound)"
      by (auto simp: target_exists_abs remove_facet_def split: facet_target.splits)
    with False RemoveFacet show ?thesis by (simp add: apply_mutation_def abs_apply_def)
  qed
next
  case (GrantControl g)
  have w: "grants_wf db" "grant_storable db g" using wf ok GrantControl by (simp_all add: tables_wf_def mutation_storable_def)
  show ?thesis
  proof (cases "entity_exists db (grant_actor_entity g) \<and> \<not> grant_row_exists db (into_bytes (grant_id g))")
    case True
    then show ?thesis
      using grant_control_result [of db g p] abs_insert_grant [of db g p] w p GrantControl
      by (simp add: apply_mutation_def abs_apply_def exists_abs)
  next
    case False
    then show ?thesis
      using GrantControl by (auto simp: apply_mutation_def abs_apply_def grant_control_def exists_abs)
  qed
next
  case (RevokeControl g)
  have w: "grants_wf db" using wf by (simp add: tables_wf_def)
  have "abs_db (delete_grants (\<lambda>r. gr_id r = into_bytes g) db) =
      (abs_db db)\<lparr>aw_grants := keep (\<lambda>i _. i \<noteq> g) (aw_grants (abs_db db))\<rparr>"
    by (rule abs_delete_grants_refines [OF w]) (auto dest!: lookup_Some_D)
  moreover have "keep (\<lambda>i _. i \<noteq> g) f = f(g := None)" for f :: "control_grant_id \<rightharpoonup> abs_grant"
    by (auto simp: keep_def split: option.splits)
  ultimately show ?thesis
    using count_deleted(3) [of "into_bytes g" db] RevokeControl
    by (cases "grant_row_exists db (into_bytes g)")
      (simp_all add: apply_mutation_def abs_apply_def delete_grant_row_def exists_abs)
qed

text \<open>
  Every mutation refines its abstract transition: on a well-formed database, applying it gives
  the tables of the abstract result, and fails with exactly the abstract error. In particular the
  cascades of a deleted entity or relation remove what the abstract world says they remove.
\<close>

theorem apply_mutation_refines:
  "tables_wf n db \<Longrightarrow> commit_exists db p \<Longrightarrow> mutation_storable db m \<Longrightarrow>
     map_ok abs_db (apply_mutation X m p db) = world (abs_apply X m (abs_db db))"
  by (rule apply_mutation_simulates)

end
