(* ===== verification/Sql_Reads.thy ===== *)
theory Sql_Reads
  imports Sql_Refinement
begin

text \<open>
  The read side answers from the abstract world: single-row loads, the authority query, and the
  absence of dangling references in what a reader can see.
\<close>

section \<open>Stored keys are canonical\<close>

lemma schema_exists_canonical:
  assumes "schemas_wf X db" and "schema_exists db i v"
  shows "canonical_key (columns_key i v) \<and> key_text (columns_key i v) = i \<and> key_int (columns_key i v) = v"
proof -
  from assms obtain r d where r: "sc_id r = i" "sc_version r = v" "decode_row X r = Inr d"
    by (auto simp: schema_exists_def schemas_wf_rows row_wf_def)
  have "key_columns (definition_key d) = (i, v)" using decode_row_key [OF r(3)] r(1,2) by (simp add: row_key_def)
  then have "key_text (definition_key d) = i" "key_int (definition_key d) = v" by (simp_all add: key_columns_def)
  moreover have "columns_key i v = definition_key d" using calculation columns_key_of_key by blast
  ultimately show ?thesis using decode_row_canonical [OF r(3)] by simp
qed

lemma decode_stored_key:
  "schemas_wf X db \<Longrightarrow> schema_exists db i v \<Longrightarrow> decode_schema_key i v = Inr (columns_key i v)"
  using schema_exists_canonical unfolding decode_schema_key_Inr by blast

section \<open>Loads\<close>

lemma load_entity_lookup:
  "load_entity db i = transpose_map
     (\<lambda>r. and_then (decode_schema_key (en_schema_id r) (en_schema_version r)) (\<lambda>k. Inr \<lparr>entity_id = i, entity_schema = k\<rparr>))
     (lookup en_id (db_entities db) (into_bytes i))"
proof (cases "lookup en_id (db_entities db) (into_bytes i)")
  case (Some r)
  then have "en_id r = into_bytes i" using lookup_Some_D by fast
  with Some show ?thesis by (simp add: load_entity_def lookup_def entity_id_from_blob_def)
qed (simp add: load_entity_def lookup_def)

lemma load_relation_lookup:
  "load_relation db i = transpose_map
     (\<lambda>r. and_then (decode_schema_key (rl_schema_id r) (rl_schema_version r)) (\<lambda>k.
          and_then (entity_id_from_blob (rl_from r)) (\<lambda>f.
          and_then (entity_id_from_blob (rl_to r)) (\<lambda>t.
          Inr \<lparr>relation_id = i, relation_schema = k, relation_from = f, relation_to = t\<rparr>))))
     (lookup rl_id (db_relations db) (into_bytes i))"
proof (cases "lookup rl_id (db_relations db) (into_bytes i)")
  case (Some r)
  then have "rl_id r = into_bytes i" using lookup_Some_D by fast
  with Some show ?thesis by (simp add: load_relation_def lookup_def relation_id_from_blob_def)
qed (simp add: load_relation_def lookup_def)

lemma db_wf_parts:
  assumes "db_wf X db"
  shows "schemas_wf X db" "entities_wf db" "relations_wf db" "grants_wf db" "facets_wf db" "logs_wf db" "jobs_wf db"
  using assms by (auto simp: db_wf_def tables_wf_def)

lemma load_entity_abs:
  assumes "db_wf X db"
  shows "load_entity db i =
    Inr (map_option (\<lambda>k. \<lparr>entity_id = i, entity_schema = k\<rparr>) (aw_entities (abs_db db) i))"
proof (cases "lookup en_id (db_entities db) (into_bytes i)")
  case (Some r)
  then have "schema_exists db (en_schema_id r) (en_schema_version r)"
    using db_wf_parts(2) [OF assms] lookup_Some_D [OF Some] by (auto simp: entities_wf_def)
  with Some decode_stored_key [OF db_wf_parts(1) [OF assms]] show ?thesis
    by (simp add: load_entity_lookup abs_db_def)
qed (simp add: load_entity_lookup abs_db_def)

lemma load_relation_abs:
  assumes "db_wf X db"
  shows "load_relation db i =
    Inr (map_option (\<lambda>(k, f, t). \<lparr>relation_id = i, relation_schema = k, relation_from = f, relation_to = t\<rparr>)
      (aw_relations (abs_db db) i))"
proof (cases "lookup rl_id (db_relations db) (into_bytes i)")
  case (Some r)
  then have "schema_exists db (rl_schema_id r) (rl_schema_version r)" "length (rl_from r) = 16" "length (rl_to r) = 16"
    using db_wf_parts(3) [OF assms] lookup_Some_D [OF Some] by (auto simp: relations_wf_def)
  with Some decode_stored_key [OF db_wf_parts(1) [OF assms]] show ?thesis
    by (simp add: load_relation_lookup abs_db_def abs_relation_row_def entity_id_from_blob_def id_from_blob_def
        fixed_id_bytes_def)
qed (simp add: load_relation_lookup abs_db_def)

lemma load_facet_abs:
  "load_facet X db t k = transpose_map
     (\<lambda>payload. map_ok (\<lambda>v. \<lparr>facet_target = t, facet_schema = k, facet_payload = v\<rparr>)
        (ok_or Json_Error (json_parse X payload))) (aw_facets (abs_db db) (t, k))"
proof -
  have "and_then m (\<lambda>v. Inr (f v)) = map_ok f m" for m :: "storage_error + json" and f :: "json \<Rightarrow> facet_record"
    by (cases m) simp_all
  then show ?thesis by (simp add: load_facet_def abs_db_def)
qed

text \<open>
  C30. The read interface shows the abstract world: on a well-formed database \<open>load_entity\<close> and
  \<open>load_relation\<close> never fail and return exactly the abstract record of the identity, and
  \<open>load_facet\<close> returns what its stored payload parses to.
\<close>

theorem loads_read_abs_world:
  assumes "db_wf X db"
  shows "load_entity db i =
      Inr (map_option (\<lambda>k. \<lparr>entity_id = i, entity_schema = k\<rparr>) (aw_entities (abs_db db) i)) \<and>
    load_relation db r =
      Inr (map_option (\<lambda>(k, f, t). \<lparr>relation_id = r, relation_schema = k, relation_from = f, relation_to = t\<rparr>)
        (aw_relations (abs_db db) r)) \<and>
    load_facet X db t k = transpose_map
      (\<lambda>payload. map_ok (\<lambda>v. \<lparr>facet_target = t, facet_schema = k, facet_payload = v\<rparr>)
         (ok_or Json_Error (json_parse X payload))) (aw_facets (abs_db db) (t, k))"
  using load_entity_abs [OF assms] load_relation_abs [OF assms] load_facet_abs by simp

section \<open>Authority\<close>

lemma abs_grants_row:
  assumes "grants_wf db"
  shows "(\<exists>i g. aw_grants (abs_db db) i = Some g \<and> P g) \<longleftrightarrow>
    (\<exists>r \<in> set (db_grants db). P (abs_grant_row (db_grant_schemas db) r))"
proof
  assume "\<exists>i g. aw_grants (abs_db db) i = Some g \<and> P g"
  then show "\<exists>r \<in> set (db_grants db). P (abs_grant_row (db_grant_schemas db) r)"
    by (auto simp: abs_db_def dest: lookup_Some_D)
next
  assume "\<exists>r \<in> set (db_grants db). P (abs_grant_row (db_grant_schemas db) r)"
  then obtain r where r: "r \<in> set (db_grants db)" "P (abs_grant_row (db_grant_schemas db) r)" by blast
  have dist: "distinct (map gr_id (db_grants db))" and len: "length (gr_id r) = 16"
    using assms r(1) by (simp_all add: grants_wf_def)
  have "lookup gr_id (db_grants db) (into_bytes (from_bytes (gr_id r) :: control_grant_id)) = Some r"
    using r(1) by (simp add: lookup_Some [OF dist] into_from_bytes [OF len])
  with r(2) show "\<exists>i g. aw_grants (abs_db db) i = Some g \<and> P g"
    by (auto simp: abs_db_def intro: exI [of _ "from_bytes (gr_id r)"])
qed

lemma principal_can_control_abs:
  assumes wf: "db_wf X db" and pos: "uint w < 2 ^ 63"
  shows "principal_can_control db p e k w = Inr (abs_can_control (abs_db db) p e k (uint w))"
proof -
  have gr: "grants_wf db" using wf by (rule db_wf_parts)
  have row: "gr_principal r = into_bytes p \<and> gr_actor r = into_bytes e \<and>
        (case gr_valid_through r of None \<Rightarrow> True | Some v \<Rightarrow> v \<ge> uint w) \<and>
        (gr_scope_kind r = 1 \<or> gr_scope_kind r = 2 \<and>
           list_ex (\<lambda>s. gs_grant s = gr_id r \<and> gs_schema_id s = key_text k \<and> gs_schema_version s = key_int k) (db_grant_schemas db))
      \<longleftrightarrow> (let g = abs_grant_row (db_grant_schemas db) r in
            ag_principal g = p \<and> ag_actor g = e \<and>
            (case ag_valid g of None \<Rightarrow> True | Some v \<Rightarrow> uint w \<le> v) \<and>
            (case ag_scope g of None \<Rightarrow> True | Some ks \<Rightarrow> k \<in> ks))"
    if "r \<in> set (db_grants db)" for r
  proof -
    have r: "length (gr_principal r) = 16" "length (gr_actor r) = 16" "gr_scope_kind r \<in> {1, 2}"
      using gr that by (auto simp: grants_wf_def)
    have "list_ex (\<lambda>s. gs_grant s = gr_id r \<and> gs_schema_id s = key_text k \<and> gs_schema_version s = key_int k) (db_grant_schemas db)
        \<longleftrightarrow> grant_schema_of (gr_id r) k \<in> set (db_grant_schemas db)"
    proof -
      have "gs_grant s = gr_id r \<and> gs_schema_id s = key_text k \<and> gs_schema_version s = key_int k \<longleftrightarrow>
          s = grant_schema_of (gr_id r) k" for s
        by (cases s) (simp add: grant_schema_of_def)
      then show ?thesis by (auto simp: list_ex_iff)
    qed
    with r show ?thesis by (auto simp: abs_grant_row_def bytes_columns Let_def)
  qed
  have "abs_can_control (abs_db db) p e k (uint w) \<longleftrightarrow> (\<exists>r \<in> set (db_grants db).
      (let g = abs_grant_row (db_grant_schemas db) r in ag_principal g = p \<and> ag_actor g = e \<and>
         (case ag_valid g of None \<Rightarrow> True | Some v \<Rightarrow> uint w \<le> v) \<and>
         (case ag_scope g of None \<Rightarrow> True | Some ks \<Rightarrow> k \<in> ks)))"
    unfolding abs_can_control_def Let_def by (rule abs_grants_row [OF gr])
  also have "\<dots> \<longleftrightarrow> (\<exists>r \<in> set (db_grants db). gr_principal r = into_bytes p \<and> gr_actor r = into_bytes e \<and>
        (case gr_valid_through r of None \<Rightarrow> True | Some v \<Rightarrow> v \<ge> uint w) \<and>
        (gr_scope_kind r = 1 \<or> gr_scope_kind r = 2 \<and>
           list_ex (\<lambda>s. gs_grant s = gr_id r \<and> gs_schema_id s = key_text k \<and> gs_schema_version s = key_int k) (db_grant_schemas db)))"
    by (rule bex_cong [OF refl]) (rule row [symmetric])
  finally show ?thesis
    using pos by (simp add: principal_can_control_def position_to_sql_def i64_try_from_u64_def list_ex_iff)
qed

text \<open>
  C38. The authority query decides exactly the abstract relation: a principal may act as an entity
  with a command schema at a position when some current grant names them both, has not expired and
  covers the schema.
\<close>

theorem principal_can_control_iff:
  "db_wf X db \<Longrightarrow> uint w < 2 ^ 63 \<Longrightarrow>
     principal_can_control db p e k w = Inr (abs_can_control (abs_db db) p e k (uint w))"
  by (rule principal_can_control_abs)

section \<open>No dangling references\<close>

text \<open>
  Readers never see a dangling reference: in the world of a well-formed database every relation
  has both its entities, every facet its owner, and every control grant the entity it lends.
\<close>

theorem abs_world_closed:
  assumes "db_wf X db"
  shows "abs_wf (abs_db db)"
proof -
  note wf = db_wf_parts [OF assms]
  have ent: "aw_entities (abs_db db) (from_bytes b) \<noteq> None" if "entity_row_exists db b" "length b = 16" for b
    using that exists_abs(4) [of db "from_bytes b"] by (simp add: into_from_bytes)
  have "aw_entities (abs_db db) f \<noteq> None \<and> aw_entities (abs_db db) t \<noteq> None"
    if asm: "aw_relations (abs_db db) r = Some (k, f, t)" for r k f t
  proof -
    obtain row where lk: "lookup rl_id (db_relations db) (into_bytes r) = Some row" and row: "abs_relation_row row = (k, f, t)"
      using asm by (auto simp: abs_db_def)
    have "f = from_bytes (rl_from row)" "t = from_bytes (rl_to row)" using row by (simp_all add: abs_relation_row_def)
    moreover have "entity_row_exists db (rl_from row)" "entity_row_exists db (rl_to row)"
      "length (rl_from row) = 16" "length (rl_to row) = 16"
      using wf(3) lookup_Some_D [OF lk] by (auto simp: relations_wf_def)
    ultimately show ?thesis using ent by metis
  qed
  moreover have "target_exists (abs_db db) t" if asm: "aw_facets (abs_db db) (t, k) = Some s" for t k s
  proof (cases t)
    case (TargetEntity i)
    then obtain row where "row \<in> set (db_entity_facets db)" "fc_owner row = into_bytes i"
      using asm by (auto simp: abs_db_def facet_payload_text_lookup facet_key_def dest!: lookup_Some_D)
    then have "entity_row_exists db (into_bytes i)" using wf(5) by (auto simp: facets_wf_def)
    then show ?thesis by (simp add: TargetEntity target_exists_abs entity_exists_def)
  next
    case (TargetRelation i)
    then obtain row where "row \<in> set (db_relation_facets db)" "fc_owner row = into_bytes i"
      using asm by (auto simp: abs_db_def facet_payload_text_lookup facet_key_def dest!: lookup_Some_D)
    then have "relation_row_exists db (into_bytes i)" using wf(5) by (auto simp: facets_wf_def)
    then show ?thesis by (simp add: TargetRelation target_exists_abs relation_exists_def)
  qed (simp add: target_exists_def)
  moreover have "aw_entities (abs_db db) (ag_actor g) \<noteq> None" if asm: "aw_grants (abs_db db) i = Some g" for i g
  proof -
    obtain row where "row \<in> set (db_grants db)" "ag_actor g = from_bytes (gr_actor row)"
      using asm by (auto simp: abs_db_def abs_grant_row_def dest!: lookup_Some_D)
    then show ?thesis using wf(4) ent by (auto simp: grants_wf_def)
  qed
  ultimately show ?thesis unfolding abs_wf_def by blast
qed

end
