(* ===== verification/Sql_Outbox.thy ===== *)
theory Sql_Outbox
  imports Sql_Reads
begin

text \<open>
  The durable effect outbox (\<open>crates/storage/src/sqlite/outbox.rs\<close> and
  \<open>crates/storage/src/outbox.rs\<close>): leasing a due job, and the transitions of a leased job, fenced
  by its attempt number.
\<close>

section \<open>Operations\<close>

definition STATUS_PENDING :: int where "STATUS_PENDING = 0"
definition STATUS_RUNNING :: int where "STATUS_RUNNING = 1"
definition STATUS_COMPLETED :: int where "STATUS_COMPLETED = 2"
definition STATUS_CANCELLED :: int where "STATUS_CANCELLED = 3"

lemmas status_defs = STATUS_PENDING_def STATUS_RUNNING_def STATUS_COMPLETED_def STATUS_CANCELLED_def

definition MAX_LAST_ERROR_BYTES :: nat where
  "MAX_LAST_ERROR_BYTES = 8 * 1024"

record claimed_effect_job =
  claimed_job :: stored_job
  claimed_lease :: unix_time

definition claim_attempt :: "claimed_effect_job \<Rightarrow> u32" where
  "claim_attempt c = job_attempt_count (claimed_job c)"

text \<open>A comparison with a \<open>NULL\<close> lease is not true.\<close>

definition wake_time :: "job_row \<Rightarrow> int option" where
  "wake_time r =
     (if jb_status r = STATUS_PENDING then Some (jb_available r)
      else if jb_status r = STATUS_RUNNING then jb_lease r else None)"

definition due :: "int \<Rightarrow> job_row \<Rightarrow> bool" where
  "due now r \<longleftrightarrow>
     jb_status r = STATUS_PENDING \<and> jb_available r \<le> now \<or>
     jb_status r = STATUS_RUNNING \<and> (case jb_lease r of None \<Rightarrow> False | Some l \<Rightarrow> l \<le> now)"

definition next_wakeup :: "world_db \<Rightarrow> storage_error + unix_time option" where
  "next_wakeup db =
     (let times = List.map_filter wake_time
                    (filter (\<lambda>r. jb_status r = STATUS_PENDING \<or> jb_status r = STATUS_RUNNING) (db_jobs db))
      in Inr (if times = [] then None else Some (UnixTimeMillis (Min (set times)))))"

text \<open>
  An \<open>UPDATE\<close> of the rows that satisfy \<open>P\<close>: the number of changed rows, and \<open>None\<close> when a new
  row violates the \<open>CHECK\<close> constraints of the table.
\<close>

definition update_jobs :: "(job_row \<Rightarrow> bool) \<Rightarrow> (job_row \<Rightarrow> job_row) \<Rightarrow> world_db \<Rightarrow> (nat \<times> world_db) option" where
  "update_jobs P f db =
     guarded (list_all (\<lambda>r. P r \<longrightarrow> job_row_ok (f r)) (db_jobs db))
       (length (filter P (db_jobs db)),
        db\<lparr>db_jobs := map (\<lambda>r. if P r then f r else r) (db_jobs db)\<rparr>)"

definition claim_transaction ::
  "externs \<Rightarrow> world_id \<Rightarrow> unix_time \<Rightarrow> unix_time \<Rightarrow> world_db \<Rightarrow> storage_error + claimed_effect_job option \<times> world_db"
  where
  "claim_transaction X w now lease db =
     (case sort_key (\<lambda>r. (jb_position r, jb_index r)) (filter (due (time_millis now)) (db_jobs db)) of
        [] \<Rightarrow> Inr (None, db)
      | j # _ \<Rightarrow>
          and_then (effect_job_id_from_blob (jb_id j)) (\<lambda>job_id.
          and_then (ok_or (IndexOutOfRange ''attempt_count'') (u32_try_from (jb_attempts j))) (\<lambda>attempt.
          and_then (ok_or (EffectAttemptOverflow job_id) (checked_add_u32 attempt 1)) (\<lambda>next_attempt.
          and_then (sql (update_jobs
              (\<lambda>r. jb_id r = into_bytes job_id \<and> jb_attempts r = uint attempt \<and> due (time_millis now) r)
              (\<lambda>r. r\<lparr>jb_status := STATUS_RUNNING, jb_attempts := uint next_attempt,
                     jb_lease := Some (time_millis lease)\<rparr>) db)) (\<lambda>(changed, db).
          if changed \<noteq> 1 then Inl (EffectJobClaimLost job_id)
          else
            and_then (effect_job_by_id X db w job_id) (\<lambda>job.
            and_then (ok_or (EffectJobNotFound job_id) job) (\<lambda>job.
            Inr (Some \<lparr>claimed_job = job, claimed_lease = lease\<rparr>, db))))))))"

definition claim_next ::
  "externs \<Rightarrow> world_id \<Rightarrow> unix_time \<Rightarrow> unix_time \<Rightarrow> world_db \<Rightarrow> (storage_error + claimed_effect_job option) \<times> world_db"
  where
  "claim_next X w now lease db =
     (if time_millis lease \<le> time_millis now then (Inl InvalidEffectLease, db)
      else (case claim_transaction X w now lease db of
              Inl e \<Rightarrow> (Inl e, db)
            | Inr (claimed, db') \<Rightarrow> (Inr claimed, db')))"

definition job_exists :: "world_db \<Rightarrow> effect_job_id \<Rightarrow> bool" where
  "job_exists db i \<longleftrightarrow> into_bytes i \<in> set (map jb_id (db_jobs db))"

definition transition_claim ::
  "effect_job_id \<Rightarrow> (job_row \<Rightarrow> bool) \<Rightarrow> (job_row \<Rightarrow> job_row) \<Rightarrow> world_db \<Rightarrow> (storage_error + unit) \<times> world_db"
  where
  "transition_claim i P f db =
     (case update_jobs P f db of
        None \<Rightarrow> (Inl Sqlite, db)
      | Some (changed, db') \<Rightarrow>
          if changed = 1 then (Inr (), db')
          else if job_exists db' i then (Inl (EffectJobClaimLost i), db')
          else (Inl (EffectJobNotFound i), db'))"

text \<open>The \<open>WHERE\<close> clause of the fenced transitions.\<close>

definition held :: "effect_job_id \<Rightarrow> u32 \<Rightarrow> job_row \<Rightarrow> bool" where
  "held i attempt r \<longleftrightarrow>
     jb_id r = into_bytes i \<and> jb_status r = STATUS_RUNNING \<and> jb_attempts r = uint attempt"

definition complete :: "effect_job_id \<Rightarrow> u32 \<Rightarrow> world_db \<Rightarrow> (storage_error + unit) \<times> world_db" where
  "complete i attempt =
     transition_claim i (held i attempt)
       (\<lambda>r. r\<lparr>jb_status := STATUS_COMPLETED, jb_lease := None, jb_error := None\<rparr>)"

definition retry :: "effect_job_id \<Rightarrow> u32 \<Rightarrow> unix_time \<Rightarrow> string \<Rightarrow> world_db \<Rightarrow> (storage_error + unit) \<times> world_db" where
  "retry i attempt available diagnostic db =
     (if length diagnostic > MAX_LAST_ERROR_BYTES
      then (Inl (EffectErrorTooLarge (length diagnostic) MAX_LAST_ERROR_BYTES), db)
      else transition_claim i (held i attempt)
        (\<lambda>r. r\<lparr>jb_status := STATUS_PENDING, jb_available := time_millis available, jb_lease := None,
               jb_error := Some diagnostic\<rparr>) db)"

definition cancel_claimed :: "effect_job_id \<Rightarrow> u32 \<Rightarrow> string \<Rightarrow> world_db \<Rightarrow> (storage_error + unit) \<times> world_db" where
  "cancel_claimed i attempt diagnostic db =
     (if length diagnostic > MAX_LAST_ERROR_BYTES
      then (Inl (EffectErrorTooLarge (length diagnostic) MAX_LAST_ERROR_BYTES), db)
      else transition_claim i (held i attempt)
        (\<lambda>r. r\<lparr>jb_status := STATUS_CANCELLED, jb_lease := None, jb_error := Some diagnostic\<rparr>) db)"

definition cancel :: "effect_job_id \<Rightarrow> world_db \<Rightarrow> (storage_error + bool) \<times> world_db" where
  "cancel i db =
     (case update_jobs
         (\<lambda>r. jb_id r = into_bytes i \<and> (jb_status r = STATUS_PENDING \<or> jb_status r = STATUS_RUNNING))
         (\<lambda>r. r\<lparr>jb_status := STATUS_CANCELLED, jb_lease := None\<rparr>) db of
        None \<Rightarrow> (Inl Sqlite, db)
      | Some (changed, db') \<Rightarrow>
          if changed = 1 then (Inr True, db')
          else (case find (\<lambda>r. jb_id r = into_bytes i) (db_jobs db') of
                  None \<Rightarrow> (Inl (EffectJobNotFound i), db')
                | Some r \<Rightarrow>
                    if jb_status r = STATUS_CANCELLED then (Inr False, db')
                    else if jb_status r = STATUS_COMPLETED then (Inl (EffectJobTerminal i), db')
                    else (Inl (CorruptData ''effect job has unsupported status''), db')))"

section \<open>The job table as a map of jobs\<close>

definition job_row_at :: "world_db \<Rightarrow> effect_job_id \<Rightarrow> job_row option" where
  "job_row_at db i = lookup jb_id (db_jobs db) (into_bytes i)"

lemma jobs_distinct: "jobs_wf db \<Longrightarrow> distinct (map jb_id (db_jobs db))"
  by (simp add: jobs_wf_def)

lemma job_row_at_Some:
  "jobs_wf db \<Longrightarrow> job_row_at db i = Some r \<longleftrightarrow> r \<in> set (db_jobs db) \<and> jb_id r = into_bytes i"
  unfolding job_row_at_def by (rule lookup_Some [OF jobs_distinct])

lemma job_row_at_None: "job_row_at db i = None \<longleftrightarrow> \<not> job_exists db i"
  by (simp add: job_row_at_def job_exists_def lookup_None)

text \<open>
  An update of one job by its identity: it changes this row or nothing, and keeps the identity and
  the position, so the table stays well-formed.
\<close>

definition job_keeping :: "(job_row \<Rightarrow> job_row) \<Rightarrow> bool" where
  "job_keeping f \<longleftrightarrow>
     (\<forall>r. jb_id (f r) = jb_id r \<and> jb_position (f r) = jb_position r \<and> jb_index (f r) = jb_index r \<and>
          jb_schema_id (f r) = jb_schema_id r \<and> jb_schema_version (f r) = jb_schema_version r \<and>
          jb_payload (f r) = jb_payload r)"

definition jobs_kept :: "world_db \<Rightarrow> world_db \<Rightarrow> bool" where
  "jobs_kept db db' \<longleftrightarrow> (\<exists>g. job_keeping g \<and> db' = db\<lparr>db_jobs := map g (db_jobs db)\<rparr>)"

lemma jobs_kept_refl [simp]: "jobs_kept db db"
  unfolding jobs_kept_def by (intro exI [of _ "\<lambda>r. r"]) (simp add: job_keeping_def)

lemma jobs_keptI:
  "job_keeping f \<Longrightarrow> jobs_kept db (db\<lparr>db_jobs := map (\<lambda>r. if P r then f r else r) (db_jobs db)\<rparr>)"
  unfolding jobs_kept_def by (intro exI [of _ "\<lambda>r. if P r then f r else r"]) (simp add: job_keeping_def)

lemma filter_one_key:
  assumes "distinct (map key xs)"
  shows "filter (\<lambda>r. key r = k \<and> Q r) xs =
    (case lookup key xs k of None \<Rightarrow> [] | Some r \<Rightarrow> if Q r then [r] else [])"
  using assms
proof (induction xs)
  case (Cons x xs)
  show ?case
  proof (cases "key x = k")
    case True
    then have "lookup key xs k = None" using Cons.prems by (auto simp: lookup_None)
    then show ?thesis using Cons True by (simp add: lookup_def)
  next
    case False
    then show ?thesis using Cons by (simp add: lookup_def)
  qed
qed (simp add: lookup_def)

lemma update_jobs_one:
  assumes wf: "jobs_wf db" and k: "job_keeping f"
    and ok: "\<And>r. r \<in> set (db_jobs db) \<Longrightarrow> Q r \<Longrightarrow> job_row_ok (f r)"
  shows "\<exists>db'. update_jobs (\<lambda>r. jb_id r = into_bytes i \<and> Q r) f db =
      Some (case job_row_at db i of None \<Rightarrow> 0 | Some r \<Rightarrow> if Q r then 1 else 0, db') \<and>
    db' = db\<lparr>db_jobs := map (\<lambda>r. if jb_id r = into_bytes i \<and> Q r then f r else r) (db_jobs db)\<rparr> \<and>
    jobs_wf db' \<and>
    (\<forall>j. job_row_at db' j = (if j = i then map_option (\<lambda>r. if Q r then f r else r) (job_row_at db i) else job_row_at db j))"
proof -
  define g where "g r = (if jb_id r = into_bytes i \<and> Q r then f r else r)" for r
  define db' where "db' = db\<lparr>db_jobs := map g (db_jobs db)\<rparr>"
  have g: "jb_id (g r) = jb_id r" "jb_position (g r) = jb_position r" "jb_index (g r) = jb_index r"
    "jb_schema_id (g r) = jb_schema_id r" "jb_schema_version (g r) = jb_schema_version r" for r
    using k by (simp_all add: g_def job_keeping_def)
  have "map jb_id (db_jobs db') = map jb_id (db_jobs db)"
    "map (\<lambda>r. (jb_position r, jb_index r)) (db_jobs db') = map (\<lambda>r. (jb_position r, jb_index r)) (db_jobs db)"
    by (simp_all add: db'_def g)
  moreover have "\<forall>r \<in> set (db_jobs db). job_row_ok (g r)"
    using wf ok by (simp add: g_def jobs_wf_def)
  ultimately have wf': "jobs_wf db'"
    using wf g by (auto simp: jobs_wf_def db'_def comp_def)
  have "length (filter (\<lambda>r. jb_id r = into_bytes i \<and> Q r) (db_jobs db)) =
      (case job_row_at db i of None \<Rightarrow> 0 | Some r \<Rightarrow> if Q r then 1 else 0)"
    by (simp add: filter_one_key [OF jobs_distinct [OF wf]] job_row_at_def split: option.splits)
  moreover have "list_all (\<lambda>r. jb_id r = into_bytes i \<and> Q r \<longrightarrow> job_row_ok (f r)) (db_jobs db)"
    using ok by (simp add: list_all_iff)
  ultimately have "update_jobs (\<lambda>r. jb_id r = into_bytes i \<and> Q r) f db =
      Some (case job_row_at db i of None \<Rightarrow> 0 | Some r \<Rightarrow> if Q r then 1 else 0, db')"
    by (simp add: update_jobs_def guarded_def db'_def g_def [abs_def])
  moreover have "job_row_at db' j = (if j = i then map_option (\<lambda>r. if Q r then f r else r) (job_row_at db i) else job_row_at db j)" for j
  proof -
    have "job_row_at db' j = map_option g (job_row_at db j)"
      unfolding job_row_at_def lookup_def db'_def by (simp, intro find_map_cong) (simp add: g)
    moreover have "jb_id r = into_bytes j" if "job_row_at db j = Some r" for r
      using that lookup_Some_D unfolding job_row_at_def by fast
    ultimately show ?thesis by (cases "job_row_at db j") (auto simp: g_def)
  qed
  ultimately show ?thesis using wf' by (auto simp: db'_def g_def [abs_def])
qed

end
