(* ===== verification/Sql_Outcome.thy ===== *)
theory Sql_Outcome
  imports Sql_Reads
begin

text \<open>
  The outcome of a commit: what it answers and what it writes, for every command and transaction.
\<close>

section \<open>The rows of one commit\<close>

definition mutation_row_of :: "externs \<Rightarrow> int \<Rightarrow> nat \<times> world_mutation \<Rightarrow> mutation_row" where
  "mutation_row_of X p im =
     \<lparr>mu_position = p, mu_index = int (fst im), mu_format = uint WORLD_MUTATION_FORMAT_VERSION,
      mu_json = mutation_text X (snd im)\<rparr>"

definition event_row_of :: "externs \<Rightarrow> int \<Rightarrow> nat \<times> event_draft \<Rightarrow> event_row" where
  "event_row_of X p ie =
     \<lparr>ev_id = into_bytes (draft_event_id (snd ie)), ev_position = p, ev_index = int (fst ie),
      ev_schema_id = key_text (draft_event_schema (snd ie)),
      ev_schema_version = key_int (draft_event_schema (snd ie)),
      ev_payload = json_text X (draft_event_payload (snd ie))\<rparr>"

definition job_row_of :: "externs \<Rightarrow> int \<Rightarrow> nat \<times> effect_draft \<Rightarrow> job_row" where
  "job_row_of X p ie =
     \<lparr>jb_id = into_bytes (draft_effect_id (snd ie)), jb_position = p, jb_index = int (fst ie),
      jb_schema_id = key_text (draft_effect_schema (snd ie)),
      jb_schema_version = key_int (draft_effect_schema (snd ie)),
      jb_payload = json_text X (draft_effect_payload (snd ie)),
      jb_status = 0, jb_attempts = 0, jb_available = 0, jb_lease = None, jb_error = None\<rparr>"

definition abs_run :: "externs \<Rightarrow> world_mutation list \<Rightarrow> abs_world \<Rightarrow> world_error + abs_world" where
  "abs_run X ms w = fold_result (abs_apply X) ms w"

lemma abs_run_simps [simp]:
  "abs_run X [] w = Inr w"
  "abs_run X (m # ms) w = and_then (abs_apply X m w) (abs_run X ms)"
  by (simp_all add: abs_run_def [abs_def])

lemma abs_run_append: "abs_run X (ms @ ms') w = and_then (abs_run X ms w) (abs_run X ms')"
  by (simp add: abs_run_def [abs_def] fold_result_append)

section \<open>The loops, exactly\<close>

lemma index_to_sql_ok: "i < 2 ^ 32 \<Longrightarrow> index_to_sql i l = Inr (int i)"
  by (simp add: index_to_sql_def)

lemma event_loop_result:
  assumes "commit_exists db p" and "\<forall>e \<in> set es. schema_stored db (draft_event_schema e)"
    and "distinct (map draft_event_id es)"
    and "\<forall>e \<in> set es. into_bytes (draft_event_id e) \<notin> set (map ev_id (db_events db))"
    and "\<forall>r \<in> set (db_events db). ev_position r = p \<longrightarrow> ev_index r < int k" and "k + length es \<le> 2 ^ 32"
  shows "fold_result (commit_event X p) (enumerate k es) db =
    Inr (db\<lparr>db_events := db_events db @ map (event_row_of X p) (enumerate k es)\<rparr>)"
  using assms
proof (induction es arbitrary: k db)
  case (Cons e es)
  define db1 where "db1 = db\<lparr>db_events := db_events db @ [event_row_of X p (k, e)]\<rparr>"
  have "(p, int k) \<notin> set (map (\<lambda>x. (ev_position x, ev_index x)) (db_events db))"
    using Cons.prems(5) by auto
  then have "insert_event_row (event_row_of X p (k, e)) db = Some db1"
    using Cons.prems by (simp add: insert_event_row_def event_row_of_def schema_stored_def db1_def)
  then have step: "commit_event X p (k, e) db = Inr db1"
    using Cons.prems(6) by (simp add: commit_event_def index_to_sql_ok event_row_of_def)
  have "fold_result (commit_event X p) (enumerate (Suc k) es) db1 =
      Inr (db1\<lparr>db_events := db_events db1 @ map (event_row_of X p) (enumerate (Suc k) es)\<rparr>)"
    by (rule Cons.IH) (use Cons.prems in \<open>auto simp: db1_def schema_stored_def event_row_of_def image_iff\<close>)
  with step show ?case by (simp add: db1_def)
qed simp

lemma effect_loop_result:
  assumes "commit_exists db p" and "\<forall>e \<in> set es. schema_stored db (draft_effect_schema e)"
    and "distinct (map draft_effect_id es)"
    and "\<forall>e \<in> set es. into_bytes (draft_effect_id e) \<notin> set (map jb_id (db_jobs db))"
    and "\<forall>r \<in> set (db_jobs db). jb_position r = p \<longrightarrow> jb_index r < int k" and "k + length es \<le> 2 ^ 32"
  shows "fold_result (commit_effect X p) (enumerate k es) db =
    Inr (db\<lparr>db_jobs := db_jobs db @ map (job_row_of X p) (enumerate k es)\<rparr>)"
  using assms
proof (induction es arbitrary: k db)
  case (Cons e es)
  define db1 where "db1 = db\<lparr>db_jobs := db_jobs db @ [job_row_of X p (k, e)]\<rparr>"
  have "(p, int k) \<notin> set (map (\<lambda>x. (jb_position x, jb_index x)) (db_jobs db))"
    using Cons.prems(5) by auto
  then have "insert_job_row (job_row_of X p (k, e)) db = Some db1"
    using Cons.prems by (simp add: insert_job_row_def job_row_ok_def job_row_of_def schema_stored_def db1_def)
  then have step: "commit_effect X p (k, e) db = Inr db1"
    using Cons.prems(6) by (simp add: commit_effect_def index_to_sql_ok job_row_of_def)
  have "fold_result (commit_effect X p) (enumerate (Suc k) es) db1 =
      Inr (db1\<lparr>db_jobs := db_jobs db1 @ map (job_row_of X p) (enumerate (Suc k) es)\<rparr>)"
    by (rule Cons.IH) (use Cons.prems in \<open>auto simp: db1_def schema_stored_def job_row_of_def image_iff\<close>)
  with step show ?case by (simp add: db1_def)
qed simp

text \<open>The mutation loop follows the abstract run, and logs every mutation at its index.\<close>

definition same_but_log :: "world_db \<Rightarrow> world_db \<Rightarrow> bool" where
  "same_but_log db db' \<longleftrightarrow>
     db_metadata db' = db_metadata db \<and> db_schemas db' = db_schemas db \<and> db_commits db' = db_commits db \<and>
     db_events db' = db_events db \<and> db_jobs db' = db_jobs db"

lemma mutation_storable_schemas:
  "db_schemas db' = db_schemas db \<Longrightarrow> mutation_storable db' m = mutation_storable db m"
  by (simp add: mutation_storable_def grant_storable_def schema_stored_def schema_exists_def
      split: world_mutation.splits option.splits)

lemma mutation_loop_result:
  assumes "tables_wf n db" and "commit_exists db p" and "\<forall>m \<in> set ms. mutation_storable db m"
    and "\<forall>r \<in> set (db_mutations db). mu_position r = p \<longrightarrow> mu_index r < int k" and "k + length ms \<le> 2 ^ 32"
  shows "case abs_run X ms (abs_db db) of
      Inl w \<Rightarrow> fold_result (commit_mutation X p) (enumerate k ms) db = Inl (World w)
    | Inr a \<Rightarrow> (\<exists>db'. fold_result (commit_mutation X p) (enumerate k ms) db = Inr db' \<and> abs_db db' = a \<and>
        db_mutations db' = db_mutations db @ map (mutation_row_of X p) (enumerate k ms) \<and> same_but_log db db')"
  using assms
proof (induction ms arbitrary: k db)
  case Nil
  then show ?case by (simp add: same_but_log_def)
next
  case (Cons m ms)
  define db1 where "db1 = db\<lparr>db_mutations := db_mutations db @ [mutation_row_of X p (k, m)]\<rparr>"
  have "(p, int k) \<notin> set (map (\<lambda>x. (mu_position x, mu_index x)) (db_mutations db))"
    using Cons.prems(4) by auto
  then have ins: "insert_mutation_row (mutation_row_of X p (k, m)) db = Some db1"
    using Cons.prems(2) by (simp add: insert_mutation_row_def mutation_row_of_def db1_def WORLD_MUTATION_FORMAT_VERSION_def)
  then have step: "commit_mutation X p (k, m) db = apply_mutation X m p db1"
    using Cons.prems(5) by (simp add: commit_mutation_def index_to_sql_ok mutation_row_of_def)
  have wf1: "tables_wf n db1" by (rule insert_mutation_row_wf [OF ins Cons.prems(1)])
  have abs1: "abs_db db1 = abs_db db"
    by (simp add: db1_def abs_db_def fun_eq_iff facet_payload_text_def split: facet_target.splits)
  have p1: "commit_exists db1 p" and st1: "mutation_storable db1 m"
    using Cons.prems(2,3) mutation_storable_schemas [of db1 db m] by (auto simp: db1_def)
  note ref = apply_mutation_simulates [OF wf1 p1 st1, of X, unfolded abs1]
  show ?case
  proof (cases "abs_apply X m (abs_db db)")
    case (Inl w)
    then show ?thesis using ref step by (auto simp: result_simps)
  next
    case (Inr a)
    with ref obtain db2 where app: "apply_mutation X m p db1 = Inr db2" and abs2: "abs_db db2 = a"
      by (auto simp: result_simps)
    note logs = apply_mutation_same_logs [OF app, unfolded same_logs_def]
    have "tables_wf n db2" by (rule apply_mutation_wf [OF app wf1])
    moreover have "commit_exists db2 p" using p1 logs by (simp add: commit_exists_def)
    moreover have "\<forall>m \<in> set ms. mutation_storable db2 m"
      using Cons.prems(3) logs by (simp add: mutation_storable_schemas [of db2 db] db1_def)
    moreover have "\<forall>r \<in> set (db_mutations db2). mu_position r = p \<longrightarrow> mu_index r < int (Suc k)"
      using Cons.prems(4) logs by (auto simp: db1_def mutation_row_of_def)
    ultimately have IH: "case abs_run X ms (abs_db db2) of
        Inl w \<Rightarrow> fold_result (commit_mutation X p) (enumerate (Suc k) ms) db2 = Inl (World w)
      | Inr a \<Rightarrow> (\<exists>db'. fold_result (commit_mutation X p) (enumerate (Suc k) ms) db2 = Inr db' \<and> abs_db db' = a \<and>
          db_mutations db' = db_mutations db2 @ map (mutation_row_of X p) (enumerate (Suc k) ms) \<and> same_but_log db2 db')"
      using Cons.IH Cons.prems(5) by simp
    then show ?thesis
      using Inr step app abs2 logs
      by (cases "abs_run X ms a") (auto simp: db1_def same_but_log_def)
  qed
qed

section \<open>The checks before the first write\<close>

text \<open>
  What the types and the host guarantee of a commit: a clock that fits 64 bits, drafts that fit the
  32-bit indices, scopes that are sets, and bounded grants that fit the column.
\<close>

definition grant_bounded :: "control_grant \<Rightarrow> bool" where
  "grant_bounded g \<longleftrightarrow>
     (case grant_valid_through g of None \<Rightarrow> True | Some v \<Rightarrow> uint v < 2 ^ 63) \<and>
     (case exact_schemas (grant_scope g) of None \<Rightarrow> True | Some ks \<Rightarrow> distinct ks)"

definition mutation_bounded :: "world_mutation \<Rightarrow> bool" where
  "mutation_bounded m = (case m of GrantControl g \<Rightarrow> grant_bounded g | _ \<Rightarrow> True)"

definition clock_bounded :: "clock \<Rightarrow> bool" where
  "clock_bounded now = (case now of AfterEpoch m \<Rightarrow> m < 2 ^ 63 | BeforeEpoch m \<Rightarrow> m < 2 ^ 63)"

definition commit_bounded :: "world_transaction \<Rightarrow> clock \<Rightarrow> bool" where
  "commit_bounded t now \<longleftrightarrow>
     clock_bounded now \<and> length (tx_mutations t) \<le> 2 ^ 32 \<and> length (tx_events t) \<le> 2 ^ 32 \<and>
     length (tx_effects t) \<le> 2 ^ 32 \<and> (\<forall>m \<in> set (tx_mutations t). mutation_bounded m)"

lemma registered_stored:
  assumes "mirrors X reg db" and "definitions reg k = Some d"
  shows "schema_stored db k"
proof -
  have "load_schema X db k = Inr (Some d)" using assms by (simp add: mirrors_def)
  then obtain r where r: "find_schema k (db_schemas db) = Some r" "decode_row X r = Inr d"
    by (auto simp: load_schema_find transpose_map_Inr split: option.splits)
  have dist: "distinct (map row_key (db_schemas db))" using assms(1) by (simp add: mirrors_def schemas_wf_rows)
  have rk: "r \<in> set (db_schemas db)" "row_key r = key_columns k"
    using r(1) unfolding find_schema_distinct [OF dist] by blast+
  have "definition_key d = k" using decode_row_key [OF r(2)] rk(2) by simp
  then have "canonical_key k" using decode_row_canonical [OF r(2)] by simp
  then have "key_int k > 0"
    using uint_ge_0 [of "version_number (key_version k)"]
    by (auto simp: canonical_key_def order.order_iff_strict uint_0_iff)
  moreover have "schema_exists db (key_text k) (key_int k)"
    using rk by (force simp: schema_exists_def row_key_def key_columns_def)
  ultimately show ?thesis by (simp add: schema_stored_def)
qed

lemma required_stored: "mirrors X reg db \<Longrightarrow> require_kind reg k kind = Inr () \<Longrightarrow> schema_stored db k"
  using registered_stored unfolding require_kind_Inr by blast

lemma validated_stored: "mirrors X reg db \<Longrightarrow> validate_payload reg k kind v = Inr () \<Longrightarrow> schema_stored db k"
  using registered_stored unfolding validate_payload_Inr by blast

lemma well_typed_storable:
  "mirrors X reg db \<Longrightarrow> mutation_well_typed reg m \<Longrightarrow> mutation_bounded m \<Longrightarrow> mutation_storable db m"
  by (auto simp: mutation_well_typed_def mutation_storable_def mutation_bounded_def grant_bounded_def
      grant_storable_def exact_schemas_def dest: required_stored validated_stored
      split: world_mutation.splits control_scope.splits)

text \<open>Whoever passes \<open>authorize_command\<close> may act: as themselves, or as an entity lent to them.\<close>

definition authorized :: "abs_world \<Rightarrow> world_command \<Rightarrow> int \<Rightarrow> bool" where
  "authorized w c position =
     (case command_actor c of
        ActorPrincipal p \<Rightarrow> p = command_principal c
      | ActorEntity e \<Rightarrow> abs_can_control w (command_principal c) e (command_schema c) position)"

lemma authorize_command_Inr:
  assumes "db_wf X db" and "uint w < 2 ^ 63"
  shows "authorize_command db c w =
    (if authorized (abs_db db) c (uint w) then Inr ()
     else Inl (World (ActorUnauthorized (command_principal c) (command_actor c) (command_schema c))))"
  using principal_can_control_abs [OF assms]
  by (simp add: authorize_command_def authorized_def split: actor_ref.splits)

lemma db_wf_position:
  assumes "db_wf X db"
  obtains n w where "n < 2 ^ 63" "metadata_at n db" "tables_wf n db" "schemas_wf X db"
    "current_position db = Inr w" "uint w = int n"
proof -
  obtain n where n: "n < 2 ^ 63" "metadata_at n db" "tables_wf n db" "schemas_wf X db"
    using assms by (auto simp: db_wf_def)
  have "uint (word_of_nat n :: u64) = int n"
    using n(1) by (simp add: uint_nat unat_of_nat)
  then show ?thesis using that [OF n current_position_at [OF n(2,1)]] by blast
qed

text \<open>Everything a commit has checked when it starts to write.\<close>

lemma check_commit_checked:
  assumes wf: "db_wf X db" and chk: "check_commit X c t evaluated db = Inr w"
  obtains n reg where "n < 2 ^ 63" "metadata_at n db" "tables_wf n db" "uint w = int n"
    "current_position db = Inr w" "w = evaluated" "mirrors X reg db"
    "validate_command_schema reg c = Inr ()" "validate_transaction reg t = Inr ()"
    "reject_reused_ids db t = Inr ()" "expected_position c = None \<or> expected_position c = Some w"
    "authorized (abs_db db) c (uint w)"
proof -
  obtain n w' where n: "n < 2 ^ 63" "metadata_at n db" "tables_wf n db" "schemas_wf X db"
      "current_position db = Inr w'" "uint w' = int n"
    using wf by (rule db_wf_position)
  obtain reg where reg: "load_schema_registry X db = Inr reg" "mirrors X reg db"
    using mirrors_load [OF n(4)] by blast
  have w: "w' = w" "w = evaluated" using check_commit_Inr_position [OF chk] n(5) by simp_all
  have pos: "uint w < 2 ^ 63" using n(1,6) w(1) by simp
  have "expected_position c = None \<or> expected_position c = Some w"
    using chk reg(1) n(5) w by (auto simp: check_commit_def check_expected_def result_simps split: option.splits if_splits)
  moreover have "authorize_command db c w = Inr ()"
    using chk reg(1) n(5) w by (auto simp: check_commit_def result_simps split: if_splits)
  then have "authorized (abs_db db) c (uint w)"
    unfolding authorize_command_Inr [OF wf pos] by (simp split: if_splits)
  moreover have "validate_command_schema reg c = Inr ()" "validate_transaction reg t = Inr ()"
      "reject_reused_ids db t = Inr ()"
    using chk reg(1) by (auto simp: check_commit_def result_simps)
  ultimately show ?thesis using that n reg(2) w by blast
qed

text \<open>On a well-formed database the checks only fail for reasons of the world model.\<close>

lemma for_each_ensure_World:
  "for_each (\<lambda>e. ensure (P e) (World (f e))) es = Inl err \<Longrightarrow> \<exists>w. err = World w"
  by (induction es) (auto simp: result_simps)

lemma check_commit_error:
  assumes "db_wf X db" and "check_commit X c t evaluated db = Inl e"
  shows "\<exists>w. e = World w"
proof -
  obtain n w where n: "n < 2 ^ 63" "schemas_wf X db" "current_position db = Inr w" "uint w = int n"
    using assms(1) by (rule db_wf_position)
  obtain reg where reg: "load_schema_registry X db = Inr reg" using mirrors_load [OF n(2)] by blast
  have "uint w < 2 ^ 63" using n(1,4) by simp
  note auth = authorize_command_Inr [OF assms(1) this]
  have "reject_reused_ids db t = Inl err \<Longrightarrow> \<exists>w. err = World w" for err
    by (auto simp: reject_reused_ids_def result_simps dest: for_each_ensure_World)
  then show ?thesis
    using assms(2) n(3) reg
    by (auto simp: check_commit_def check_expected_def result_simps auth split: if_splits option.splits)
qed

section \<open>The outcome of a new command\<close>

definition recorded_time :: "clock \<Rightarrow> unix_time" where
  "recorded_time now = (case now of AfterEpoch m \<Rightarrow> UnixTimeMillis (int m) | BeforeEpoch m \<Rightarrow> UnixTimeMillis (- int m))"

definition commit_row_of :: "externs \<Rightarrow> world_command \<Rightarrow> int \<Rightarrow> clock \<Rightarrow> commit_row" where
  "commit_row_of X c p now =
     encode_commit X c (command_digest X c) p (map_option uint (expected_position c)) (recorded_time now)"

definition new_receipt :: "world_command \<Rightarrow> world_transaction \<Rightarrow> u64 \<Rightarrow> commit_receipt" where
  "new_receipt c t position =
     \<lparr>receipt_disposition = Committed, receipt_command_id = command_id c, receipt_position = position,
      receipt_event_ids = map draft_event_id (tx_events t),
      receipt_effect_job_ids = map draft_effect_id (tx_effects t)\<rparr>"

text \<open>What one commit adds to the logs, and the position it moves to.\<close>

definition commit_writes ::
  "externs \<Rightarrow> world_command \<Rightarrow> world_transaction \<Rightarrow> u64 \<Rightarrow> clock \<Rightarrow> world_db \<Rightarrow> world_db \<Rightarrow> bool" where
  "commit_writes X c t position now db db' \<longleftrightarrow>
     current_position db' = Inr position \<and> db_schemas db' = db_schemas db \<and>
     db_commits db' = db_commits db @ [commit_row_of X c (uint position) now] \<and>
     db_mutations db' = db_mutations db @ map (mutation_row_of X (uint position)) (enumerate 0 (tx_mutations t)) \<and>
     db_events db' = db_events db @ map (event_row_of X (uint position)) (enumerate 0 (tx_events t)) \<and>
     db_jobs db' = db_jobs db @ map (job_row_of X (uint position)) (enumerate 0 (tx_effects t))"

lemma recorded_at_bounded: "clock_bounded now \<Longrightarrow> recorded_at_now now = Inr (recorded_time now)"
  by (cases now) (simp_all add: clock_bounded_def recorded_time_def)

lemma commit_row_of_columns [simp]:
  "cm_position (commit_row_of X c p now) = p" "cm_command_id (commit_row_of X c p now) = into_bytes (command_id c)"
  "cm_digest (commit_row_of X c p now) = digest_bytes (command_digest X c)"
  by (simp_all add: commit_row_of_def encode_commit_def)

lemma actor_parts_ok: "fst (actor_parts a) = 1 \<or> fst (actor_parts a) = 2" "length (snd (actor_parts a)) = 16"
  by (cases a; simp)+

lemma causation_parts_ok:
  "case fst (causation_parts k) of None \<Rightarrow> True | Some i \<Rightarrow> i \<in> {1, 2, 3}"
  "case snd (causation_parts k) of None \<Rightarrow> True | Some b \<Rightarrow> length b = 16"
  "fst (causation_parts k) = None \<longleftrightarrow> snd (causation_parts k) = None"
  by (cases k rule: causation_parts.cases; simp)+

lemma commit_row_of_ok:
  assumes "0 < p" and "0 < key_int (command_schema c)"
  shows "commit_row_ok (commit_row_of X c p now)"
proof -
  have "case map_option uint e of None \<Rightarrow> True | Some (q :: int) \<Rightarrow> q \<ge> 0" for e :: "u64 option"
    by (cases e) simp_all
  then show ?thesis
    using assms actor_parts_ok causation_parts_ok
    unfolding commit_row_of_def encode_commit_def commit_row_ok_def by simp
qed

lemma abs_db_frame [simp]:
  "abs_db (db\<lparr>db_metadata := m\<rparr>) = abs_db db" "abs_db (db\<lparr>db_commits := cs\<rparr>) = abs_db db"
  "abs_db (db\<lparr>db_mutations := ms\<rparr>) = abs_db db" "abs_db (db\<lparr>db_events := es\<rparr>) = abs_db db"
  "abs_db (db\<lparr>db_jobs := js\<rparr>) = abs_db db"
  by (simp_all add: abs_db_def fun_eq_iff facet_payload_text_def split: facet_target.splits)

lemma positions_below:
  assumes "tables_wf n db"
  shows "commit_exists db p \<longleftrightarrow> 1 \<le> p \<and> p \<le> int n"
proof -
  have "set (map cm_position (db_commits db)) = set (map int [1..<Suc n])"
    using assms unfolding tables_wf_def commits_wf_def by metis
  then have "commit_exists db p \<longleftrightarrow> (\<exists>k \<in> {1..<Suc n}. p = int k)"
    unfolding commit_exists_def by (simp add: image_iff del: upt_Suc)
  moreover have "(\<exists>k \<in> {1..<Suc n}. p = int k) \<longleftrightarrow> 1 \<le> p \<and> p \<le> int n"
    by (cases p) auto
  ultimately show ?thesis by blast
qed

lemma no_rows_at_next:
  assumes "tables_wf n db" and "p = int (Suc n)"
  shows "\<forall>r \<in> set (db_mutations db). mu_position r \<noteq> p" and "\<forall>r \<in> set (db_events db). ev_position r \<noteq> p"
    and "\<forall>r \<in> set (db_jobs db). jb_position r \<noteq> p"
  using assms positions_below [OF assms(1)] by (auto simp: tables_wf_def logs_wf_def jobs_wf_def)

lemma no_receipt_new_id:
  assumes "db_wf X db" and "committed_receipt X db c = Inr None"
  shows "into_bytes (command_id c) \<notin> set (map cm_command_id (db_commits db))"
  using assms(2) by (auto simp: committed_receipt_def load_existing_receipt_def result_simps find_None_set
      split: option.splits if_splits)

lemma insert_commit_result:
  assumes wf: "tables_wf n db" and p: "p = int (Suc n)" and st: "schema_stored db (command_schema c)"
    and new: "into_bytes (command_id c) \<notin> set (map cm_command_id (db_commits db))"
    and exp: "expected_position c = None \<or> expected_position c = Some w" "uint w < 2 ^ 63"
    and now: "clock_bounded now"
  shows "insert_commit X c (command_digest X c) p now db = Inr (db\<lparr>db_commits := db_commits db @ [commit_row_of X c p now]\<rparr>)"
proof -
  have "transpose_map position_to_sql (expected_position c) = Inr (map_option uint (expected_position c))"
    using exp by (auto simp: transpose_map_Inr position_to_sql_Inr)
  moreover have "\<not> commit_exists db p" using positions_below [OF wf] p by simp
  then have "insert_commit_row (commit_row_of X c p now) db = Some (db\<lparr>db_commits := db_commits db @ [commit_row_of X c p now]\<rparr>)"
    using commit_row_of_ok [of p c X now] p st new
    by (simp add: insert_commit_row_def schema_stored_def) (simp add: commit_row_of_def encode_commit_def)
  ultimately show ?thesis
    using recorded_at_bounded [OF now] by (simp add: insert_commit_def commit_row_of_def)
qed

lemma reject_reused_ids_Inr:
  "reject_reused_ids db t = Inr () \<longleftrightarrow>
     (\<forall>e \<in> set (tx_events t). into_bytes (draft_event_id e) \<notin> set (map ev_id (db_events db))) \<and>
     (\<forall>e \<in> set (tx_effects t). into_bytes (draft_effect_id e) \<notin> set (map jb_id (db_jobs db)))"
  by (simp add: reject_reused_ids_def result_simps for_each_Inr ensure_Inr)

lemma next_word:
  assumes "uint (w :: u64) = int n" and "n + 1 < 2 ^ 63"
  shows "checked_add_u64 w 1 = Some (w + 1)" and "uint (w + 1) = int (Suc n)"
    and "position_to_sql (w + 1) = Inr (int (Suc n))"
proof -
  show "checked_add_u64 w 1 = Some (w + 1)" using assms by (simp add: checked_add_u64_def)
  then have "uint (w + 1) = uint w + 1" using checked_add_u64_Some by fastforce
  with assms show u: "uint (w + 1) = int (Suc n)" by simp
  then show "position_to_sql (w + 1) = Inr (int (Suc n))" using assms(2) unfolding position_to_sql_Inr by simp
qed

lemma commit_new_command:
  assumes wf: "db_wf X db" and new: "committed_receipt X db c = Inr None"
    and chk: "check_commit X c t evaluated db = Inr w" and room: "uint w + 1 < 2 ^ 63"
    and bd: "commit_bounded t now"
  shows "case abs_run X (tx_mutations t) (abs_db db) of
      Inl e \<Rightarrow> commit X c t evaluated now db = (Inl (World e), db)
    | Inr a \<Rightarrow> (\<exists>db'. commit X c t evaluated now db = (Inr (new_receipt c t (w + 1)), db') \<and>
        abs_db db' = a \<and> commit_writes X c t (w + 1) now db db')"
proof -
  obtain n reg where n: "n < 2 ^ 63" "metadata_at n db" "tables_wf n db" "uint w = int n"
    and reg: "mirrors X reg db" and ok: "validate_command_schema reg c = Inr ()" "validate_transaction reg t = Inr ()"
      "reject_reused_ids db t = Inr ()" "expected_position c = None \<or> expected_position c = Some w"
    using check_commit_checked [OF wf chk] .
  define p where "p = int (Suc n)"
  have room': "n + 1 < 2 ^ 63" using room n(4) by simp
  note word = next_word [OF n(4) room']
  define db1 where "db1 = db\<lparr>db_commits := db_commits db @ [commit_row_of X c p now]\<rparr>"
  note tx = ok(2) [unfolded validate_transaction_Inr]
  have cst: "schema_stored db (command_schema c)"
    using validated_stored [OF reg ok(1) [unfolded validate_command_schema_def]] .
  have ins: "insert_commit X c (command_digest X c) p now db = Inr db1"
    unfolding db1_def
    by (rule insert_commit_result [OF n(3) p_def cst no_receipt_new_id [OF wf new] ok(4)])
      (use n(1,4) bd in \<open>simp_all add: commit_bounded_def\<close>)
  have wf1: "tables_wf (Suc n) db1"
    using ins by (rule insert_commit_Inr) (use n(3) insert_commit_row_wf p_def in metis)
  have abs1: "abs_db db1 = abs_db db" by (simp add: db1_def)
  have p1: "commit_exists db1 p" by (simp add: db1_def)
  have stored: "\<forall>m \<in> set (tx_mutations t). mutation_storable db1 m"
    using tx well_typed_storable [OF reg] bd mutation_storable_schemas [of db1 db]
    by (auto simp: commit_bounded_def db1_def)
  note fresh = no_rows_at_next [OF n(3) p_def]
  have loop: "case abs_run X (tx_mutations t) (abs_db db1) of
      Inl e \<Rightarrow> fold_result (commit_mutation X p) (enumerate 0 (tx_mutations t)) db1 = Inl (World e)
    | Inr a \<Rightarrow> (\<exists>db2. fold_result (commit_mutation X p) (enumerate 0 (tx_mutations t)) db1 = Inr db2 \<and> abs_db db2 = a \<and>
        db_mutations db2 = db_mutations db1 @ map (mutation_row_of X p) (enumerate 0 (tx_mutations t)) \<and> same_but_log db1 db2)"
    by (rule mutation_loop_result [OF wf1 p1 stored]) (use fresh(1) bd in \<open>auto simp: db1_def commit_bounded_def\<close>)
  have unfold: "commit X c t evaluated now db =
      (case write_commit X c t w now db of Inl e \<Rightarrow> (Inl e, db) | Inr (receipt, db') \<Rightarrow> (Inr receipt, db'))"
    using new chk by (simp add: commit_def commit_transaction_def committed_receipt_def)
  show ?thesis
  proof (cases "abs_run X (tx_mutations t) (abs_db db)")
    case (Inl e)
    with loop abs1 have "write_commit X c t w now db = Inl (World e)"
      using ins word by (simp add: write_commit_def p_def)
    with Inl unfold show ?thesis by simp
  next
    case (Inr a)
    with loop abs1 obtain db2 where
      run: "fold_result (commit_mutation X p) (enumerate 0 (tx_mutations t)) db1 = Inr db2" and abs2: "abs_db db2 = a"
      and log2: "db_mutations db2 = db_mutations db1 @ map (mutation_row_of X p) (enumerate 0 (tx_mutations t))"
      and same2: "same_but_log db1 db2" by auto
    define db3 where "db3 = db2\<lparr>db_events := db_events db2 @ map (event_row_of X p) (enumerate 0 (tx_events t))\<rparr>"
    define db4 where "db4 = db3\<lparr>db_jobs := db_jobs db3 @ map (job_row_of X p) (enumerate 0 (tx_effects t))\<rparr>"
    have st2: "schema_stored db2 k \<longleftrightarrow> schema_stored db k" and p2: "commit_exists db2 p" for k
      using same2 p1 by (simp_all add: same_but_log_def db1_def schema_stored_def schema_exists_def commit_exists_def)
    note ids = ok(3) [unfolded reject_reused_ids_Inr]
    have ev: "fold_result (commit_event X p) (enumerate 0 (tx_events t)) db2 = Inr db3"
      unfolding db3_def
      by (rule event_loop_result [OF p2]) (use tx ids fresh(2) bd same2 validated_stored [OF reg] st2 in
          \<open>auto simp: same_but_log_def db1_def commit_bounded_def\<close>)
    have "schema_stored db3 k \<longleftrightarrow> schema_stored db k" "commit_exists db3 p" for k
      using st2 p2 by (simp_all add: db3_def schema_stored_def)
    then have ef: "fold_result (commit_effect X p) (enumerate 0 (tx_effects t)) db3 = Inr db4"
      unfolding db4_def
      by (intro effect_loop_result) (use tx ids fresh(3) bd same2 validated_stored [OF reg] in
          \<open>auto simp: same_but_log_def db1_def db3_def commit_bounded_def\<close>)
    obtain m where m: "db_metadata db = Some m" "md_position m = int n" using n(2) by (auto simp: metadata_at_def)
    then have md4: "db_metadata db4 = Some m" using same2 by (simp add: db4_def db3_def same_but_log_def db1_def)
    define db5 where "db5 = db4\<lparr>db_metadata := Some (m\<lparr>md_position := p\<rparr>)\<rparr>"
    have old: "position_to_sql w = Inr (int n)" using n(1,4) unfolding position_to_sql_Inr by simp
    have wr: "write_commit X c t w now db = Inr (new_receipt c t (w + 1), db5)"
      using ins run ev ef word md4 m(2) old
      by (simp add: write_commit_def p_def new_receipt_def advance_position_def db5_def)
    have "abs_db db5 = a"
      using abs2 by (simp add: db5_def db4_def db3_def)
    moreover have "u64_try_from p = Some (w + 1)"
      using word(2) room' word_of_int_uint [of "w + 1"] unfolding p_def u64_try_from_def by simp
    then have "current_position db5 = Inr (w + 1)"
      by (simp add: current_position_def db5_def position_from_sql_def)
    ultimately show ?thesis
      using Inr unfold wr log2 same2 word(2)
      by (auto simp: commit_writes_def db5_def db4_def db3_def same_but_log_def db1_def p_def)
  qed
qed

end
