(* ===== verification/Sql_Receipts.thy ===== *)
theory Sql_Receipts
  imports Sql_Outcome
begin

text \<open>
  Idempotency: what the receipt lookup finds, that a committed command is answered from its receipt
  for ever after, and when two commands count as the same.
\<close>

section \<open>Stored receipts\<close>

definition rows_at :: "('r \<Rightarrow> int) \<Rightarrow> ('r \<Rightarrow> int) \<Rightarrow> int \<Rightarrow> 'r list \<Rightarrow> 'r list" where
  "rows_at pos idx p rows = sort_key idx (filter (\<lambda>r. pos r = p) rows)"

definition stored_receipt :: "world_db \<Rightarrow> command_id \<Rightarrow> commit_row \<Rightarrow> commit_receipt" where
  "stored_receipt db i r =
     \<lparr>receipt_disposition = AlreadyCommitted, receipt_command_id = i,
      receipt_position = word_of_int (cm_position r),
      receipt_event_ids = map (\<lambda>e. from_bytes (ev_id e)) (rows_at ev_position ev_index (cm_position r) (db_events db)),
      receipt_effect_job_ids = map (\<lambda>j. from_bytes (jb_id j)) (rows_at jb_position jb_index (cm_position r) (db_jobs db))\<rparr>"

lemma set_rows_at: "set (rows_at pos idx p rows) \<subseteq> set rows"
  by (auto simp: rows_at_def)

lemma commit_position_range:
  assumes "tables_wf n db" and "r \<in> set (db_commits db)"
  shows "1 \<le> cm_position r \<and> cm_position r \<le> int n"
  using positions_below [OF assms(1), of "cm_position r"] assms(2) by (auto simp: commit_exists_def)

lemma ids_for_position:
  assumes wf: "db_wf X db" and p: "uint w < 2 ^ 63"
  shows "event_ids_for_position db w = Inr (map (\<lambda>e. from_bytes (ev_id e)) (rows_at ev_position ev_index (uint w) (db_events db)))"
    and "effect_ids_for_position db w = Inr (map (\<lambda>j. from_bytes (jb_id j)) (rows_at jb_position jb_index (uint w) (db_jobs db)))"
proof -
  have sql: "position_to_sql w = Inr (uint w)" using p unfolding position_to_sql_Inr by simp
  have "event_id_from_blob (ev_id e) = Inr (from_bytes (ev_id e))" if "e \<in> set (db_events db)" for e
    using that db_wf_parts(6) [OF wf] by (simp add: logs_wf_def id_from_blob_defs id_from_blob_def fixed_id_bytes_def)
  then show "event_ids_for_position db w = Inr (map (\<lambda>e. from_bytes (ev_id e)) (rows_at ev_position ev_index (uint w) (db_events db)))"
    unfolding event_ids_for_position_def sql rows_at_def and_then_simps by (intro collect_result_map) auto
  have "effect_job_id_from_blob (jb_id j) = Inr (from_bytes (jb_id j))" if "j \<in> set (db_jobs db)" for j
    using that db_wf_parts(7) [OF wf] by (simp add: jobs_wf_def job_row_ok_def id_from_blob_defs id_from_blob_def fixed_id_bytes_def)
  then show "effect_ids_for_position db w = Inr (map (\<lambda>j. from_bytes (jb_id j)) (rows_at jb_position jb_index (uint w) (db_jobs db)))"
    unfolding effect_ids_for_position_def sql rows_at_def and_then_simps by (intro collect_result_map) auto
qed

lemma load_existing_receipt_wf:
  assumes wf: "db_wf X db"
  shows "load_existing_receipt db i digest =
    (case lookup cm_command_id (db_commits db) (into_bytes i) of
       None \<Rightarrow> Inr None
     | Some r \<Rightarrow> if word_rcat (cm_digest r) \<noteq> digest then Inl (World (CommandIdConflict i))
                else Inr (Some (stored_receipt db i r)))"
proof (cases "lookup cm_command_id (db_commits db) (into_bytes i)")
  case (Some r)
  then have r: "r \<in> set (db_commits db)" using lookup_Some_D by fast
  obtain n where n: "n < 2 ^ 63" "tables_wf n db" using wf by (auto simp: db_wf_def)
  have pos: "1 \<le> cm_position r" "cm_position r \<le> int n" using commit_position_range [OF n(2) r] by auto
  then have w: "u64_try_from (cm_position r) = Some (word_of_int (cm_position r))"
      "uint (word_of_int (cm_position r) :: u64) = cm_position r" "cm_position r < 2 ^ 63"
    using n(1) by (auto simp: u64_try_from_def uint_word_of_int)
  have len: "length (cm_digest r) = 32"
    using n(2) r by (auto simp: tables_wf_def commits_wf_def commit_row_ok_def)
  show ?thesis
    using Some w len ids_for_position [OF wf, of "word_of_int (cm_position r)"]
    by (simp add: load_existing_receipt_def lookup_def digest_from_blob_def position_from_sql_def stored_receipt_def)
qed (simp add: load_existing_receipt_def lookup_def)

section \<open>Receipts do not change\<close>

text \<open>
  The rows a receipt is read from: a later state keeps the commits, and adds no event or effect at
  an old position.
\<close>

definition keeps_receipts :: "world_db \<Rightarrow> world_db \<Rightarrow> bool" where
  "keeps_receipts db db' \<longleftrightarrow>
     (\<exists>added. db_commits db' = db_commits db @ added) \<and>
     (\<forall>p. commit_exists db p \<longrightarrow>
        rows_at ev_position ev_index p (db_events db') = rows_at ev_position ev_index p (db_events db) \<and>
        map jb_id (rows_at jb_position jb_index p (db_jobs db')) = map jb_id (rows_at jb_position jb_index p (db_jobs db)))"

lemma lookup_append_Some: "lookup key rows k = Some r \<Longrightarrow> lookup key (rows @ added) k = Some r"
  by (simp add: lookup_def find_append)

lemma stored_receipt_cong:
  assumes "keeps_receipts db db'" and "r \<in> set (db_commits db)"
  shows "stored_receipt db' i r = stored_receipt db i r"
proof -
  have p: "commit_exists db (cm_position r)" using assms(2) by (simp add: commit_exists_def)
  then have "map jb_id (rows_at jb_position jb_index (cm_position r) (db_jobs db')) =
      map jb_id (rows_at jb_position jb_index (cm_position r) (db_jobs db))"
    using assms(1) by (simp add: keeps_receipts_def)
  then have "map (from_bytes \<circ> jb_id) (rows_at jb_position jb_index (cm_position r) (db_jobs db')) =
      map (from_bytes \<circ> jb_id) (rows_at jb_position jb_index (cm_position r) (db_jobs db))"
    by (metis list.map_comp)
  with assms(1) p show ?thesis by (simp add: stored_receipt_def keeps_receipts_def comp_def)
qed

lemma receipt_kept:
  assumes wf: "db_wf X db" "db_wf X db'" and keep: "keeps_receipts db db'"
    and found: "load_existing_receipt db i d = Inr (Some r)"
  shows "load_existing_receipt db' i d = Inr (Some r)"
proof -
  obtain row where row: "lookup cm_command_id (db_commits db) (into_bytes i) = Some row"
      "word_rcat (cm_digest row) = d" "r = stored_receipt db i row"
    using found unfolding load_existing_receipt_wf [OF wf(1)] by (auto split: option.splits if_splits)
  have "lookup cm_command_id (db_commits db') (into_bytes i) = Some row"
    using keep row(1) lookup_append_Some by (fastforce simp: keeps_receipts_def)
  then show ?thesis
    using row lookup_Some_D [OF row(1)] stored_receipt_cong [OF keep] by (simp add: load_existing_receipt_wf [OF wf(2)])
qed

lemma keeps_receipts_refl [simp]: "keeps_receipts db db"
  by (simp add: keeps_receipts_def)

lemma rows_at_append:
  "(\<forall>r \<in> set added. pos r \<noteq> p) \<Longrightarrow> rows_at pos idx p (rows @ added) = rows_at pos idx p rows"
proof -
  assume "\<forall>r \<in> set added. pos r \<noteq> p"
  then have "filter (\<lambda>r. pos r = p) added = []" by (simp add: filter_empty_conv)
  then show ?thesis by (simp add: rows_at_def)
qed

lemma commit_event_row: "commit_event X p ie db = Inr db' \<Longrightarrow> db' = db\<lparr>db_events := db_events db @ [event_row_of X p ie]\<rparr>"
  by (auto simp: commit_event_def result_simps index_to_sql_def insert_event_row_def event_row_of_def split: if_splits)

lemma commit_effect_row: "commit_effect X p ie db = Inr db' \<Longrightarrow> db' = db\<lparr>db_jobs := db_jobs db @ [job_row_of X p ie]\<rparr>"
  by (auto simp: commit_effect_def result_simps index_to_sql_def insert_job_row_def job_row_of_def split: if_splits)

lemma event_loop_rows:
  "fold_result (commit_event X p) ies db = Inr db' \<Longrightarrow> db' = db\<lparr>db_events := db_events db @ map (event_row_of X p) ies\<rparr>"
proof (induction ies arbitrary: db)
  case (Cons ie ies)
  then obtain db1 where "commit_event X p ie db = Inr db1" "fold_result (commit_event X p) ies db1 = Inr db'"
    by (auto simp: result_simps)
  with Cons.IH [OF this(2)] commit_event_row [OF this(1)] show ?case by simp
qed simp

lemma effect_loop_rows:
  "fold_result (commit_effect X p) ies db = Inr db' \<Longrightarrow> db' = db\<lparr>db_jobs := db_jobs db @ map (job_row_of X p) ies\<rparr>"
proof (induction ies arbitrary: db)
  case (Cons ie ies)
  then obtain db1 where "commit_effect X p ie db = Inr db1" "fold_result (commit_effect X p) ies db1 = Inr db'"
    by (auto simp: result_simps)
  with Cons.IH [OF this(2)] commit_effect_row [OF this(1)] show ?case by simp
qed simp

lemma mutation_loop_rest: "fold_result (commit_mutation X p) ims db = Inr db' \<Longrightarrow> same_but_log db db'"
proof (erule fold_result_invariant)
  fix im a b assume "same_but_log db a" and m: "commit_mutation X p im a = Inr b"
  from m obtain r a1 where "insert_mutation_row r a = Some a1" "apply_mutation X (snd im) p a1 = Inr b"
    by (auto simp: commit_mutation_def result_simps)
  then have "same_but_log a b"
    using apply_mutation_same_logs [of X "snd im" p a1 b]
    by (auto simp: same_but_log_def same_logs_def insert_mutation_row_def)
  with \<open>same_but_log db a\<close> show "same_but_log db b" by (simp add: same_but_log_def)
qed (simp add: same_but_log_def)

text \<open>The rows a written commit leaves for its receipt.\<close>

lemma write_commit_rows:
  assumes "write_commit X c t current now db = Inr (receipt, db')"
  obtains w r where "checked_add_u64 current 1 = Some w" "receipt = new_receipt c t w"
    "db_commits db' = db_commits db @ [r]" "cm_command_id r = into_bytes (command_id c)"
    "cm_digest r = digest_bytes (command_digest X c)" "cm_position r = uint w" "uint w < 2 ^ 63"
    "db_events db' = db_events db @ map (event_row_of X (uint w)) (enumerate 0 (tx_events t))"
    "db_jobs db' = db_jobs db @ map (job_row_of X (uint w)) (enumerate 0 (tx_effects t))"
    "\<not> commit_exists db (uint w)" "cm_command_id r \<notin> set (map cm_command_id (db_commits db))"
proof (rule write_commit_stages [OF assms])
  fix w p db1 db2 db3 db4
  assume st: "checked_add_u64 current 1 = Some w" "position_to_sql w = Inr p"
    and ins: "insert_commit X c (command_digest X c) p now db = Inr db1"
    and loops: "fold_result (commit_mutation X p) (enumerate 0 (tx_mutations t)) db1 = Inr db2"
      "fold_result (commit_event X p) (enumerate 0 (tx_events t)) db2 = Inr db3"
      "fold_result (commit_effect X p) (enumerate 0 (tx_effects t)) db3 = Inr db4"
    and adv: "advance_position p (uint current) db4 = Inr db'"
    and rc: "receipt = \<lparr>receipt_disposition = Committed, receipt_command_id = command_id c,
       receipt_position = w, receipt_event_ids = map draft_event_id (tx_events t),
       receipt_effect_job_ids = map draft_effect_id (tx_effects t)\<rparr>"
  have p: "p = uint w" "uint w < 2 ^ 63" using st(2) unfolding position_to_sql_Inr by simp_all
  obtain r where r: "insert_commit_row r db = Some db1" "cm_position r = p"
      "cm_command_id r = into_bytes (command_id c)" "cm_digest r = digest_bytes (command_digest X c)"
    using ins by (rule insert_commit_Inr)
  then have r1: "db1 = db\<lparr>db_commits := db_commits db @ [r]\<rparr>" "\<not> commit_exists db p"
      "cm_command_id r \<notin> set (map cm_command_id (db_commits db))"
    by (simp_all add: insert_commit_row_def)
  have db': "db' = db4\<lparr>db_metadata := db_metadata db'\<rparr>"
    using adv by (auto simp: advance_position_Inr)
  have "db_commits db' = db_commits db4" "db_events db' = db_events db4" "db_jobs db' = db_jobs db4"
    by (subst db', simp)+
  then show thesis
    using that [of w r] st(1) rc r r1 p mutation_loop_rest [OF loops(1)] event_loop_rows [OF loops(2)] effect_loop_rows [OF loops(3)]
    by (simp add: new_receipt_def same_but_log_def)
qed

lemma write_commit_keeps_receipts:
  assumes "write_commit X c t current now db = Inr (receipt, db')"
  shows "keeps_receipts db db'"
proof (rule write_commit_rows [OF assms])
  fix w r
  assume rows: "db_commits db' = db_commits db @ [r]"
    "db_events db' = db_events db @ map (event_row_of X (uint w)) (enumerate 0 (tx_events t))"
    "db_jobs db' = db_jobs db @ map (job_row_of X (uint w)) (enumerate 0 (tx_effects t))"
    and new: "\<not> commit_exists db (uint w)"
  have "rows_at ev_position ev_index p (db_events db') = rows_at ev_position ev_index p (db_events db) \<and>
      map jb_id (rows_at jb_position jb_index p (db_jobs db')) = map jb_id (rows_at jb_position jb_index p (db_jobs db))"
    if "commit_exists db p" for p
  proof -
    have "p \<noteq> uint w" using that new by auto
    then show ?thesis
      unfolding rows by (subst (1 2) rows_at_append) (auto simp: event_row_of_def job_row_of_def)
  qed
  then show ?thesis using rows(1) by (auto simp: keeps_receipts_def)
qed

lemma commit_keeps_receipts: "commit X c t evaluated now db = (res, db') \<Longrightarrow> keeps_receipts db db'"
  by (erule commit_cases) (auto intro: write_commit_keeps_receipts)

section \<open>The receipt of a written commit\<close>

lemma rows_at_new:
  assumes "\<forall>r \<in> set rows. pos r \<noteq> p" and "\<forall>r \<in> set added. pos r = p" and "sorted (map idx added)"
  shows "rows_at pos idx p (rows @ added) = added"
proof -
  have "filter (\<lambda>r. pos r = p) rows = []" "filter (\<lambda>r. pos r = p) added = added"
    using assms(1,2) by (simp_all add: filter_empty_conv)
  then show ?thesis using assms(3) by (simp add: rows_at_def sort_key_id_if_sorted)
qed

lemma sorted_enumerate: "sorted (map (\<lambda>ix. int (fst ix)) (enumerate k xs))"
  by (induction xs arbitrary: k) (auto simp: in_set_enumerate_eq)

lemma map_enumerate_snd: "map (\<lambda>x. f (snd x)) (enumerate k xs) = map f xs"
  by (induction xs arbitrary: k) auto

lemma write_commit_receipt:
  assumes w: "write_commit X c t current now db = Inr (receipt, db')" and wf: "db_wf X db" "db_wf X db'"
  shows "committed_receipt X db' c = Inr (Some (receipt\<lparr>receipt_disposition := AlreadyCommitted\<rparr>))"
  using w
proof (rule write_commit_rows)
  fix w r
  assume rc: "receipt = new_receipt c t w" and rows: "db_commits db' = db_commits db @ [r]"
    "db_events db' = db_events db @ map (event_row_of X (uint w)) (enumerate 0 (tx_events t))"
    "db_jobs db' = db_jobs db @ map (job_row_of X (uint w)) (enumerate 0 (tx_effects t))"
    and r: "cm_command_id r = into_bytes (command_id c)" "cm_digest r = digest_bytes (command_digest X c)"
      "cm_position r = uint w"
    and new: "\<not> commit_exists db (uint w)" "cm_command_id r \<notin> set (map cm_command_id (db_commits db))"
  have "lookup cm_command_id (db_commits db) (into_bytes (command_id c)) = None"
    using new(2) r(1) by (simp add: lookup_None)
  then have found: "lookup cm_command_id (db_commits db') (into_bytes (command_id c)) = Some r"
    using r(1) by (simp add: rows(1) table_simps)
  have old: "\<forall>e \<in> set (db_events db). ev_position e \<noteq> uint w" "\<forall>j \<in> set (db_jobs db). jb_position j \<noteq> uint w"
    using new(1) db_wf_parts(6,7) [OF wf(1)] by (auto simp: logs_wf_def jobs_wf_def)
  have "rows_at ev_position ev_index (uint w) (db_events db') = map (event_row_of X (uint w)) (enumerate 0 (tx_events t))"
    unfolding rows by (rule rows_at_new [OF old(1)]) (auto simp: event_row_of_def comp_def sorted_enumerate)
  moreover have "rows_at jb_position jb_index (uint w) (db_jobs db') = map (job_row_of X (uint w)) (enumerate 0 (tx_effects t))"
    unfolding rows by (rule rows_at_new [OF old(2)]) (auto simp: job_row_of_def comp_def sorted_enumerate)
  ultimately have "stored_receipt db' (command_id c) r = receipt\<lparr>receipt_disposition := AlreadyCommitted\<rparr>"
    using r(3) by (simp add: stored_receipt_def rc new_receipt_def comp_def event_row_of_def job_row_of_def
        map_enumerate_snd)
  then show ?thesis
    using found r(2)
    by (simp add: committed_receipt_def load_existing_receipt_wf [OF wf(2)] digest_bytes_def word_rcat_be_bytes)
qed

lemma commit_receipt_answers:
  assumes c: "commit X c t evaluated now db = (Inr receipt, db')" and wf: "db_wf X db"
  shows "committed_receipt X db' c = Inr (Some (receipt\<lparr>receipt_disposition := AlreadyCommitted\<rparr>))"
  using c
proof (cases rule: commit_cases)
  case (replayed r)
  then obtain row where "r = stored_receipt db (command_id c) row"
    unfolding committed_receipt_def load_existing_receipt_wf [OF wf] by (auto split: option.splits if_splits)
  then have "r\<lparr>receipt_disposition := AlreadyCommitted\<rparr> = r" by (simp add: stored_receipt_def)
  with replayed show ?thesis by simp
next
  case (written r current)
  then show ?thesis using write_commit_receipt [OF written(3) wf commit_keeps_wf [OF wf c]] by simp
qed simp

lemma receipt_replays:
  "committed_receipt X db c = Inr (Some r) \<Longrightarrow> commit X c t evaluated now db = (Inr r, db)"
  by (simp add: commit_def commit_transaction_def committed_receipt_def)

end
