(* ===== verification/Sql_Logs.thy ===== *)
theory Sql_Logs
  imports Sql_Receipts
begin

text \<open>
  Reading the logs back: the provenance of a commit, the joins of events and jobs with their
  commits, and the events of one commit as the command and its drafts gave them.
\<close>

section \<open>Provenance\<close>

definition provenance_of :: "world_command \<Rightarrow> unix_time \<Rightarrow> command_provenance" where
  "provenance_of c recorded =
     \<lparr>prov_command_id = command_id c, prov_command_schema = command_schema c,
      prov_principal = command_principal c, prov_actor = command_actor c,
      prov_causation = command_causation c, prov_correlation = command_correlation c,
      prov_effective_at = command_effective_at c, prov_recorded_at = recorded\<rparr>"

lemma decode_actor_parts:
  "cm_actor_kind r = fst (actor_parts a) \<Longrightarrow> cm_actor_id r = snd (actor_parts a) \<Longrightarrow> decode_actor r = Inr a"
  by (cases a) (simp_all add: decode_actor_def id_from_blob_defs)

lemma decode_causation_parts:
  "cm_causation_kind r = fst (causation_parts k) \<Longrightarrow> cm_causation_id r = snd (causation_parts k) \<Longrightarrow>
     decode_causation r = Inr k"
  by (cases k rule: causation_parts.cases) (simp_all add: decode_causation_def id_from_blob_defs)

lemma decode_provenance_commit_row:
  assumes "canonical_key (command_schema c)"
  shows "decode_provenance (commit_row_of X c p now) = Inr (provenance_of c (recorded_time now))"
proof -
  have "decode_actor (commit_row_of X c p now) = Inr (command_actor c)"
    by (rule decode_actor_parts) (simp_all add: commit_row_of_def encode_commit_def)
  moreover have "decode_causation (commit_row_of X c p now) = Inr (command_causation c)"
    by (rule decode_causation_parts) (simp_all add: commit_row_of_def encode_commit_def)
  moreover have "map_option UnixTimeMillis (map_option time_millis t) = t" for t
    by (cases t) simp_all
  ultimately show ?thesis
    using assms by (simp add: decode_provenance_def provenance_of_def)
      (simp add: commit_row_of_def encode_commit_def id_from_blob_defs)
qed

lemma decode_provenance_total:
  assumes wf: "db_wf X db" and r: "r \<in> set (db_commits db)"
  shows "\<exists>v. decode_provenance r = Inr v"
proof -
  have ok: "commit_row_ok r" "schema_exists db (cm_schema_id r) (cm_schema_version r)"
    using wf r by (auto simp: db_wf_def tables_wf_def commits_wf_def)
  have "\<exists>a. decode_actor r = Inr a"
    using ok(1) by (auto simp: commit_row_ok_def decode_actor_def id_from_blob_defs id_from_blob_def fixed_id_bytes_def)
  moreover have "\<exists>k. decode_causation r = Inr k"
    using ok(1) by (auto simp: commit_row_ok_def decode_causation_def id_from_blob_defs id_from_blob_def
        fixed_id_bytes_def split: option.splits)
  ultimately show ?thesis
    using ok decode_stored_key [OF db_wf_parts(1) [OF wf] ok(2)]
    by (auto simp: decode_provenance_def commit_row_ok_def id_from_blob_defs id_from_blob_def fixed_id_bytes_def)
qed

section \<open>Joins\<close>

lemma filter_key:
  "distinct (map key xs) \<Longrightarrow> filter (\<lambda>r. key r = k) xs = (case lookup key xs k of None \<Rightarrow> [] | Some r \<Rightarrow> [r])"
proof (induction xs)
  case (Cons x xs)
  show ?case
  proof (cases "key x = k")
    case True
    then have "lookup key xs k = None" using Cons.prems by (auto simp: lookup_None)
    then show ?thesis using Cons True by (simp add: lookup_def)
  qed (use Cons in \<open>simp add: lookup_def\<close>)
qed (simp add: lookup_def)

definition commit_at :: "world_db \<Rightarrow> int \<Rightarrow> commit_row" where
  "commit_at db p = the (lookup cm_position (db_commits db) p)"

lemma commit_positions_distinct:
  assumes "db_wf X db"
  shows "distinct (map cm_position (db_commits db))"
proof -
  obtain n where "map cm_position (db_commits db) = map int [1..<Suc n]"
    using assms by (auto simp: db_wf_def tables_wf_def commits_wf_def)
  then show ?thesis by (simp add: distinct_map del: upt_Suc)
qed

lemma commit_at_lookup:
  assumes "db_wf X db" and "commit_exists db p"
  shows "lookup cm_position (db_commits db) p = Some (commit_at db p)"
    and "commit_at db p \<in> set (db_commits db)"
proof -
  have "lookup cm_position (db_commits db) p \<noteq> None" using assms(2) by (simp add: lookup_None commit_exists_def)
  then show l: "lookup cm_position (db_commits db) p = Some (commit_at db p)" by (auto simp: commit_at_def)
  show "commit_at db p \<in> set (db_commits db)" using lookup_Some_D [OF l] by blast
qed

lemma commits_joined:
  assumes "db_wf X db" and "commit_exists db p"
  shows "filter (\<lambda>c. cm_position c = p) (db_commits db) = [commit_at db p]"
  using filter_key [OF commit_positions_distinct [OF assms(1)], of p] commit_at_lookup(1) [OF assms] by simp

lemma concat_singletons: "(\<And>x. x \<in> set xs \<Longrightarrow> f x = [g x]) \<Longrightarrow> concat (map f xs) = map g xs"
  by (induction xs) auto

lemma join_events_wf:
  assumes "db_wf X db"
  shows "join_events db = map (\<lambda>e. (e, commit_at db (ev_position e))) (db_events db)"
  unfolding join_events_def
proof (rule concat_singletons)
  fix e assume "e \<in> set (db_events db)"
  then have "commit_exists db (ev_position e)" using db_wf_parts(6) [OF assms] by (simp add: logs_wf_def)
  then show "map (Pair e) (filter (\<lambda>c. cm_position c = ev_position e) (db_commits db)) = [(e, commit_at db (ev_position e))]"
    by (simp add: commits_joined [OF assms])
qed

lemma join_jobs_wf:
  assumes "db_wf X db"
  shows "join_jobs db = map (\<lambda>j. (j, commit_at db (jb_position j))) (db_jobs db)"
  unfolding join_jobs_def
proof (rule concat_singletons)
  fix j assume "j \<in> set (db_jobs db)"
  then have "commit_exists db (jb_position j)" using db_wf_parts(7) [OF assms] by (simp add: jobs_wf_def)
  then show "map (Pair j) (filter (\<lambda>c. cm_position c = jb_position j) (db_commits db)) = [(j, commit_at db (jb_position j))]"
    by (simp add: commits_joined [OF assms])
qed

lemma position_from_row:
  assumes "db_wf X db" and "commit_exists db p"
  shows "position_from_sql p = Inr (word_of_int p)" and "uint (word_of_int p :: u64) = p"
proof -
  obtain n where n: "n < 2 ^ 63" "tables_wf n db" using assms(1) by (auto simp: db_wf_def)
  then have "1 \<le> p" "p \<le> int n" using positions_below assms(2) by auto
  with n(1) show "position_from_sql p = Inr (word_of_int p)" "uint (word_of_int p :: u64) = p"
    by (simp_all add: position_from_sql_def u64_try_from_def uint_word_of_int)
qed

section \<open>The events of one commit\<close>

definition stored_event_of :: "world_id \<Rightarrow> world_command \<Rightarrow> u64 \<Rightarrow> clock \<Rightarrow> nat \<times> event_draft \<Rightarrow> stored_event" where
  "stored_event_of w c position now ie =
     \<lparr>event_world_id = w, event_id = draft_event_id (snd ie), event_position = position,
      event_index = word_of_nat (fst ie), event_provenance = provenance_of c (recorded_time now),
      event_schema = draft_event_schema (snd ie), event_payload = draft_event_payload (snd ie)\<rparr>"

lemma decode_event_row_of:
  assumes "canonical_key (command_schema c)" and "canonical_key (draft_event_schema (snd ie))"
    and "json_stable X (draft_event_payload (snd ie))" and "fst ie < 2 ^ 32"
    and "position_from_sql p = Inr position"
  shows "decode_event X w (event_row_of X p ie, commit_row_of X c p now) = Inr (stored_event_of w c position now ie)"
proof -
  have "u32_try_from (int (fst ie)) = Some (word_of_nat (fst ie))"
    using assms(4) by (simp add: u32_try_from_def)
  then show ?thesis
    using assms decode_provenance_commit_row [OF assms(1)]
    by (simp add: decode_event_def event_row_of_def stored_event_of_def json_stable_def index_from_sql_def id_from_blob_defs)
qed

lemma schema_stored_canonical:
  assumes "schemas_wf X db" and "schema_stored db k"
  shows "canonical_key k"
  using schema_exists_canonical [OF assms(1), of "key_text k" "key_int k"] assms(2) by (simp add: schema_stored_def)

lemma sort_key_comp: "sort_key (f \<circ> g) xs = sort_key (\<lambda>x. f (g x)) xs"
  by (simp add: comp_def)

lemma collect_result_of_map: "collect_result f (map g xs) = collect_result (\<lambda>x. f (g x)) xs"
  by (induction xs) auto

lemma commit_events_read_back:
  assumes wf: "db_wf X db" and new: "committed_receipt X db c = Inr None"
    and chk: "check_commit X c t evaluated db = Inr w" and room: "uint w + 1 < 2 ^ 63"
    and bd: "commit_bounded t now" and run: "commit X c t evaluated now db = (Inr receipt, db')"
    and stable: "\<forall>e \<in> set (tx_events t). json_stable X (draft_event_payload e)"
  shows "events_at_position X db' wid (receipt_position receipt) =
      Inr (map (stored_event_of wid c (receipt_position receipt) now) (enumerate 0 (tx_events t)))"
proof -
  obtain n reg where n: "n < 2 ^ 63" "tables_wf n db" "uint w = int n"
    and reg: "mirrors X reg db" and ok: "validate_command_schema reg c = Inr ()" "validate_transaction reg t = Inr ()"
    using check_commit_checked [OF wf chk] .
  define p where "p = uint (w + 1)"
  have p: "p = int (Suc n)" using next_word(2) [OF n(3)] room n(3) by (simp add: p_def)
  have wr: "receipt = new_receipt c t (w + 1)" "commit_writes X c t (w + 1) now db db'"
    using commit_new_command [OF wf new chk room bd] run by (auto split: sum.splits)
  have wf': "db_wf X db'" by (rule commit_keeps_wf [OF wf run])
  have schemas: "schemas_wf X db" using wf by (rule db_wf_parts)
  have canon: "canonical_key (command_schema c)" "\<forall>e \<in> set (tx_events t). canonical_key (draft_event_schema e)"
    using schema_stored_canonical [OF schemas] validated_stored [OF reg] ok
    by (auto simp: validate_command_schema_def validate_transaction_Inr)
  note rows = wr(2) [unfolded commit_writes_def, folded p_def]
  have ex: "commit_exists db' p" using rows by (simp add: commit_exists_def)
  have "commit_at db' p = commit_row_of X c p now"
  proof -
    have "lookup cm_position (db_commits db) p = None"
      using positions_below [OF n(2), of p] p by (simp add: lookup_None commit_exists_def)
    then show ?thesis using rows by (simp add: commit_at_def table_simps)
  qed
  moreover have "filter (\<lambda>e. ev_position e = p) (db_events db') = map (event_row_of X p) (enumerate 0 (tx_events t))"
    using rows no_rows_at_next(2) [OF n(2) p] by (auto simp: filter_empty_conv event_row_of_def comp_def)
  then have "filter (\<lambda>ec. ev_position (fst ec) = p) (join_events db') =
      map (\<lambda>e. (e, commit_at db' p)) (map (event_row_of X p) (enumerate 0 (tx_events t)))"
    unfolding join_events_wf [OF wf'] by (simp add: filter_map comp_def event_row_of_def)
  ultimately have joined: "filter (\<lambda>ec. ev_position (fst ec) = p) (join_events db') =
      map (\<lambda>ie. (event_row_of X p ie, commit_row_of X c p now)) (enumerate 0 (tx_events t))"
    by (simp add: comp_def)
  have sorted: "sort_key (\<lambda>ec. ev_index (fst ec)) (map (\<lambda>ie. (event_row_of X p ie, commit_row_of X c p now)) (enumerate 0 (tx_events t)))
      = map (\<lambda>ie. (event_row_of X p ie, commit_row_of X c p now)) (enumerate 0 (tx_events t))"
    by (rule sort_key_id_if_sorted) (simp add: comp_def event_row_of_def sorted_enumerate)
  have "fst ie < 2 ^ 32" "snd ie \<in> set (tx_events t)" if "ie \<in> set (enumerate 0 (tx_events t))" for ie
    using that bd nth_mem [of "fst ie" "tx_events t"] by (auto simp: in_set_enumerate_eq commit_bounded_def)
  then have "collect_result (decode_event X wid) (map (\<lambda>ie. (event_row_of X p ie, commit_row_of X c p now)) (enumerate 0 (tx_events t)))
      = Inr (map (stored_event_of wid c (w + 1) now) (enumerate 0 (tx_events t)))"
    unfolding collect_result_of_map
    by (intro collect_result_map decode_event_row_of) (use canon stable position_from_row(1) [OF wf' ex] in \<open>auto simp: p_def\<close>)
  moreover have "position_to_sql (w + 1) = Inr p"
    using next_word(3) [OF n(3)] room n(3) p by simp
  ultimately show ?thesis
    using wr(1) joined sorted by (simp add: events_at_position_def new_receipt_def)
qed

section \<open>Decoding jobs\<close>

text \<open>
  What the columns of a job hold beyond the table constraints: 32-bit counters, and a payload that
  parses.
\<close>

definition job_readable :: "externs \<Rightarrow> job_row \<Rightarrow> bool" where
  "job_readable X r \<longleftrightarrow> jb_index r < 2 ^ 32 \<and> jb_attempts r < 2 ^ 32 \<and> json_parse X (jb_payload r) \<noteq> None"

definition jobs_readable :: "externs \<Rightarrow> world_db \<Rightarrow> bool" where
  "jobs_readable X db \<longleftrightarrow> (\<forall>r \<in> set (db_jobs db). job_readable X r)"

lemma decode_job_total:
  assumes wf: "db_wf X db" and r: "r \<in> set (db_jobs db)" "job_readable X r"
  shows "\<exists>j. decode_job X w (r, commit_at db (jb_position r)) = Inr j \<and>
    job_id j = from_bytes (jb_id r) \<and> uint (job_attempt_count j) = jb_attempts r \<and>
    uint (job_position j) = jb_position r"
proof -
  have ok: "job_row_ok r" "commit_exists db (jb_position r)" "schema_exists db (jb_schema_id r) (jb_schema_version r)"
    using db_wf_parts(7) [OF wf] r(1) by (auto simp: jobs_wf_def)
  obtain v where "decode_provenance (commit_at db (jb_position r)) = Inr v"
    using decode_provenance_total [OF wf commit_at_lookup(2) [OF wf ok(2)]] by blast
  moreover have "u32_try_from (jb_index r) = Some (word_of_int (jb_index r))"
    "u32_try_from (jb_attempts r) = Some (word_of_int (jb_attempts r))"
    "uint (word_of_int (jb_attempts r) :: u32) = jb_attempts r"
    using ok(1) r(2) by (auto simp: u32_try_from_def job_row_ok_def job_readable_def uint_word_of_int)
  ultimately show ?thesis
    using ok r(2) position_from_row [OF wf ok(2)] decode_stored_key [OF db_wf_parts(1) [OF wf] ok(3)]
    by (auto simp: decode_job_def job_readable_def job_row_ok_def index_from_sql_def id_from_blob_defs
        id_from_blob_def fixed_id_bytes_def)
qed

lemma find_map: "find P (map f xs) = map_option f (find (\<lambda>x. P (f x)) xs)"
  by (induction xs) auto

lemma effect_job_by_id_wf:
  assumes wf: "db_wf X db" and r: "r \<in> set (db_jobs db)" "jb_id r = into_bytes i"
  shows "effect_job_by_id X db w i = map_ok Some (decode_job X w (r, commit_at db (jb_position r)))"
proof -
  have dist: "distinct (map jb_id (db_jobs db))" using db_wf_parts(7) [OF wf] by (simp add: jobs_wf_def)
  have "find (\<lambda>j. jb_id j = into_bytes i) (db_jobs db) = Some r"
    using find_key_unique [OF dist r(1)] r(2) by simp
  then have "find (\<lambda>jc. jb_id (fst jc) = into_bytes i) (join_jobs db) = Some (r, commit_at db (jb_position r))"
    by (simp add: join_jobs_wf [OF wf] find_map)
  then show ?thesis by (simp add: effect_job_by_id_def)
qed

end
