(* ===== verification/Sql_Outbox_Facts.thy ===== *)
theory Sql_Outbox_Facts
  imports Sql_Outbox Sql_Logs
begin

text \<open>
  The life of an effect job: the outbox operations as transitions of one job, fencing by attempt,
  and which job a claim takes.
\<close>

section \<open>Jobs, abstractly\<close>

datatype job_state = Pending int | Running int | Completed | Cancelled

definition state_of_row :: "job_row \<Rightarrow> job_state" where
  "state_of_row r =
     (if jb_status r = STATUS_PENDING then Pending (jb_available r)
      else if jb_status r = STATUS_RUNNING then Running (the (jb_lease r))
      else if jb_status r = STATUS_COMPLETED then Completed else Cancelled)"

definition job_view :: "world_db \<Rightarrow> effect_job_id \<Rightarrow> (job_state \<times> int) option" where
  "job_view db i = map_option (\<lambda>r. (state_of_row r, jb_attempts r)) (job_row_at db i)"

text \<open>Whether an attempt holds the lease of a job.\<close>

definition holds :: "world_db \<Rightarrow> effect_job_id \<Rightarrow> u32 \<Rightarrow> bool" where
  "holds db i attempt \<longleftrightarrow> (\<exists>l. job_view db i = Some (Running l, uint attempt))"

lemma held_row:
  assumes "jobs_wf db" and "job_row_at db i = Some r"
  shows "held i attempt r \<longleftrightarrow> holds db i attempt"
  using assms lookup_Some_D [of jb_id "db_jobs db" "into_bytes i"]
  by (auto simp: held_def holds_def job_view_def job_row_at_def state_of_row_def status_defs split: if_splits)

lemma state_of_row_simps [simp]:
  "state_of_row (r\<lparr>jb_status := STATUS_COMPLETED, jb_lease := l, jb_error := e\<rparr>) = Completed"
  "state_of_row (r\<lparr>jb_status := STATUS_PENDING, jb_available := a, jb_lease := l, jb_error := e\<rparr>) = Pending a"
  "state_of_row (r\<lparr>jb_status := STATUS_CANCELLED, jb_lease := l, jb_error := e\<rparr>) = Cancelled"
  "state_of_row (r\<lparr>jb_status := STATUS_CANCELLED, jb_lease := l\<rparr>) = Cancelled"
  "state_of_row (r\<lparr>jb_status := STATUS_RUNNING, jb_attempts := n, jb_lease := Some t\<rparr>) = Running t"
  by (simp_all add: state_of_row_def status_defs)

section \<open>Fenced transitions\<close>

text \<open>A transition of the held job, or an error and no change.\<close>

lemma transition_claim_result:
  assumes wf: "jobs_wf db" and k: "job_keeping f"
    and ok: "\<And>r. job_row_ok r \<Longrightarrow> job_row_ok (f r)" and at: "\<And>r. jb_attempts (f r) = jb_attempts r"
    and st: "\<And>r. state_of_row (f r) = s"
  shows "if holds db i attempt
    then \<exists>db'. transition_claim i (held i attempt) f db = (Inr (), db') \<and> jobs_wf db' \<and>
           jobs_kept db db' \<and> job_view db' = (job_view db)(i \<mapsto> (s, uint attempt))
    else transition_claim i (held i attempt) f db =
           (Inl (if job_exists db i then EffectJobClaimLost i else EffectJobNotFound i), db)"
proof -
  define Q where "Q r \<longleftrightarrow> jb_status r = STATUS_RUNNING \<and> jb_attempts r = uint attempt" for r :: job_row
  have held: "held i attempt = (\<lambda>r. jb_id r = into_bytes i \<and> Q r)"
    by (auto simp: held_def Q_def fun_eq_iff)
  have rowok: "job_row_ok r" if "r \<in> set (db_jobs db)" for r using wf that by (simp add: jobs_wf_def)
  obtain db' where up: "update_jobs (held i attempt) f db =
        Some (case job_row_at db i of None \<Rightarrow> 0 | Some r \<Rightarrow> if Q r then 1 else 0, db')"
      and db': "db' = db\<lparr>db_jobs := map (\<lambda>r. if jb_id r = into_bytes i \<and> Q r then f r else r) (db_jobs db)\<rparr>"
      and wf': "jobs_wf db'"
      and at': "\<forall>j. job_row_at db' j = (if j = i then map_option (\<lambda>r. if Q r then f r else r) (job_row_at db i) else job_row_at db j)"
    unfolding held using update_jobs_one [OF wf k, of Q i] rowok ok by blast
  show ?thesis
  proof (cases "holds db i attempt")
    case True
    then obtain r where r: "job_row_at db i = Some r" by (auto simp: holds_def job_view_def)
    have idr: "jb_id r = into_bytes i" using r lookup_Some_D unfolding job_row_at_def by fast
    have Qr: "Q r" using held_row [OF wf r, of attempt] True idr by (simp add: held)
    have "job_view db' = (job_view db)(i \<mapsto> (s, uint attempt))"
      using at' r Qr at st by (auto simp: job_view_def fun_eq_iff Q_def)
    moreover have "transition_claim i (held i attempt) f db = (Inr (), db')"
      using up r Qr by (simp add: transition_claim_def)
    moreover have "jobs_kept db db'" unfolding db' by (rule jobs_keptI [OF k])
    ultimately show ?thesis using True wf' by auto
  next
    case False
    have noQ: "\<not> (jb_id r = into_bytes i \<and> Q r)" if "r \<in> set (db_jobs db)" for r
    proof
      assume a: "jb_id r = into_bytes i \<and> Q r"
      then have "job_row_at db i = Some r" using that job_row_at_Some [OF wf] by blast
      with held_row [OF wf this, of attempt] a False show False by (simp add: held)
    qed
    have same: "db' = db" unfolding db' by (subst map_idI) (use noQ in auto)
    have "(case job_row_at db i of None \<Rightarrow> 0 | Some r \<Rightarrow> if Q r then 1 else 0) = (0 :: nat)"
      using noQ job_row_at_Some [OF wf] by (auto split: option.splits)
    then show ?thesis using False up same by (simp add: transition_claim_def)
  qed
qed

lemma complete_result:
  assumes "jobs_wf db"
  shows "if holds db i attempt
    then \<exists>db'. complete i attempt db = (Inr (), db') \<and> jobs_wf db' \<and> jobs_kept db db' \<and>
           job_view db' = (job_view db)(i \<mapsto> (Completed, uint attempt))
    else complete i attempt db = (Inl (if job_exists db i then EffectJobClaimLost i else EffectJobNotFound i), db)"
  unfolding complete_def
  by (rule transition_claim_result [OF assms]) (simp_all add: job_keeping_def job_row_ok_def state_of_row_def status_defs)

lemma retry_result:
  assumes "jobs_wf db" and "length diagnostic \<le> MAX_LAST_ERROR_BYTES"
  shows "if holds db i attempt
    then \<exists>db'. retry i attempt available diagnostic db = (Inr (), db') \<and> jobs_wf db' \<and> jobs_kept db db' \<and>
           job_view db' = (job_view db)(i \<mapsto> (Pending (time_millis available), uint attempt))
    else retry i attempt available diagnostic db =
           (Inl (if job_exists db i then EffectJobClaimLost i else EffectJobNotFound i), db)"
proof -
  have "retry i attempt available diagnostic db = transition_claim i (held i attempt)
      (\<lambda>r. r\<lparr>jb_status := STATUS_PENDING, jb_available := time_millis available, jb_lease := None,
               jb_error := Some diagnostic\<rparr>) db"
    using assms(2) by (simp add: retry_def)
  then show ?thesis
    by (simp only:) (rule transition_claim_result [OF assms(1)],
      simp_all add: job_keeping_def job_row_ok_def state_of_row_def status_defs)
qed

lemma cancel_claimed_result:
  assumes "jobs_wf db" and "length diagnostic \<le> MAX_LAST_ERROR_BYTES"
  shows "if holds db i attempt
    then \<exists>db'. cancel_claimed i attempt diagnostic db = (Inr (), db') \<and> jobs_wf db' \<and> jobs_kept db db' \<and>
           job_view db' = (job_view db)(i \<mapsto> (Cancelled, uint attempt))
    else cancel_claimed i attempt diagnostic db =
           (Inl (if job_exists db i then EffectJobClaimLost i else EffectJobNotFound i), db)"
proof -
  have "cancel_claimed i attempt diagnostic db = transition_claim i (held i attempt)
      (\<lambda>r. r\<lparr>jb_status := STATUS_CANCELLED, jb_lease := None, jb_error := Some diagnostic\<rparr>) db"
    using assms(2) by (simp add: cancel_claimed_def)
  then show ?thesis
    by (simp only:) (rule transition_claim_result [OF assms(1)],
      simp_all add: job_keeping_def job_row_ok_def state_of_row_def status_defs)
qed

lemma cancel_result:
  assumes wf: "jobs_wf db"
  shows "case job_view db i of
      None \<Rightarrow> cancel i db = (Inl (EffectJobNotFound i), db)
    | Some (Completed, _) \<Rightarrow> cancel i db = (Inl (EffectJobTerminal i), db)
    | Some (Cancelled, _) \<Rightarrow> cancel i db = (Inr False, db)
    | Some (_, n) \<Rightarrow> (\<exists>db'. cancel i db = (Inr True, db') \<and> jobs_wf db' \<and> jobs_kept db db' \<and>
                      job_view db' = (job_view db)(i \<mapsto> (Cancelled, n)))"
proof -
  define Q where "Q r \<longleftrightarrow> jb_status r = STATUS_PENDING \<or> jb_status r = STATUS_RUNNING" for r :: job_row
  define f where "f r = r\<lparr>jb_status := STATUS_CANCELLED, jb_lease := None\<rparr>" for r :: job_row
  have rowok: "job_row_ok r" if "r \<in> set (db_jobs db)" for r using wf that by (simp add: jobs_wf_def)
  have k: "job_keeping f" by (simp add: job_keeping_def f_def)
  obtain db' where up: "update_jobs (\<lambda>r. jb_id r = into_bytes i \<and> Q r) f db =
        Some (case job_row_at db i of None \<Rightarrow> 0 | Some r \<Rightarrow> if Q r then 1 else 0, db')"
      and db': "db' = db\<lparr>db_jobs := map (\<lambda>r. if jb_id r = into_bytes i \<and> Q r then f r else r) (db_jobs db)\<rparr>"
      and wf': "jobs_wf db'"
      and at': "\<forall>j. job_row_at db' j = (if j = i then map_option (\<lambda>r. if Q r then f r else r) (job_row_at db i) else job_row_at db j)"
    using update_jobs_one [OF wf k, of Q i] rowok by (force simp: f_def job_row_ok_def status_defs)
  show ?thesis
  proof (cases "job_row_at db i")
    case None
    then have "find (\<lambda>r. jb_id r = into_bytes i) (db_jobs db') = None"
      using at' unfolding job_row_at_def lookup_def by (metis option.simps(8))
    moreover have "db' = db"
    proof -
      have "\<not> (jb_id r = into_bytes i \<and> Q r)" if "r \<in> set (db_jobs db)" for r
        using None that by (auto simp: job_row_at_def lookup_None image_iff)
      then show ?thesis unfolding db' by (subst map_idI) auto
    qed
    ultimately show ?thesis
      using None up by (simp add: cancel_def job_view_def Q_def [abs_def] f_def [abs_def])
  next
    case (Some r)
    have r: "r \<in> set (db_jobs db)" "jb_id r = into_bytes i" using Some job_row_at_Some [OF wf] by auto
    have st: "jb_status r \<in> {0, 1, 2, 3}" using rowok [OF r(1)] unfolding job_row_ok_def by blast
    show ?thesis
    proof (cases "Q r")
      case True
      then have "job_view db' = (job_view db)(i \<mapsto> (Cancelled, jb_attempts r))"
        using at' Some by (auto simp: job_view_def fun_eq_iff f_def)
      moreover have "cancel i db = (Inr True, db')"
        using up Some True by (simp add: cancel_def Q_def [abs_def] f_def [abs_def])
      moreover have "job_view db i = Some (state_of_row r, jb_attempts r)" by (simp add: job_view_def Some)
      moreover have "jobs_kept db db'" unfolding db' by (rule jobs_keptI [OF k])
      moreover have "(\<exists>a. state_of_row r = Pending a) \<or> (\<exists>l. state_of_row r = Running l)"
        using True by (auto simp: state_of_row_def Q_def)
      ultimately show ?thesis using wf' by auto
    next
      case False
      have "\<not> (jb_id x = into_bytes i \<and> Q x)" if "x \<in> set (db_jobs db)" for x
        using that False Some job_row_at_Some [OF wf, of i x] by auto
      then have same: "db' = db" unfolding db' by (subst map_idI) auto
      have "find (\<lambda>r. jb_id r = into_bytes i) (db_jobs db) = Some r"
        using Some by (simp add: job_row_at_def lookup_def)
      moreover have "update_jobs (\<lambda>r. jb_id r = into_bytes i \<and> (jb_status r = STATUS_PENDING \<or> jb_status r = STATUS_RUNNING))
          (\<lambda>r. r\<lparr>jb_status := STATUS_CANCELLED, jb_lease := None\<rparr>) db = Some (0, db)"
        using up Some False same by (simp add: Q_def [abs_def] f_def [abs_def])
      ultimately have "cancel i db = (if jb_status r = STATUS_CANCELLED then (Inr False, db)
          else if jb_status r = STATUS_COMPLETED then (Inl (EffectJobTerminal i), db)
          else (Inl (CorruptData ''effect job has unsupported status''), db))"
        by (simp add: cancel_def)
      moreover have "job_view db i = Some (state_of_row r, jb_attempts r)" by (simp add: job_view_def Some)
      moreover have "jb_status r = STATUS_COMPLETED \<or> jb_status r = STATUS_CANCELLED"
        using st False by (auto simp: Q_def status_defs)
      ultimately show ?thesis by (auto simp: state_of_row_def status_defs)
    qed
  qed
qed

section \<open>Claims\<close>

definition candidate :: "world_db \<Rightarrow> int \<Rightarrow> job_row option" where
  "candidate db now =
     (case sort_key (\<lambda>r. (jb_position r, jb_index r)) (filter (due now) (db_jobs db)) of
        [] \<Rightarrow> None | j # _ \<Rightarrow> Some j)"

lemma candidate_None: "candidate db now = None \<longleftrightarrow> (\<forall>r \<in> set (db_jobs db). \<not> due now r)"
proof -
  let ?rs = "sort_key (\<lambda>r. (jb_position r, jb_index r)) (filter (due now) (db_jobs db))"
  have "candidate db now = None \<longleftrightarrow> ?rs = []" by (simp add: candidate_def split: list.splits)
  moreover have "?rs = [] \<longleftrightarrow> filter (due now) (db_jobs db) = []" by (metis length_0_conv length_sort)
  ultimately show ?thesis by (simp add: filter_empty_conv)
qed

lemma candidate_Some:
  assumes "candidate db now = Some j"
  shows "j \<in> set (db_jobs db)" and "due now j"
    and "\<And>r. r \<in> set (db_jobs db) \<Longrightarrow> due now r \<Longrightarrow> (jb_position j, jb_index j) \<le> (jb_position r, jb_index r)"
proof -
  let ?rs = "sort_key (\<lambda>r. (jb_position r, jb_index r)) (filter (due now) (db_jobs db))"
  obtain js where js: "?rs = j # js" using assms by (auto simp: candidate_def split: list.splits)
  then have "j \<in> set ?rs" by (metis list.set_intros(1))
  then show "j \<in> set (db_jobs db)" "due now j" by auto
  fix r assume "r \<in> set (db_jobs db)" "due now r"
  then have "r \<in> set ?rs" by simp
  moreover have "sorted (map (\<lambda>r. (jb_position r, jb_index r)) ?rs)" by (rule sorted_sort_key)
  ultimately show "(jb_position j, jb_index j) \<le> (jb_position r, jb_index r)"
    unfolding js by auto
qed

lemma db_wf_jobs:
  assumes "db_wf X db" and "jobs_wf (db\<lparr>db_jobs := js\<rparr>)"
  shows "db_wf X (db\<lparr>db_jobs := js\<rparr>)"
proof -
  have "schemas_wf X (db\<lparr>db_jobs := js\<rparr>) = schemas_wf X db" by (rule schemas_wf_cong) simp
  then show ?thesis using assms by (auto simp: db_wf_def tables_wf_def metadata_at_def)
qed

lemma claim_next_result:
  assumes wf: "db_wf X db" and rd: "jobs_readable X db" and lease: "time_millis now < time_millis lease"
  shows "case candidate db (time_millis now) of
      None \<Rightarrow> claim_next X w now lease db = (Inr None, db)
    | Some j \<Rightarrow>
        if jb_attempts j + 1 = 2 ^ 32
        then claim_next X w now lease db = (Inl (EffectAttemptOverflow (from_bytes (jb_id j))), db)
        else \<exists>c db'. claim_next X w now lease db = (Inr (Some c), db') \<and>
          job_id (claimed_job c) = from_bytes (jb_id j) \<and> uint (claim_attempt c) = jb_attempts j + 1 \<and>
          claimed_lease c = lease \<and> db_wf X db' \<and> jobs_readable X db' \<and> jobs_kept db db' \<and>
          job_view db' = (job_view db)(from_bytes (jb_id j) \<mapsto> (Running (time_millis lease), jb_attempts j + 1))"
proof (cases "candidate db (time_millis now)")
  case None
  then have "claim_transaction X w now lease db = Inr (None, db)"
    by (simp add: candidate_def claim_transaction_def split: list.splits)
  with None lease show ?thesis by (simp add: claim_next_def)
next
  case (Some j)
  define i where "i = (from_bytes (jb_id j) :: effect_job_id)"
  have jobs: "jobs_wf db" using wf by (rule db_wf_parts)
  note cand = candidate_Some [OF Some]
  have ok: "job_row_ok j" "length (jb_id j) = 16" "0 \<le> jb_attempts j" "jb_attempts j < 2 ^ 32"
    using jobs rd cand(1) by (auto simp: jobs_wf_def job_row_ok_def jobs_readable_def job_readable_def)
  have idj: "jb_id j = into_bytes i" using ok(2) by (simp add: i_def into_from_bytes)
  have at: "job_row_at db i = Some j" using cand(1) idj job_row_at_Some [OF jobs] by blast
  define a where "a = (word_of_int (jb_attempts j) :: u32)"
  have a: "u32_try_from (jb_attempts j) = Some a" "uint a = jb_attempts j"
    using ok(3,4) by (simp_all add: u32_try_from_def a_def uint_word_of_int)
  obtain rest where head: "sort_key (\<lambda>r. (jb_position r, jb_index r)) (filter (due (time_millis now)) (db_jobs db)) = j # rest"
    using Some by (auto simp: candidate_def split: list.splits)
  show ?thesis
  proof (cases "jb_attempts j + 1 = 2 ^ 32")
    case True
    then have "checked_add_u32 a 1 = None" using a(2) by (simp add: checked_add_u32_def)
    then have "claim_transaction X w now lease db = Inl (EffectAttemptOverflow i)"
      using head a(1) idj by (simp add: claim_transaction_def id_from_blob_defs)
    with Some True lease show ?thesis by (simp add: claim_next_def i_def)
  next
    case False
    define b where "b = a + 1"
    have add: "checked_add_u32 a 1 = Some b" using False ok(4) a(2) by (simp add: checked_add_u32_def b_def)
    then have b: "uint b = jb_attempts j + 1" using checked_add_u32_Some a(2) by fastforce
    define Q where "Q r \<longleftrightarrow> jb_attempts r = uint a \<and> due (time_millis now) r" for r
    define f where "f r = r\<lparr>jb_status := STATUS_RUNNING, jb_attempts := uint b, jb_lease := Some (time_millis lease)\<rparr>" for r :: job_row
    have k: "job_keeping f" by (simp add: job_keeping_def f_def)
    have fok: "job_row_ok (f r)" if "r \<in> set (db_jobs db)" for r
      using jobs that by (simp add: jobs_wf_def f_def job_row_ok_def status_defs)
    obtain db' where up: "update_jobs (\<lambda>r. jb_id r = into_bytes i \<and> Q r) f db =
        Some (case job_row_at db i of None \<Rightarrow> 0 | Some r \<Rightarrow> if Q r then 1 else 0, db')"
      and db': "db' = db\<lparr>db_jobs := map (\<lambda>r. if jb_id r = into_bytes i \<and> Q r then f r else r) (db_jobs db)\<rparr>"
      and wf': "jobs_wf db'"
      and at': "\<forall>j. job_row_at db' j = (if j = i then map_option (\<lambda>r. if Q r then f r else r) (job_row_at db i) else job_row_at db j)"
      using update_jobs_one [OF jobs k, of Q i] fok by blast
    have Qj: "Q j" using cand(2) a(2) by (simp add: Q_def)
    have dbwf: "db_wf X db'" using db_wf_jobs [OF wf] wf' unfolding db' by blast
    have rd': "jobs_readable X db'"
      using rd uint_lt2p [of b] by (auto simp: db' jobs_readable_def job_readable_def f_def)
    have row: "job_row_at db' i = Some (f j)" using at' at Qj by simp
    have fj: "f j \<in> set (db_jobs db')" "jb_id (f j) = into_bytes i" using row job_row_at_Some [OF wf'] by auto
    obtain job where job: "decode_job X w (f j, commit_at db' (jb_position (f j))) = Inr job"
        "job_id job = i" "uint (job_attempt_count job) = uint b"
      using decode_job_total [OF dbwf fj(1), of w] rd' fj by (force simp: jobs_readable_def f_def)
    have "effect_job_by_id X db' w i = Inr (Some job)"
      using effect_job_by_id_wf [OF dbwf fj] job(1) by simp
    then have "claim_transaction X w now lease db = Inr (Some \<lparr>claimed_job = job, claimed_lease = lease\<rparr>, db')"
      using head a(1) idj add up at Qj
      by (simp add: claim_transaction_def id_from_blob_defs Q_def [abs_def] f_def [abs_def])
    moreover have "job_view db' = (job_view db)(i \<mapsto> (Running (time_millis lease), jb_attempts j + 1))"
      using at' at Qj b by (auto simp: job_view_def fun_eq_iff f_def)
    moreover have "jobs_kept db db'" unfolding db' by (rule jobs_keptI [OF k])
    ultimately show ?thesis
      using Some False lease job dbwf rd' b
      by (auto simp: claim_next_def i_def claim_attempt_def)
  qed
qed

section \<open>Wake-up times\<close>

lemma due_wake:
  "job_row_ok r \<Longrightarrow> due now r \<longleftrightarrow> (\<exists>t. wake_time r = Some t \<and> t \<le> now)"
  by (auto simp: due_def wake_time_def job_row_ok_def status_defs split: option.splits)

lemma next_wakeup_due:
  assumes "jobs_wf db"
  shows "\<exists>t. next_wakeup db = Inr t \<and>
    (candidate db now \<noteq> None \<longleftrightarrow> (\<exists>m. t = Some (UnixTimeMillis m) \<and> m \<le> now))"
proof -
  define times where "times = List.map_filter wake_time
      (filter (\<lambda>r. jb_status r = STATUS_PENDING \<or> jb_status r = STATUS_RUNNING) (db_jobs db))"
  have set: "set times = {t. \<exists>r \<in> set (db_jobs db). wake_time r = Some t}"
    by (force simp: times_def map_filter_def wake_time_def)
  have ok: "job_row_ok r" if "r \<in> set (db_jobs db)" for r using assms that by (simp add: jobs_wf_def)
  have "candidate db now \<noteq> None \<longleftrightarrow> (\<exists>t \<in> set times. t \<le> now)"
    using ok due_wake unfolding candidate_None set by blast
  moreover have "(\<exists>t \<in> set times. t \<le> now) \<longleftrightarrow> times \<noteq> [] \<and> Min (set times) \<le> now"
    by (cases "times = []") (auto simp: Min_le_iff)
  moreover have "next_wakeup db = Inr (if times = [] then None else Some (UnixTimeMillis (Min (set times))))"
    by (simp add: next_wakeup_def times_def Let_def)
  ultimately show ?thesis by auto
qed

end
