(* ===== verification/Sql_Replay.thy ===== *)
theory Sql_Replay
  imports Sql_Logs
begin

text \<open>
  The mutation log is the history of the world: running the logged mutations from the empty world
  gives the world the current-state tables hold.
\<close>

definition abs_empty :: abs_world where
  "abs_empty = \<lparr>aw_entities = Map.empty, aw_relations = Map.empty, aw_facets = Map.empty, aw_grants = Map.empty\<rparr>"

definition log_order :: "mutation_row \<Rightarrow> int \<times> int" where
  "log_order r = (mu_position r, mu_index r)"

text \<open>The whole log in order, decoded as \<open>mutations_after\<close> decodes it.\<close>

definition decoded_log :: "externs \<Rightarrow> world_db \<Rightarrow> storage_error + stored_mutation list" where
  "decoded_log X db = collect_result (decode_mutation_row X) (sort_key log_order (db_mutations db))"

definition log_rebuilds :: "externs \<Rightarrow> world_db \<Rightarrow> bool" where
  "log_rebuilds X db \<longleftrightarrow>
     (\<exists>log. decoded_log X db = Inr log \<and> abs_run X (map stored_mutation log) abs_empty = Inr (abs_db db))"

text \<open>The invariant behind it: the log is kept in order, and every row decodes.\<close>

definition log_wf :: "externs \<Rightarrow> world_db \<Rightarrow> bool" where
  "log_wf X db \<longleftrightarrow>
     sorted (map log_order (db_mutations db)) \<and>
     (\<exists>log. collect_result (decode_mutation_row X) (db_mutations db) = Inr log \<and>
        abs_run X (map stored_mutation log) abs_empty = Inr (abs_db db))"

lemma log_wf_rebuilds: "log_wf X db \<Longrightarrow> log_rebuilds X db"
  by (auto simp: log_wf_def log_rebuilds_def decoded_log_def sort_key_id_if_sorted)

lemma collect_result_append:
  "collect_result f (xs @ ys) =
     and_then (collect_result f xs) (\<lambda>a. and_then (collect_result f ys) (\<lambda>b. Inr (a @ b)))"
proof (induction xs)
  case Nil
  then show ?case by (cases "collect_result f ys") simp_all
next
  case (Cons x xs)
  then show ?case by (cases "f x"; cases "collect_result f xs"; cases "collect_result f ys") simp_all
qed

definition stored_mutation_of :: "u64 \<Rightarrow> nat \<times> world_mutation \<Rightarrow> stored_mutation" where
  "stored_mutation_of position im =
     \<lparr>stored_mutation_position = position, stored_mutation_index = word_of_nat (fst im),
      stored_mutation_format = WORLD_MUTATION_FORMAT_VERSION, stored_mutation = snd im\<rparr>"

lemma decode_mutation_row_of:
  assumes "mutation_stable X (snd im)" and "fst im < 2 ^ 32" and "position_from_sql p = Inr position"
  shows "decode_mutation_row X (mutation_row_of X p im) = Inr (stored_mutation_of position im)"
proof -
  have "u32_try_from (int (fst im)) = Some (word_of_nat (fst im))" using assms(2) by (simp add: u32_try_from_def)
  then show ?thesis
    using assms by (simp add: decode_mutation_row_def mutation_row_of_def mutation_stable_def index_from_sql_def
        stored_mutation_of_def)
qed

lemma log_order_new: "log_order \<circ> mutation_row_of X p = (\<lambda>im. (p, int (fst im)))"
  by (simp add: log_order_def mutation_row_of_def fun_eq_iff)

lemma sorted_enumerate_pair: "sorted (map (\<lambda>im. (p :: int, int (fst im))) (enumerate k xs))"
  by (induction xs arbitrary: k) (auto simp: in_set_enumerate_eq)

lemma commit_keeps_log:
  assumes wf: "db_wf X db" and log: "log_wf X db" and bd: "commit_bounded t now"
    and stable: "\<forall>m \<in> set (tx_mutations t). mutation_stable X m"
    and run: "commit X c t evaluated now db = (res, db')"
  shows "log_wf X db'"
  using run
proof (cases rule: commit_cases)
  case (written receipt w)
  obtain n where n: "n < 2 ^ 63" "tables_wf n db" "uint w = int n"
    using check_commit_checked [OF wf written(2)] by metis
  have room: "uint w + 1 < 2 ^ 63"
  proof (rule write_commit_rows [OF written(3)])
    fix w' assume "checked_add_u64 w 1 = Some w'" "uint w' < 2 ^ 63"
    then show ?thesis using checked_add_u64_Some [of w 1 w'] by simp
  qed
  define p where "p = uint (w + 1)"
  have p: "p = int (Suc n)" using next_word(2) [OF n(3)] room n(3) by (simp add: p_def)
  from commit_new_command [OF wf written(1,2) room bd] obtain a where
    a: "abs_run X (tx_mutations t) (abs_db db) = Inr a" "abs_db db' = a" and wr: "commit_writes X c t (w + 1) now db db'"
    using run written(4) by (auto split: sum.splits)
  note rows = wr [unfolded commit_writes_def, folded p_def]
  have ex: "commit_exists db' p" using rows by (simp add: commit_exists_def)
  have pos: "position_from_sql p = Inr (w + 1)"
    using position_from_row(1) [OF commit_keeps_wf [OF wf run] ex] by (simp add: p_def)
  obtain old where old: "sorted (map log_order (db_mutations db))"
      "collect_result (decode_mutation_row X) (db_mutations db) = Inr old"
      "abs_run X (map stored_mutation old) abs_empty = Inr (abs_db db)"
    using log by (auto simp: log_wf_def)
  let ?new = "map (mutation_row_of X p) (enumerate 0 (tx_mutations t))"
  have "fst im < 2 ^ 32" "snd im \<in> set (tx_mutations t)" if "im \<in> set (enumerate 0 (tx_mutations t))" for im
    using that bd nth_mem [of "fst im" "tx_mutations t"] by (auto simp: in_set_enumerate_eq commit_bounded_def)
  then have new: "collect_result (decode_mutation_row X) ?new = Inr (map (stored_mutation_of (w + 1)) (enumerate 0 (tx_mutations t)))"
    unfolding collect_result_of_map using stable pos
    by (intro collect_result_map decode_mutation_row_of) auto
  have ms: "map stored_mutation (map (stored_mutation_of (w + 1)) (enumerate 0 (tx_mutations t))) = tx_mutations t"
    using map_enumerate_snd [of "\<lambda>m. m" 0 "tx_mutations t"] by (simp add: stored_mutation_of_def comp_def)
  have "log_order r \<le> (p, k)" if "r \<in> set (db_mutations db)" for r k
  proof -
    have "mu_position r \<le> int n" using that n(2) positions_below [OF n(2)] by (auto simp: tables_wf_def logs_wf_def)
    then show ?thesis using p by (simp add: log_order_def)
  qed
  moreover have "sorted (map (\<lambda>im. (p, int (fst im))) (enumerate k (tx_mutations t)))" for k
    by (rule sorted_enumerate_pair)
  ultimately have "sorted (map log_order (db_mutations db'))"
    using old(1) rows by (auto simp: sorted_append log_order_new)
  moreover have "collect_result (decode_mutation_row X) (db_mutations db') =
      Inr (old @ map (stored_mutation_of (w + 1)) (enumerate 0 (tx_mutations t)))"
    using rows old(2) new by (simp add: collect_result_append)
  moreover have "abs_run X (map stored_mutation (old @ map (stored_mutation_of (w + 1)) (enumerate 0 (tx_mutations t)))) abs_empty = Inr (abs_db db')"
    unfolding map_append ms abs_run_append using old(3) a by simp
  ultimately show ?thesis unfolding log_wf_def by blast
qed (use log in simp_all)

end
