(* ===== verification/Sql_Migration.thy ===== *)
theory Sql_Migration
  imports Sql_Schemas
begin

text \<open>
  The storage schema of a world file and its migrations
  (\<open>crates/storage/src/sqlite/migration.rs\<close>), and opening a file (\<open>create\<close>, \<open>open\<close> and
  \<open>read_world_metadata_full\<close> of \<open>mod.rs\<close>). A file holds its \<open>user_version\<close>, the tables
  that exist at that version, and the \<open>effect_jobs\<close> table in its version 2 form.
\<close>

section \<open>World files\<close>

record legacy_job_row =
  lj_id :: blob
  lj_position :: int
  lj_index :: int
  lj_schema_id :: string
  lj_schema_version :: int
  lj_payload :: string
  lj_status :: int
  lj_attempts :: int
  lj_error :: "string option"

record world_file =
  file_version :: u32
  file_db :: world_db
  file_legacy_jobs :: "legacy_job_row list"

definition empty_db :: world_db where
  "empty_db = \<lparr>db_metadata = None, db_schemas = [], db_commits = [], db_entities = [], db_grants = [],
     db_grant_schemas = [], db_relations = [], db_world_facets = [], db_entity_facets = [],
     db_relation_facets = [], db_mutations = [], db_events = [], db_jobs = []\<rparr>"

definition empty_file :: world_file where
  "empty_file = \<lparr>file_version = 0, file_db = empty_db, file_legacy_jobs = []\<rparr>"

section \<open>Migrations\<close>

definition STORAGE_SCHEMA_VERSION :: u32 where
  "STORAGE_SCHEMA_VERSION = 3"

text \<open>Steps 1 and 2 create tables that do not exist yet; they start out empty.\<close>

definition migrate_to_v1 :: "world_file \<Rightarrow> world_file" where
  "migrate_to_v1 f =
     f\<lparr>file_version := 1, file_db := (file_db f)\<lparr>db_metadata := None, db_schemas := []\<rparr>\<rparr>"

definition migrate_to_v2 :: "world_file \<Rightarrow> world_file" where
  "migrate_to_v2 f =
     f\<lparr>file_version := 2,
       file_db := (file_db f)\<lparr>db_commits := [], db_entities := [], db_grants := [],
         db_grant_schemas := [], db_relations := [], db_world_facets := [], db_entity_facets := [],
         db_relation_facets := [], db_mutations := [], db_events := []\<rparr>,
       file_legacy_jobs := []\<rparr>"

text \<open>
  Step 3 rebuilds the job table. A job that was running when the old host stopped has no lease to
  carry over, so it becomes pending again, due at once.
\<close>

definition upgrade_job :: "legacy_job_row \<Rightarrow> job_row" where
  "upgrade_job r =
     \<lparr>jb_id = lj_id r, jb_position = lj_position r, jb_index = lj_index r,
      jb_schema_id = lj_schema_id r, jb_schema_version = lj_schema_version r,
      jb_payload = lj_payload r, jb_status = (if lj_status r = 1 then 0 else lj_status r),
      jb_attempts = lj_attempts r, jb_available = 0, jb_lease = None, jb_error = lj_error r\<rparr>"

definition migrate_to_v3 :: "world_file \<Rightarrow> storage_error + world_file" where
  "migrate_to_v3 f =
     and_then (fold_result (\<lambda>r db. sql (insert_job_row (upgrade_job r) db)) (file_legacy_jobs f)
         ((file_db f)\<lparr>db_jobs := []\<rparr>)) (\<lambda>db.
     Inr (f\<lparr>file_version := STORAGE_SCHEMA_VERSION, file_db := db, file_legacy_jobs := []\<rparr>))"

definition insert_metadata :: "world_id \<Rightarrow> world_db \<Rightarrow> world_db option" where
  "insert_metadata i db =
     guarded (db_metadata db = None)
       (db\<lparr>db_metadata := Some \<lparr>md_world_id = into_bytes i, md_world_format = uint WORLD_FORMAT_VERSION,
          md_position = 0\<rparr>\<rparr>)"

definition initialize_new :: "world_id \<Rightarrow> world_file \<Rightarrow> storage_error + world_file" where
  "initialize_new i f =
     (if file_version f \<noteq> 0 then Inl (UnsupportedStorageSchema (file_version f) STORAGE_SCHEMA_VERSION)
      else
        let f = migrate_to_v1 f in
        and_then (sql (insert_metadata i (file_db f))) (\<lambda>db.
        migrate_to_v3 (migrate_to_v2 (f\<lparr>file_db := db\<rparr>))))"

text \<open>
  Each step is a transaction of its own: when a later one fails, the file stays at the version the
  earlier ones reached.
\<close>

definition migrate_v2_file :: "world_file \<Rightarrow> (storage_error + unit) \<times> world_file" where
  "migrate_v2_file f = (case migrate_to_v3 f of Inl e \<Rightarrow> (Inl e, f) | Inr f' \<Rightarrow> (Inr (), f'))"

definition migrate_existing :: "world_file \<Rightarrow> (storage_error + unit) \<times> world_file" where
  "migrate_existing f =
     (if file_version f = 0 then (Inl Uninitialized, f)
      else if file_version f > STORAGE_SCHEMA_VERSION
        then (Inl (UnsupportedStorageSchema (file_version f) STORAGE_SCHEMA_VERSION), f)
      else if file_version f = 1 then
        (case db_metadata (file_db f) of
           None \<Rightarrow> (Inl Sqlite, f)
         | Some m \<Rightarrow>
             if md_position m \<noteq> 0
             then (Inl (CorruptData ''storage schema v1 cannot contain committed world history''), f)
             else migrate_v2_file (migrate_to_v2 f))
      else if file_version f = 2 then migrate_v2_file f
      else (Inr (), f))"

section \<open>Opening a file\<close>

definition read_world_metadata_full :: "world_db \<Rightarrow> storage_error + world_id \<times> u32 \<times> u64" where
  "read_world_metadata_full db =
     and_then (ok_or Uninitialized (db_metadata db)) (\<lambda>m.
     and_then (world_id_from_blob (md_world_id m)) (\<lambda>i.
     and_then (ok_or (CorruptData ''invalid world format version'') (u32_try_from (md_world_format m))) (\<lambda>format.
     and_then (ok_or (CorruptData ''negative world commit position'') (u64_try_from (md_position m))) (\<lambda>position.
     Inr (i, format, position)))))"

definition ensure_world_format :: "u32 \<Rightarrow> storage_error + unit" where
  "ensure_world_format found =
     (if found = WORLD_FORMAT_VERSION then Inr ()
      else Inl (UnsupportedWorldFormat found WORLD_FORMAT_VERSION))"

definition open_storage :: "world_file \<Rightarrow> (storage_error + world_id) \<times> world_file" where
  "open_storage f =
     (case migrate_existing f of
        (Inl e, f') \<Rightarrow> (Inl e, f')
      | (Inr _, f') \<Rightarrow>
          (and_then (read_world_metadata_full (file_db f')) (\<lambda>(i, format, _).
           and_then (ensure_world_format format) (\<lambda>_. Inr i)), f'))"

definition load_session :: "externs \<Rightarrow> world_id \<Rightarrow> world_db \<Rightarrow> storage_error + world_session_state" where
  "load_session X i db =
     and_then (read_world_metadata_full db) (\<lambda>(_, format, position).
     and_then (ensure_world_format format) (\<lambda>_.
     and_then (load_schema_registry X db) (\<lambda>schemas.
     Inr (session_restore i position schemas))))"

section \<open>Well-formed files\<close>

text \<open>What version 2 of the schema guarantees of its job table.\<close>

definition legacy_jobs_wf :: "world_file \<Rightarrow> bool" where
  "legacy_jobs_wf f \<longleftrightarrow>
     distinct (map lj_id (file_legacy_jobs f)) \<and>
     distinct (map (\<lambda>r. (lj_position r, lj_index r)) (file_legacy_jobs f)) \<and>
     (\<forall>r \<in> set (file_legacy_jobs f).
        length (lj_id r) = 16 \<and> lj_index r \<ge> 0 \<and> lj_schema_version r > 0 \<and> lj_status r \<in> {0, 1, 2} \<and>
        lj_attempts r \<ge> 0 \<and> commit_exists (file_db f) (lj_position r) \<and>
        schema_exists (file_db f) (lj_schema_id r) (lj_schema_version r))"

definition v2_file_wf :: "externs \<Rightarrow> world_file \<Rightarrow> bool" where
  "v2_file_wf X f \<longleftrightarrow>
     file_version f = 2 \<and> db_jobs (file_db f) = [] \<and> db_wf X (file_db f) \<and> legacy_jobs_wf f"

lemma insert_job_rows:
  assumes "distinct (map jb_id (db_jobs db @ js))"
    and "distinct (map (\<lambda>r. (jb_position r, jb_index r)) (db_jobs db @ js))"
    and "\<forall>r \<in> set js. job_row_ok r \<and> commit_exists db (jb_position r) \<and>
           schema_exists db (jb_schema_id r) (jb_schema_version r)"
  shows "fold_result (\<lambda>r db. sql (insert_job_row r db)) js db = Inr (db\<lparr>db_jobs := db_jobs db @ js\<rparr>)"
  using assms
proof (induction js arbitrary: db)
  case (Cons j js)
  have "insert_job_row j db = Some (db\<lparr>db_jobs := db_jobs db @ [j]\<rparr>)"
    using Cons.prems by (auto simp: insert_job_row_def)
  then show ?case using Cons.IH [of "db\<lparr>db_jobs := db_jobs db @ [j]\<rparr>"] Cons.prems by simp
qed simp

lemma fold_result_map: "fold_result (\<lambda>x. f (g x)) xs s = fold_result f (map g xs) s"
  by (induction xs arbitrary: s) (auto simp: and_then_def split: sum.splits)

lemma migrate_to_v3_Inr:
  assumes "v2_file_wf X f"
  shows "migrate_to_v3 f = Inr (f\<lparr>file_version := STORAGE_SCHEMA_VERSION,
     file_db := (file_db f)\<lparr>db_jobs := map upgrade_job (file_legacy_jobs f)\<rparr>, file_legacy_jobs := []\<rparr>)"
proof -
  define js where "js = map upgrade_job (file_legacy_jobs f)"
  define db where "db = (file_db f)\<lparr>db_jobs := []\<rparr>"
  have wf: "legacy_jobs_wf f" using assms by (simp add: v2_file_wf_def)
  have "\<forall>r \<in> set js. job_row_ok r \<and> commit_exists db (jb_position r) \<and>
      schema_exists db (jb_schema_id r) (jb_schema_version r)"
    using wf by (auto simp: js_def db_def legacy_jobs_wf_def job_row_ok_def upgrade_job_def)
  moreover have "map jb_id js = map lj_id (file_legacy_jobs f)"
    "map (\<lambda>r. (jb_position r, jb_index r)) js = map (\<lambda>r. (lj_position r, lj_index r)) (file_legacy_jobs f)"
    by (simp_all add: js_def upgrade_job_def)
  ultimately have "fold_result (\<lambda>r db. sql (insert_job_row r db)) js db = Inr (db\<lparr>db_jobs := [] @ js\<rparr>)"
    using insert_job_rows [of db js] wf by (simp add: legacy_jobs_wf_def db_def)
  then show ?thesis
    by (simp add: migrate_to_v3_def js_def db_def fold_result_map [where g = upgrade_job and f = "\<lambda>r db. sql (insert_job_row r db)"])
qed

lemma upgraded_file_wf:
  assumes "v2_file_wf X f"
  shows "db_wf X ((file_db f)\<lparr>db_jobs := map upgrade_job (file_legacy_jobs f)\<rparr>)"
proof -
  obtain n where n: "n < 2 ^ 63" "metadata_at n (file_db f)" "tables_wf n (file_db f)"
      and s: "schemas_wf X (file_db f)" and wf: "legacy_jobs_wf f"
    using assms by (auto simp: v2_file_wf_def db_wf_def)
  define db where "db = (file_db f)\<lparr>db_jobs := map upgrade_job (file_legacy_jobs f)\<rparr>"
  have "map jb_id (db_jobs db) = map lj_id (file_legacy_jobs f)"
    "map (\<lambda>r. (jb_position r, jb_index r)) (db_jobs db) = map (\<lambda>r. (lj_position r, lj_index r)) (file_legacy_jobs f)"
    by (simp_all add: db_def upgrade_job_def)
  moreover have "\<forall>r \<in> set (db_jobs db). job_row_ok r \<and> commit_exists db (jb_position r) \<and>
      schema_exists db (jb_schema_id r) (jb_schema_version r)"
    using wf by (auto simp: db_def legacy_jobs_wf_def job_row_ok_def upgrade_job_def)
  ultimately have "jobs_wf db" using wf by (simp add: jobs_wf_def legacy_jobs_wf_def)
  then have "tables_wf n db" using n(3) by (simp add: tables_wf_def db_def)
  moreover have "metadata_at n db" "schemas_wf X db"
    using n(2) s by (simp_all add: metadata_at_def db_def schemas_wf_def)
  ultimately show ?thesis using n(1) by (auto simp: db_wf_def db_def)
qed

lemma read_world_metadata_wf:
  assumes "db_wf X db"
  shows "\<exists>i position. read_world_metadata_full db = Inr (i, WORLD_FORMAT_VERSION, position) \<and>
    current_position db = Inr position"
proof -
  obtain n m where n: "n < 2 ^ 63" "db_metadata db = Some m" "md_position m = int n"
      "length (md_world_id m) = 16" "md_world_format m = uint WORLD_FORMAT_VERSION"
    using assms by (auto simp: db_wf_def metadata_at_def)
  then have "u64_try_from (md_position m) = Some (word_of_nat n)" by (simp add: u64_try_from_def)
  with n show ?thesis
    by (simp add: read_world_metadata_full_def world_id_from_blob_def id_from_blob_def
        fixed_id_bytes_def current_position_def position_from_sql_def)
qed

section \<open>Opening an old file\<close>

text \<open>
  C37. Opening a version 2 file upgrades it without losing work: the open succeeds, the file is at the
  current version and well-formed, every table but the job table is as it was, the jobs are the old
  ones with the interrupted runs pending again and due at once, and opening it a second time
  changes nothing.
\<close>

theorem open_v2_file:
  assumes "v2_file_wf X f"
  shows "\<exists>i f'. open_storage f = (Inr i, f') \<and> file_version f' = STORAGE_SCHEMA_VERSION \<and>
    db_wf X (file_db f') \<and>
    file_db f' = (file_db f)\<lparr>db_jobs := map upgrade_job (file_legacy_jobs f)\<rparr> \<and>
    (\<forall>j \<in> set (db_jobs (file_db f')). jb_status j \<noteq> 1 \<and> jb_available j = 0) \<and>
    open_storage f' = (Inr i, f')"
proof -
  define f' where "f' = f\<lparr>file_version := STORAGE_SCHEMA_VERSION,
     file_db := (file_db f)\<lparr>db_jobs := map upgrade_job (file_legacy_jobs f)\<rparr>, file_legacy_jobs := []\<rparr>"
  have wf: "db_wf X (file_db f')" using upgraded_file_wf [OF assms] by (simp add: f'_def)
  then obtain i position where md: "read_world_metadata_full (file_db f') = Inr (i, WORLD_FORMAT_VERSION, position)"
    using read_world_metadata_wf by blast
  have v: "file_version f = 2" using assms by (simp add: v2_file_wf_def)
  have "migrate_existing f = (Inr (), f')"
    using migrate_to_v3_Inr [OF assms] v
    by (simp add: migrate_existing_def migrate_v2_file_def f'_def STORAGE_SCHEMA_VERSION_def)
  moreover have "migrate_existing f' = (Inr (), f')"
    by (simp add: migrate_existing_def f'_def STORAGE_SCHEMA_VERSION_def)
  ultimately have "open_storage f = (Inr i, f')" "open_storage f' = (Inr i, f')"
    using md by (simp_all add: open_storage_def ensure_world_format_def)
  moreover have "\<forall>j \<in> set (db_jobs (file_db f')). jb_status j \<noteq> 1 \<and> jb_available j = 0"
    by (auto simp: f'_def upgrade_job_def)
  ultimately show ?thesis using wf by (auto simp: f'_def)
qed

text \<open>The database of a new world.\<close>

definition new_db :: "world_id \<Rightarrow> world_db" where
  "new_db i = empty_db\<lparr>db_metadata := Some \<lparr>md_world_id = into_bytes i,
     md_world_format = uint WORLD_FORMAT_VERSION, md_position = 0\<rparr>\<rparr>"

definition new_file :: "world_id \<Rightarrow> world_file" where
  "new_file i = empty_file\<lparr>file_version := STORAGE_SCHEMA_VERSION, file_db := new_db i\<rparr>"

lemma initialize_new_result: "initialize_new i empty_file = Inr (new_file i)"
  by (simp add: initialize_new_def migrate_to_v1_def migrate_to_v2_def migrate_to_v3_def insert_metadata_def
      guarded_def empty_file_def empty_db_def new_file_def new_db_def)

lemma new_db_wf: "db_wf X (new_db i)"
proof -
  have "tables_wf 0 (new_db i)"
    by (simp add: tables_wf_def new_db_def empty_db_def commits_wf_def entities_wf_def relations_wf_def
        grants_wf_def facets_wf_def logs_wf_def jobs_wf_def)
  moreover have "metadata_at 0 (new_db i)" by (simp add: metadata_at_def new_db_def)
  ultimately show ?thesis
    unfolding db_wf_def by (intro conjI exI [of _ 0]) (simp_all add: schemas_wf_def new_db_def empty_db_def)
qed

text \<open>
  Creating a world gives a well-formed database at position 0 with no schemas, which opens as
  the same world.
\<close>

theorem initialize_new_wf:
  "\<exists>f. initialize_new i empty_file = Inr f \<and> db_wf X (file_db f) \<and> current_position (file_db f) = Inr 0 \<and>
     open_storage f = (Inr i, f) \<and>
     load_session X i (file_db f) = Inr (session_new i)"
proof -
  have md: "read_world_metadata_full (new_db i) = Inr (i, WORLD_FORMAT_VERSION, 0)"
    by (simp add: read_world_metadata_full_def new_db_def world_id_from_blob_def u64_try_from_def)
  have "open_storage (new_file i) = (Inr i, new_file i)"
    using md by (simp add: open_storage_def migrate_existing_def new_file_def STORAGE_SCHEMA_VERSION_def ensure_world_format_def)
  moreover have "current_position (new_db i) = Inr 0"
    by (simp add: current_position_def new_db_def position_from_sql_def u64_try_from_def)
  moreover have "load_session X i (new_db i) = Inr (session_new i)"
    using md by (simp add: load_session_def ensure_world_format_def load_schema_registry_def new_db_def empty_db_def
        session_restore_def session_new_def)
  ultimately show ?thesis
    unfolding initialize_new_result by (simp add: new_db_wf new_file_def)
qed

end
