(* ===== verification/Sql_System.thy ===== *)
theory Sql_System
  imports Sql_Outbox_Facts Sql_Replay Sql_Migration
begin

text \<open>
  The storage component as a state machine: every call of its public interface that changes the
  database, in any order. Its contracts are stated as two interfaces, a store of idempotent commands
  and the history of effect jobs, proved here of the model and used by their clients.
\<close>

section \<open>The life of one job\<close>

inductive job_step :: "job_state \<times> int \<Rightarrow> job_state \<times> int \<Rightarrow> bool" where
  claim: "job_step (Pending a, n) (Running l, n + 1)"
| reclaim: "job_step (Running l, n) (Running l', n + 1)"
| complete: "job_step (Running l, n) (Completed, n)"
| retry: "job_step (Running l, n) (Pending a, n)"
| cancel_pending: "job_step (Pending a, n) (Cancelled, n)"
| cancel_running: "job_step (Running l, n) (Cancelled, n)"

inductive_cases job_step_from: "job_step (s, n) j"
inductive_simps job_step_completed [simp]: "job_step (Completed, n) j"
inductive_simps job_step_cancelled [simp]: "job_step (Cancelled, n) j"

text \<open>Once an attempt number is lower than the job's, no run hands the lease back to it.\<close>

definition outdated :: "int \<Rightarrow> job_state \<times> int \<Rightarrow> bool" where
  "outdated m j \<longleftrightarrow> m < snd j \<or> fst j = Completed \<or> fst j = Cancelled"

lemma job_step_attempts: "job_step j j' \<Longrightarrow> snd j \<le> snd j'"
  by (induction rule: job_step.induct) auto

lemma job_step_outdated: "job_step j j' \<Longrightarrow> outdated m j \<Longrightarrow> outdated m j'"
  by (induction rule: job_step.induct) (auto simp: outdated_def)

section \<open>Interface: the history of jobs\<close>

locale job_history =
  fixes inv :: "'s \<Rightarrow> bool" and step :: "'s \<Rightarrow> 's \<Rightarrow> bool" and view :: "'s \<Rightarrow> 'i \<rightharpoonup> job_state \<times> int"
  assumes inv_step: "inv s \<Longrightarrow> step s s' \<Longrightarrow> inv s'"
    and view_step: "inv s \<Longrightarrow> step s s' \<Longrightarrow> view s i = Some j \<Longrightarrow> \<exists>j'. view s' i = Some j' \<and> job_step\<^sup>=\<^sup>= j j'"
begin

lemma inv_run: "step\<^sup>*\<^sup>* s s' \<Longrightarrow> inv s \<Longrightarrow> inv s'"
  by (induction rule: rtranclp_induct) (auto intro: inv_step)

lemma view_run:
  assumes "step\<^sup>*\<^sup>* s s'" and "inv s" and "view s i = Some j"
  shows "\<exists>j'. view s' i = Some j' \<and> job_step\<^sup>*\<^sup>* j j'"
  using assms
proof (induction rule: rtranclp_induct)
  case (step s' s'')
  then obtain j' where j': "view s' i = Some j'" "job_step\<^sup>*\<^sup>* j j'" by blast
  have "inv s'" using inv_run step.hyps(1) step.prems(1) by blast
  then obtain j'' where "view s'' i = Some j''" "job_step\<^sup>=\<^sup>= j' j''"
    using view_step [OF _ step.hyps(2) j'(1)] by blast
  with j'(2) show ?case by (auto intro: rtranclp.rtrancl_into_rtrancl)
qed auto

lemma completed_for_ever: "step\<^sup>*\<^sup>* s s' \<Longrightarrow> inv s \<Longrightarrow> view s i = Some (Completed, n) \<Longrightarrow> view s' i = Some (Completed, n)"
  using view_run [of s s' i "(Completed, n)"] by (auto elim: converse_rtranclpE)

lemma cancelled_for_ever: "step\<^sup>*\<^sup>* s s' \<Longrightarrow> inv s \<Longrightarrow> view s i = Some (Cancelled, n) \<Longrightarrow> view s' i = Some (Cancelled, n)"
  using view_run [of s s' i "(Cancelled, n)"] by (auto elim: converse_rtranclpE)

lemma attempts_grow: "step\<^sup>*\<^sup>* s s' \<Longrightarrow> inv s \<Longrightarrow> view s i = Some (st, n) \<Longrightarrow> \<exists>st' n'. view s' i = Some (st', n') \<and> n \<le> n'"
proof -
  assume a: "step\<^sup>*\<^sup>* s s'" "inv s" "view s i = Some (st, n)"
  have "job_step\<^sup>*\<^sup>* j j' \<Longrightarrow> snd j \<le> snd j'" for j j'
    by (induction rule: rtranclp_induct) (auto dest: job_step_attempts)
  with view_run [OF a] show ?thesis by fastforce
qed

lemma outdated_for_ever:
  assumes "step\<^sup>*\<^sup>* s s'" and "inv s" and "view s i = Some j" and "outdated m j"
  shows "\<nexists>l. view s' i = Some (Running l, m)"
proof -
  obtain j' where j': "view s' i = Some j'" "job_step\<^sup>*\<^sup>* j j'" using view_run [OF assms(1-3)] by blast
  from j'(2) assms(4) have "outdated m j'"
    by (induction rule: rtranclp_induct) (auto intro: job_step_outdated)
  then show ?thesis using j'(1) by (auto simp: outdated_def)
qed

end

section \<open>Interface: a store of idempotent commands\<close>

text \<open>
  The store answers a command from its receipt when it has one; \<open>later\<close> is any step of the store,
  and an admissible submission is one.
\<close>

locale command_store =
  fixes inv :: "'s \<Rightarrow> bool" and later :: "'s \<Rightarrow> 's \<Rightarrow> bool" and admissible :: "'t \<Rightarrow> bool"
    and receipt :: "'s \<Rightarrow> 'c \<Rightarrow> 'e + 'r option"
    and submit :: "'c \<Rightarrow> 't \<Rightarrow> 's \<Rightarrow> ('e + 'r) \<times> 's" and replayed :: "'r \<Rightarrow> 'r"
  assumes failed_rolls_back: "submit c t s = (Inl e, s') \<Longrightarrow> s' = s"
    and receipt_answers: "receipt s c = Inr (Some r) \<Longrightarrow> submit c t s = (Inr r, s)"
    and receipt_after: "inv s \<Longrightarrow> submit c t s = (Inr r, s') \<Longrightarrow> receipt s' c = Inr (Some (replayed r))"
    and inv_later: "inv s \<Longrightarrow> later s s' \<Longrightarrow> inv s'"
    and submit_later: "admissible t \<Longrightarrow> submit c t s = (res, s') \<Longrightarrow> later s s'"
    and receipt_later: "inv s \<Longrightarrow> later s s' \<Longrightarrow> receipt s c = Inr (Some r) \<Longrightarrow> receipt s' c = Inr (Some r)"
begin

lemma receipt_for_ever:
  assumes "later\<^sup>*\<^sup>* s s'" and "inv s" and "receipt s c = Inr (Some r)"
  shows "inv s' \<and> receipt s' c = Inr (Some r)"
  using assms by (induction rule: rtranclp_induct) (auto intro: inv_later receipt_later)

text \<open>A command that succeeded once is answered from its receipt, and changes nothing, ever after.\<close>

lemma exactly_once:
  assumes "inv s" and "admissible t" and "submit c t s = (Inr r, s1)" and "later\<^sup>*\<^sup>* s1 s2"
  shows "submit c t' s2 = (Inr (replayed r), s2)"
proof -
  have "inv s1" using inv_later [OF assms(1) submit_later [OF assms(2,3)]] .
  moreover have "receipt s1 c = Inr (Some (replayed r))" using receipt_after [OF assms(1,3)] .
  ultimately have "receipt s2 c = Inr (Some (replayed r))" using receipt_for_ever [OF assms(4)] by blast
  then show ?thesis by (rule receipt_answers)
qed

end

section \<open>The storage machine\<close>

inductive storage_step :: "externs \<Rightarrow> world_id \<Rightarrow> world_db \<Rightarrow> world_db \<Rightarrow> bool" for X w where
  commit: "commit_bounded t now \<Longrightarrow> \<forall>m \<in> set (tx_mutations t). mutation_stable X m \<Longrightarrow>
    \<forall>e \<in> set (tx_effects t). json_stable X (draft_effect_payload e) \<Longrightarrow>
    commit X c t evaluated now db = (res, db') \<Longrightarrow> storage_step X w db db'"
| register: "\<forall>d \<in> set ds. storable X d \<Longrightarrow> register_schemas X ds db = (res', db') \<Longrightarrow> storage_step X w db db'"
| claim: "claim_next X w time lease db = (claimed, db') \<Longrightarrow> storage_step X w db db'"
| complete: "complete i attempt db = (done, db') \<Longrightarrow> storage_step X w db db'"
| retry: "retry i attempt available diagnostic db = (done, db') \<Longrightarrow> storage_step X w db db'"
| cancel_claimed: "cancel_claimed i attempt diagnostic db = (done, db') \<Longrightarrow> storage_step X w db db'"
| cancel: "cancel i db = (cancelled, db') \<Longrightarrow> storage_step X w db db'"

definition storage_inv :: "externs \<Rightarrow> world_db \<Rightarrow> bool" where
  "storage_inv X db \<longleftrightarrow> db_wf X db \<and> log_wf X db \<and> jobs_readable X db"

lemma storage_inv_wf: "storage_inv X db \<Longrightarrow> db_wf X db"
  by (simp add: storage_inv_def)

text \<open>What one operation of the outbox does, in the terms the invariant needs.\<close>

definition outbox_effect :: "world_db \<Rightarrow> world_db \<Rightarrow> bool" where
  "outbox_effect db db' \<longleftrightarrow>
     db' = db \<or>
     (jobs_kept db db' \<and> jobs_wf db' \<and>
      (\<exists>i j j'. job_view db i = Some j \<and> job_step j j' \<and> snd j' < 2 ^ 32 \<and> job_view db' = (job_view db)(i \<mapsto> j')))"

lemma outbox_effectI:
  "jobs_kept db db' \<Longrightarrow> jobs_wf db' \<Longrightarrow> job_view db i = Some j \<Longrightarrow> job_step j j' \<Longrightarrow> snd j' < 2 ^ 32 \<Longrightarrow>
     job_view db' = (job_view db)(i \<mapsto> j') \<Longrightarrow> outbox_effect db db'"
  unfolding outbox_effect_def by blast

lemma complete_effect: "jobs_wf db \<Longrightarrow> complete i attempt db = (res, db') \<Longrightarrow> outbox_effect db db'"
proof -
  assume wf: "jobs_wf db" and run: "complete i attempt db = (res, db')"
  show ?thesis
  proof (cases "holds db i attempt")
    case True
    then obtain l where "job_view db i = Some (Running l, uint attempt)" by (auto simp: holds_def)
    moreover have "jobs_kept db db'" "jobs_wf db'" "job_view db' = (job_view db)(i \<mapsto> (Completed, uint attempt))"
      using complete_result [OF wf, of i attempt] run True by auto
    ultimately show ?thesis
      using uint_lt2p [of attempt] unfolding outbox_effect_def by (auto intro!: exI job_step.complete)
  next
    case False
    then show ?thesis using complete_result [OF wf, of i attempt] run by (simp add: outbox_effect_def)
  qed
qed

lemma retry_effect: "jobs_wf db \<Longrightarrow> retry i attempt available diagnostic db = (res, db') \<Longrightarrow> outbox_effect db db'"
proof -
  assume wf: "jobs_wf db" and run: "retry i attempt available diagnostic db = (res, db')"
  show ?thesis
  proof (cases "holds db i attempt \<and> length diagnostic \<le> MAX_LAST_ERROR_BYTES")
    case True
    then obtain l where "job_view db i = Some (Running l, uint attempt)" by (auto simp: holds_def)
    moreover have "jobs_kept db db'" "jobs_wf db'"
        "job_view db' = (job_view db)(i \<mapsto> (Pending (time_millis available), uint attempt))"
      using retry_result [OF wf, of diagnostic i attempt available] run True by auto
    ultimately show ?thesis
      using uint_lt2p [of attempt] unfolding outbox_effect_def by (auto intro!: exI job_step.retry)
  next
    case False
    then have "db' = db"
      using retry_result [OF wf, of diagnostic i attempt available] run
      by (cases "length diagnostic \<le> MAX_LAST_ERROR_BYTES") (auto simp: retry_def)
    then show ?thesis by (simp add: outbox_effect_def)
  qed
qed

lemma cancel_claimed_effect: "jobs_wf db \<Longrightarrow> cancel_claimed i attempt diagnostic db = (res, db') \<Longrightarrow> outbox_effect db db'"
proof -
  assume wf: "jobs_wf db" and run: "cancel_claimed i attempt diagnostic db = (res, db')"
  show ?thesis
  proof (cases "holds db i attempt \<and> length diagnostic \<le> MAX_LAST_ERROR_BYTES")
    case True
    then obtain l where "job_view db i = Some (Running l, uint attempt)" by (auto simp: holds_def)
    moreover have "jobs_kept db db'" "jobs_wf db'"
        "job_view db' = (job_view db)(i \<mapsto> (Cancelled, uint attempt))"
      using cancel_claimed_result [OF wf, of diagnostic i attempt] run True by auto
    ultimately show ?thesis
      using uint_lt2p [of attempt] unfolding outbox_effect_def by (auto intro!: exI job_step.cancel_running)
  next
    case False
    then have "db' = db"
      using cancel_claimed_result [OF wf, of diagnostic i attempt] run
      by (cases "length diagnostic \<le> MAX_LAST_ERROR_BYTES") (auto simp: cancel_claimed_def)
    then show ?thesis by (simp add: outbox_effect_def)
  qed
qed

lemma job_view_attempts:
  assumes "jobs_readable X db" and "job_view db i = Some (s, n)"
  shows "n < 2 ^ 32"
  using assms lookup_Some_D [of jb_id "db_jobs db" "into_bytes i"]
  by (auto simp: job_view_def job_row_at_def jobs_readable_def job_readable_def)

lemma cancel_effect:
  assumes wf: "jobs_wf db" and rd: "jobs_readable X db" and run: "cancel i db = (res, db')"
  shows "outbox_effect db db'"
proof (cases "\<exists>n. (\<exists>a. job_view db i = Some (Pending a, n)) \<or> (\<exists>l. job_view db i = Some (Running l, n))")
  case True
  then obtain s n where v: "job_view db i = Some (s, n)" and s: "job_step (s, n) (Cancelled, n)"
    by (auto intro: job_step.intros)
  moreover have "jobs_kept db db'" "jobs_wf db'" "job_view db' = (job_view db)(i \<mapsto> (Cancelled, n))"
    using cancel_result [OF wf, of i] run True v by (auto split: job_state.splits)
  moreover have "snd (Cancelled, n) < 2 ^ 32" using job_view_attempts [OF rd v] by simp
  ultimately show ?thesis by (blast intro: outbox_effectI)
next
  case False
  have "db' = db"
  proof (cases "job_view db i")
    case None
    then show ?thesis using cancel_result [OF wf, of i] run by simp
  next
    case (Some j)
    then show ?thesis using False cancel_result [OF wf, of i] run by (cases j; cases "fst j") auto
  qed
  then show ?thesis by (simp add: outbox_effect_def)
qed

lemma claim_effect:
  assumes wf: "db_wf X db" and rd: "jobs_readable X db" and run: "claim_next X w now lease db = (res, db')"
  shows "outbox_effect db db'"
proof (cases "time_millis now < time_millis lease")
  case lease: True
  note result = claim_next_result [OF wf rd lease, of w]
  show ?thesis
  proof (cases "candidate db (time_millis now)")
    case None
    then show ?thesis using result run by (simp add: outbox_effect_def)
  next
    case (Some j)
    show ?thesis
    proof (cases "jb_attempts j + 1 = 2 ^ 32")
      case True
      then show ?thesis using result run Some by (simp add: outbox_effect_def)
    next
      case False
      let ?i = "from_bytes (jb_id j) :: effect_job_id"
      let ?j' = "(Running (time_millis lease), jb_attempts j + 1)"
      have new: "jobs_kept db db'" "db_wf X db'" "job_view db' = (job_view db)(?i \<mapsto> ?j')"
        using result run Some False by auto
      note cand = candidate_Some [OF Some]
      have jobs: "jobs_wf db" using wf by (rule db_wf_parts)
      then have ok: "job_row_ok j" using cand(1) by (simp add: jobs_wf_def)
      then have "job_row_at db ?i = Some j"
        using job_row_at_Some [OF jobs] cand(1) by (simp add: job_row_ok_def into_from_bytes)
      then have view: "job_view db ?i = Some (state_of_row j, jb_attempts j)" by (simp add: job_view_def)
      moreover have "job_step (state_of_row j, jb_attempts j) ?j'"
        using cand(2) by (auto simp: due_def state_of_row_def status_defs intro: job_step.intros)
      moreover have "snd ?j' < 2 ^ 32" using job_view_attempts [OF rd view] False by simp
      moreover have "jobs_wf db'" using new(2) by (rule db_wf_parts)
      ultimately show ?thesis using new unfolding outbox_effect_def by blast
    qed
  qed
next
  case False
  then show ?thesis using run by (simp add: claim_next_def outbox_effect_def)
qed

section \<open>Every step keeps the invariant\<close>

lemma abs_db_schemas [simp]: "abs_db (db\<lparr>db_schemas := ss\<rparr>) = abs_db db"
  by (simp add: abs_db_def fun_eq_iff facet_payload_text_def split: facet_target.splits)

lemma outbox_effect_inv:
  assumes inv: "storage_inv X db" and eff: "outbox_effect db db'"
  shows "storage_inv X db'"
proof (cases "db' = db")
  case False
  then obtain g i j' where g: "job_keeping g" "db' = db\<lparr>db_jobs := map g (db_jobs db)\<rparr>" and wf': "jobs_wf db'"
      and view: "snd j' < 2 ^ 32" "job_view db' = (job_view db)(i \<mapsto> j')"
    using eff by (auto simp: outbox_effect_def jobs_kept_def)
  have rd: "jobs_readable X db" using inv by (simp add: storage_inv_def)
  have "job_readable X r" if r: "r \<in> set (db_jobs db')" for r
  proof -
    obtain r0 where r0: "r0 \<in> set (db_jobs db)" "r = g r0" using r g(2) by auto
    have same: "jb_index r = jb_index r0" "jb_payload r = jb_payload r0"
      using g(1) r0(2) by (simp_all add: job_keeping_def)
    have "job_row_ok r" using wf' r by (simp add: jobs_wf_def)
    then have "job_row_at db' (from_bytes (jb_id r)) = Some r"
      using job_row_at_Some [OF wf'] r by (simp add: job_row_ok_def into_from_bytes)
    then have "job_view db' (from_bytes (jb_id r)) = Some (state_of_row r, jb_attempts r)" by (simp add: job_view_def)
    then have "jb_attempts r < 2 ^ 32"
      using view job_view_attempts [OF rd] by (cases "from_bytes (jb_id r) = i") auto
    then show ?thesis using rd r0(1) same by (simp add: jobs_readable_def job_readable_def)
  qed
  moreover have "db_wf X db'" using db_wf_jobs wf' inv unfolding g(2) storage_inv_def by blast
  moreover have "log_wf X db'" using inv unfolding g(2) by (simp add: storage_inv_def log_wf_def)
  ultimately show ?thesis by (simp add: storage_inv_def jobs_readable_def)
qed (use inv in simp)

lemma commit_inv:
  assumes inv: "storage_inv X db" and bd: "commit_bounded t now"
    and stable: "\<forall>m \<in> set (tx_mutations t). mutation_stable X m"
      "\<forall>e \<in> set (tx_effects t). json_stable X (draft_effect_payload e)"
    and run: "commit X c t evaluated now db = (res, db')"
  shows "storage_inv X db'"
proof -
  have wf: "db_wf X db" "log_wf X db" "jobs_readable X db" using inv by (simp_all add: storage_inv_def)
  have "jobs_readable X db'"
    using run
  proof (cases rule: commit_cases)
    case (written receipt current)
    show ?thesis
    proof (rule write_commit_rows [OF written(3)])
      fix p assume rows: "db_jobs db' = db_jobs db @ map (job_row_of X (uint p)) (enumerate 0 (tx_effects t))"
      have "job_readable X (job_row_of X (uint p) ie)" if "ie \<in> set (enumerate 0 (tx_effects t))" for ie
        using that bd stable(2) nth_mem [of "fst ie" "tx_effects t"]
        by (auto simp: job_readable_def job_row_of_def json_stable_def in_set_enumerate_eq commit_bounded_def)
      then show ?thesis using rows wf(3) by (auto simp: jobs_readable_def)
    qed
  qed (use wf(3) in simp_all)
  then show ?thesis
    using commit_keeps_wf [OF wf(1) run] commit_keeps_log [OF wf(1,2) bd stable(1) run] by (simp add: storage_inv_def)
qed

lemma register_inv:
  assumes inv: "storage_inv X db" and st: "\<forall>d \<in> set ds. storable X d" and run: "register_schemas X ds db = (res, db')"
  shows "storage_inv X db'"
proof -
  have "db_wf X db" using inv by (simp add: storage_inv_def)
  from register_schemas_result [OF this st run] inv show ?thesis
    by (auto simp: storage_inv_def log_wf_def jobs_readable_def)
qed

text \<open>A step is a commit, a registration, or an effect on one job.\<close>

lemma storage_step_kinds:
  assumes inv: "storage_inv X db" and step: "storage_step X w db db'"
  obtains (commit) t now c evaluated res where "commit_bounded t now"
      "\<forall>m \<in> set (tx_mutations t). mutation_stable X m"
      "\<forall>e \<in> set (tx_effects t). json_stable X (draft_effect_payload e)"
      "commit X c t evaluated now db = (res, db')"
  | (register) ds res where "\<forall>d \<in> set ds. storable X d" "register_schemas X ds db = (res, db')"
  | (outbox) "outbox_effect db db'"
proof -
  have parts: "db_wf X db" "jobs_readable X db" "jobs_wf db" using inv by (auto simp: storage_inv_def db_wf_parts)
  show ?thesis
    using step
  proof cases
    case (claim time lease claimed)
    then show ?thesis using claim_effect [OF parts(1,2)] outbox by blast
  next
    case (complete i attempt answer)
    then show ?thesis using complete_effect [OF parts(3)] outbox by blast
  next
    case (retry i attempt available diagnostic answer)
    then show ?thesis using retry_effect [OF parts(3)] outbox by blast
  next
    case (cancel_claimed i attempt diagnostic answer)
    then show ?thesis using cancel_claimed_effect [OF parts(3)] outbox by blast
  next
    case (cancel i cancelled)
    then show ?thesis using cancel_effect [OF parts(3,2)] outbox by blast
  qed (use commit register in blast)+
qed

lemma storage_step_inv:
  assumes inv: "storage_inv X db" and step: "storage_step X w db db'"
  shows "storage_inv X db'"
  using inv step
proof (cases rule: storage_step_kinds)
  case (commit t now c evaluated res)
  then show ?thesis by (rule commit_inv [OF inv])
next
  case (register ds res)
  then show ?thesis by (rule register_inv [OF inv])
qed (rule outbox_effect_inv [OF inv])

section \<open>Every step moves each job along its life\<close>

lemma job_view_append:
  "db_jobs db' = db_jobs db @ js \<Longrightarrow> job_view db i = Some j \<Longrightarrow> job_view db' i = Some j"
  by (auto simp: job_view_def job_row_at_def lookup_append_Some)

lemma outbox_effect_job:
  assumes eff: "outbox_effect db db'" and j: "job_view db i = Some j"
  shows "\<exists>j'. job_view db' i = Some j' \<and> job_step\<^sup>=\<^sup>= j j'"
proof (cases "db' = db")
  case False
  then obtain k j0 j' where k: "job_view db k = Some j0" "job_step j0 j'" "job_view db' = (job_view db)(k \<mapsto> j')"
    using eff unfolding outbox_effect_def by blast
  then show ?thesis using j by (cases "i = k") (simp_all del: split_paired_Ex)
qed (use j in \<open>simp del: split_paired_Ex\<close>)

lemma storage_step_job:
  assumes inv: "storage_inv X db" and step: "storage_step X w db db'" and j: "job_view db i = Some j"
  shows "\<exists>j'. job_view db' i = Some j' \<and> job_step\<^sup>=\<^sup>= j j'"
  using inv step
proof (cases rule: storage_step_kinds)
  case (commit t now c evaluated res)
  show ?thesis using commit(4)
  proof (cases rule: commit_cases)
    case (written receipt current)
    then have "job_view db' i = Some j" by (elim write_commit_rows) (rule job_view_append [OF _ j])
    then show ?thesis by blast
  qed (use j in blast)+
next
  case (register ds res)
  then obtain added where "db' = db\<lparr>db_schemas := db_schemas db @ added\<rparr>"
    using register_schemas_result [OF storage_inv_wf [OF inv]] by blast
  then have "job_view db' i = Some j" using j by (simp add: job_view_def job_row_at_def)
  then show ?thesis by blast
qed (rule outbox_effect_job [OF _ j])

interpretation outbox: job_history "storage_inv X" "storage_step X w" job_view for X w
  by unfold_locales (auto intro: storage_step_inv dest: storage_step_job)

section \<open>Every step keeps the receipts\<close>

lemma outbox_effect_receipts: "outbox_effect db db' \<Longrightarrow> keeps_receipts db db'"
proof -
  assume eff: "outbox_effect db db'"
  show ?thesis
  proof (cases "db' = db")
    case False
    then obtain g where g: "job_keeping g" "db' = db\<lparr>db_jobs := map g (db_jobs db)\<rparr>"
      using eff by (auto simp: outbox_effect_def jobs_kept_def)
    have "map jb_id (rows_at jb_position jb_index p (map g js)) = map jb_id (rows_at jb_position jb_index p js)" for p js
    proof -
      have "filter (\<lambda>r. jb_position r = p) (map g js) = map g (filter (\<lambda>r. jb_position r = p) js)"
        using g(1) by (simp add: filter_map job_keeping_def comp_def)
      moreover have "insort_key jb_index (g x) (map g xs) = map g (insort_key jb_index x xs)" for x xs
        using g(1) by (induction xs) (auto simp: job_keeping_def)
      then have "sort_key jb_index (map g xs) = map g (sort_key jb_index xs)" for xs
        by (induction xs) auto
      ultimately show ?thesis using g(1) by (simp add: rows_at_def job_keeping_def comp_def)
    qed
    then show ?thesis by (simp add: keeps_receipts_def g(2))
  qed simp
qed

lemma storage_step_receipts:
  assumes inv: "storage_inv X db" and step: "storage_step X w db db'"
  shows "keeps_receipts db db'"
  using inv step
proof (cases rule: storage_step_kinds)
  case (register ds res)
  then obtain added where "db' = db\<lparr>db_schemas := db_schemas db @ added\<rparr>"
    using register_schemas_result [OF storage_inv_wf [OF inv]] by blast
  then show ?thesis by (simp add: keeps_receipts_def)
qed (auto intro: commit_keeps_receipts outbox_effect_receipts)

definition already :: "commit_receipt \<Rightarrow> commit_receipt" where
  "already r = r\<lparr>receipt_disposition := AlreadyCommitted\<rparr>"

definition admissible_commit :: "externs \<Rightarrow> world_transaction \<times> u64 \<times> clock \<Rightarrow> bool" where
  "admissible_commit X = (\<lambda>(t, evaluated, now).
     commit_bounded t now \<and> (\<forall>m \<in> set (tx_mutations t). mutation_stable X m) \<and>
     (\<forall>e \<in> set (tx_effects t). json_stable X (draft_effect_payload e)))"

definition submit_commit ::
  "externs \<Rightarrow> world_command \<Rightarrow> world_transaction \<times> u64 \<times> clock \<Rightarrow> world_db \<Rightarrow> (storage_error + commit_receipt) \<times> world_db"
  where
  "submit_commit X c = (\<lambda>(t, evaluated, now). commit X c t evaluated now)"

interpretation store: command_store "storage_inv X" "storage_step X w" "admissible_commit X"
    "committed_receipt X" "submit_commit X" already for X w
proof unfold_locales
  fix c t s e s' assume "submit_commit X c t s = (Inl e, s')"
  then show "s' = s" by (cases t) (auto simp: submit_commit_def commit_def split: sum.splits)
next
  fix s c r t assume "committed_receipt X s c = Inr (Some r)"
  then show "submit_commit X c t s = (Inr r, s)" by (cases t) (simp add: submit_commit_def receipt_replays)
next
  fix s c t r s' assume "storage_inv X s" "submit_commit X c t s = (Inr r, s')"
  then show "committed_receipt X s' c = Inr (Some (already r))"
    by (cases t) (auto simp: submit_commit_def already_def intro: commit_receipt_answers storage_inv_wf)
next
  fix s s' assume "storage_inv X s" "storage_step X w s s'"
  then show "storage_inv X s'" by (rule storage_step_inv)
next
  fix t c s res s' assume "admissible_commit X t" "submit_commit X c t s = (res, s')"
  then show "storage_step X w s s'"
    by (cases t) (auto simp: submit_commit_def admissible_commit_def intro: storage_step.commit)
next
  fix s s' c r assume a: "storage_inv X s" "storage_step X w s s'" "committed_receipt X s c = Inr (Some r)"
  have "db_wf X s" "db_wf X s'" using a(1) storage_step_inv [OF a(1,2)] by (simp_all add: storage_inv_def)
  then show "committed_receipt X s' c = Inr (Some r)"
    using receipt_kept storage_step_receipts [OF a(1,2)] a(3) unfolding committed_receipt_def by blast
qed

end
