(* ===== verification/Sql_Snapshot.thy ===== *)
theory Sql_Snapshot
  imports Sql_System
begin

text \<open>
  Snapshots (\<open>crates/storage/src/sqlite/snapshot.rs\<close>, \<open>snapshot\<close> and \<open>snapshot_for_command\<close> of
  \<open>mod.rs\<close>) and optimistic concurrency: a commit takes effect only on the world its snapshot showed.
\<close>

section \<open>Operations\<close>

text \<open>A read transaction of the database pins its contents.\<close>

record world_snapshot =
  snap_db :: world_db
  snap_world_id :: world_id
  snap_position :: u64

definition snapshot :: "world_db \<Rightarrow> storage_error + world_snapshot" where
  "snapshot db =
     and_then (read_world_metadata_full db) (\<lambda>(i, format, position).
     and_then (ensure_world_format format) (\<lambda>_.
     Inr \<lparr>snap_db = db, snap_world_id = i, snap_position = position\<rparr>))"

definition snapshot_for_command :: "externs \<Rightarrow> world_id \<Rightarrow> world_command \<Rightarrow> world_db \<Rightarrow> storage_error + world_snapshot" where
  "snapshot_for_command X i c db =
     and_then (validate_command X db c) (\<lambda>position.
     Inr \<lparr>snap_db = db, snap_world_id = i, snap_position = position\<rparr>)"

definition snapshot_load_entity :: "world_snapshot \<Rightarrow> entity_id \<Rightarrow> storage_error + entity_record option" where
  "snapshot_load_entity s i = load_entity (snap_db s) i"

definition snapshot_load_relation :: "world_snapshot \<Rightarrow> relation_id \<Rightarrow> storage_error + relation_record option" where
  "snapshot_load_relation s i = load_relation (snap_db s) i"

definition snapshot_load_facet ::
  "externs \<Rightarrow> world_snapshot \<Rightarrow> facet_target \<Rightarrow> schema_key \<Rightarrow> storage_error + facet_record option" where
  "snapshot_load_facet X s target k = load_facet X (snap_db s) target k"

definition snapshot_load_schema :: "externs \<Rightarrow> world_snapshot \<Rightarrow> schema_key \<Rightarrow> storage_error + schema_definition option" where
  "snapshot_load_schema X s k = load_schema X (snap_db s) k"

definition snapshot_can_control :: "world_snapshot \<Rightarrow> principal_id \<Rightarrow> entity_id \<Rightarrow> schema_key \<Rightarrow> storage_error + bool" where
  "snapshot_can_control s p e k = principal_can_control (snap_db s) p e k (snap_position s)"

section \<open>Positions\<close>

definition position_of :: "world_db \<Rightarrow> int" where
  "position_of db = (case db_metadata db of None \<Rightarrow> 0 | Some m \<Rightarrow> md_position m)"

lemma position_of_at: "metadata_at n db \<Longrightarrow> position_of db = int n"
  by (auto simp: metadata_at_def position_of_def)

lemma current_position_of:
  assumes "db_wf X db" and "current_position db = Inr w"
  shows "position_of db = uint w"
proof -
  obtain n w' where "metadata_at n db" "current_position db = Inr w'" "uint w' = int n"
    using assms(1) by (rule db_wf_position)
  then show ?thesis using assms(2) by (simp add: position_of_at)
qed

lemma position_of_nonneg: "db_wf X db \<Longrightarrow> 0 \<le> position_of db"
  by (auto simp: db_wf_def position_of_at)

text \<open>A receipt marked as new is the result of a write.\<close>

lemma commit_written:
  assumes wf: "db_wf X db" and run: "commit X c t evaluated now db = (Inr r, db')"
    and new: "receipt_disposition r = Committed"
  obtains w where "committed_receipt X db c = Inr None" "check_commit X c t evaluated db = Inr w"
    "write_commit X c t w now db = Inr (r, db')"
  using run
proof (cases rule: commit_cases)
  case (replayed receipt)
  then have "receipt_disposition receipt = AlreadyCommitted"
    unfolding committed_receipt_def load_existing_receipt_wf [OF wf]
    by (auto simp: stored_receipt_def split: option.splits if_splits)
  then show ?thesis using replayed new by simp
qed (use that in auto)

text \<open>A successful new commit moves to the next position.\<close>

lemma commit_moves:
  assumes wf: "db_wf X db" and chk: "check_commit X c t evaluated db = Inr current"
    and wr: "write_commit X c t current now db = Inr (receipt, db')"
  shows "position_of db' = position_of db + 1" and "receipt_position receipt = current + 1"
    and "uint (current + 1) = uint current + 1" and "current_position db' = Inr (current + 1)"
proof -
  from wf obtain n where n: "n < 2 ^ 63" "metadata_at n db" "tables_wf n db" "schemas_wf X db"
    by (auto simp: db_wf_def)
  have cur: "uint current = int n"
    using current_position_Inr [OF n(2)] check_commit_Inr_position [OF chk] by blast
  from write_commit_stages [OF wr] obtain w p where w: "checked_add_u64 current 1 = Some w" "position_to_sql w = Inr p"
      "receipt_position receipt = w" by (metis commit_receipt.select_convs(3))
  note room = next_position [OF w(1,2) cur]
  note word = next_word [OF cur] 
  have w': "w = current + 1" "uint (current + 1) = int (Suc n)" using word room(2) w(1) by simp_all
  then show "receipt_position receipt = current + 1" "uint (current + 1) = uint current + 1" using w(3) cur by simp_all
  have at: "metadata_at (Suc n) db'" using write_commit_wf [OF wr n(3,2) cur] n(4) by simp
  then show "position_of db' = position_of db + 1" using n(2) by (simp add: position_of_at)
  have "current_position db' = Inr (word_of_nat (Suc n))" using current_position_at [OF at room(2)] .
  moreover have "word_of_nat (Suc n) = current + 1"
    using w'(2) by (metis of_int_of_nat_eq word_of_int_uint)
  ultimately show "current_position db' = Inr (current + 1)" by simp
qed

text \<open>Every step keeps the world as it was, or moves to a later position.\<close>

lemma storage_step_moves:
  assumes inv: "storage_inv X db" and step: "storage_step X w db db'"
  shows "position_of db < position_of db' \<or> position_of db' = position_of db \<and> abs_db db' = abs_db db"
  using inv step
proof (cases rule: storage_step_kinds)
  case (commit t now c evaluated res)
  from commit(4) show ?thesis
    by (cases rule: commit_cases) (auto simp: commit_moves(1) [OF storage_inv_wf [OF inv]])
next
  case (register ds res)
  then obtain added where "db' = db\<lparr>db_schemas := db_schemas db @ added\<rparr>"
    using register_schemas_result [OF storage_inv_wf [OF inv]] by blast
  then show ?thesis by (simp add: position_of_def)
next
  case outbox
  then obtain js where "db' = db\<lparr>db_jobs := js\<rparr>"
    by (auto simp: outbox_effect_def jobs_kept_def intro: that [of "db_jobs db"])
  then show ?thesis by (simp add: position_of_def)
qed

lemma storage_run_moves:
  assumes "(storage_step X w)\<^sup>*\<^sup>* db db'" and "storage_inv X db"
  shows "position_of db < position_of db' \<or> position_of db' = position_of db \<and> abs_db db' = abs_db db"
  using assms
proof (induction rule: rtranclp_induct)
  case (step db1 db2)
  have "storage_inv X db1" using outbox.inv_run [OF step.hyps(1) step.prems] .
  from storage_step_moves [OF this step.hyps(2)] step.IH step.prems show ?case by auto
qed simp

end
