(* ===== verification/Storage_Properties.thy ===== *)
theory Storage_Properties
  imports Sql_Snapshot
begin

text \<open>What the storage component promises its clients, over whole runs of the storage machine.\<close>

section \<open>Commits\<close>


text \<open>
  C12. A commit is atomic, and keeps the database well-formed: it fails and changes nothing, answers
  an earlier receipt and changes nothing, or moves to the next position and reports it.
\<close>

theorem commit_atomic:
  assumes "db_wf X db" and "commit X c t evaluated now db = (res, db')"
  shows "db_wf X db' \<and>
    (case res of
       Inl e \<Rightarrow> db' = db
     | Inr r \<Rightarrow>
         if receipt_disposition r = AlreadyCommitted then db' = db
         else \<exists>w. current_position db = Inr w \<and> current_position db' = Inr (w + 1) \<and>
                uint (w + 1) = uint w + 1 \<and> receipt_position r = w + 1)"
proof -
  have "db_wf X db'" using assms by (rule commit_keeps_wf)
  moreover have "res = Inl e \<Longrightarrow> db' = db" for e
    using assms(2) by (auto simp: commit_def split: sum.splits)
  moreover have "\<exists>w. current_position db = Inr w \<and> current_position db' = Inr (w + 1) \<and>
      uint (w + 1) = uint w + 1 \<and> receipt_position r = w + 1"
    if r: "res = Inr r" "receipt_disposition r = Committed" for r
  proof -
    have "commit X c t evaluated now db = (Inr r, db')" using assms(2) r(1) by simp
    then obtain w where w: "check_commit X c t evaluated db = Inr w" "write_commit X c t w now db = Inr (r, db')"
      by (rule commit_written [OF assms(1) _ r(2)])
    show ?thesis using commit_moves(2-4) [OF assms(1) w] check_commit_Inr_position [OF w(1)] by blast
  qed
  moreover have "db' = db" if r: "res = Inr r" "receipt_disposition r = AlreadyCommitted" for r
    using assms(2)
  proof (cases rule: commit_cases)
    case (written receipt current)
    then have "receipt_disposition r = Committed" using r by (auto elim: write_commit_rows simp: new_receipt_def)
    then show ?thesis using r(2) by simp
  qed
  ultimately show ?thesis
    by (cases res) (use commit_disposition.exhaust in \<open>auto split: if_splits\<close>)
qed

text \<open>
  C2. A new command whose checks succeed does to the world what its mutations do to the abstract
  world, one after the other: when one of them is refused there, the commit fails with that error and
  nothing is written; otherwise the receipt and the log rows name exactly the drafts it was given.
\<close>

theorem commit_refines:
  assumes "db_wf X db" and "committed_receipt X db c = Inr None"
    and "check_commit X c t evaluated db = Inr w" and "uint w + 1 < 2 ^ 63" and "commit_bounded t now"
  shows "case abs_run X (tx_mutations t) (abs_db db) of
      Inl e \<Rightarrow> commit X c t evaluated now db = (Inl (World e), db)
    | Inr a \<Rightarrow> (\<exists>db'. commit X c t evaluated now db = (Inr (new_receipt c t (w + 1)), db') \<and>
        abs_db db' = a \<and> commit_writes X c t (w + 1) now db db')"
  using assms by (rule commit_new_command)

text \<open>
  C3. Nothing is committed unchecked: a command that was newly committed had been evaluated at the
  current position, expected it or expected nothing, was authorised for its actor in the world it
  changed, and proposed a valid payload and transaction with fresh event and job identities.
\<close>

theorem commit_guarded:
  assumes "db_wf X db" and "commit X c t evaluated now db = (Inr r, db')"
    and "receipt_disposition r = Committed"
  shows "current_position db = Inr evaluated \<and>
    (expected_position c = None \<or> expected_position c = Some evaluated) \<and>
    authorized (abs_db db) c (uint evaluated) \<and>
    (\<exists>reg. load_schema_registry X db = Inr reg \<and> validate_command_schema reg c = Inr () \<and>
       validate_transaction reg t = Inr ()) \<and>
    reject_reused_ids db t = Inr ()"
proof (rule commit_written [OF assms])
  fix w assume chk: "check_commit X c t evaluated db = Inr w"
  have "\<exists>reg. load_schema_registry X db = Inr reg \<and> validate_command_schema reg c = Inr () \<and>
       validate_transaction reg t = Inr ()"
    using chk by (auto simp: check_commit_def result_simps)
  then show ?thesis
    using check_commit_checked [OF assms(1) chk] by blast
qed


section \<open>Exactly once\<close>

text \<open>
  C1. Exactly once: after a command succeeded, submitting it again, with any transaction, evaluated
  anywhere, at any later point of any run of the storage, answers the same receipt marked as already
  committed and changes nothing.
\<close>

theorem commit_exactly_once:
  assumes "storage_inv X db" and "admissible_commit X (t, evaluated, now)"
    and "commit X c t evaluated now db = (Inr r, db1)" and "(storage_step X w)\<^sup>*\<^sup>* db1 db2"
  shows "commit X c t' evaluated' now' db2 = (Inr (r\<lparr>receipt_disposition := AlreadyCommitted\<rparr>), db2)"
  using store.exactly_once [OF assms(1,2), of c r db1 w db2 "(t', evaluated', now')"] assms(3,4)
  by (simp add: submit_commit_def already_def)

lemma conflict_of_receipt:
  assumes wf: "db_wf X db" and r: "committed_receipt X db c = Inr (Some r)"
    and c': "command_id c' = command_id c" "command_digest X c' \<noteq> command_digest X c"
  shows "commit X c' t evaluated now db = (Inl (World (CommandIdConflict (command_id c'))), db)"
proof -
  have "committed_receipt X db c' = Inl (World (CommandIdConflict (command_id c')))"
    using r c' unfolding committed_receipt_def load_existing_receipt_wf [OF wf] c'(1)
    by (auto split: option.splits if_splits)
  then show ?thesis by (simp add: commit_def commit_transaction_def committed_receipt_def)
qed

text \<open>
  C30. An identity is never reused: once a command is committed, a different command with its
  identity is refused with \<open>CommandIdConflict\<close> at every later point, and changes nothing.
\<close>

theorem command_id_never_reused:
  assumes "storage_inv X db" and "admissible_commit X (t, evaluated, now)"
    and "commit X c t evaluated now db = (Inr r, db1)" and "(storage_step X w)\<^sup>*\<^sup>* db1 db2"
    and "command_id c' = command_id c" and "command_digest X c' \<noteq> command_digest X c"
  shows "commit X c' t' evaluated' now' db2 = (Inl (World (CommandIdConflict (command_id c'))), db2)"
proof -
  have sub: "submit_commit X c (t, evaluated, now) db = (Inr r, db1)" using assms(3) by (simp add: submit_commit_def)
  have "storage_inv X db1" using store.inv_later [OF assms(1) store.submit_later [OF assms(2) sub]] .
  moreover have "committed_receipt X db1 c = Inr (Some (already r))" using store.receipt_after [OF assms(1) sub] .
  ultimately have "storage_inv X db2 \<and> committed_receipt X db2 c = Inr (Some (already r))"
    using store.receipt_for_ever [OF assms(4)] by blast
  then show ?thesis using conflict_of_receipt [OF storage_inv_wf _ assms(5,6)] by blast
qed

section \<open>Optimistic concurrency\<close>

text \<open>
  C4. Commits are serialised: when a new command commits, however many steps after its snapshot was
  taken, the world it was evaluated on is the world it changed.
\<close>

theorem commit_on_evaluated_world:
  assumes "storage_inv X db" and "snapshot_for_command X i c db = Inr s" and "(storage_step X w)\<^sup>*\<^sup>* db db2"
    and "commit X c t (snap_position s) now db2 = (Inr r, db3)" and "receipt_disposition r = Committed"
  shows "abs_db db2 = abs_db (snap_db s) \<and> current_position db2 = Inr (snap_position s)"
proof -
  have s: "snap_db s = db" "current_position db = Inr (snap_position s)"
    using assms(2) by (auto simp: snapshot_for_command_def validate_command_def result_simps)
  have inv2: "storage_inv X db2" using outbox.inv_run [OF assms(3,1)] .
  have pos2: "current_position db2 = Inr (snap_position s)"
    by (rule commit_written [OF storage_inv_wf [OF inv2] assms(4,5)]) (simp add: check_commit_Inr_position)
  then show ?thesis
    using storage_run_moves [OF assms(3,1)] current_position_of [OF storage_inv_wf] assms(1) inv2 s by force
qed

section \<open>Reachable databases\<close>

lemma new_db_inv: "storage_inv X (new_db i)"
proof -
  have "abs_db (new_db i) = abs_empty"
    by (simp add: new_db_def empty_db_def abs_db_def abs_empty_def fun_eq_iff facet_payload_text_def lookup_def
        split: facet_target.splits)
  then have "log_wf X (new_db i)" by (simp add: log_wf_def abs_run_def new_db_def empty_db_def)
  moreover have "jobs_readable X (new_db i)" by (simp add: jobs_readable_def new_db_def empty_db_def)
  ultimately show ?thesis by (simp add: storage_inv_def new_db_wf)
qed

lemma reachable_inv:
  assumes "initialize_new i empty_file = Inr f" and "(storage_step X w)\<^sup>*\<^sup>* (file_db f) db"
  shows "storage_inv X db"
proof -
  have "storage_inv X (file_db f)" using assms(1) new_db_inv unfolding initialize_new_result by (auto simp: new_file_def)
  then show ?thesis using outbox.inv_run [OF assms(2)] by blast
qed

text \<open>
  C6. Every database that calls of the storage interface can reach from a newly created world is
  well-formed, and every job in its outbox decodes.
\<close>

theorem reachable_db_wf:
  assumes "initialize_new i empty_file = Inr f" and "(storage_step X w)\<^sup>*\<^sup>* (file_db f) db"
  shows "db_wf X db \<and> jobs_readable X db"
  using reachable_inv [OF assms] by (simp add: storage_inv_def)

text \<open>
  C5. The mutation log is the history of the world: on every reachable database the whole log
  decodes, and running it from the empty world gives the current world.
\<close>

theorem reachable_log_rebuilds:
  assumes "initialize_new i empty_file = Inr f" and "(storage_step X w)\<^sup>*\<^sup>* (file_db f) db"
  shows "\<exists>log. decoded_log X db = Inr log \<and> abs_run X (map stored_mutation log) abs_empty = Inr (abs_db db)"
  using reachable_inv [OF assms] log_wf_rebuilds by (simp add: storage_inv_def log_rebuilds_def)

text \<open>
  C40. What a commit emits can be read back: \<open>events_at_position\<close> of the new position returns exactly
  the event drafts, in order, with the command as their provenance.
\<close>

theorem committed_events_read_back:
  assumes "db_wf X db" and "committed_receipt X db c = Inr None"
    and "check_commit X c t evaluated db = Inr w" and "uint w + 1 < 2 ^ 63"
    and "commit_bounded t now" and "commit X c t evaluated now db = (Inr r, db')"
    and "\<forall>e \<in> set (tx_events t). json_stable X (draft_event_payload e)"
  shows "events_at_position X db' wid (receipt_position r) =
    Inr (map (stored_event_of wid c (receipt_position r) now) (enumerate 0 (tx_events t)))"
  using assms by (rule commit_events_read_back)

end
