(* ===== verification/Outbox_Properties.thy ===== *)
theory Outbox_Properties
  imports Sql_Snapshot
begin

text \<open>What the effect outbox promises the workers that run the jobs, over whole runs of the storage machine.\<close>

section \<open>Claims\<close>

text \<open>
  A claim hands out the oldest due job, exclusively: it was due, no due job is earlier in the
  outbox order, its attempt number is one higher than before and is the one the lease is recorded
  under, and no other job is touched.
\<close>

theorem claim_takes_oldest:
  assumes "storage_inv X db" and "claim_next X w now lease db = (Inr (Some c), db')"
  shows "\<exists>j \<in> set (db_jobs db). due (time_millis now) j \<and>
    (\<forall>r \<in> set (db_jobs db). due (time_millis now) r \<longrightarrow> (jb_position j, jb_index j) \<le> (jb_position r, jb_index r)) \<and>
    into_bytes (job_id (claimed_job c)) = jb_id j \<and> uint (claim_attempt c) = jb_attempts j + 1 \<and>
    job_view db' = (job_view db)(job_id (claimed_job c) \<mapsto> (Running (time_millis lease), uint (claim_attempt c)))"
proof -
  have wf: "db_wf X db" "jobs_readable X db" using assms(1) by (simp_all add: storage_inv_def)
  have lease: "time_millis now < time_millis lease"
    using assms(2) by (auto simp: claim_next_def split: if_splits)
  note result = claim_next_result [OF wf lease, of w]
  obtain j where j: "candidate db (time_millis now) = Some j" "jb_attempts j + 1 \<noteq> 2 ^ 32"
    using result assms(2) by (auto split: option.splits if_splits)
  then have r: "job_id (claimed_job c) = from_bytes (jb_id j)" "uint (claim_attempt c) = jb_attempts j + 1"
      "job_view db' = (job_view db)(from_bytes (jb_id j) \<mapsto> (Running (time_millis lease), jb_attempts j + 1))"
    using result assms(2) by auto
  note cand = candidate_Some [OF j(1)]
  have "length (jb_id j) = 16" using cand(1) db_wf_parts(7) [OF wf(1)] by (simp add: jobs_wf_def job_row_ok_def)
  then show ?thesis using r cand by (intro bexI [OF _ cand(1)]) (auto simp: into_from_bytes)
qed

text \<open>
  C34. No due job is overlooked: with a lease in the future, a claim comes back empty exactly when no
  pending or expired job is due, which is exactly when \<open>next_wakeup\<close> names no time up to now; it fails
  only when the oldest due job has no attempt number left.
\<close>

theorem claim_answers_when_due:
  assumes "storage_inv X db" and "time_millis now < time_millis lease"
  shows "(fst (claim_next X w now lease db) = Inr None \<longleftrightarrow> (\<forall>r \<in> set (db_jobs db). \<not> due (time_millis now) r)) \<and>
    (fst (claim_next X w now lease db) = Inr None \<longleftrightarrow>
       \<not> (\<exists>m. next_wakeup db = Inr (Some (UnixTimeMillis m)) \<and> m \<le> time_millis now)) \<and>
    (\<forall>e. fst (claim_next X w now lease db) = Inl e \<longrightarrow>
       (\<exists>j \<in> set (db_jobs db). e = EffectAttemptOverflow (from_bytes (jb_id j)) \<and> jb_attempts j + 1 = 2 ^ 32))"
proof -
  have wf: "db_wf X db" "jobs_readable X db" "jobs_wf db" using assms(1) by (auto simp: storage_inv_def db_wf_parts)
  note result = claim_next_result [OF wf(1,2) assms(2), of w]
  let ?c = "candidate db (time_millis now)"
  have none: "fst (claim_next X w now lease db) = Inr None \<longleftrightarrow> ?c = None"
    using result by (auto split: option.splits if_splits)
  obtain t where t: "next_wakeup db = Inr t"
      "?c \<noteq> None \<longleftrightarrow> (\<exists>m. t = Some (UnixTimeMillis m) \<and> m \<le> time_millis now)"
    using next_wakeup_due [OF wf(3)] by blast
  have over: "e = EffectAttemptOverflow (from_bytes (jb_id j)) \<and> jb_attempts j + 1 = 2 ^ 32 \<and> j \<in> set (db_jobs db)"
    if "fst (claim_next X w now lease db) = Inl e" "?c = Some j" for e j
    using result that candidate_Some(1) [OF that(2)] by (auto split: if_splits)
  have some: "?c \<noteq> None" if "fst (claim_next X w now lease db) = Inl e" for e
    using result that by (auto split: option.splits)
  have "\<exists>j \<in> set (db_jobs db). e = EffectAttemptOverflow (from_bytes (jb_id j)) \<and> jb_attempts j + 1 = 2 ^ 32"
    if "fst (claim_next X w now lease db) = Inl e" for e
    using over [OF that] some [OF that] by blast
  moreover have "?c = None \<longleftrightarrow> \<not> (\<exists>m. next_wakeup db = Inr (Some (UnixTimeMillis m)) \<and> m \<le> time_millis now)"
    using t by auto
  ultimately show ?thesis using none candidate_None [of db] by simp
qed

section \<open>Fencing\<close>

definition fenced :: "world_db \<Rightarrow> effect_job_id \<Rightarrow> u32 \<Rightarrow> job_state \<Rightarrow> (storage_error + unit) \<times> world_db \<Rightarrow> bool" where
  "fenced db i attempt s answer \<longleftrightarrow>
     (case answer of
        (Inr _, db') \<Rightarrow> holds db i attempt \<and> job_view db' = (job_view db)(i \<mapsto> (s, uint attempt))
      | (Inl e, db') \<Rightarrow> \<not> holds db i attempt \<and> db' = db \<and>
          e = (if job_exists db i then EffectJobClaimLost i else EffectJobNotFound i))"

text \<open>
  C34. Only the holder of the current attempt of a running job can complete it, schedule it again or
  cancel it, and then it has exactly that effect; any other caller gets \<open>EffectJobClaimLost\<close>, or
  \<open>EffectJobNotFound\<close> when there is no such job, and changes nothing.
\<close>

theorem transitions_fenced:
  assumes "jobs_wf db" and "length diagnostic \<le> MAX_LAST_ERROR_BYTES"
  shows "fenced db i attempt Completed (complete i attempt db) \<and>
    fenced db i attempt (Pending (time_millis available)) (retry i attempt available diagnostic db) \<and>
    fenced db i attempt Cancelled (cancel_claimed i attempt diagnostic db)"
  using complete_result [OF assms(1), of i attempt] retry_result [OF assms, of i attempt available]
    cancel_claimed_result [OF assms, of i attempt]
  by (auto simp: fenced_def split: if_splits)

text \<open>
  C7. A lost lease stays lost: once a job has been claimed again, or is finished, a worker that still
  carries a lower attempt number is refused at every later point and changes nothing.
\<close>

theorem stale_attempt_refused:
  assumes "storage_inv X db" and "job_view db i = Some j" and "outdated (uint attempt) j"
    and "(storage_step X w)\<^sup>*\<^sup>* db db2"
  shows "complete i attempt db2 = (Inl (EffectJobClaimLost i), db2)"
proof -
  have "jobs_wf db2" using outbox.inv_run [OF assms(4,1)] by (auto simp: storage_inv_def db_wf_parts)
  moreover have "\<not> holds db2 i attempt"
    using outbox.outdated_for_ever [OF assms(4,1,2,3)] by (simp add: holds_def)
  moreover obtain j2 where "job_view db2 i = Some j2" using outbox.view_run [OF assms(4,1,2)] by blast
  then have "job_exists db2 i"
    using lookup_Some_D [of jb_id "db_jobs db2" "into_bytes i"]
    by (force simp: job_view_def job_row_at_def job_exists_def)
  ultimately show ?thesis using complete_result [of db2 i attempt] by simp
qed

section \<open>Ends of a job\<close>

text \<open>
  A finished job stays finished: whatever happens later, a completed job is completed and a
  cancelled job is cancelled, with the attempt number it had.
\<close>

theorem finished_for_ever:
  assumes "storage_inv X db" and "job_view db i = Some (s, n)" and "s = Completed \<or> s = Cancelled"
    and "(storage_step X w)\<^sup>*\<^sup>* db db2"
  shows "job_view db2 i = Some (s, n)"
  using assms(2,3) outbox.completed_for_ever [OF assms(4,1)] outbox.cancelled_for_ever [OF assms(4,1)] by blast

text \<open>
  Cancelling a job by its identity: an unfinished job becomes cancelled and the caller learns
  that it did; a cancelled one is left alone; a completed or unknown one is an error.
\<close>

theorem cancel_contract:
  assumes "jobs_wf db"
  shows "case job_view db i of
      None \<Rightarrow> cancel i db = (Inl (EffectJobNotFound i), db)
    | Some (Completed, _) \<Rightarrow> cancel i db = (Inl (EffectJobTerminal i), db)
    | Some (Cancelled, _) \<Rightarrow> cancel i db = (Inr False, db)
    | Some (_, n) \<Rightarrow> (\<exists>db'. cancel i db = (Inr True, db') \<and> jobs_wf db' \<and> jobs_kept db db' \<and>
                      job_view db' = (job_view db)(i \<mapsto> (Cancelled, n)))"
  using assms by (rule cancel_result)

end
