(* ===== verification/Sql_Digest.thy ===== *)
theory Sql_Digest
  imports Sql_Receipts
begin

text \<open>
  What the command digest identifies: two commands have the same digest exactly when they agree in
  every field and their payloads are the same document.
\<close>

section \<open>Canonical objects, entry by entry\<close>

lemma canonical_object_lookup:
  assumes "canonical_json (JObject es) = canonical_json (JObject fs)"
    and "distinct (map fst es)" and "distinct (map fst fs)"
  shows "map_option canonical_json (map_of es k) = map_option canonical_json (map_of fs k)"
proof -
  have "sort_key fst (map canonical_entry es) = sort_key fst (map canonical_entry fs)"
    using assms(1) by (simp only: canonical_object json.inject)
  then have "set (map canonical_entry es) = set (map canonical_entry fs)"
    by (metis set_sort)
  moreover have "distinct (map fst (map canonical_entry es))" "distinct (map fst (map canonical_entry fs))"
    using assms(2,3) by (simp_all add: comp_def split_beta)
  ultimately have "map_of (map canonical_entry es) k = map_of (map canonical_entry fs) k"
    by (metis map_of_inject_set)
  then show ?thesis by (simp add: map_of_map)
qed

lemma canonical_object_cong:
  assumes "map fst es = map fst fs" and "list_all2 (\<lambda>a b. canonical_json (snd a) = canonical_json (snd b)) es fs"
  shows "canonical_json (JObject es) = canonical_json (JObject fs)"
proof -
  have "canonical_entry (es ! i) = canonical_entry (fs ! i)" if "i < length es" for i
    using assms that list_eq_iff_nth_eq [of "map fst es" "map fst fs"]
    by (auto simp: list_all2_conv_all_nth split_beta)
  moreover have "length es = length fs" using assms(1) map_eq_imp_length_eq by blast
  ultimately have "map canonical_entry es = map canonical_entry fs"
    by (intro nth_equalityI) auto
  then show ?thesis by (simp only: canonical_object)
qed

section \<open>The fields of a command\<close>

definition same_command :: "world_command \<Rightarrow> world_command \<Rightarrow> bool" where
  "same_command c c' \<longleftrightarrow>
     c\<lparr>command_payload := JNull\<rparr> = c'\<lparr>command_payload := JNull\<rparr> \<and>
     json_same (command_payload c) (command_payload c')"

definition time_in_range :: "world_command \<Rightarrow> bool" where
  "time_in_range c =
     (case command_effective_at c of None \<Rightarrow> True
      | Some t \<Rightarrow> - (2 ^ 63) \<le> time_millis t \<and> time_millis t < 2 ^ 63)"

lemma id_value_inject [simp]:
  "inj (uuid_text X) \<Longrightarrow> canonical_json (id_value X i) = canonical_json (id_value X j) \<longleftrightarrow> i = j"
  by (cases i; cases j) (auto simp: id_value_def inj_eq)

lemma u64_value_inject [simp]: "canonical_json (u64_value v) = canonical_json (u64_value w) \<longleftrightarrow> v = w"
  by (simp add: u64_value_def)

lemma i64_value_inject:
  assumes "- (2 ^ 63) \<le> i" "i < 2 ^ 63" "- (2 ^ 63) \<le> j" "j < 2 ^ 63"
  shows "canonical_json (i64_value i) = canonical_json (i64_value j) \<longleftrightarrow> i = j"
proof -
  have "uint (word_of_int x :: u64) = x" if "0 \<le> x" "x < 2 ^ 63" for x
    using that by (simp add: uint_word_of_int)
  then have "(word_of_int i :: u64) = word_of_int j \<longleftrightarrow> i = j" if "0 \<le> i" "0 \<le> j"
    using that assms by metis
  then show ?thesis by (auto simp: i64_value_def)
qed

lemma tagged_id_inject:
  assumes "inj (uuid_text X)"
  shows "canonical_json (tagged_id X s i) = canonical_json (tagged_id X s' (j :: 'tag opaque_id)) \<longleftrightarrow>
    s = s' \<and> as_uuid i = as_uuid j"
proof
  assume "canonical_json (tagged_id X s i) = canonical_json (tagged_id X s' j)"
  then have look: "map_option canonical_json (map_of [(''id'', id_value X i), (''kind'', JString s)] k) =
      map_option canonical_json (map_of [(''id'', id_value X j), (''kind'', JString s')] k)" for k
    unfolding tagged_id_def by (rule canonical_object_lookup) simp_all
  show "s = s' \<and> as_uuid i = as_uuid j"
    using look [of "''id''"] look [of "''kind''"] assms by (auto simp: id_value_def inj_eq)
next
  assume "s = s' \<and> as_uuid i = as_uuid j"
  then show "canonical_json (tagged_id X s i) = canonical_json (tagged_id X s' j)"
    by (simp add: tagged_id_def id_value_def)
qed

lemma actor_value_inject:
  "inj (uuid_text X) \<Longrightarrow> canonical_json (actor_value X a) = canonical_json (actor_value X b) \<longleftrightarrow> a = b"
  by (cases a; cases b) (auto simp: actor_value_def tagged_id_inject opaque_id.expand)

lemma causation_value_inject:
  "inj (uuid_text X) \<Longrightarrow> canonical_json (causation_value X a) = canonical_json (causation_value X b) \<longleftrightarrow> a = b"
  by (cases a; cases b) (auto simp: causation_value_def tagged_id_inject opaque_id.expand)

lemma causation_value_not_null: "canonical_json (causation_value X a) \<noteq> JNull"
  by (cases a) (simp_all add: causation_value_def tagged_id_def)

lemma option_value_inject:
  assumes "\<And>x y. a = Some x \<Longrightarrow> b = Some y \<Longrightarrow> canonical_json (f x) = canonical_json (f y) \<longleftrightarrow> x = y"
    and "\<And>x. canonical_json (f x) \<noteq> JNull"
  shows "canonical_json (option_value f a) = canonical_json (option_value f b) \<longleftrightarrow> a = b"
proof (cases a; cases b)
  fix x assume "a = None" "b = Some x"
  then show ?thesis using assms(2) [of x] by (auto simp: option_value_def)
next
  fix x assume "a = Some x" "b = None"
  then show ?thesis using assms(2) [of x] by (auto simp: option_value_def)
qed (use assms(1) in \<open>auto simp: option_value_def\<close>)

lemma ucast_u32_inject: "(ucast (v :: u32) :: u64) = ucast w \<Longrightarrow> v = w"
proof -
  assume "(ucast v :: u64) = ucast w"
  moreover have "uint (ucast x :: u64) = uint x" for x :: u32
    by (rule uint_up_ucast) (simp add: is_up)
  ultimately show "v = w" by (metis word_uint_eq_iff)
qed

lemma schema_key_value_inject:
  "canonical_json (schema_key_value k) = canonical_json (schema_key_value k') \<longleftrightarrow> k = k'"
proof
  assume "canonical_json (schema_key_value k) = canonical_json (schema_key_value k')"
  then have look: "map_option canonical_json (map_of [(''id'', JString (key_text k)), (''version'', u64_value (ucast (version_number (key_version k))))] x) =
      map_option canonical_json (map_of [(''id'', JString (key_text k')), (''version'', u64_value (ucast (version_number (key_version k'))))] x)" for x
    unfolding schema_key_value_def by (rule canonical_object_lookup) simp_all
  have "key_text k = key_text k'" using look [of "''id''"] by simp
  moreover have "(ucast (version_number (key_version k)) :: u64) = ucast (version_number (key_version k'))"
    using look [of "''version''"] by (simp add: u64_value_def)
  then have "version_number (key_version k) = version_number (key_version k')"
    by (rule ucast_u32_inject)
  ultimately show "k = k'" by (intro key_columns_inject) simp_all
qed simp

section \<open>Digests\<close>

definition command_entries :: "externs \<Rightarrow> world_command \<Rightarrow> (string \<times> json) list" where
  "command_entries X c =
     [(''actor'', actor_value X (command_actor c)),
      (''causation'', option_value (causation_value X) (command_causation c)),
      (''correlation_id'', id_value X (command_correlation c)),
      (''effective_at'', option_value (i64_value \<circ> time_millis) (command_effective_at c)),
      (''expected_position'', option_value u64_value (expected_position c)),
      (''id'', id_value X (command_id c)),
      (''payload'', command_payload c),
      (''principal'', id_value X (command_principal c)),
      (''schema'', schema_key_value (command_schema c))]"

lemma command_value_entries: "command_value X c = JObject (command_entries X c)"
  by (simp add: command_value_def command_entries_def)

lemma command_keys: "map fst (command_entries X c) = [''actor'', ''causation'', ''correlation_id'', ''effective_at'',
    ''expected_position'', ''id'', ''payload'', ''principal'', ''schema'']"
  by (simp add: command_entries_def)

lemma command_keys_distinct: "distinct (map fst (command_entries X c))"
  unfolding command_keys by simp

lemma effective_inject:
  assumes "time_in_range c" and "time_in_range c'"
  shows "canonical_json (option_value (i64_value \<circ> time_millis) (command_effective_at c)) =
      canonical_json (option_value (i64_value \<circ> time_millis) (command_effective_at c')) \<longleftrightarrow>
    command_effective_at c = command_effective_at c'"
proof (rule option_value_inject)
  fix t t' assume "command_effective_at c = Some t" "command_effective_at c' = Some t'"
  with assms have "canonical_json (i64_value (time_millis t)) = canonical_json (i64_value (time_millis t')) \<longleftrightarrow>
      time_millis t = time_millis t'"
    by (intro i64_value_inject) (simp_all add: time_in_range_def)
  then show "canonical_json ((i64_value \<circ> time_millis) t) = canonical_json ((i64_value \<circ> time_millis) t') \<longleftrightarrow> t = t'"
    by (cases t; cases t') simp
qed (simp add: i64_value_def)

lemma canonical_command:
  assumes X: "inj (uuid_text X)" and t: "time_in_range c" "time_in_range c'" and wf: "json_wf (command_payload c)"
  shows "canonical_json (command_value X c) = canonical_json (command_value X c') \<longleftrightarrow> same_command c c'"
proof
  assume "canonical_json (command_value X c) = canonical_json (command_value X c')"
  then have look: "map_option canonical_json (map_of (command_entries X c) k) =
      map_option canonical_json (map_of (command_entries X c') k)" for k
    unfolding command_value_entries by (intro canonical_object_lookup command_keys_distinct)
  have "command_actor c = command_actor c'"
    using look [of "''actor''"] by (simp add: command_entries_def actor_value_inject X)
  moreover have "command_causation c = command_causation c'"
    using look [of "''causation''"] option_value_inject [OF causation_value_inject [OF X] causation_value_not_null]
    by (simp add: command_entries_def)
  moreover have "command_correlation c = command_correlation c'"
    using look [of "''correlation_id''"] by (simp add: command_entries_def X)
  moreover have "command_effective_at c = command_effective_at c'"
    using look [of "''effective_at''"] effective_inject [OF t] by (simp add: command_entries_def)
  moreover have "expected_position c = expected_position c'"
    using look [of "''expected_position''"] option_value_inject [of "expected_position c" "expected_position c'" u64_value]
    by (simp add: command_entries_def u64_value_def)
  moreover have "command_id c = command_id c'"
    using look [of "''id''"] by (simp add: command_entries_def X)
  moreover have "command_principal c = command_principal c'"
    using look [of "''principal''"] by (simp add: command_entries_def X)
  moreover have "command_schema c = command_schema c'"
    using look [of "''schema''"] by (simp add: command_entries_def schema_key_value_inject)
  moreover have "json_same (command_payload c) (command_payload c')"
    using look [of "''payload''"] by (intro canonical_json_same) (simp add: command_entries_def)
  ultimately show "same_command c c'" by (simp add: same_command_def)
next
  assume same: "same_command c c'"
  then have "canonical_json (command_payload c) = canonical_json (command_payload c')"
    using json_same_canonical wf by (simp add: same_command_def)
  moreover have "command_actor c = command_actor c'" "command_causation c = command_causation c'"
    "command_correlation c = command_correlation c'" "command_effective_at c = command_effective_at c'"
    "expected_position c = expected_position c'" "command_id c = command_id c'"
    "command_principal c = command_principal c'" "command_schema c = command_schema c'"
    using same unfolding same_command_def by (cases c; cases c'; simp)+
  ultimately show "canonical_json (command_value X c) = canonical_json (command_value X c')"
    unfolding command_value_entries by (intro canonical_object_cong) (simp_all add: command_entries_def)
qed

text \<open>What is assumed of the printer and the hash, on the two values that are compared.\<close>

definition collision_free :: "externs \<Rightarrow> json \<Rightarrow> json \<Rightarrow> bool" where
  "collision_free X v v' \<longleftrightarrow> (sha256 X (json_text X v) = sha256 X (json_text X v') \<longrightarrow> v = v')"

lemma command_digest_same:
  assumes "inj (uuid_text X)" and "time_in_range c" and "time_in_range c'" and "json_wf (command_payload c)"
    and "collision_free X (canonical_json (command_value X c)) (canonical_json (command_value X c'))"
  shows "command_digest X c = command_digest X c' \<longleftrightarrow> same_command c c'"
  using canonical_command [OF assms(1-4)] assms(5) by (auto simp: command_digest_def collision_free_def)

text \<open>
  C39. The digest identifies the command: absent hash collisions between the two, two commands have
  the same digest exactly when all their fields agree and their payloads are the same document up to
  the order of object entries.
\<close>

theorem command_digest_iff_same_command:
  "inj (uuid_text X) \<Longrightarrow> time_in_range c \<Longrightarrow> time_in_range c' \<Longrightarrow> json_wf (command_payload c) \<Longrightarrow>
   collision_free X (canonical_json (command_value X c)) (canonical_json (command_value X c')) \<Longrightarrow>
     command_digest X c = command_digest X c' \<longleftrightarrow> same_command c c'"
  by (rule command_digest_same)

end
