(* ===== verification/World_Examples.thy ===== *)
theory World_Examples
  imports Storage_Properties Outbox_Properties Sql_Digest
begin

text \<open>
  A small world, built by the operations of the model: four schemas are registered, a command creates
  an entity, an event and an effect, and the effect is claimed. The general theorems are applied to
  it, so that their hypotheses are seen to hold together.
\<close>

section \<open>Third-party code, instantiated\<close>

definition ex_person :: world_mutation where
  "ex_person = CreateEntity \<lparr>entity_id = OpaqueId 20,
     entity_schema = SchemaKey (SchemaId ''ex.person'') (SchemaVersion 1)\<rparr>"

text \<open>A printer that is exact on the values of the example, unary identities, and a hash that sees the
  length of a text.\<close>

definition ex_externs :: externs where
  "ex_externs =
     \<lparr>json_text = (\<lambda>v. if v = JNull then ''null'' else replicate (size v) CHR ''x''),
      json_parse = (\<lambda>s. if s = ''null'' then Some JNull else None),
      mutation_text = (\<lambda>m. if m = ex_person then ''create'' else ''other''),
      mutation_parse = (\<lambda>s. if s = ''create'' then Some ex_person else None),
      validator_for = accept_all,
      uuid_text = (\<lambda>u. replicate (unat u) CHR ''1''),
      sha256 = (\<lambda>s. word_of_nat (length s))\<rparr>"

lemma ex_stable [simp]: "json_stable ex_externs JNull" "mutation_stable ex_externs ex_person"
  by (simp_all add: json_stable_def mutation_stable_def ex_externs_def)

lemma ex_validator [simp]: "validator_for ex_externs v = Inr (\<lambda>_. None)"
  by (simp add: ex_externs_def accept_all_def)

lemma ex_uuid_text: "inj (uuid_text ex_externs)"
proof
  fix u u' assume "uuid_text ex_externs u = uuid_text ex_externs u'"
  then have "length (uuid_text ex_externs u) = length (uuid_text ex_externs u')" by simp
  then show "u = u'" by (simp add: ex_externs_def word_unat_eq_iff)
qed

section \<open>Schemas\<close>

definition ex_definition :: "string \<Rightarrow> schema_kind \<Rightarrow> schema_definition" where
  "ex_definition name kind = \<lparr>definition_key = SchemaKey (SchemaId name) (SchemaVersion 1),
     definition_kind = kind, definition_owner = ''ex'', definition_document = JNull\<rparr>"

text \<open>A projection schema of another extension.\<close>

definition ex_view :: schema_definition where
  "ex_view = (ex_definition ''ex.view'' Projection)\<lparr>definition_owner := ''view''\<rparr>"

definition ex_schemas :: "schema_definition list" where
  "ex_schemas = [ex_definition ''ex.note'' Command, ex_definition ''ex.person'' Entity,
     ex_definition ''ex.noted'' Event, ex_definition ''ex.send'' Effect, ex_view]"

definition ex_world :: world_id where
  "ex_world = OpaqueId 1"

definition ex_db1 :: world_db where
  "ex_db1 = (new_db ex_world)\<lparr>db_schemas := map (encode_schema ex_externs) ex_schemas\<rparr>"

lemma ex_canonical:
  "canonical_key (SchemaKey (SchemaId ''ex.note'') (SchemaVersion 1))"
  "canonical_key (SchemaKey (SchemaId ''ex.person'') (SchemaVersion 1))"
  "canonical_key (SchemaKey (SchemaId ''ex.noted'') (SchemaVersion 1))"
  "canonical_key (SchemaKey (SchemaId ''ex.send'') (SchemaVersion 1))"
  "canonical_key (SchemaKey (SchemaId ''ex.view'') (SchemaVersion 1))"
  by code_simp+

lemma ex_storable: "\<forall>d \<in> set ex_schemas. storable ex_externs d"
  by (simp add: ex_schemas_def ex_view_def ex_definition_def storable_def ex_canonical)

lemma ex_registered:
  "register_schemas ex_externs ex_schemas (new_db ex_world) = (Inr [Registered, Registered, Registered, Registered, Registered], ex_db1)"
  by (simp add: register_schemas_def load_schema_registry_def new_db_def empty_db_def register_one_step
      ex_schemas_def ex_view_def ex_definition_def registry_register_def schema_registry_new_def insert_schema_row_def
      guarded_def schema_row_ok_def schema_exists_def encode_schema_def ex_db1_def)

section \<open>A commit\<close>

definition ex_command :: world_command where
  "ex_command = command_with_ids (OpaqueId 10) (OpaqueId 11) (SchemaKey (SchemaId ''ex.note'') (SchemaVersion 1))
     (OpaqueId 12) (ActorPrincipal (OpaqueId 12)) JNull"

definition ex_job :: effect_job_id where
  "ex_job = OpaqueId 40"

definition ex_transaction :: world_transaction where
  "ex_transaction = \<lparr>tx_mutations = [ex_person],
     tx_events = [\<lparr>draft_event_id = OpaqueId 30,
       draft_event_schema = SchemaKey (SchemaId ''ex.noted'') (SchemaVersion 1), draft_event_payload = JNull\<rparr>],
     tx_effects = [\<lparr>draft_effect_id = ex_job,
       draft_effect_schema = SchemaKey (SchemaId ''ex.send'') (SchemaVersion 1), draft_effect_payload = JNull\<rparr>]\<rparr>"

definition ex_now :: clock where
  "ex_now = AfterEpoch 1000"

definition ex_db2 :: world_db where
  "ex_db2 = snd (commit ex_externs ex_command ex_transaction 0 ex_now ex_db1)"

lemma ex_db1_inv: "storage_inv ex_externs ex_db1"
  by (rule register_inv [OF new_db_inv ex_storable ex_registered])

lemma ex_db1_wf: "db_wf ex_externs ex_db1"
  using ex_db1_inv by (rule storage_inv_wf)

lemma ex_bounded: "commit_bounded ex_transaction ex_now"
  by (simp add: commit_bounded_def clock_bounded_def ex_now_def ex_transaction_def mutation_bounded_def ex_person_def)

lemma ex_admissible: "admissible_commit ex_externs (ex_transaction, 0, ex_now)"
  using ex_bounded by (simp add: admissible_commit_def ex_transaction_def)

lemma ex_position: "current_position ex_db1 = Inr 0"
  by (simp add: current_position_def ex_db1_def new_db_def position_from_sql_def u64_try_from_def)

lemma ex_new: "committed_receipt ex_externs ex_db1 c = Inr None"
  by (simp add: committed_receipt_def load_existing_receipt_def ex_db1_def new_db_def empty_db_def)

text \<open>What the registry of the example says of its schemas.\<close>

lemma ex_load_schema:
  "load_schema ex_externs ex_db1 (SchemaKey (SchemaId ''ex.note'') (SchemaVersion 1)) = Inr (Some (ex_definition ''ex.note'' Command))"
  "load_schema ex_externs ex_db1 (SchemaKey (SchemaId ''ex.person'') (SchemaVersion 1)) = Inr (Some (ex_definition ''ex.person'' Entity))"
  "load_schema ex_externs ex_db1 (SchemaKey (SchemaId ''ex.noted'') (SchemaVersion 1)) = Inr (Some (ex_definition ''ex.noted'' Event))"
  "load_schema ex_externs ex_db1 (SchemaKey (SchemaId ''ex.send'') (SchemaVersion 1)) = Inr (Some (ex_definition ''ex.send'' Effect))"
  "load_schema ex_externs ex_db1 (SchemaKey (SchemaId ''ex.view'') (SchemaVersion 1)) = Inr (Some ex_view)"
  using register_schemas_result [OF new_db_wf ex_storable ex_registered]
  by (simp_all add: ex_schemas_def ex_view_def ex_definition_def)

lemma ex_registry:
  obtains reg where "load_schema_registry ex_externs ex_db1 = Inr reg"
    "\<And>k d. load_schema ex_externs ex_db1 k = Inr (Some d) \<Longrightarrow> definitions reg k = Some d \<and> validators reg k = Some (\<lambda>_. None)"
proof -
  have "schemas_wf ex_externs ex_db1" using ex_db1_wf by (auto simp: db_wf_def)
  then obtain reg where reg: "load_schema_registry ex_externs ex_db1 = Inr reg" "mirrors ex_externs reg ex_db1"
    using mirrors_load by blast
  have "definitions reg k = Some d \<and> validators reg k = Some (\<lambda>_. None)"
    if "load_schema ex_externs ex_db1 k = Inr (Some d)" for k d
    using reg(2) that by (fastforce simp: mirrors_def)
  then show ?thesis using that reg(1) by blast
qed

text \<open>Any note of a principal in its own name is accepted, with the same output.\<close>

definition ex_note :: "world_command \<Rightarrow> bool" where
  "ex_note c \<longleftrightarrow> command_schema c = SchemaKey (SchemaId ''ex.note'') (SchemaVersion 1) \<and>
     command_actor c = ActorPrincipal (command_principal c) \<and> expected_position c = None"

lemma ex_command_note: "ex_note ex_command"
  by (simp add: ex_note_def ex_command_def command_with_ids_def)

lemma ex_checked_note:
  assumes "ex_note c"
  shows "check_commit ex_externs c ex_transaction 0 ex_db1 = Inr 0"
proof -
  obtain reg where reg: "load_schema_registry ex_externs ex_db1 = Inr reg"
      "\<And>k d. load_schema ex_externs ex_db1 k = Inr (Some d) \<Longrightarrow> definitions reg k = Some d \<and> validators reg k = Some (\<lambda>_. None)"
    by (rule ex_registry) blast
  note defs = reg(2) [OF ex_load_schema(1)] reg(2) [OF ex_load_schema(2)] reg(2) [OF ex_load_schema(3)] reg(2) [OF ex_load_schema(4)]
  have "validate_command_schema reg c = Inr ()"
    using defs assms by (simp add: validate_command_schema_def validate_payload_Inr ex_note_def ex_definition_def)
  moreover have "validate_transaction reg ex_transaction = Inr ()"
    using defs by (simp add: validate_transaction_Inr validate_payload_Inr require_kind_Inr mutation_well_typed_def
        ex_transaction_def ex_person_def ex_definition_def)
  moreover have "reject_reused_ids ex_db1 ex_transaction = Inr ()"
    by (simp add: reject_reused_ids_def ensure_def ex_transaction_def ex_db1_def new_db_def empty_db_def)
  ultimately show ?thesis
    using assms by (simp add: check_commit_def reg(1) ex_position check_expected_def authorize_command_def ex_note_def Let_def)
qed

lemmas ex_checked = ex_checked_note [OF ex_command_note]

lemma ex_committed_note:
  assumes "ex_note c"
  obtains db' where "commit ex_externs c ex_transaction 0 ex_now ex_db1 = (Inr (new_receipt c ex_transaction 1), db')"
    "commit_writes ex_externs c ex_transaction 1 ex_now ex_db1 db'"
proof -
  have "abs_run ex_externs (tx_mutations ex_transaction) (abs_db ex_db1) \<noteq> Inl e" for e
    by (simp add: abs_run_def ex_transaction_def ex_person_def abs_apply_def abs_db_def ex_db1_def new_db_def empty_db_def lookup_def)
  then show ?thesis
    using commit_new_command [OF ex_db1_wf ex_new ex_checked_note [OF assms] _ ex_bounded] that by (auto split: sum.splits)
qed

lemma ex_committed:
  "commit ex_externs ex_command ex_transaction 0 ex_now ex_db1 = (Inr (new_receipt ex_command ex_transaction 1), ex_db2)"
  "commit_writes ex_externs ex_command ex_transaction 1 ex_now ex_db1 ex_db2"
  by (rule ex_committed_note [OF ex_command_note], simp add: ex_db2_def)+

lemma ex_db2_step: "storage_step ex_externs ex_world ex_db1 ex_db2"
  by (rule storage_step.commit [OF ex_bounded _ _ ex_committed(1)]) (simp_all add: ex_transaction_def)

lemma ex_db2_inv: "storage_inv ex_externs ex_db2"
  by (rule storage_step_inv [OF ex_db1_inv ex_db2_step])

lemma ex_db2_wf: "db_wf ex_externs ex_db2"
  using ex_db2_inv by (rule storage_inv_wf)

lemma ex_db2_jobs_wf: "jobs_wf ex_db2"
  using ex_db2_wf by (rule db_wf_parts)

section \<open>A claim\<close>

definition ex_db3 :: world_db where
  "ex_db3 = snd (claim_next ex_externs ex_world (UnixTimeMillis 5) (UnixTimeMillis 10) ex_db2)"

lemma ex_db2_rows: "db_jobs ex_db2 = [job_row_of ex_externs 1
    (0, \<lparr>draft_effect_id = ex_job, draft_effect_schema = SchemaKey (SchemaId ''ex.send'') (SchemaVersion 1), draft_effect_payload = JNull\<rparr>)]"
  using ex_committed(2) by (simp add: commit_writes_def ex_transaction_def ex_db1_def new_db_def empty_db_def)

lemma ex_pending: "job_view ex_db2 ex_job = Some (Pending 0, 0)"
  by (simp add: job_view_def job_row_at_def ex_db2_rows lookup_def job_row_of_def state_of_row_def status_defs)

lemma ex_due: "candidate ex_db2 5 = Some (hd (db_jobs ex_db2))"
  by (simp add: candidate_def ex_db2_rows due_def job_row_of_def status_defs)

lemma ex_claimed:
  obtains c where "claim_next ex_externs ex_world (UnixTimeMillis 5) (UnixTimeMillis 10) ex_db2 = (Inr (Some c), ex_db3)"
    "job_id (claimed_job c) = ex_job" "claim_attempt c = 1" "job_view ex_db3 ex_job = Some (Running 10, 1)"
proof -
  have inv: "jobs_readable ex_externs ex_db2" using ex_db2_inv by (simp add: storage_inv_def)
  have "(UnixTimeMillis 5 :: unix_time) \<noteq> UnixTimeMillis 10" "time_millis (UnixTimeMillis 5) < time_millis (UnixTimeMillis 10)"
    by simp_all
  note claim = claim_next_result [OF ex_db2_wf inv this(2), of ex_world]
  have row: "jb_attempts (hd (db_jobs ex_db2)) = 0" "jb_id (hd (db_jobs ex_db2)) = into_bytes ex_job"
    by (simp_all add: ex_db2_rows job_row_of_def)
  from claim obtain c db' where c: "claim_next ex_externs ex_world (UnixTimeMillis 5) (UnixTimeMillis 10) ex_db2 = (Inr (Some c), db')"
      "job_id (claimed_job c) = ex_job" "uint (claim_attempt c) = 1"
      "job_view db' = (job_view ex_db2)(ex_job \<mapsto> (Running 10, 1))"
    by (auto simp: ex_due row)
  have "claim_attempt c = 1" using c(3) by (metis word_uint_eq_iff uint_1)
  then show ?thesis using that c by (simp add: ex_db3_def)
qed

lemma ex_db3_step: "storage_step ex_externs ex_world ex_db2 ex_db3"
  by (rule ex_claimed) (erule storage_step.claim)

lemma ex_db3_inv: "storage_inv ex_externs ex_db3"
  by (rule storage_step_inv [OF ex_db2_inv ex_db3_step])

lemma ex_running: "job_view ex_db3 ex_job = Some (Running 10, 1)"
  by (rule ex_claimed)

text \<open>The run from the new world to the claim.\<close>

lemma ex_run: "(storage_step ex_externs ex_world)\<^sup>*\<^sup>* (new_db ex_world) ex_db3"
proof -
  have "storage_step ex_externs ex_world (new_db ex_world) ex_db1"
    by (rule storage_step.register [OF ex_storable ex_registered])
  then show ?thesis using ex_db2_step ex_db3_step by (meson rtranclp.rtrancl_into_rtrancl rtranclp.rtrancl_refl)
qed

end
