(* ===== verification/World_Witnesses.thy ===== *)
theory World_Witnesses
  imports World_Examples
begin

text \<open>The general theorems of the storage component, applied to the example world.\<close>

section \<open>Schemas and files\<close>

lemma register_schemas_contract_witness:
  "db_wf ex_externs ex_db1 \<and> load_schema ex_externs ex_db1 (definition_key (ex_definition ''ex.send'' Effect)) =
     Inr (Some (ex_definition ''ex.send'' Effect))"
  using register_schemas_contract [OF new_db_wf ex_storable ex_registered] by (simp add: ex_schemas_def)

lemma register_schema_as_batch_witness:
  "fst (register_schemas ex_externs [ex_definition ''ex.note'' Command] ex_db1) = Inr [AlreadyPresent]"
proof -
  have "schemas_wf ex_externs ex_db1" using ex_db1_wf by (auto simp: db_wf_def)
  from register_schema_as_batch [OF this, of "ex_definition ''ex.note'' Command"]
  show ?thesis
    using ex_load_schema(1)
    by (simp add: register_schema_def ex_definition_def registry_register_def schema_registry_new_def)
qed

definition ex_old_file :: world_file where
  "ex_old_file = \<lparr>file_version = 2, file_db = ex_db2\<lparr>db_jobs := []\<rparr>,
     file_legacy_jobs = [\<lparr>lj_id = into_bytes ex_job, lj_position = 1, lj_index = 0, lj_schema_id = ''ex.send'',
       lj_schema_version = 1, lj_payload = ''null'', lj_status = 1, lj_attempts = 3, lj_error = None\<rparr>]\<rparr>"

lemma open_v2_file_witness:
  "\<exists>f'. snd (open_storage ex_old_file) = f' \<and> db_wf ex_externs (file_db f') \<and>
     map jb_status (db_jobs (file_db f')) = [0] \<and> map jb_attempts (db_jobs (file_db f')) = [3]"
proof -
  have "db_wf ex_externs (ex_db2\<lparr>db_jobs := []\<rparr>)"
    by (rule db_wf_jobs [OF ex_db2_wf]) (simp add: jobs_wf_def)
  moreover have "commit_exists ex_db2 1"
    using ex_committed(2) by (simp add: commit_writes_def commit_exists_def)
  moreover have "schema_exists ex_db2 ''ex.send'' 1"
    using ex_committed(2) by (simp add: commit_writes_def schema_exists_def ex_db1_def ex_schemas_def
        encode_schema_def ex_definition_def)
  ultimately have "v2_file_wf ex_externs ex_old_file"
    by (simp add: v2_file_wf_def legacy_jobs_wf_def ex_old_file_def commit_exists_def schema_exists_def)
  from open_v2_file [OF this] show ?thesis by (auto simp: ex_old_file_def upgrade_job_def)
qed

section \<open>Reads and mutations\<close>

lemma apply_mutation_refines_witness:
  "map_ok abs_db (apply_mutation ex_externs (DeleteEntity (OpaqueId 20)) 1 ex_db2) =
     world (abs_apply ex_externs (DeleteEntity (OpaqueId 20)) (abs_db ex_db2))"
proof -
  obtain n where n: "tables_wf n ex_db2" using ex_db2_wf by (auto simp: db_wf_def)
  have "commit_exists ex_db2 1" using ex_committed(2) by (simp add: commit_writes_def commit_exists_def)
  then show ?thesis by (intro apply_mutation_refines [OF n]) (simp_all add: mutation_storable_def)
qed

lemma loads_read_abs_world_witness:
  "load_entity ex_db2 (OpaqueId 20) =
     Inr (map_option (\<lambda>k. \<lparr>entity_id = OpaqueId 20, entity_schema = k\<rparr>) (aw_entities (abs_db ex_db2) (OpaqueId 20)))"
  using loads_read_abs_world [OF ex_db2_wf, of "OpaqueId 20"] by blast

lemma principal_can_control_iff_witness:
  "principal_can_control ex_db2 (OpaqueId 12) (OpaqueId 20) (SchemaKey (SchemaId ''ex.note'') (SchemaVersion 1)) 1 =
     Inr (abs_can_control (abs_db ex_db2) (OpaqueId 12) (OpaqueId 20) (SchemaKey (SchemaId ''ex.note'') (SchemaVersion 1)) 1)"
  using principal_can_control_iff [OF ex_db2_wf, of 1] by simp

lemma abs_world_closed_witness: "abs_wf (abs_db ex_db2)"
  by (rule abs_world_closed [OF ex_db2_wf])

text \<open>Two payloads that differ in the order of their entries make the same command.\<close>

lemma command_digest_iff_same_command_witness:
  "command_digest ex_externs (ex_command\<lparr>command_payload := JObject [(''b'', JNull), (''a'', JNull)]\<rparr>) =
   command_digest ex_externs (ex_command\<lparr>command_payload := JObject [(''a'', JNull), (''b'', JNull)]\<rparr>)"
proof -
  let ?c = "ex_command\<lparr>command_payload := JObject [(''b'', JNull), (''a'', JNull)]\<rparr>"
  let ?c' = "ex_command\<lparr>command_payload := JObject [(''a'', JNull), (''b'', JNull)]\<rparr>"
  have "json_same (command_payload ?c) (command_payload ?c')"
    by (rule canonical_json_same) simp_all
  then have same: "same_command ?c ?c'" by (simp add: same_command_def)
  have "canonical_json (command_value ex_externs ?c) = canonical_json (command_value ex_externs ?c')"
    by (simp add: command_value_def)
  then have "collision_free ex_externs (canonical_json (command_value ex_externs ?c)) (canonical_json (command_value ex_externs ?c'))"
    by (simp add: collision_free_def)
  then show ?thesis
    using command_digest_iff_same_command [OF ex_uuid_text, of ?c ?c'] same
    by (simp add: time_in_range_def ex_command_def command_with_ids_def)
qed

section \<open>Commits\<close>

lemma commit_atomic_witness: "db_wf ex_externs ex_db2 \<and> current_position ex_db2 = Inr 1"
  using commit_atomic [OF ex_db1_wf ex_committed(1)] by (auto simp: new_receipt_def ex_position)

lemma commit_refines_witness:
  "case abs_run ex_externs (tx_mutations ex_transaction) (abs_db ex_db1) of
      Inl e \<Rightarrow> commit ex_externs ex_command ex_transaction 0 ex_now ex_db1 = (Inl (World e), ex_db1)
    | Inr a \<Rightarrow> (\<exists>db'. commit ex_externs ex_command ex_transaction 0 ex_now ex_db1 = (Inr (new_receipt ex_command ex_transaction 1), db') \<and>
        abs_db db' = a \<and> commit_writes ex_externs ex_command ex_transaction 1 ex_now ex_db1 db')"
proof -
  have "uint (0 :: u64) + 1 < 2 ^ 63" by simp
  from commit_refines [OF ex_db1_wf ex_new ex_checked this ex_bounded] show ?thesis unfolding add_0_left .
qed

lemma commit_guarded_witness: "authorized (abs_db ex_db1) ex_command 0"
  using commit_guarded [OF ex_db1_wf ex_committed(1)] by (simp add: new_receipt_def)


lemma commit_exactly_once_witness:
  "commit ex_externs ex_command transaction_new 9 ex_now ex_db3 =
     (Inr ((new_receipt ex_command ex_transaction 1)\<lparr>receipt_disposition := AlreadyCommitted\<rparr>), ex_db3)"
  by (rule commit_exactly_once [OF ex_db1_inv ex_admissible ex_committed(1)]) (use ex_db3_step in blast)

lemma command_id_never_reused_witness:
  "commit ex_externs (ex_command\<lparr>command_payload := JArray []\<rparr>) ex_transaction 1 ex_now ex_db3 =
     (Inl (World (CommandIdConflict (OpaqueId 10))), ex_db3)"
proof -
  let ?c = "ex_command\<lparr>command_payload := JArray []\<rparr>"
  have "command_digest ex_externs ?c \<noteq> command_digest ex_externs ex_command"
    by (simp add: command_digest_def ex_externs_def command_value_def ex_command_def command_with_ids_def)
  then show ?thesis
    using command_id_never_reused [OF ex_db1_inv ex_admissible ex_committed(1), of ex_world ex_db3 ?c]
      ex_db3_step by (simp add: ex_command_def command_with_ids_def r_into_rtranclp)
qed

lemma commit_on_evaluated_world_witness:
  "\<exists>s. snapshot_for_command ex_externs ex_world ex_command ex_db1 = Inr s \<and> current_position ex_db1 = Inr (snap_position s)"
proof -
  have "validate_command ex_externs ex_db1 ex_command = Inr 0"
    using ex_checked by (auto simp: check_commit_def validate_command_def result_simps split: if_splits)
  then have s: "snapshot_for_command ex_externs ex_world ex_command ex_db1 = Inr \<lparr>snap_db = ex_db1, snap_world_id = ex_world, snap_position = 0\<rparr>"
    by (simp add: snapshot_for_command_def)
  show ?thesis
    using commit_on_evaluated_world [OF ex_db1_inv s rtranclp.rtrancl_refl, of ex_transaction ex_now] ex_committed(1) s
    by (simp add: new_receipt_def)
qed

lemma reachable_db_wf_witness: "db_wf ex_externs ex_db3 \<and> jobs_readable ex_externs ex_db3"
  by (rule reachable_db_wf [OF initialize_new_result]) (use ex_run in \<open>simp add: new_file_def\<close>)

lemma reachable_log_rebuilds_witness:
  "\<exists>log. decoded_log ex_externs ex_db3 = Inr log \<and>
     abs_run ex_externs (map stored_mutation log) abs_empty = Inr (abs_db ex_db3)"
  by (rule reachable_log_rebuilds [OF initialize_new_result]) (use ex_run in \<open>simp add: new_file_def\<close>)

lemma committed_events_read_back_witness:
  "\<exists>e. events_at_position ex_externs ex_db2 ex_world 1 = Inr [e] \<and> event_id e = OpaqueId 30"
  using committed_events_read_back [OF ex_db1_wf ex_new ex_checked _ ex_bounded ex_committed(1), of ex_world]
  by (simp add: ex_transaction_def new_receipt_def stored_event_of_def)

section \<open>Jobs\<close>

lemma claim_takes_oldest_witness: "\<exists>j \<in> set (db_jobs ex_db2). due 5 j"
proof -
  obtain c where "claim_next ex_externs ex_world (UnixTimeMillis 5) (UnixTimeMillis 10) ex_db2 = (Inr (Some c), ex_db3)"
    by (rule ex_claimed)
  from claim_takes_oldest [OF ex_db2_inv this] show ?thesis by auto
qed

lemma claim_answers_when_due_witness:
  "fst (claim_next ex_externs ex_world (UnixTimeMillis 5) (UnixTimeMillis 10) ex_db2) \<noteq> Inr None"
  using claim_answers_when_due [OF ex_db2_inv, of "UnixTimeMillis 5" "UnixTimeMillis 10" ex_world]
  by (simp add: ex_db2_rows due_def job_row_of_def status_defs)

lemma transitions_fenced_witness:
  "complete ex_job 7 ex_db2 = (Inl (EffectJobClaimLost ex_job), ex_db2)"
proof -
  have "\<not> holds ex_db2 ex_job 7" by (simp add: holds_def ex_pending)
  moreover have "job_exists ex_db2 ex_job" by (simp add: job_exists_def ex_db2_rows job_row_of_def)
  moreover have "fenced ex_db2 ex_job 7 Completed (complete ex_job 7 ex_db2)"
    using transitions_fenced [OF ex_db2_jobs_wf, of "''timeout''" ex_job 7] by (simp add: MAX_LAST_ERROR_BYTES_def)
  ultimately show ?thesis
    by (cases "complete ex_job 7 ex_db2"; cases "fst (complete ex_job 7 ex_db2)") (simp_all add: fenced_def)
qed

lemma stale_attempt_refused_witness:
  "complete ex_job 0 ex_db3 = (Inl (EffectJobClaimLost ex_job), ex_db3)"
  by (rule stale_attempt_refused [OF ex_db3_inv ex_running _ rtranclp.rtrancl_refl]) (simp add: outdated_def)

lemma finished_for_ever_witness:
  "\<exists>db. job_view db ex_job = Some (Cancelled, 0) \<and> job_view (snd (complete ex_job 0 db)) ex_job = Some (Cancelled, 0)"
proof -
  obtain db' where db': "cancel ex_job ex_db2 = (Inr True, db')" "job_view db' = (job_view ex_db2)(ex_job \<mapsto> (Cancelled, 0))"
    using cancel_result [OF ex_db2_jobs_wf, of ex_job] by (auto simp: ex_pending)
  have inv: "storage_inv ex_externs db'" by (rule storage_step_inv [OF ex_db2_inv storage_step.cancel [OF db'(1)]])
  have view: "job_view db' ex_job = Some (Cancelled, 0)" using db'(2) by simp
  obtain res db'' where step: "complete ex_job 0 db' = (res, db'')" by fastforce
  have "(storage_step ex_externs ex_world)\<^sup>*\<^sup>* db' db''" using storage_step.complete [OF step] by blast
  from finished_for_ever [OF inv view _ this] view step show ?thesis by (intro exI [of _ db']) simp
qed

lemma cancel_contract_witness: "fst (cancel ex_job ex_db2) = Inr True"
  using cancel_contract [OF ex_db2_jobs_wf, of ex_job] by (auto simp: ex_pending)

end
