(* ===== verification/World_Runtime.thy ===== *)
theory World_Runtime
  imports Sql_Snapshot
begin

text \<open>
  The command runtime (\<open>crates/world-runtime/src\<close>): \<open>error.rs\<close>, the snapshots of \<open>snapshot.rs\<close>, the
  system contract of \<open>system.rs\<close>, and \<open>runtime.rs\<close>: registration of systems, start, the bounded queue,
  and the processing of one command.
\<close>

section \<open>Errors (error.rs)\<close>

datatype world_read_error = ReadStorage storage_error

datatype system_error = SystemRead world_read_error | SystemRejected string | SystemError string

datatype world_runtime_error =
    RuntimeWorld world_error
  | RuntimeStorage storage_error
  | InvalidQueueCapacity nat nat
  | DuplicateSystem schema_key
  | SystemUnavailable schema_key
  | QueueFull
  | RuntimeStopped
  | WorkerStopped
  | WorkerPanicked
  | SystemFailed schema_key system_error
  | SystemPanicked schema_key
  | AuthorityMutationDenied schema_key
  | WorkerSpawn

section \<open>Reads of a system (snapshot.rs)\<close>

definition read_entity :: "world_snapshot \<Rightarrow> entity_id \<Rightarrow> world_read_error + entity_record option" where
  "read_entity s i = map_err ReadStorage (snapshot_load_entity s i)"

definition read_relation :: "world_snapshot \<Rightarrow> relation_id \<Rightarrow> world_read_error + relation_record option" where
  "read_relation s i = map_err ReadStorage (snapshot_load_relation s i)"

definition read_facet ::
  "externs \<Rightarrow> world_snapshot \<Rightarrow> facet_target \<Rightarrow> schema_key \<Rightarrow> world_read_error + facet_record option" where
  "read_facet X s target k = map_err ReadStorage (snapshot_load_facet X s target k)"

definition read_schema_definition ::
  "externs \<Rightarrow> world_snapshot \<Rightarrow> schema_key \<Rightarrow> world_read_error + schema_definition option" where
  "read_schema_definition X s k = map_err ReadStorage (snapshot_load_schema X s k)"

definition read_can_control :: "world_snapshot \<Rightarrow> principal_id \<Rightarrow> entity_id \<Rightarrow> schema_key \<Rightarrow> world_read_error + bool" where
  "read_can_control s p e k = map_err ReadStorage (snapshot_can_control s p e k)"

section \<open>Systems and their registration (system.rs, runtime.rs)\<close>

text \<open>A system is code of an extension: its answer is a value, or a panic that the runtime catches.\<close>

datatype system_answer = Panicked | Answered "system_error + world_transaction"

record registered_system =
  evaluate_system :: "world_snapshot \<Rightarrow> world_command \<Rightarrow> system_answer"
  can_mutate_authority :: bool

type_synonym systems = "schema_key \<rightharpoonup> registered_system"

definition DEFAULT_COMMAND_QUEUE_CAPACITY :: nat where
  "DEFAULT_COMMAND_QUEUE_CAPACITY = 128"

definition MAX_COMMAND_QUEUE_CAPACITY :: nat where
  "MAX_COMMAND_QUEUE_CAPACITY = 4096"

definition register_system :: "schema_key \<Rightarrow> registered_system \<Rightarrow> systems \<Rightarrow> world_runtime_error + systems" where
  "register_system schema s systems =
     (if systems schema \<noteq> None then Inl (DuplicateSystem schema) else Inr (systems(schema \<mapsto> s)))"

definition validate_policy :: "nat \<Rightarrow> world_runtime_error + unit" where
  "validate_policy capacity =
     (if capacity = 0 \<or> capacity > MAX_COMMAND_QUEUE_CAPACITY
      then Inl (InvalidQueueCapacity capacity MAX_COMMAND_QUEUE_CAPACITY) else Inr ())"

text \<open>
  The checks of \<open>start\<close>, before it spawns the worker. The registered schemas are given in the order of
  the \<open>BTreeMap\<close>.
\<close>

definition start_runtime :: "externs \<Rightarrow> world_id \<Rightarrow> nat \<Rightarrow> schema_key list \<Rightarrow> world_db \<Rightarrow> world_runtime_error + unit" where
  "start_runtime X w capacity schemas db =
     and_then (validate_policy capacity) (\<lambda>_.
     and_then (map_err RuntimeStorage (load_session X w db)) (\<lambda>session.
     map_err RuntimeWorld (for_each (\<lambda>k. require_kind (session_schemas session) k Command) schemas)))"

section \<open>Processing one command\<close>

record world_command_outcome =
  outcome_receipt :: commit_receipt
  outcome_events :: "stored_event list"

definition authority_mutation :: "world_mutation \<Rightarrow> bool" where
  "authority_mutation m = (case m of GrantControl _ \<Rightarrow> True | RevokeControl _ \<Rightarrow> True | _ \<Rightarrow> False)"

definition reject_privileged_authority_output ::
  "schema_key \<Rightarrow> world_transaction \<Rightarrow> bool \<Rightarrow> world_runtime_error + unit" where
  "reject_privileged_authority_output schema t privileged =
     (if privileged then Inr ()
      else if list_ex authority_mutation (tx_mutations t) then Inl (AuthorityMutationDenied schema)
      else Inr ())"

definition outcome_of :: "externs \<Rightarrow> world_id \<Rightarrow> world_db \<Rightarrow> commit_receipt \<Rightarrow> world_runtime_error + world_command_outcome" where
  "outcome_of X w db receipt =
     and_then (map_err RuntimeStorage (events_at_position X db w (receipt_position receipt))) (\<lambda>events.
     Inr \<lparr>outcome_receipt = receipt, outcome_events = events\<rparr>)"

text \<open>
  The three stages of \<open>process_command\<close>. Each accesses the storage once, and other users of the
  storage may act between them, so each has a database of its own. The first looks for a receipt.
\<close>

definition lookup_stage ::
  "externs \<Rightarrow> world_id \<Rightarrow> world_command \<Rightarrow> world_db \<Rightarrow> world_runtime_error + world_command_outcome option" where
  "lookup_stage X w c db =
     and_then (map_err RuntimeStorage (committed_receipt X db c)) (\<lambda>found.
     case found of
       None \<Rightarrow> Inr None
     | Some receipt \<Rightarrow> map_ok Some (outcome_of X w db receipt))"

text \<open>The second takes the snapshot and evaluates the system on it.\<close>

definition evaluate_stage ::
  "externs \<Rightarrow> world_id \<Rightarrow> systems \<Rightarrow> world_command \<Rightarrow> world_db \<Rightarrow> world_runtime_error + world_transaction \<times> u64" where
  "evaluate_stage X w systems c db =
     and_then (ok_or (SystemUnavailable (command_schema c)) (systems (command_schema c))) (\<lambda>registered.
     and_then (map_err RuntimeStorage (snapshot_for_command X w c db)) (\<lambda>s.
     and_then (case evaluate_system registered s c of
                 Panicked \<Rightarrow> Inl (SystemPanicked (command_schema c))
               | Answered answer \<Rightarrow> map_err (SystemFailed (command_schema c)) answer) (\<lambda>output.
     and_then (reject_privileged_authority_output (command_schema c) output (can_mutate_authority registered)) (\<lambda>_.
     Inr (output, snap_position s)))))"

text \<open>The third commits the output and reads the events of the commit.\<close>

definition commit_stage ::
  "externs \<Rightarrow> world_id \<Rightarrow> world_command \<Rightarrow> world_transaction \<Rightarrow> u64 \<Rightarrow> clock \<Rightarrow> world_db \<Rightarrow>
   (world_runtime_error + world_command_outcome) \<times> world_db" where
  "commit_stage X w c output evaluated now db =
     (case commit X c output evaluated now db of
        (Inl e, db') \<Rightarrow> (Inl (RuntimeStorage e), db')
      | (Inr receipt, db') \<Rightarrow> (outcome_of X w db' receipt, db'))"

text \<open>All of it, with the databases the stages find.\<close>

definition process_command ::
  "externs \<Rightarrow> world_id \<Rightarrow> systems \<Rightarrow> clock \<Rightarrow> world_command \<Rightarrow> world_db \<Rightarrow> world_db \<Rightarrow> world_db \<Rightarrow>
   (world_runtime_error + world_command_outcome) \<times> world_db" where
  "process_command X w systems now c db1 db2 db3 =
     (case lookup_stage X w c db1 of
        Inl e \<Rightarrow> (Inl e, db3)
      | Inr (Some outcome) \<Rightarrow> (Inr outcome, db3)
      | Inr None \<Rightarrow>
          (case evaluate_stage X w systems c db2 of
             Inl e \<Rightarrow> (Inl e, db3)
           | Inr (output, evaluated) \<Rightarrow> commit_stage X w c output evaluated now db3))"

end
