(* ===== verification/World_Runtime_Facts.thy ===== *)
theory World_Runtime_Facts
  imports World_Runtime
begin

text \<open>
  What one run of \<open>process_command\<close> does: its events are those of the commit for ever, an answered
  command is answered the same way again, and an unprivileged system cannot widen authority.
\<close>

section \<open>The events of a commit do not change\<close>

lemma events_at_position_wf:
  assumes "db_wf X db"
  shows "events_at_position X db w position =
    and_then (position_to_sql position) (\<lambda>p.
      collect_result (\<lambda>e. decode_event X w (e, commit_at db p)) (rows_at ev_position ev_index p (db_events db)))"
proof -
  have "sort_key (\<lambda>ec. ev_index (fst ec)) (filter (\<lambda>ec. ev_position (fst ec) = p) (join_events db)) =
      map (\<lambda>e. (e, commit_at db p)) (rows_at ev_position ev_index p (db_events db))" for p
  proof -
    have "map (\<lambda>e. (e, commit_at db (ev_position e))) (rows_at ev_position ev_index p (db_events db)) =
        map (\<lambda>e. (e, commit_at db p)) (rows_at ev_position ev_index p (db_events db))"
      by (simp add: rows_at_def)
    then show ?thesis
      by (simp add: join_events_wf [OF assms] filter_map comp_def sort_key_under_map rows_at_def)
  qed
  then show ?thesis by (simp add: events_at_position_def collect_result_of_map)
qed

lemma events_kept:
  assumes wf: "db_wf X db" "db_wf X db'" and keep: "keeps_receipts db db'" and p: "commit_exists db (uint position)"
  shows "events_at_position X db' w position = events_at_position X db w position"
proof -
  obtain added where added: "db_commits db' = db_commits db @ added" using keep by (auto simp: keeps_receipts_def)
  have "lookup cm_position (db_commits db') (uint position) = Some (commit_at db (uint position))"
    unfolding added by (rule lookup_append_Some [OF commit_at_lookup(1) [OF wf(1) p]])
  then have at: "commit_at db' (uint position) = commit_at db (uint position)" by (simp add: commit_at_def)
  have rows: "rows_at ev_position ev_index (uint position) (db_events db') = rows_at ev_position ev_index (uint position) (db_events db)"
    using keep p by (simp add: keeps_receipts_def)
  show ?thesis
    unfolding events_at_position_wf [OF wf(1)] events_at_position_wf [OF wf(2)] position_to_sql_def i64_try_from_u64_def
    by (simp add: at rows)
qed

lemma receipt_position_exists:
  assumes wf: "db_wf X db" and found: "committed_receipt X db c = Inr (Some r)"
  shows "commit_exists db (uint (receipt_position r))" and "already r = r"
proof -
  obtain row where row: "lookup cm_command_id (db_commits db) (into_bytes (command_id c)) = Some row"
      "r = stored_receipt db (command_id c) row"
    using found unfolding committed_receipt_def load_existing_receipt_wf [OF wf] by (auto split: option.splits if_splits)
  then have "commit_exists db (cm_position row)" using lookup_Some_D [OF row(1)] by (auto simp: commit_exists_def)
  then show "commit_exists db (uint (receipt_position r))"
    using position_from_row(2) [OF wf] row(2) by (simp add: stored_receipt_def)
  show "already r = r" using row(2) by (simp add: already_def stored_receipt_def)
qed

lemma run_keeps_events:
  assumes "(storage_step X w)\<^sup>*\<^sup>* db db'" and "storage_inv X db" and "committed_receipt X db c = Inr (Some r)"
  shows "storage_inv X db' \<and> committed_receipt X db' c = Inr (Some r) \<and>
    events_at_position X db' v (receipt_position r) = events_at_position X db v (receipt_position r)"
  using assms
proof (induction rule: rtranclp_induct)
  case (step db1 db2)
  have inv: "storage_inv X db1" "committed_receipt X db1 c = Inr (Some r)"
      "events_at_position X db1 v (receipt_position r) = events_at_position X db v (receipt_position r)"
    using step.IH step.prems by blast+
  have inv2: "storage_inv X db2" using storage_step_inv [OF inv(1) step.hyps(2)] .
  have "events_at_position X db2 v (receipt_position r) = events_at_position X db1 v (receipt_position r)"
    by (rule events_kept [OF storage_inv_wf [OF inv(1)] storage_inv_wf [OF inv2] storage_step_receipts [OF inv(1) step.hyps(2)]
      receipt_position_exists(1) [OF storage_inv_wf [OF inv(1)] inv(2)]])
  moreover have "committed_receipt X db2 c = Inr (Some r)"
    using store.receipt_later [OF inv(1) step.hyps(2) inv(2)] .
  ultimately show ?case using inv2 inv(3) by simp
qed simp

section \<open>An answered command stays answered\<close>

text \<open>The outcome as every later run reports it.\<close>

definition replayed_outcome :: "world_command_outcome \<Rightarrow> world_command_outcome" where
  "replayed_outcome out = out\<lparr>outcome_receipt := already (outcome_receipt out)\<rparr>"

text \<open>The store has the receipt and the events of the outcome.\<close>

definition outcome_stored :: "externs \<Rightarrow> world_id \<Rightarrow> world_db \<Rightarrow> world_command \<Rightarrow> world_command_outcome \<Rightarrow> bool" where
  "outcome_stored X w db c out \<longleftrightarrow>
     committed_receipt X db c = Inr (Some (already (outcome_receipt out))) \<and>
     events_at_position X db w (receipt_position (outcome_receipt out)) = Inr (outcome_events out)"

lemma outcome_of_Inr:
  "outcome_of X w db r = Inr out \<longleftrightarrow>
     outcome_receipt out = r \<and> events_at_position X db w (receipt_position r) = Inr (outcome_events out)"
  by (auto simp: outcome_of_def result_simps)

lemma already_position [simp]: "receipt_position (already r) = receipt_position r"
  by (simp add: already_def)

lemma outcome_stored_run:
  assumes "(storage_step X w)\<^sup>*\<^sup>* db db'" and "storage_inv X db" and "outcome_stored X v db c out"
  shows "outcome_stored X v db' c out"
  using run_keeps_events [OF assms(1,2), of c "already (outcome_receipt out)" v] assms(3)
  by (simp add: outcome_stored_def)

lemma lookup_stored:
  assumes "outcome_stored X w db c out"
  shows "lookup_stage X w c db = Inr (Some (replayed_outcome out))"
  using assms by (simp add: lookup_stage_def outcome_of_def outcome_stored_def replayed_outcome_def)

lemma lookup_stage_stored:
  assumes "db_wf X db" and "lookup_stage X w c db = Inr (Some out)"
  shows "outcome_stored X w db c out"
proof -
  obtain r where r: "committed_receipt X db c = Inr (Some r)" "outcome_of X w db r = Inr out"
    using assms(2) by (auto simp: lookup_stage_def result_simps split: option.splits)
  then show ?thesis
    using receipt_position_exists(2) [OF assms(1) r(1)] unfolding outcome_of_Inr by (simp add: outcome_stored_def)
qed

lemma commit_stage_stored:
  assumes "db_wf X db" and "commit_stage X w c output evaluated now db = (Inr out, db')"
  shows "outcome_stored X w db' c out"
proof -
  obtain r where r: "commit X c output evaluated now db = (Inr r, db')" "outcome_of X w db' r = Inr out"
    using assms(2) by (auto simp: commit_stage_def split: prod.splits sum.splits)
  then show ?thesis
    using commit_receipt_answers [OF r(1) assms(1)] unfolding outcome_of_Inr
    by (simp add: outcome_stored_def already_def)
qed

text \<open>A commit stage is a step of the storage.\<close>

lemma commit_stage_step:
  assumes "admissible_commit X (output, evaluated, now)" and "commit_stage X w c output evaluated now db = (res, db')"
  shows "storage_step X v db db'"
proof -
  obtain r where "commit X c output evaluated now db = (r, db')"
    using assms(2) by (auto simp: commit_stage_def split: prod.splits sum.splits)
  then show ?thesis using assms(1) by (auto simp: admissible_commit_def intro: storage_step.commit)
qed

lemma process_cases [consumes 1, case_names failed found evaluated]:
  assumes "process_command X w systems now c db1 db2 db3 = (res, db')"
  obtains e where "res = Inl e" "db' = db3"
  | out where "lookup_stage X w c db1 = Inr (Some out)" "res = Inr out" "db' = db3"
  | t evaluated where "evaluate_stage X w systems c db2 = Inr (t, evaluated)"
      "commit_stage X w c t evaluated now db3 = (res, db')"
  using assms by (auto simp: process_command_def split: sum.splits option.splits)

lemma process_stored:
  assumes inv: "storage_inv X db1" and runs: "(storage_step X v)\<^sup>*\<^sup>* db1 db2" "(storage_step X v)\<^sup>*\<^sup>* db2 db3"
    and adm: "\<forall>output evaluated. evaluate_stage X w systems c db2 = Inr (output, evaluated) \<longrightarrow>
      admissible_commit X (output, evaluated, now)"
    and run: "process_command X w systems now c db1 db2 db3 = (res, db')"
  shows "storage_inv X db' \<and> (\<forall>out. res = Inr out \<longrightarrow> outcome_stored X w db' c out)"
proof -
  have run13: "(storage_step X v)\<^sup>*\<^sup>* db1 db3" using runs by (rule rtranclp_trans)
  have inv3: "storage_inv X db3" using outbox.inv_run [OF run13 inv] .
  from run show ?thesis
  proof (cases rule: process_cases)
    case (found out)
    have "outcome_stored X w db3 c out"
      using outcome_stored_run [OF run13 inv] lookup_stage_stored [OF storage_inv_wf [OF inv] found(1)] by blast
    then show ?thesis using found inv3 by simp
  next
    case (evaluated t position)
    have "storage_step X v db3 db'" using commit_stage_step adm evaluated by blast
    then show ?thesis
      using storage_step_inv [OF inv3] commit_stage_stored [OF storage_inv_wf [OF inv3]] evaluated(2) by blast
  qed (use inv3 in simp)
qed

section \<open>Authority\<close>

lemma commit_room:
  assumes wf: "db_wf X db" and chk: "check_commit X c t evaluated db = Inr w"
    and wr: "write_commit X c t w now db = Inr (r, db')"
  shows "uint w + 1 < 2 ^ 63"
proof -
  obtain w' p where w': "checked_add_u64 w 1 = Some w'" "position_to_sql w' = Inr p"
    using write_commit_stages [OF wr] by metis
  obtain n where n: "metadata_at n db" using wf by (auto simp: db_wf_def)
  have cur: "uint w = int n" using current_position_Inr [OF n] check_commit_Inr_position [OF chk] by blast
  show ?thesis using next_position [OF w' cur] cur by simp
qed

text \<open>What a new commit did to the abstract world.\<close>

lemma commit_written_abs:
  assumes wf: "db_wf X db" and bd: "commit_bounded t now" and run: "commit X c t evaluated now db = (Inr r, db')"
    and new: "receipt_disposition r = Committed"
  shows "abs_run X (tx_mutations t) (abs_db db) = Inr (abs_db db')"
proof -
  obtain w where w: "committed_receipt X db c = Inr None" "check_commit X c t evaluated db = Inr w"
      "write_commit X c t w now db = Inr (r, db')"
    using wf run new by (rule commit_written)
  show ?thesis
    using commit_new_command [OF wf w(1,2) commit_room [OF wf w(2,3)] bd] run by (auto split: sum.splits)
qed

lemma abs_apply_grants:
  "abs_apply X m w = Inr w' \<Longrightarrow> \<not> authority_mutation m \<Longrightarrow> aw_grants w' \<subseteq>\<^sub>m aw_grants w"
  by (auto simp: abs_apply_def authority_mutation_def abs_delete_entity_def abs_delete_relations_def map_le_def
      keep_def split: world_mutation.splits if_splits option.splits)

lemma abs_run_grants:
  "abs_run X ms w = Inr w' \<Longrightarrow> \<forall>m \<in> set ms. \<not> authority_mutation m \<Longrightarrow> aw_grants w' \<subseteq>\<^sub>m aw_grants w"
proof (induction ms arbitrary: w)
  case (Cons m ms)
  then obtain w1 where w1: "abs_apply X m w = Inr w1" "abs_run X ms w1 = Inr w'" by (auto simp: result_simps)
  then have "aw_grants w1 \<subseteq>\<^sub>m aw_grants w" "aw_grants w' \<subseteq>\<^sub>m aw_grants w1"
    using Cons abs_apply_grants by auto
  then show ?case by (rule map_le_trans [rotated])
qed simp

lemma evaluate_stage_unprivileged:
  assumes "evaluate_stage X w systems c db = Inr (t, evaluated)"
    and "\<forall>s. systems (command_schema c) = Some s \<longrightarrow> \<not> can_mutate_authority s"
  shows "\<forall>m \<in> set (tx_mutations t). \<not> authority_mutation m"
  using assms by (auto simp: evaluate_stage_def reject_privileged_authority_output_def result_simps list_ex_iff
      split: if_splits)

lemma commit_stage_grants:
  assumes wf: "db_wf X db" and bd: "commit_bounded t now" and ord: "\<forall>m \<in> set (tx_mutations t). \<not> authority_mutation m"
    and run: "commit_stage X w c t evaluated now db = (res, db')"
  shows "aw_grants (abs_db db') \<subseteq>\<^sub>m aw_grants (abs_db db)"
proof -
  obtain r where r: "commit X c t evaluated now db = (r, db')"
    using run by (auto simp: commit_stage_def split: prod.splits sum.splits)
  show ?thesis
  proof (cases "\<exists>receipt. r = Inr receipt \<and> receipt_disposition receipt = Committed")
    case True
    then show ?thesis using commit_written_abs [OF wf bd] abs_run_grants [OF _ ord] r by blast
  next
    case False
    have "db' = db"
      using r
    proof (cases rule: commit_cases)
      case (written receipt current)
      then have "receipt_disposition receipt = Committed" by (auto elim: write_commit_rows simp: new_receipt_def)
      then show ?thesis using written False by simp
    qed
    then show ?thesis by (simp add: map_le_def)
  qed
qed

end
