(* ===== verification/World_Worker.thy ===== *)
theory World_Worker
  imports World_Runtime_Facts
begin

text \<open>
  The worker of one world (\<open>submit\<close>, \<open>shutdown\<close> and \<open>worker_loop\<close> of
  \<open>crates/world-runtime/src/runtime.rs\<close>): a bounded queue with many senders and one receiver. The
  model records the commands accepted and the answers sent, so that what was promised to a client can
  be stated.
\<close>

section \<open>The runtime as a state machine\<close>

datatype worker_phase =
    Waiting
  | Looking nat world_command
  | Evaluating nat world_command
  | Committing nat world_command world_transaction u64
  | Ended

type_synonym answer = "nat \<times> world_command \<times> (world_runtime_error + world_command_outcome)"

record runtime_state =
  rt_accepting :: bool
  rt_submitted :: "world_command list"
  rt_queue :: "(nat \<times> world_command) list"
  rt_worker :: worker_phase
  rt_answers :: "answer list"
  rt_db :: world_db

definition started :: "world_db \<Rightarrow> runtime_state" where
  "started db = \<lparr>rt_accepting = True, rt_submitted = [], rt_queue = [], rt_worker = Waiting, rt_answers = [], rt_db = db\<rparr>"

text \<open>\<open>try_send\<close> on a \<open>sync_channel\<close>; the ticket of a command is its number.\<close>

definition submit :: "nat \<Rightarrow> world_command \<Rightarrow> runtime_state \<Rightarrow> (world_runtime_error + nat) \<times> runtime_state" where
  "submit capacity c rt =
     (if \<not> rt_accepting rt \<or> rt_worker rt = Ended then (Inl RuntimeStopped, rt)
      else if length (rt_queue rt) \<ge> capacity then (Inl QueueFull, rt)
      else (Inr (length (rt_submitted rt)),
            rt\<lparr>rt_submitted := rt_submitted rt @ [c],
               rt_queue := rt_queue rt @ [(length (rt_submitted rt), c)]\<rparr>))"

text \<open>\<open>shutdown\<close> drops the sender; it then waits for the worker to end.\<close>

definition stop_worker :: "runtime_state \<Rightarrow> runtime_state" where
  "stop_worker rt = rt\<lparr>rt_accepting := False\<rparr>"

definition send_answer :: "nat \<Rightarrow> world_command \<Rightarrow> world_runtime_error + world_command_outcome \<Rightarrow> runtime_state \<Rightarrow> runtime_state" where
  "send_answer i c res rt = rt\<lparr>rt_worker := Waiting, rt_answers := rt_answers rt @ [(i, c, res)]\<rparr>"

text \<open>
  One step of \<open>worker_loop\<close>. \<open>None\<close> when it cannot move: it is blocked in \<open>recv\<close> on an empty queue, or
  has ended, which it does when the queue is empty and the sender is gone.
\<close>

definition work :: "externs \<Rightarrow> world_id \<Rightarrow> systems \<Rightarrow> clock \<Rightarrow> runtime_state \<Rightarrow> runtime_state option" where
  "work X w systems now rt =
     (case rt_worker rt of
        Waiting \<Rightarrow>
          (case rt_queue rt of
             (i, c) # q \<Rightarrow> Some (rt\<lparr>rt_queue := q, rt_worker := Looking i c\<rparr>)
           | [] \<Rightarrow> if rt_accepting rt then None else Some (rt\<lparr>rt_worker := Ended\<rparr>))
      | Looking i c \<Rightarrow>
          Some (case lookup_stage X w c (rt_db rt) of
                  Inl e \<Rightarrow> send_answer i c (Inl e) rt
                | Inr (Some outcome) \<Rightarrow> send_answer i c (Inr outcome) rt
                | Inr None \<Rightarrow> rt\<lparr>rt_worker := Evaluating i c\<rparr>)
      | Evaluating i c \<Rightarrow>
          Some (case evaluate_stage X w systems c (rt_db rt) of
                  Inl e \<Rightarrow> send_answer i c (Inl e) rt
                | Inr (t, evaluated) \<Rightarrow> rt\<lparr>rt_worker := Committing i c t evaluated\<rparr>)
      | Committing i c t evaluated \<Rightarrow>
          Some (let (res, db') = commit_stage X w c t evaluated now (rt_db rt)
                in send_answer i c res (rt\<lparr>rt_db := db'\<rparr>))
      | Ended \<Rightarrow> None)"

text \<open>Clients, the worker, and the other users of the storage, in any order.\<close>

inductive runtime_step :: "externs \<Rightarrow> world_id \<Rightarrow> systems \<Rightarrow> nat \<Rightarrow> runtime_state \<Rightarrow> runtime_state \<Rightarrow> bool"
  for X w systems capacity where
  submit: "submit capacity c rt = (res, rt') \<Longrightarrow> runtime_step X w systems capacity rt rt'"
| stop: "runtime_step X w systems capacity rt (stop_worker rt)"
| work: "clock_bounded now \<Longrightarrow> work X w systems now rt = Some rt' \<Longrightarrow> runtime_step X w systems capacity rt rt'"
| storage: "storage_step X w (rt_db rt) db' \<Longrightarrow> runtime_step X w systems capacity rt (rt\<lparr>rt_db := db'\<rparr>)"

text \<open>What is assumed of the systems: their outputs fit the bounds of a commit and survive storage.\<close>

definition systems_admissible :: "externs \<Rightarrow> systems \<Rightarrow> bool" where
  "systems_admissible X systems \<longleftrightarrow>
     (\<forall>k s snap c t evaluated now. systems k = Some s \<longrightarrow> evaluate_system s snap c = Answered (Inr t) \<longrightarrow>
        clock_bounded now \<longrightarrow> admissible_commit X (t, evaluated, now))"

section \<open>The invariant\<close>

fun in_progress :: "worker_phase \<Rightarrow> (nat \<times> world_command) list" where
  "in_progress Waiting = []"
| "in_progress (Looking i c) = [(i, c)]"
| "in_progress (Evaluating i c) = [(i, c)]"
| "in_progress (Committing i c t evaluated) = [(i, c)]"
| "in_progress Ended = []"

definition answered :: "runtime_state \<Rightarrow> (nat \<times> world_command) list" where
  "answered rt = map (\<lambda>(i, c, _). (i, c)) (rt_answers rt)"

text \<open>Nothing is lost, repeated or reordered: the answers, the command at work and the queue are the commands accepted.\<close>

definition tickets_in_order :: "runtime_state \<Rightarrow> bool" where
  "tickets_in_order rt \<longleftrightarrow> answered rt @ in_progress (rt_worker rt) @ rt_queue rt = enumerate 0 (rt_submitted rt)"

definition phase_ok :: "externs \<Rightarrow> systems \<Rightarrow> runtime_state \<Rightarrow> bool" where
  "phase_ok X systems rt \<longleftrightarrow>
     (case rt_worker rt of
        Committing i c t evaluated \<Rightarrow>
          (\<forall>now. clock_bounded now \<longrightarrow> admissible_commit X (t, evaluated, now)) \<and>
          ((\<forall>s. systems (command_schema c) = Some s \<longrightarrow> \<not> can_mutate_authority s) \<longrightarrow>
             (\<forall>m \<in> set (tx_mutations t). \<not> authority_mutation m))
      | Ended \<Rightarrow> \<not> rt_accepting rt \<and> rt_queue rt = []
      | _ \<Rightarrow> True)"

definition runtime_inv :: "externs \<Rightarrow> world_id \<Rightarrow> systems \<Rightarrow> nat \<Rightarrow> runtime_state \<Rightarrow> bool" where
  "runtime_inv X w systems capacity rt \<longleftrightarrow>
     storage_inv X (rt_db rt) \<and> length (rt_queue rt) \<le> capacity \<and> tickets_in_order rt \<and> phase_ok X systems rt \<and>
     (\<forall>i c out. (i, c, Inr out) \<in> set (rt_answers rt) \<longrightarrow> outcome_stored X w (rt_db rt) c out)"

lemma answer_Inr:
  "(case a of Panicked \<Rightarrow> Inl e | Answered r \<Rightarrow> map_err f r) = Inr t \<longleftrightarrow> a = Answered (Inr t)"
  by (auto simp: result_simps split: system_answer.splits)

lemma evaluate_stage_Inr:
  assumes "evaluate_stage X w systems c db = Inr (t, evaluated)"
  obtains s snap where "systems (command_schema c) = Some s" "snapshot_for_command X w c db = Inr snap"
    "evaluate_system s snap c = Answered (Inr t)" "evaluated = snap_position snap"
  using assms by (auto simp: evaluate_stage_def result_simps answer_Inr)

lemma answered_simps [simp]:
  "answered (send_answer i c res rt) = answered rt @ [(i, c)]"
  "answered (rt\<lparr>rt_queue := q\<rparr>) = answered rt" "answered (rt\<lparr>rt_worker := p\<rparr>) = answered rt"
  "answered (rt\<lparr>rt_submitted := cs\<rparr>) = answered rt" "answered (rt\<lparr>rt_db := db\<rparr>) = answered rt"
  "answered (rt\<lparr>rt_accepting := b\<rparr>) = answered rt"
  by (simp_all add: answered_def send_answer_def)

lemma send_answer_simps [simp]:
  "rt_worker (send_answer i c res rt) = Waiting" "rt_queue (send_answer i c res rt) = rt_queue rt"
  "rt_submitted (send_answer i c res rt) = rt_submitted rt" "rt_db (send_answer i c res rt) = rt_db rt"
  "rt_accepting (send_answer i c res rt) = rt_accepting rt"
  "rt_answers (send_answer i c res rt) = rt_answers rt @ [(i, c, res)]"
  by (simp_all add: send_answer_def)

lemma enumerate_snoc: "enumerate 0 (cs @ [c]) = enumerate 0 cs @ [(length cs, c)]"
  by (simp add: enumerate_append_eq)

lemma phase_ok_db [simp]: "phase_ok X systems (rt\<lparr>rt_db := db\<rparr>) = phase_ok X systems rt"
  by (simp add: phase_ok_def split: worker_phase.split)

text \<open>Changing the storage keeps what was promised.\<close>

lemma promises_kept:
  assumes "storage_step X w db db'" and "storage_inv X db"
    and "\<forall>i c out. (i, c, Inr out) \<in> set answers \<longrightarrow> outcome_stored X w db c out"
  shows "\<forall>i c out. (i, c, Inr out) \<in> set answers \<longrightarrow> outcome_stored X w db' c out"
  using outcome_stored_run [OF r_into_rtranclp [of "storage_step X w", OF assms(1)] assms(2)] assms(3) by blast

lemma submit_cases:
  assumes "submit capacity c rt = (res, rt')"
  obtains "rt' = rt"
  | "rt_accepting rt" "rt_worker rt \<noteq> Ended" "length (rt_queue rt) < capacity"
    "rt' = rt\<lparr>rt_submitted := rt_submitted rt @ [c], rt_queue := rt_queue rt @ [(length (rt_submitted rt), c)]\<rparr>"
  using assms unfolding submit_def by (simp split: if_splits)

lemma submit_inv:
  assumes "runtime_inv X w systems capacity rt" and "submit capacity c rt = (res, rt')"
  shows "runtime_inv X w systems capacity rt'"
  using assms(2)
proof (cases rule: submit_cases)
  case 2
  then have "phase_ok X systems rt' = phase_ok X systems rt"
    by (cases "rt_worker rt") (simp_all add: phase_ok_def)
  then show ?thesis using assms(1) 2 by (simp add: runtime_inv_def tickets_in_order_def enumerate_snoc)
qed (use assms in simp)

lemma stop_inv: "runtime_inv X w systems capacity rt \<Longrightarrow> runtime_inv X w systems capacity (stop_worker rt)"
  by (auto simp: stop_worker_def runtime_inv_def tickets_in_order_def phase_ok_def split: worker_phase.splits)

lemma storage_inv_step:
  "runtime_inv X w systems capacity rt \<Longrightarrow> storage_step X w (rt_db rt) db' \<Longrightarrow> runtime_inv X w systems capacity (rt\<lparr>rt_db := db'\<rparr>)"
  using promises_kept [of X w "rt_db rt" db' "rt_answers rt"] storage_step_inv [of X "rt_db rt" w db']
  by (simp add: runtime_inv_def tickets_in_order_def)

text \<open>The worker, phase by phase.\<close>

lemma answer_inv:
  assumes inv: "runtime_inv X w systems capacity rt" and now: "in_progress (rt_worker rt) = [(i, c)]"
    and res: "\<forall>out. res = Inr out \<longrightarrow> outcome_stored X w (rt_db rt) c out"
  shows "runtime_inv X w systems capacity (send_answer i c res rt)"
  using assms by (auto simp: runtime_inv_def tickets_in_order_def phase_ok_def)

lemma evaluate_phase_ok:
  assumes adm: "systems_admissible X systems" and ev: "evaluate_stage X w systems c db = Inr (t, evaluated)"
  shows "phase_ok X systems (rt\<lparr>rt_worker := Committing i c t evaluated\<rparr>)"
proof -
  obtain s snap where s: "systems (command_schema c) = Some s" "evaluate_system s snap c = Answered (Inr t)"
    using ev by (rule evaluate_stage_Inr)
  then have "\<forall>now. clock_bounded now \<longrightarrow> admissible_commit X (t, evaluated, now)"
    using adm unfolding systems_admissible_def by blast
  then show ?thesis using evaluate_stage_unprivileged [OF ev] by (simp add: phase_ok_def)
qed

lemma work_inv:
  assumes adm: "systems_admissible X systems" and inv: "runtime_inv X w systems capacity rt"
    and now: "clock_bounded now" and run: "work X w systems now rt = Some rt'"
  shows "runtime_inv X w systems capacity rt'"
proof (cases "rt_worker rt")
  case Waiting
  then show ?thesis
    using inv run by (auto simp: work_def runtime_inv_def tickets_in_order_def phase_ok_def split: list.splits if_splits)
next
  case (Looking i c)
  have db: "db_wf X (rt_db rt)" using inv by (simp add: runtime_inv_def storage_inv_def)
  show ?thesis
  proof (cases "lookup_stage X w c (rt_db rt)")
    case (Inl e)
    then have "rt' = send_answer i c (Inl e) rt" using run Looking by (simp add: work_def)
    then show ?thesis using answer_inv [OF inv] Looking by simp
  next
    case (Inr found)
    show ?thesis
    proof (cases found)
      case None
      then show ?thesis
        using inv run Inr Looking by (auto simp: work_def runtime_inv_def tickets_in_order_def phase_ok_def)
    next
      case (Some out)
      then have "rt' = send_answer i c (Inr out) rt" using run Inr Looking by (simp add: work_def)
      then show ?thesis using answer_inv [OF inv] lookup_stage_stored [OF db] Looking Inr Some by simp
    qed
  qed
next
  case (Evaluating i c)
  show ?thesis
  proof (cases "evaluate_stage X w systems c (rt_db rt)")
    case (Inl e)
    then have "rt' = send_answer i c (Inl e) rt" using run Evaluating by (simp add: work_def)
    then show ?thesis using answer_inv [OF inv] Evaluating by simp
  next
    case (Inr te)
    then obtain t e where te: "evaluate_stage X w systems c (rt_db rt) = Inr (t, e)" "rt' = rt\<lparr>rt_worker := Committing i c t e\<rparr>"
      using run Evaluating by (cases te) (simp add: work_def)
    then show ?thesis
      using inv evaluate_phase_ok [OF adm te(1)] Evaluating by (simp add: runtime_inv_def tickets_in_order_def)
  qed
next
  case (Committing i c t evaluated)
  obtain res db' where cs: "commit_stage X w c t evaluated now (rt_db rt) = (res, db')" by fastforce
  have "admissible_commit X (t, evaluated, now)" using inv now Committing by (simp add: runtime_inv_def phase_ok_def)
  then have step: "storage_step X w (rt_db rt) db'" using commit_stage_step [OF _ cs] by blast
  have inv': "runtime_inv X w systems capacity (rt\<lparr>rt_db := db'\<rparr>)" by (rule storage_inv_step [OF inv step])
  have "\<forall>out. res = Inr out \<longrightarrow> outcome_stored X w db' c out"
    using commit_stage_stored [of X "rt_db rt"] cs inv by (auto simp: runtime_inv_def storage_inv_def)
  then have "runtime_inv X w systems capacity (send_answer i c res (rt\<lparr>rt_db := db'\<rparr>))"
    using answer_inv [OF inv'] Committing by simp
  moreover have "rt' = send_answer i c res (rt\<lparr>rt_db := db'\<rparr>)"
    using run Committing cs by (simp add: work_def send_answer_def)
  ultimately show ?thesis by simp
qed (use run in \<open>simp add: work_def\<close>)

lemma runtime_step_inv:
  assumes "systems_admissible X systems" and "runtime_step X w systems capacity rt rt'"
    and "runtime_inv X w systems capacity rt"
  shows "runtime_inv X w systems capacity rt'"
  using assms(2,3) by cases (auto intro: submit_inv stop_inv work_inv [OF assms(1)] storage_inv_step)

lemma runtime_run_inv:
  assumes "systems_admissible X systems" and "(runtime_step X w systems capacity)\<^sup>*\<^sup>* rt rt'"
    and "runtime_inv X w systems capacity rt"
  shows "runtime_inv X w systems capacity rt'"
  using assms(2,3) by (induction rule: rtranclp_induct) (auto intro: runtime_step_inv [OF assms(1)])

lemma started_inv: "storage_inv X db \<Longrightarrow> runtime_inv X w systems capacity (started db)"
  by (simp add: started_def runtime_inv_def tickets_in_order_def answered_def phase_ok_def)

end
