(* ===== verification/Runtime_Properties.thy ===== *)
theory Runtime_Properties
  imports World_Worker
begin

text \<open>What the command runtime promises its clients.\<close>

section \<open>A worker left alone\<close>

text \<open>One clock reading for each step; a worker that cannot move stays where it is.\<close>

fun run_worker :: "externs \<Rightarrow> world_id \<Rightarrow> systems \<Rightarrow> clock list \<Rightarrow> runtime_state \<Rightarrow> runtime_state" where
  "run_worker X w systems [] rt = rt"
| "run_worker X w systems (now # clocks) rt =
     (case work X w systems now rt of None \<Rightarrow> rt | Some rt' \<Rightarrow> run_worker X w systems clocks rt')"

text \<open>How many steps are left: four for each command in the queue, and one to end.\<close>

fun phase_rank :: "worker_phase \<Rightarrow> nat" where
  "phase_rank Waiting = 1"
| "phase_rank (Looking i c) = 4"
| "phase_rank (Evaluating i c) = 3"
| "phase_rank (Committing i c t evaluated) = 2"
| "phase_rank Ended = 0"

definition remaining :: "runtime_state \<Rightarrow> nat" where
  "remaining rt = 4 * length (rt_queue rt) + phase_rank (rt_worker rt)"

text \<open>The steps of the worker, one rule for each.\<close>

lemma work_cases [consumes 1, case_names take finish answer evaluate commit]:
  assumes "work X w systems now rt = Some rt'"
  obtains i c q where "rt_worker rt = Waiting" "rt_queue rt = (i, c) # q"
      "rt' = rt\<lparr>rt_queue := q, rt_worker := Looking i c\<rparr>"
  | "rt_worker rt = Waiting" "rt_queue rt = []" "\<not> rt_accepting rt" "rt' = rt\<lparr>rt_worker := Ended\<rparr>"
  | i c res db where "in_progress (rt_worker rt) = [(i, c)]" "rt' = send_answer i c res (rt\<lparr>rt_db := db\<rparr>)"
  | i c where "rt_worker rt = Looking i c" "rt' = rt\<lparr>rt_worker := Evaluating i c\<rparr>"
  | i c t e where "rt_worker rt = Evaluating i c" "rt' = rt\<lparr>rt_worker := Committing i c t e\<rparr>"
proof (cases "rt_worker rt")
  case Waiting
  then show ?thesis using assms that(1,2) by (auto simp: work_def split: list.splits if_splits)
next
  case (Looking i c)
  have same: "rt\<lparr>rt_db := rt_db rt\<rparr> = rt" by simp
  show ?thesis
    using assms Looking that(3) [of i c _ "rt_db rt", unfolded same] that(4) [of i c]
    by (auto simp: work_def split: sum.splits option.splits)
next
  case (Evaluating i c)
  have same: "rt\<lparr>rt_db := rt_db rt\<rparr> = rt" by simp
  show ?thesis
    using assms Evaluating that(3) [of i c _ "rt_db rt", unfolded same] that(5) [of i c]
    by (auto simp: work_def split: sum.splits prod.splits)
next
  case (Committing i c t e)
  then show ?thesis using assms that(3) [of i c] by (auto simp: work_def split: prod.splits)
next
  case Ended
  then show ?thesis using assms by (simp add: work_def)
qed

lemma work_progress:
  assumes "work X w systems now rt = Some rt'"
  shows "remaining rt' < remaining rt" and "rt_accepting rt' = rt_accepting rt" and "rt_submitted rt' = rt_submitted rt"
proof -
  have "remaining rt' < remaining rt \<and> rt_accepting rt' = rt_accepting rt \<and> rt_submitted rt' = rt_submitted rt"
    using assms
  proof (cases rule: work_cases)
    case (answer i c res db)
    then show ?thesis by (cases "rt_worker rt") (simp_all add: remaining_def)
  qed (simp_all add: remaining_def)
  then show "remaining rt' < remaining rt" and "rt_accepting rt' = rt_accepting rt" and "rt_submitted rt' = rt_submitted rt"
    by simp_all
qed

lemma work_None: "work X w systems now rt = None \<Longrightarrow> \<not> rt_accepting rt \<Longrightarrow> rt_worker rt = Ended"
  by (cases "rt_worker rt") (auto simp: work_def split: list.splits)

lemma run_worker_ends:
  assumes "remaining rt \<le> length clocks" and "\<not> rt_accepting rt"
  shows "rt_worker (run_worker X w systems clocks rt) = Ended"
  using assms
proof (induction clocks arbitrary: rt)
  case Nil
  then show ?case by (cases "rt_worker rt") (simp_all add: remaining_def)
next
  case (Cons now clocks)
  show ?case
  proof (cases "work X w systems now rt")
    case None
    then show ?thesis using work_None [OF None] Cons by simp
  next
    case (Some rt')
    then have "remaining rt' \<le> length clocks" "\<not> rt_accepting rt'" using work_progress [OF Some] Cons by simp_all
    then show ?thesis using Cons Some by simp
  qed
qed

lemma run_worker_inv:
  assumes "systems_admissible X systems" and "runtime_inv X w systems capacity rt" and "\<forall>now \<in> set clocks. clock_bounded now"
  shows "runtime_inv X w systems capacity (run_worker X w systems clocks rt)
    \<and> rt_submitted (run_worker X w systems clocks rt) = rt_submitted rt"
  using assms(2,3)
proof (induction clocks arbitrary: rt)
  case (Cons now clocks)
  show ?case
  proof (cases "work X w systems now rt")
    case None
    then show ?thesis using Cons by simp
  next
    case (Some rt')
    then have "runtime_inv X w systems capacity rt'" "rt_submitted rt' = rt_submitted rt"
      using work_inv [OF assms(1) Cons.prems(1) _ Some] work_progress [OF Some] Cons.prems(2) by simp_all
    then show ?thesis using Cons Some by simp
  qed
qed simp

section \<open>Runs from the start\<close>

lemma started_run_inv:
  assumes "storage_inv X db" and "systems_admissible X systems"
    and "(runtime_step X w systems capacity)\<^sup>*\<^sup>* (started db) rt"
  shows "runtime_inv X w systems capacity rt"
  by (rule runtime_run_inv [OF assms(2,3) started_inv [OF assms(1)]])

lemma runtime_step_answers:
  assumes "runtime_step X w systems capacity rt rt'"
  shows "set (rt_answers rt) \<subseteq> set (rt_answers rt')"
  using assms
proof cases
  case (submit c res)
  from submit show ?thesis by (cases rule: submit_cases) simp_all
next
  case (work now)
  from work(2) show ?thesis by (cases rule: work_cases) auto
qed (simp_all add: stop_worker_def)

lemma runtime_run_answers:
  "(runtime_step X w systems capacity)\<^sup>*\<^sup>* rt rt' \<Longrightarrow> set (rt_answers rt) \<subseteq> set (rt_answers rt')"
  by (induction rule: rtranclp_induct) (use runtime_step_answers in blast)+

text \<open>
  C8. An answer is final. Once the runtime has answered a command with an outcome, processing the same
  command at any later point, by the same or another process, with whatever systems and clock, gives the same
  receipt, marked \<open>AlreadyCommitted\<close>, with the same events, and changes nothing.
\<close>

lemma answers_final:
  assumes start: "storage_inv X db" and adm: "systems_admissible X systems"
    and run: "(runtime_step X w systems capacity)\<^sup>*\<^sup>* (started db) rt"
    and answer: "(i, c, Inr out) \<in> set (rt_answers rt)"
    and later: "(runtime_step X w systems capacity)\<^sup>*\<^sup>* rt rt'"
  shows "process_command X w systems' now c (rt_db rt') db2 db3 = (Inr (replayed_outcome out), db3)"
proof -
  have "runtime_inv X w systems capacity rt'"
    using started_run_inv [OF start adm] run later by (meson rtranclp_trans)
  moreover have "(i, c, Inr out) \<in> set (rt_answers rt')" using runtime_run_answers [OF later] answer by blast
  ultimately have "outcome_stored X w (rt_db rt') c out" by (auto simp: runtime_inv_def)
  then show ?thesis by (simp add: process_command_def lookup_stored)
qed

text \<open>
  Nothing is lost, repeated or reordered: at every moment the answers sent, the command at work and the
  queue are, in this order, the commands accepted, each with its ticket; and the queue is within its capacity.
\<close>

lemma tickets_served_in_order:
  assumes "storage_inv X db" and "systems_admissible X systems"
    and "(runtime_step X w systems capacity)\<^sup>*\<^sup>* (started db) rt"
  shows "answered rt @ in_progress (rt_worker rt) @ rt_queue rt = enumerate 0 (rt_submitted rt)
    \<and> length (rt_queue rt) \<le> capacity"
  using started_run_inv [OF assms] by (simp add: runtime_inv_def tickets_in_order_def)

text \<open>
  C35. Shutdown drains the queue. After \<open>shutdown\<close> the worker ends within four steps for each command it still
  has and one to notice, and by then every command ever accepted has been answered, in order.
\<close>

lemma shutdown_drains:
  assumes "storage_inv X db" and "systems_admissible X systems"
    and "(runtime_step X w systems capacity)\<^sup>*\<^sup>* (started db) rt"
    and "\<forall>now \<in> set clocks. clock_bounded now" and "4 * (length (rt_queue rt) + 1) \<le> length clocks"
  shows "let rt' = run_worker X w systems clocks (stop_worker rt) in
    rt_worker rt' = Ended \<and> answered rt' = enumerate 0 (rt_submitted rt) \<and> rt_queue rt' = []"
proof -
  let ?rt = "run_worker X w systems clocks (stop_worker rt)"
  have "phase_rank (rt_worker rt) \<le> 4" by (cases "rt_worker rt") simp_all
  then have "remaining (stop_worker rt) \<le> length clocks" using assms(5) by (simp add: remaining_def stop_worker_def)
  then have ended: "rt_worker ?rt = Ended" by (rule run_worker_ends) (simp add: stop_worker_def)
  have "runtime_inv X w systems capacity ?rt \<and> rt_submitted ?rt = rt_submitted rt"
    using run_worker_inv [OF assms(2) stop_inv [OF started_run_inv [OF assms(1-3)]] assms(4)]
    by (simp add: stop_worker_def)
  then show ?thesis using ended by (auto simp: runtime_inv_def tickets_in_order_def phase_ok_def)
qed

section \<open>The worker and \<open>process_command\<close>\<close>

lemma send_answer_worker [simp]:
  "send_answer i c res (rt\<lparr>rt_worker := p\<rparr>) = send_answer i c res rt"
  "send_answer i c res (rt\<lparr>rt_worker := p, rt_db := db\<rparr>) = send_answer i c res (rt\<lparr>rt_db := db\<rparr>)"
  by (simp_all add: send_answer_def)

lemma send_answer_stays: "send_answer i c res rt = send_answer i c res (rt\<lparr>rt_db := rt_db rt\<rparr>)"
  by simp

text \<open>
  C33. Undisturbed, the steps of the worker are \<open>process_command\<close>: within three steps it sends exactly the
  result of \<open>process_command\<close> and leaves exactly its database.
\<close>

lemma worker_runs_process_command:
  assumes "rt_worker rt = Looking i c"
  shows "\<exists>n \<le> 3. run_worker X w systems (replicate n now) rt =
    (let (res, db) = process_command X w systems now c (rt_db rt) (rt_db rt) (rt_db rt)
     in send_answer i c res (rt\<lparr>rt_db := db\<rparr>))"
proof (cases "lookup_stage X w c (rt_db rt)")
  case (Inl e)
  then show ?thesis
    using assms by (intro exI [of _ 1]) (simp add: work_def process_command_def)
next
  case (Inr found)
  show ?thesis
  proof (cases found)
    case (Some out)
    then show ?thesis
      using Inr assms by (intro exI [of _ 1]) (simp add: work_def process_command_def)
  next
    case None
    show ?thesis
    proof (cases "evaluate_stage X w systems c (rt_db rt)")
      case (Inl e)
      then show ?thesis
        using Inr None assms by (intro exI [of _ 2]) (simp add: work_def process_command_def numeral_2_eq_2)
    next
      case (Inr te)
      then show ?thesis
        using \<open>lookup_stage X w c (rt_db rt) = Inr found\<close> None assms
        by (cases te; intro exI [of _ 3]) (simp add: work_def process_command_def numeral_3_eq_3 case_prod_beta)
    qed
  qed
qed

section \<open>Authority\<close>


section \<open>Starting\<close>

lemma load_session_wf:
  assumes "db_wf X db"
  obtains session where "load_session X w db = Inr session" "mirrors X (session_schemas session) db"
proof -
  have "schemas_wf X db" using assms by (auto simp: db_wf_def)
  then obtain reg where "load_schema_registry X db = Inr reg" "mirrors X reg db" using mirrors_load by blast
  moreover obtain i p where "read_world_metadata_full db = Inr (i, WORLD_FORMAT_VERSION, p)"
    using read_world_metadata_wf [OF assms] by blast
  ultimately show ?thesis
    using that by (simp add: load_session_def ensure_world_format_def session_restore_def)
qed

text \<open>
  A runtime starts exactly when its queue capacity is between 1 and 4096 and every system is registered for
  a schema that the world knows as a command schema.
\<close>

lemma start_runtime_iff:
  assumes "db_wf X db"
  shows "start_runtime X w capacity schemas db = Inr () \<longleftrightarrow>
    1 \<le> capacity \<and> capacity \<le> 4096 \<and>
    (\<forall>k \<in> set schemas. \<exists>d. load_schema X db k = Inr (Some d) \<and> definition_kind d = Command)"
proof -
  obtain session where s: "load_session X w db = Inr session" "mirrors X (session_schemas session) db"
    using load_session_wf [OF assms] by blast
  have "require_kind (session_schemas session) k Command = Inr () \<longleftrightarrow>
      (\<exists>d. load_schema X db k = Inr (Some d) \<and> definition_kind d = Command)" for k
    using s(2) by (auto simp: mirrors_def require_kind_Inr)
  then show ?thesis
    using s(1) by (auto simp: start_runtime_def validate_policy_def MAX_COMMAND_QUEUE_CAPACITY_def for_each_Inr
        result_simps split: if_splits)
qed

end
