(* ===== verification/Extension_Secrets.thy ===== *)
theory Extension_Secrets
  imports Rust_Text
begin

text \<open>
  Secret paths and patterns (\<open>crates/sdk/src/secrets.rs\<close>), the identity of a component
  (\<open>contracts.rs\<close>), and the policy of the secret manager (\<open>crates/extension-engine/src/secrets.rs\<close>).
\<close>

section \<open>Paths and patterns\<close>

datatype secret_path = SecretPath (secret_path_text: string)

datatype secret_path_error = InvalidPath string | InvalidPattern string

definition is_secret_segment :: "string \<Rightarrow> bool" where
  "is_secret_segment segment \<longleftrightarrow>
     segment \<noteq> [] \<and> list_all (\<lambda>b. is_ascii_lowercase b \<or> is_ascii_digit b \<or> b = CHR ''_'') segment"

definition secret_path_parse :: "string \<Rightarrow> secret_path_error + secret_path" where
  "secret_path_parse v =
     (if v = [] \<or> list_ex (\<lambda>segment. \<not> is_secret_segment segment) (split_on (CHR ''.'') v)
      then Inl (InvalidPath v) else Inr (SecretPath v))"

datatype secret_path_pattern = Exact secret_path | Descendants secret_path

definition secret_pattern_parse :: "string \<Rightarrow> secret_path_error + secret_path_pattern" where
  "secret_pattern_parse v =
     (case strip_suffix ''.*'' v of
        Some prefix \<Rightarrow>
          if prefix = [] \<or> CHR ''*'' \<in> set prefix then Inl (InvalidPattern v)
          else map_err (\<lambda>_. InvalidPattern v) (map_ok Descendants (secret_path_parse prefix))
      | None \<Rightarrow>
          if CHR ''*'' \<in> set v then Inl (InvalidPattern v) else map_ok Exact (secret_path_parse v))"

text \<open>\<open>path.strip_prefix(prefix)\<close> followed by \<open>remaining.starts_with('.')\<close>.\<close>

definition below :: "secret_path \<Rightarrow> secret_path \<Rightarrow> bool" where
  "below prefix path =
     (case strip_prefix (secret_path_text prefix) (secret_path_text path) of
        None \<Rightarrow> False | Some remaining \<Rightarrow> remaining \<noteq> [] \<and> hd remaining = CHR ''.'')"

definition pattern_matches :: "secret_path_pattern \<Rightarrow> secret_path \<Rightarrow> bool" where
  "pattern_matches p path = (case p of Exact exact \<Rightarrow> exact = path | Descendants prefix \<Rightarrow> below prefix path)"

definition allows_pattern :: "secret_path_pattern \<Rightarrow> secret_path_pattern \<Rightarrow> bool" where
  "allows_pattern self grant =
     (case (self, grant) of
        (Exact requested, Exact granted) \<Rightarrow> requested = granted
      | (Descendants _, Exact granted) \<Rightarrow> pattern_matches self granted
      | (Descendants requested, Descendants granted) \<Rightarrow> granted = requested \<or> below requested granted
      | (Exact _, Descendants _) \<Rightarrow> False)"

definition pattern_text :: "secret_path_pattern \<Rightarrow> string" where
  "pattern_text p =
     (case p of Exact path \<Rightarrow> secret_path_text path | Descendants prefix \<Rightarrow> secret_path_text prefix @ ''.*'')"

section \<open>The policy\<close>

record component_ref =
  ref_instance :: string
  ref_component :: string

datatype secret_access_error = SecretInvalidPath | AccessDenied | SecretNotFound | SecretUnavailable

record secret_manager =
  read_grants :: "component_ref \<rightharpoonup> secret_path_pattern list"
  policy_revision :: u64

definition secret_manager_new :: secret_manager where
  "secret_manager_new = \<lparr>read_grants = Map.empty, policy_revision = 0\<rparr>"

definition grant_read :: "component_ref \<Rightarrow> secret_path_pattern \<Rightarrow> secret_manager \<Rightarrow> secret_manager" where
  "grant_read owner p m =
     (let grants = (case read_grants m owner of None \<Rightarrow> [] | Some ps \<Rightarrow> ps)
      in if p \<in> set grants then m\<lparr>read_grants := (read_grants m)(owner \<mapsto> grants)\<rparr>
         else m\<lparr>read_grants := (read_grants m)(owner \<mapsto> grants @ [p]), policy_revision := policy_revision m + 1\<rparr>)"

definition has_read_grant :: "secret_manager \<Rightarrow> component_ref \<Rightarrow> secret_path_pattern \<Rightarrow> bool" where
  "has_read_grant m owner p =
     (case read_grants m owner of None \<Rightarrow> False | Some ps \<Rightarrow> list_ex (\<lambda>granted. allows_pattern granted p) ps)"

definition revoke_component :: "component_ref \<Rightarrow> secret_manager \<Rightarrow> secret_manager" where
  "revoke_component owner m =
     (if read_grants m owner \<noteq> None
      then m\<lparr>read_grants := (read_grants m)(owner := None), policy_revision := policy_revision m + 1\<rparr> else m)"

text \<open>The vault is the credential store of the operating system, a parameter: an error, or the value if there is one.\<close>

definition read_for_component ::
  "(secret_path \<Rightarrow> secret_access_error + string option) \<Rightarrow> secret_manager \<Rightarrow> component_ref \<Rightarrow> secret_path \<Rightarrow>
   secret_access_error + string" where
  "read_for_component load m owner path =
     (let allowed = (case read_grants m owner of None \<Rightarrow> False | Some ps \<Rightarrow> list_ex (\<lambda>p. pattern_matches p path) ps)
      in if \<not> allowed then Inl AccessDenied else and_then (load path) (ok_or SecretNotFound))"

section \<open>Patterns\<close>

definition valid_path :: "secret_path \<Rightarrow> bool" where
  "valid_path path \<longleftrightarrow> secret_path_parse (secret_path_text path) = Inr path"

definition valid_pattern :: "secret_path_pattern \<Rightarrow> bool" where
  "valid_pattern p \<longleftrightarrow> (case p of Exact path \<Rightarrow> valid_path path | Descendants path \<Rightarrow> valid_path path)"

lemma valid_path_segments:
  "valid_path path \<longleftrightarrow> secret_path_text path \<noteq> [] \<and> (\<forall>s \<in> set (split_on (CHR ''.'') (secret_path_text path)). is_secret_segment s)"
  by (cases path) (auto simp: valid_path_def secret_path_parse_def list_ex_iff)

lemma split_on_append: "split_on c (s @ c # t) = split_on c s @ split_on c t"
proof (induction s)
  case (Cons x s)
  then show ?case by (cases "split_on c s") (auto simp: neq_Nil_conv)
qed simp

lemma valid_path_child: "valid_path (SecretPath (s @ ''.x'')) \<longleftrightarrow> valid_path (SecretPath s)"
proof -
  have x: "is_secret_segment ''x''" by code_simp
  have "split_on (CHR ''.'') (s @ ''.x'') = split_on (CHR ''.'') s @ [''x'']"
    using split_on_append [of "CHR ''.''" s "''x''"] by simp
  moreover have "\<not> is_secret_segment []" by (simp add: is_secret_segment_def)
  ultimately show ?thesis using x by (cases "s = []") (simp_all add: valid_path_segments)
qed

lemma valid_path_chars: "valid_path path \<Longrightarrow> CHR ''*'' \<notin> set (secret_path_text path)"
proof
  assume v: "valid_path path" and star: "CHR ''*'' \<in> set (secret_path_text path)"
  obtain seg where "seg \<in> set (split_on (CHR ''.'') (secret_path_text path))" "CHR ''*'' \<in> set seg"
    using set_split_on [OF star, of "CHR ''.''"] by auto
  then have "is_ascii_lowercase (CHR ''*'') \<or> is_ascii_digit (CHR ''*'')"
    using v by (fastforce simp: valid_path_segments is_secret_segment_def list_all_iff)
  moreover have "\<not> is_ascii_lowercase (CHR ''*'') \<and> \<not> is_ascii_digit (CHR ''*'')" by code_simp
  ultimately show False by blast
qed

lemma below_iff: "below prefix path \<longleftrightarrow> (\<exists>r. secret_path_text path = secret_path_text prefix @ CHR ''.'' # r)"
proof (cases "strip_prefix (secret_path_text prefix) (secret_path_text path)")
  case None
  then have "\<not> secret_path_text path = secret_path_text prefix @ r" for r
    using strip_prefix_Some [of "secret_path_text prefix" "secret_path_text path" r] by simp
  then show ?thesis using None by (simp add: below_def)
next
  case (Some r)
  then have "secret_path_text path = secret_path_text prefix @ r" by (simp add: strip_prefix_Some)
  moreover have "below prefix path \<longleftrightarrow> r \<noteq> [] \<and> hd r = CHR ''.''" by (simp add: below_def Some)
  ultimately show ?thesis by (cases r) auto
qed

lemma below_child: "below prefix (SecretPath (secret_path_text path @ ''.x'')) \<longleftrightarrow> prefix = path \<or> below prefix path"
proof
  assume "below prefix (SecretPath (secret_path_text path @ ''.x''))"
  then obtain r where r: "secret_path_text path @ ''.x'' = (secret_path_text prefix @ [CHR ''.'']) @ r"
    by (auto simp: below_iff)
  show "prefix = path \<or> below prefix path"
  proof (cases r rule: rev_cases)
    case (snoc r' c)
    then have "secret_path_text path @ [CHR ''.''] = (secret_path_text prefix @ [CHR ''.'']) @ r'" using r by simp
    then show ?thesis
      by (cases r' rule: rev_cases) (auto simp: below_iff secret_path.expand)
  qed (use r in simp)
qed (auto simp: below_iff)

lemma below_trans: "below a b \<Longrightarrow> below b c \<Longrightarrow> below a c"
  by (auto simp: below_iff)

text \<open>
  A pattern allows another exactly when it matches every path the other matches: a host can narrow a
  requested pattern, and never widen it.
\<close>

lemma allows_pattern_iff_subset:
  assumes "valid_pattern p" and "valid_pattern q"
  shows "allows_pattern p q \<longleftrightarrow> (\<forall>path. valid_path path \<longrightarrow> pattern_matches q path \<longrightarrow> pattern_matches p path)"
proof (cases q)
  case (Exact b)
  then show ?thesis
    using assms(2) by (cases p) (auto simp: allows_pattern_def pattern_matches_def valid_pattern_def)
next
  case (Descendants b)
  let ?child = "SecretPath (secret_path_text b @ ''.x'')"
  have child: "valid_path ?child" "below b ?child"
    using assms(2) Descendants by (simp_all add: valid_path_child valid_pattern_def below_child)
  show ?thesis
  proof (cases p)
    case (Exact a)
    let ?grandchild = "SecretPath (secret_path_text ?child @ ''.x'')"
    have "below b ?grandchild" using child below_child [of b ?child] by blast
    moreover have "valid_path ?grandchild" using child(1) valid_path_child [of "secret_path_text ?child"] by simp
    moreover have "?grandchild \<noteq> ?child" by simp
    ultimately have "\<exists>path. valid_path path \<and> below b path \<and> path \<noteq> a" using child by metis
    then show ?thesis using Exact Descendants by (auto simp: allows_pattern_def pattern_matches_def)
  next
    case (Descendants a)
    note q = \<open>q = Descendants b\<close>
    show ?thesis
    proof
      assume "allows_pattern p q"
      then show "\<forall>path. valid_path path \<longrightarrow> pattern_matches q path \<longrightarrow> pattern_matches p path"
        using q Descendants by (auto simp: allows_pattern_def pattern_matches_def intro: below_trans)
    next
      assume "\<forall>path. valid_path path \<longrightarrow> pattern_matches q path \<longrightarrow> pattern_matches p path"
      then have "below a ?child" using child q Descendants by (simp add: pattern_matches_def)
      then show "allows_pattern p q" using q Descendants by (auto simp: allows_pattern_def below_child)
    qed
  qed
qed

text \<open>Parsing and printing of patterns are inverse.\<close>

lemma secret_pattern_round_trip:
  "secret_pattern_parse v = Inr p \<longleftrightarrow> valid_pattern p \<and> v = pattern_text p"
proof
  assume "secret_pattern_parse v = Inr p"
  then show "valid_pattern p \<and> v = pattern_text p"
    by (auto simp: secret_pattern_parse_def result_simps secret_path_parse_def valid_pattern_def valid_path_def
        pattern_text_def strip_suffix_Some split: option.splits if_splits)
next
  assume a: "valid_pattern p \<and> v = pattern_text p"
  show "secret_pattern_parse v = Inr p"
  proof (cases p)
    case (Exact path)
    then have "strip_suffix ''.*'' v = None" "CHR ''*'' \<notin> set v"
      using a valid_path_chars [of path] by (auto simp: strip_suffix_None valid_pattern_def pattern_text_def)
    then show ?thesis using a Exact by (simp add: secret_pattern_parse_def valid_pattern_def valid_path_def pattern_text_def)
  next
    case (Descendants path)
    then have "strip_suffix ''.*'' v = Some (secret_path_text path)"
      using a by (simp add: strip_suffix_Some pattern_text_def)
    then show ?thesis
      using a Descendants valid_path_chars [of path] valid_path_segments [of path]
      by (simp add: secret_pattern_parse_def valid_pattern_def valid_path_def)
  qed
qed

section \<open>The policy as a history\<close>

datatype policy_event = Granted component_ref secret_path_pattern | Revoked component_ref

definition apply_policy :: "policy_event \<Rightarrow> secret_manager \<Rightarrow> secret_manager" where
  "apply_policy e = (case e of Granted owner p \<Rightarrow> grant_read owner p | Revoked owner \<Rightarrow> revoke_component owner)"

text \<open>The patterns granted to an owner since it was last revoked.\<close>

fun granted_since :: "component_ref \<Rightarrow> policy_event list \<Rightarrow> secret_path_pattern set" where
  "granted_since owner [] = {}"
| "granted_since owner (e # es) =
     (case e of
        Granted o' p \<Rightarrow> if o' = owner \<and> Revoked owner \<notin> set es then {p} else {}
      | Revoked o' \<Rightarrow> {}) \<union> granted_since owner es"

definition granted_patterns :: "secret_manager \<Rightarrow> component_ref \<Rightarrow> secret_path_pattern set" where
  "granted_patterns m owner = (case read_grants m owner of None \<Rightarrow> {} | Some ps \<Rightarrow> set ps)"

lemma granted_patterns_step:
  "granted_patterns (apply_policy e m) owner =
     (case e of Granted o' p \<Rightarrow> granted_patterns m owner \<union> (if o' = owner then {p} else {})
      | Revoked o' \<Rightarrow> if o' = owner then {} else granted_patterns m owner)"
  by (auto simp: apply_policy_def grant_read_def revoke_component_def granted_patterns_def Let_def
      split: policy_event.split option.split)

lemma granted_since_snoc:
  "granted_since owner (es @ [e]) =
     (case e of Granted o' p \<Rightarrow> granted_since owner es \<union> (if o' = owner then {p} else {})
      | Revoked o' \<Rightarrow> if o' = owner then {} else granted_since owner es)"
  by (induction es) (auto split: policy_event.split if_splits)

lemma policy_history: "granted_patterns (fold apply_policy es secret_manager_new) owner = granted_since owner es"
proof (induction es rule: rev_induct)
  case Nil
  show ?case by (simp add: granted_patterns_def secret_manager_new_def)
next
  case (snoc e es)
  then show ?case by (simp add: granted_patterns_step granted_since_snoc split: policy_event.split)
qed

text \<open>
  C32. Secrets go only to the components they were granted to: after any history of grants and revocations, a component
  can read a path exactly when a pattern granted to it since its last revocation matches the path; any other
  read is denied without touching the vault.
\<close>

lemma secret_reads_follow_grants:
  "read_for_component load (fold apply_policy es secret_manager_new) owner path =
    (if \<exists>p \<in> granted_since owner es. pattern_matches p path
     then and_then (load path) (ok_or SecretNotFound) else Inl AccessDenied)"
  unfolding policy_history [symmetric]
  by (auto simp: read_for_component_def granted_patterns_def list_ex_iff Let_def split: option.split)

end
