(* ===== verification/Contracts.thy ===== *)
theory Contracts
  imports Extension_Secrets
begin

text \<open>
  Versioned contracts and their endpoints (\<open>crates/sdk/src/contracts.rs\<close>), and the errors of the
  service transport (\<open>services.rs\<close>).
\<close>

section \<open>Contract keys\<close>

datatype contract_version = ContractVersion (contract_major: u32)

record contract_key =
  contract_id :: string
  contract_version :: contract_version

definition contract_key_new :: "string \<Rightarrow> contract_version \<Rightarrow> contract_key" where
  "contract_key_new i version = \<lparr>contract_id = i, contract_version = version\<rparr>"

definition contract_key_display :: "contract_key \<Rightarrow> string" where
  "contract_key_display k = contract_id k @ ''@'' @ show_u32 (contract_major (contract_version k))"

section \<open>Definitions, providers and consumers\<close>

datatype resolution_policy = Single | Multiple

datatype contract_protocol = Binding | Service

record contract_definition =
  def_contract :: contract_key
  def_resolution :: resolution_policy
  def_protocol :: contract_protocol

datatype grant_requirement = SecretRead secret_path_pattern

record contract_provider =
  provider_contract :: contract_key
  provider_grants :: "grant_requirement list"

record contract_consumer =
  consumer_contract :: contract_key
  consumer_required :: bool
  consumer_grants :: "grant_requirement list"

section \<open>The transport\<close>

datatype service_call_error =
    Unavailable | NotConsumer | NotServiceContract | UnsupportedResolution | CyclicCall | ProviderBusy
  | ProviderFailed | RequestTooLarge | ResponseTooLarge

fun service_call_error_display :: "service_call_error \<Rightarrow> string" where
  "service_call_error_display Unavailable = ''service unavailable''"
| "service_call_error_display NotConsumer = ''component is not a consumer of this service contract''"
| "service_call_error_display NotServiceContract = ''contract is not a service contract''"
| "service_call_error_display UnsupportedResolution = ''service contract does not resolve to exactly one provider''"
| "service_call_error_display CyclicCall = ''cyclic service call detected''"
| "service_call_error_display ProviderBusy = ''service provider is busy''"
| "service_call_error_display ProviderFailed = ''service provider failed''"
| "service_call_error_display RequestTooLarge = ''service request is too large''"
| "service_call_error_display ResponseTooLarge = ''service response is too large''"

section \<open>The text of a key\<close>

lemma contract_key_display_inject: "contract_key_display k = contract_key_display k' \<Longrightarrow> k = k'"
proof -
  assume same: "contract_key_display k = contract_key_display k'"
  have "rsplit_once (CHR ''@'') (contract_key_display k) = Some (contract_id k, show_u32 (contract_major (contract_version k)))" for k
    by (simp add: contract_key_display_def rsplit_once_append show_u32_no_at)
  then have "contract_id k = contract_id k'" "show_u32 (contract_major (contract_version k)) = show_u32 (contract_major (contract_version k'))"
    using same by (metis option.inject prod.inject)+
  then show "k = k'"
    using parse_show_u32 by (metis contract_key.equality contract_version.expand old.unit.exhaust option.inject)
qed

end
