(* ===== verification/World_Contracts.thy ===== *)
theory World_Contracts
  imports World_Runtime Contracts
begin

text \<open>
  The contracts under which systems, projections and effect handlers of extensions are called
  (\<open>crates/sdk/src/world_system.rs\<close>, \<open>world_projection.rs\<close>, \<open>crates/world-runtime/src/effect.rs\<close>).
\<close>

section \<open>The contracts of services\<close>

definition WORLD_SYSTEM_SERVICE_PROTOCOL_VERSION :: contract_version where
  "WORLD_SYSTEM_SERVICE_PROTOCOL_VERSION = ContractVersion 1"

definition WORLD_PROJECTION_SERVICE_PROTOCOL_VERSION :: contract_version where
  "WORLD_PROJECTION_SERVICE_PROTOCOL_VERSION = ContractVersion 1"

definition WORLD_EFFECT_SERVICE_PROTOCOL_VERSION :: contract_version where
  "WORLD_EFFECT_SERVICE_PROTOCOL_VERSION = ContractVersion 1"

definition world_system_service_contract_key :: "schema_key \<Rightarrow> contract_key" where
  "world_system_service_contract_key k =
     contract_key_new (''rintawa.world.system.'' @ schema_id_text (key_id k) @ ''.v'' @ show_u32 (version_number (key_version k)))
       WORLD_SYSTEM_SERVICE_PROTOCOL_VERSION"

definition world_projection_service_contract_key :: "schema_key \<Rightarrow> contract_key" where
  "world_projection_service_contract_key k =
     contract_key_new (''rintawa.world.projection.'' @ schema_id_text (key_id k) @ ''.v'' @ show_u32 (version_number (key_version k)))
       WORLD_PROJECTION_SERVICE_PROTOCOL_VERSION"

definition world_effect_service_contract_key :: "schema_key \<Rightarrow> contract_key" where
  "world_effect_service_contract_key k =
     contract_key_new (''rintawa.world.effect.'' @ schema_id_text (key_id k) @ ''.v'' @ show_u32 (version_number (key_version k)))
       WORLD_EFFECT_SERVICE_PROTOCOL_VERSION"

section \<open>Clients\<close>

text \<open>
  A client and its wire format: \<open>serde_json::to_vec\<close> of the request type, \<open>serde_json::from_slice\<close> of
  the response type, and the call itself. The number of the call is given to it, since a provider may answer
  the same bytes differently from call to call.
\<close>

record ('q, 'p) service_client =
  to_vec :: "'q \<Rightarrow> blob option"
  from_slice :: "blob \<Rightarrow> 'p option"
  call_service :: "nat \<Rightarrow> contract_key \<Rightarrow> blob \<Rightarrow> service_call_error + blob"

section \<open>Different schemas have different contracts\<close>

lemma show_u32_no_v: "CHR ''v'' \<notin> set (show_u32 n)"
  using show_nat_digits [of "unat n"] by (auto simp: show_u32_def list_all_iff is_ascii_digit_def)

lemma versioned_text_inject:
  assumes "i @ CHR ''v'' # show_u32 n = i' @ CHR ''v'' # show_u32 n'"
  shows "i = i' \<and> n = n'"
proof -
  have "rsplit_once (CHR ''v'') (i @ CHR ''v'' # show_u32 n) = rsplit_once (CHR ''v'') (i' @ CHR ''v'' # show_u32 n')"
    using assms by simp
  then have "i = i'" "show_u32 n = show_u32 n'" by (simp_all add: rsplit_once_append show_u32_no_v)
  then show ?thesis using parse_show_u32 by (metis option.inject)
qed

lemma schema_key_parts:
  "schema_id_text (key_id k) = schema_id_text (key_id k') \<Longrightarrow> version_number (key_version k) = version_number (key_version k') \<Longrightarrow> k = k'"
  by (rule key_rank_inject) (simp add: key_rank_def)

lemma service_contract_inject:
  assumes "prefix @ schema_id_text (key_id k) @ ''.v'' @ show_u32 (version_number (key_version k)) =
    prefix @ schema_id_text (key_id k') @ ''.v'' @ show_u32 (version_number (key_version k'))"
  shows "k = k'"
proof -
  have "(schema_id_text (key_id k) @ ''.'') @ CHR ''v'' # show_u32 (version_number (key_version k)) =
      (schema_id_text (key_id k') @ ''.'') @ CHR ''v'' # show_u32 (version_number (key_version k'))"
    using assms by simp
  from versioned_text_inject [OF this] show ?thesis using schema_key_parts by simp
qed

text \<open>
  Requests cannot be misrouted: two services have the same contract key exactly when they are of the same
  sort (system, projection or effect) and serve the same schema, whatever dots and digits the schema identifiers hold.
\<close>

lemma service_contracts_distinct:
  "(world_system_service_contract_key k = world_system_service_contract_key k' \<longleftrightarrow> k = k') \<and>
   (world_projection_service_contract_key k = world_projection_service_contract_key k' \<longleftrightarrow> k = k') \<and>
   (world_effect_service_contract_key k = world_effect_service_contract_key k' \<longleftrightarrow> k = k') \<and>
   world_system_service_contract_key k \<noteq> world_projection_service_contract_key k' \<and>
   world_system_service_contract_key k \<noteq> world_effect_service_contract_key k' \<and>
   world_projection_service_contract_key k \<noteq> world_effect_service_contract_key k'"
proof (intro conjI iffI)
  show "world_system_service_contract_key k = world_system_service_contract_key k' \<Longrightarrow> k = k'"
    using service_contract_inject [of "''rintawa.world.system.''" k k']
    by (simp add: world_system_service_contract_key_def contract_key_new_def)
  show "world_projection_service_contract_key k = world_projection_service_contract_key k' \<Longrightarrow> k = k'"
    using service_contract_inject [of "''rintawa.world.projection.''" k k']
    by (simp add: world_projection_service_contract_key_def contract_key_new_def)
  show "world_effect_service_contract_key k = world_effect_service_contract_key k' \<Longrightarrow> k = k'"
    using service_contract_inject [of "''rintawa.world.effect.''" k k']
    by (simp add: world_effect_service_contract_key_def contract_key_new_def)
qed (simp_all add: world_system_service_contract_key_def world_projection_service_contract_key_def
    world_effect_service_contract_key_def contract_key_new_def)

end
