(* ===== verification/World_Dialogue.thy ===== *)
theory World_Dialogue
  imports World_Contracts
begin

text \<open>
  What the evaluation of a service-backed system and of a service-backed projection share: rounds in
  which the provider either answers or asks for reads of the pinned snapshot, with a bound on the rounds and on the
  reads. The two loops are the same code twice; what holds of both is proved once here, in a locale.
\<close>

section \<open>One round of reads\<close>

text \<open>The loop \<open>for request in requests\<close>, with the \<open>HashSet\<close> of the reads made and the results so far.\<close>

fun resolve_reads :: "('q \<Rightarrow> 'e + 'r) \<Rightarrow> 'e \<Rightarrow> 'q list \<Rightarrow> 'r list \<Rightarrow> 'q set \<Rightarrow> 'e + 'r list \<times> 'q set" where
  "resolve_reads resolve repeated [] reads seen = Inr (reads, seen)"
| "resolve_reads resolve repeated (q # qs) reads seen =
     (if q \<in> seen then Inl repeated
      else and_then (resolve q) (\<lambda>r. resolve_reads resolve repeated qs (reads @ [r]) (insert q seen)))"

text \<open>The results are those of distinct reads, in the order they were asked for.\<close>

definition resolved :: "('q \<Rightarrow> 'e + 'r) \<Rightarrow> 'r list \<Rightarrow> 'q set \<Rightarrow> bool" where
  "resolved resolve reads seen \<longleftrightarrow> (\<exists>qs. distinct qs \<and> set qs = seen \<and> map resolve qs = map Inr reads)"

definition truthful :: "('q \<Rightarrow> 'e + 'r) \<Rightarrow> nat \<Rightarrow> 'r list \<Rightarrow> bool" where
  "truthful resolve limit reads \<longleftrightarrow> (\<exists>seen. resolved resolve reads seen) \<and> length reads \<le> limit"

lemma resolved_Nil [simp]: "resolved resolve [] {}"
  by (simp add: resolved_def)

lemma resolved_snoc:
  assumes "resolved resolve reads seen" and "q \<notin> seen" and "resolve q = Inr r"
  shows "resolved resolve (reads @ [r]) (insert q seen)"
proof -
  obtain qs where "distinct qs" "set qs = seen" "map resolve qs = map Inr reads"
    using assms(1) by (auto simp: resolved_def)
  then show ?thesis using assms(2,3) by (auto simp: resolved_def intro!: exI [of _ "qs @ [q]"])
qed

lemma resolve_reads_resolved:
  assumes "resolve_reads resolve repeated qs reads seen = Inr (reads', seen')" and "resolved resolve reads seen"
  shows "resolved resolve reads' seen' \<and> length reads' = length reads + length qs"
  using assms
proof (induction qs arbitrary: reads seen)
  case (Cons q qs)
  then obtain r where r: "q \<notin> seen" "resolve q = Inr r"
      "resolve_reads resolve repeated qs (reads @ [r]) (insert q seen) = Inr (reads', seen')"
    by (auto simp: result_simps split: if_splits)
  show ?case using Cons.IH [OF r(3) resolved_snoc [OF Cons.prems(2) r(1,2)]] by simp
qed simp

lemma resolve_reads_error:
  "resolve_reads resolve repeated qs reads seen = Inl e \<Longrightarrow> e = repeated \<or> (\<exists>q. resolve q = Inl e)"
  by (induction qs arbitrary: reads seen) (auto simp: result_simps split: if_splits)

section \<open>The dialogue\<close>

text \<open>
  \<open>rounds p n reads seen\<close> is the loop with \<open>n\<close> rounds left; \<open>p\<close> is everything it does not change
  (the client, the snapshot, the request). \<open>ask p n reads\<close> is one call of the provider: an error, a final
  answer, or the reads it wants.
\<close>

locale read_dialogue =
  fixes rounds :: "'p \<Rightarrow> nat \<Rightarrow> 'r list \<Rightarrow> 'q set \<Rightarrow> 'e + 'a"
    and ask :: "'p \<Rightarrow> nat \<Rightarrow> 'r list \<Rightarrow> 'e + 'a + 'q list"
    and resolve :: "'p \<Rightarrow> 'q \<Rightarrow> 'e + 'r"
    and round_limit :: 'e and empty_round :: 'e and read_limit :: 'e and repeated :: 'e
    and limit :: nat
  assumes rounds_0: "rounds p 0 reads seen = Inl round_limit"
    and rounds_Suc: "rounds p (Suc n) reads seen =
      and_then (ask p n reads) (\<lambda>answer. case answer of
          Inl a \<Rightarrow> Inr a
        | Inr qs \<Rightarrow>
            if qs = [] then Inl empty_round
            else if length reads + length qs > limit then Inl read_limit
            else and_then (resolve_reads (resolve p) repeated qs reads seen) (\<lambda>(reads, seen). rounds p n reads seen))"
begin

text \<open>A result is the answer of the provider to some truthful list of reads.\<close>

lemma rounds_result:
  assumes "rounds p n reads seen = Inr a" and "resolved (resolve p) reads seen" and "length reads \<le> limit"
  shows "\<exists>m < n. \<exists>reads'. truthful (resolve p) limit reads' \<and> ask p m reads' = Inr (Inl a)"
  using assms
proof (induction n arbitrary: reads seen)
  case 0
  then show ?case by (simp add: rounds_0)
next
  case (Suc n)
  from Suc.prems(1) obtain answer where ans: "ask p n reads = Inr answer" by (auto simp: rounds_Suc result_simps)
  show ?case
  proof (cases answer)
    case (Inl a')
    then have "a' = a" using Suc.prems(1) ans by (simp add: rounds_Suc)
    then show ?thesis using ans Inl Suc.prems(2,3) by (auto simp: truthful_def)
  next
    case (Inr qs)
    then obtain reads' seen' where r: "resolve_reads (resolve p) repeated qs reads seen = Inr (reads', seen')"
        "rounds p n reads' seen' = Inr a" "length reads + length qs \<le> limit"
      using Suc.prems(1) ans by (auto simp: rounds_Suc result_simps split: if_splits)
    have "resolved (resolve p) reads' seen'" "length reads' \<le> limit"
      using resolve_reads_resolved [OF r(1) Suc.prems(2)] r(3) by simp_all
    from Suc.IH [OF r(2) this] show ?thesis using less_SucI by blast
  qed
qed

text \<open>An error is one of the four of the loop, or comes from the provider or from a read.\<close>

lemma rounds_error:
  assumes "rounds p n reads seen = Inl e"
  shows "e \<in> {round_limit, empty_round, read_limit, repeated} \<or>
    (\<exists>m reads. ask p m reads = Inl e) \<or> (\<exists>q. resolve p q = Inl e)"
  using assms
proof (induction n arbitrary: reads seen)
  case (Suc n)
  show ?case
  proof (cases "ask p n reads")
    case (Inr answer)
    then obtain qs where qs: "answer = Inr qs" using Suc.prems by (cases answer) (simp_all add: rounds_Suc)
    show ?thesis
      using Suc.prems resolve_reads_error [of "resolve p" repeated qs reads seen e] Suc.IH
      by (auto simp: rounds_Suc Inr qs and_then_Inl split: if_splits)
  qed (use Suc.prems in \<open>auto simp: rounds_Suc\<close>)
qed (simp add: rounds_0)

text \<open>All the loop depends on is what the provider answers to truthful reads, and what the reads give.\<close>

lemma rounds_cong:
  assumes ask: "\<And>m reads. m < n \<Longrightarrow> truthful (resolve p) limit reads \<Longrightarrow> ask p m reads = ask p' m reads"
    and res: "resolve p = resolve p'"
    and inv: "resolved (resolve p) reads seen" and len: "length reads \<le> limit"
  shows "rounds p n reads seen = rounds p' n reads seen"
  using ask inv len
proof (induction n arbitrary: reads seen)
  case 0
  show ?case by (simp add: rounds_0)
next
  case (Suc n)
  have "truthful (resolve p) limit reads" using Suc.prems(2,3) by (auto simp: truthful_def)
  then have same: "ask p n reads = ask p' n reads" using Suc.prems(1) by simp
  have IH: "rounds p n reads' seen' = rounds p' n reads' seen'"
    if "resolve_reads (resolve p) repeated qs reads seen = Inr (reads', seen')" "length reads + length qs \<le> limit"
    for qs reads' seen'
    using resolve_reads_resolved [OF that(1) Suc.prems(2)] that(2) Suc.IH Suc.prems(1) by simp
  show ?case
    unfolding rounds_Suc same res [symmetric]
    by (auto simp: and_then_def IH split: sum.split prod.split)
qed

end

end
