(* ===== verification/World_Service.thy ===== *)
theory World_Service
  imports World_Dialogue
begin

text \<open>
  Systems of extensions, evaluated behind a service contract: the transport types of
  \<open>crates/sdk/src/world_system.rs\<close> and \<open>ServiceWorldSystem\<close> of \<open>crates/world-runtime/src/service.rs\<close>.
\<close>

section \<open>Transport types (world\_system.rs)\<close>

datatype world_system_actor = SystemActorPrincipal principal_id | SystemActorEntity entity_id

datatype world_system_causation =
  SystemCausationCommand command_id | SystemCausationEvent world_event_id | SystemCausationEffect effect_job_id

record world_system_command =
  wsc_id :: command_id
  wsc_schema :: schema_key
  wsc_principal :: principal_id
  wsc_actor :: world_system_actor
  wsc_expected_position :: "u64 option"
  wsc_causation :: "world_system_causation option"
  wsc_correlation_id :: correlation_id
  wsc_effective_at :: "unix_time option"
  wsc_payload :: json

record world_system_entity_record =
  wse_id :: entity_id
  wse_schema :: schema_key

record world_system_relation_record =
  wsr_id :: relation_id
  wsr_schema :: schema_key
  wsr_from :: entity_id
  wsr_to :: entity_id

datatype world_system_facet_target =
  SystemTargetWorld | SystemTargetEntity entity_id | SystemTargetRelation relation_id

record world_system_facet_record =
  wsf_target :: world_system_facet_target
  wsf_schema :: schema_key
  wsf_payload :: json

datatype world_system_read_request =
    ReadEntity entity_id
  | ReadRelation relation_id
  | ReadFacet world_system_facet_target schema_key

datatype world_system_read_result =
    EntityRead entity_id "world_system_entity_record option"
  | RelationRead relation_id "world_system_relation_record option"
  | FacetRead world_system_facet_target schema_key "world_system_facet_record option"

record world_system_service_request =
  wsq_world_id :: world_id
  wsq_snapshot_position :: u64
  wsq_command :: world_system_command
  wsq_reads :: "world_system_read_result list"

text \<open>There is no authority mutation among the proposals.\<close>

datatype world_system_mutation =
    ProposeCreateEntity entity_id schema_key
  | ProposeDeleteEntity entity_id
  | ProposeCreateRelation relation_id schema_key entity_id entity_id
  | ProposeDeleteRelation relation_id
  | ProposeSetFacet world_system_facet_target schema_key json
  | ProposeRemoveFacet world_system_facet_target schema_key

record world_system_event_proposal =
  wsp_event_schema :: schema_key
  wsp_event_payload :: json

record world_system_effect_proposal =
  wsp_effect_schema :: schema_key
  wsp_effect_payload :: json

record world_system_transaction =
  wst_mutations :: "world_system_mutation list"
  wst_events :: "world_system_event_proposal list"
  wst_effects :: "world_system_effect_proposal list"

datatype world_system_service_response =
    TransactionResponse world_system_transaction
  | ReadResponse "world_system_read_request list"
  | RejectedResponse string
  | FailedResponse string

section \<open>Translations (service.rs)\<close>

definition MAX_WORLD_SYSTEM_SERVICE_ROUNDS :: nat where
  "MAX_WORLD_SYSTEM_SERVICE_ROUNDS = 8"

definition MAX_WORLD_SYSTEM_SERVICE_READS :: nat where
  "MAX_WORLD_SYSTEM_SERVICE_READS = 256"

definition MAX_SYSTEM_DIAGNOSTIC_BYTES :: nat where
  "MAX_SYSTEM_DIAGNOSTIC_BYTES = 8 * 1024"

definition encode_command :: "world_command \<Rightarrow> world_system_command" where
  "encode_command c =
     \<lparr>wsc_id = command_id c, wsc_schema = command_schema c, wsc_principal = command_principal c,
      wsc_actor = (case command_actor c of
          ActorPrincipal p \<Rightarrow> SystemActorPrincipal p | ActorEntity e \<Rightarrow> SystemActorEntity e),
      wsc_expected_position = expected_position c,
      wsc_causation = map_option (\<lambda>causation. case causation of
          CausedByCommand i \<Rightarrow> SystemCausationCommand i
        | CausedByEvent i \<Rightarrow> SystemCausationEvent i
        | CausedByEffect i \<Rightarrow> SystemCausationEffect i) (command_causation c),
      wsc_correlation_id = command_correlation c, wsc_effective_at = command_effective_at c,
      wsc_payload = command_payload c\<rparr>"

definition encode_entity :: "entity_record \<Rightarrow> world_system_entity_record" where
  "encode_entity e = \<lparr>wse_id = entity_id e, wse_schema = entity_schema e\<rparr>"

definition encode_relation :: "relation_record \<Rightarrow> world_system_relation_record" where
  "encode_relation r =
     \<lparr>wsr_id = relation_id r, wsr_schema = relation_schema r, wsr_from = relation_from r, wsr_to = relation_to r\<rparr>"

definition encode_facet_target :: "facet_target \<Rightarrow> world_system_facet_target" where
  "encode_facet_target t =
     (case t of TargetWorld \<Rightarrow> SystemTargetWorld | TargetEntity e \<Rightarrow> SystemTargetEntity e
      | TargetRelation r \<Rightarrow> SystemTargetRelation r)"

definition decode_facet_target :: "world_system_facet_target \<Rightarrow> facet_target" where
  "decode_facet_target t =
     (case t of SystemTargetWorld \<Rightarrow> TargetWorld | SystemTargetEntity e \<Rightarrow> TargetEntity e
      | SystemTargetRelation r \<Rightarrow> TargetRelation r)"

definition encode_facet :: "facet_record \<Rightarrow> world_system_facet_record" where
  "encode_facet f =
     \<lparr>wsf_target = encode_facet_target (facet_target f), wsf_schema = facet_schema f, wsf_payload = facet_payload f\<rparr>"

definition decode_mutation :: "world_system_mutation \<Rightarrow> world_mutation" where
  "decode_mutation m =
     (case m of
        ProposeCreateEntity i k \<Rightarrow> CreateEntity \<lparr>entity_id = i, entity_schema = k\<rparr>
      | ProposeDeleteEntity i \<Rightarrow> DeleteEntity i
      | ProposeCreateRelation i k f t \<Rightarrow>
          CreateRelation \<lparr>relation_id = i, relation_schema = k, relation_from = f, relation_to = t\<rparr>
      | ProposeDeleteRelation i \<Rightarrow> DeleteRelation i
      | ProposeSetFacet t k p \<Rightarrow>
          SetFacet \<lparr>facet_target = decode_facet_target t, facet_schema = k, facet_payload = p\<rparr>
      | ProposeRemoveFacet t k \<Rightarrow> RemoveFacet (decode_facet_target t) k)"

text \<open>\<open>WorldEventDraft::new\<close> and \<open>EffectJobDraft::new\<close> draw fresh identities; the \<open>n\<close>-th of each kind is a parameter.\<close>

record fresh_ids =
  fresh_event :: "nat \<Rightarrow> world_event_id"
  fresh_job :: "nat \<Rightarrow> effect_job_id"

definition proposed_event :: "fresh_ids \<Rightarrow> nat \<times> world_system_event_proposal \<Rightarrow> event_draft" where
  "proposed_event F np =
     \<lparr>draft_event_id = fresh_event F (fst np), draft_event_schema = wsp_event_schema (snd np),
      draft_event_payload = wsp_event_payload (snd np)\<rparr>"

definition proposed_effect :: "fresh_ids \<Rightarrow> nat \<times> world_system_effect_proposal \<Rightarrow> effect_draft" where
  "proposed_effect F np =
     \<lparr>draft_effect_id = fresh_job F (fst np), draft_effect_schema = wsp_effect_schema (snd np),
      draft_effect_payload = wsp_effect_payload (snd np)\<rparr>"

definition decode_transaction :: "fresh_ids \<Rightarrow> world_system_transaction \<Rightarrow> world_transaction" where
  "decode_transaction F p =
     (let t = fold (\<lambda>m. push_mutation (decode_mutation m)) (wst_mutations p) transaction_new;
          t = fold (\<lambda>e. push_event (proposed_event F e)) (enumerate 0 (wst_events p)) t
      in fold (\<lambda>e. push_effect (proposed_effect F e)) (enumerate 0 (wst_effects p)) t)"

definition validate_diagnostic :: "string \<Rightarrow> system_error + string" where
  "validate_diagnostic reason =
     (if length reason > MAX_SYSTEM_DIAGNOSTIC_BYTES
      then Inl (SystemError ''System service returned an oversized diagnostic'') else Inr reason)"

definition resolve_read ::
  "externs \<Rightarrow> world_snapshot \<Rightarrow> world_system_read_request \<Rightarrow> system_error + world_system_read_result" where
  "resolve_read X s q =
     (case q of
        ReadEntity i \<Rightarrow>
          and_then (map_err SystemRead (read_entity s i)) (\<lambda>v. Inr (EntityRead i (map_option encode_entity v)))
      | ReadRelation i \<Rightarrow>
          and_then (map_err SystemRead (read_relation s i)) (\<lambda>v. Inr (RelationRead i (map_option encode_relation v)))
      | ReadFacet t k \<Rightarrow>
          (let target = decode_facet_target t
           in and_then (map_err SystemRead (read_facet X s target k)) (\<lambda>v.
              Inr (FacetRead (encode_facet_target target) k (map_option encode_facet v)))))"

section \<open>Evaluation\<close>

type_synonym system_client = "(world_system_service_request, world_system_service_response) service_client"

record service_world_system =
  sws_world_id :: world_id
  sws_command_schema :: schema_key
  sws_contract :: contract_key
  sws_client :: system_client

definition service_world_system_new :: "world_id \<Rightarrow> schema_key \<Rightarrow> system_client \<Rightarrow> service_world_system" where
  "service_world_system_new w k client =
     \<lparr>sws_world_id = w, sws_command_schema = k, sws_contract = world_system_service_contract_key k, sws_client = client\<rparr>"

definition system_envelope ::
  "world_snapshot \<Rightarrow> world_command \<Rightarrow> world_system_read_result list \<Rightarrow> world_system_service_request" where
  "system_envelope s c reads =
     \<lparr>wsq_world_id = snap_world_id s, wsq_snapshot_position = snap_position s, wsq_command = encode_command c,
      wsq_reads = reads\<rparr>"

definition encode_error :: system_error where
  "encode_error = SystemError ''failed to encode System request''"

definition transport_error :: "service_call_error \<Rightarrow> system_error" where
  "transport_error e = SystemError (''System service transport failed: '' @ service_call_error_display e)"

definition response_error :: system_error where
  "response_error = SystemError ''invalid System service response''"

text \<open>One call of the provider, with \<open>n\<close> rounds left after it.\<close>

definition ask_system ::
  "service_world_system \<Rightarrow> world_snapshot \<Rightarrow> world_command \<Rightarrow> nat \<Rightarrow> world_system_read_result list \<Rightarrow>
   system_error + world_system_service_response" where
  "ask_system S s c n reads =
     and_then (ok_or encode_error (to_vec (sws_client S) (system_envelope s c reads))) (\<lambda>request.
     and_then (map_err transport_error
        (call_service (sws_client S) (MAX_WORLD_SYSTEM_SERVICE_ROUNDS - Suc n) (sws_contract S) request)) (\<lambda>response.
     ok_or response_error (from_slice (sws_client S) response)))"

text \<open>The messages of the loop.\<close>

definition round_limit_error :: system_error where
  "round_limit_error = SystemError ''System service exceeded the evaluation round limit''"

definition empty_round_error :: system_error where
  "empty_round_error = SystemError ''System service requested an empty read round''"

definition read_limit_error :: system_error where
  "read_limit_error = SystemError ''System service exceeded the snapshot read limit''"

definition repeated_read_error :: system_error where
  "repeated_read_error = SystemError ''System service repeated a resolved snapshot read''"

fun system_rounds ::
  "externs \<Rightarrow> fresh_ids \<Rightarrow> service_world_system \<Rightarrow> world_snapshot \<Rightarrow> world_command \<Rightarrow> nat \<Rightarrow>
   world_system_read_result list \<Rightarrow> world_system_read_request set \<Rightarrow> system_error + world_transaction" where
  "system_rounds X F S s c 0 reads seen = Inl round_limit_error"
| "system_rounds X F S s c (Suc n) reads seen =
     and_then (ask_system S s c n reads) (\<lambda>response.
     case response of
       TransactionResponse proposal \<Rightarrow> Inr (decode_transaction F proposal)
     | RejectedResponse reason \<Rightarrow> and_then (validate_diagnostic reason) (\<lambda>reason. Inl (SystemRejected reason))
     | FailedResponse reason \<Rightarrow> and_then (validate_diagnostic reason) (\<lambda>reason. Inl (SystemError reason))
     | ReadResponse requests \<Rightarrow>
         if requests = [] then Inl empty_round_error
         else if length reads + length requests > MAX_WORLD_SYSTEM_SERVICE_READS
         then Inl read_limit_error
         else
           and_then (resolve_reads (resolve_read X s)
              repeated_read_error requests reads seen) (\<lambda>(reads, seen).
           system_rounds X F S s c n reads seen))"

definition evaluate_service ::
  "externs \<Rightarrow> fresh_ids \<Rightarrow> service_world_system \<Rightarrow> world_snapshot \<Rightarrow> world_command \<Rightarrow> system_error + world_transaction" where
  "evaluate_service X F S s c =
     (if snap_world_id s \<noteq> sws_world_id S
      then Inl (SystemError ''System service binding belongs to another world'')
      else if command_schema c \<noteq> sws_command_schema S
      then Inl (SystemError ''System service received a mismatched command schema'')
      else system_rounds X F S s c MAX_WORLD_SYSTEM_SERVICE_ROUNDS [] {})"

text \<open>As a system of the runtime; extensions register without privileges.\<close>

definition service_system :: "externs \<Rightarrow> fresh_ids \<Rightarrow> service_world_system \<Rightarrow> registered_system" where
  "service_system X F S = \<lparr>evaluate_system = \<lambda>s c. Answered (evaluate_service X F S s c), can_mutate_authority = False\<rparr>"

section \<open>The evaluation is a dialogue\<close>

text \<open>The answer of the provider, with the reads apart.\<close>

definition system_answer_of ::
  "fresh_ids \<Rightarrow> world_system_service_response \<Rightarrow> system_error + (world_transaction + world_system_read_request list)" where
  "system_answer_of F response =
     (case response of
        TransactionResponse proposal \<Rightarrow> Inr (Inl (decode_transaction F proposal))
      | RejectedResponse reason \<Rightarrow> and_then (validate_diagnostic reason) (\<lambda>reason. Inl (SystemRejected reason))
      | FailedResponse reason \<Rightarrow> and_then (validate_diagnostic reason) (\<lambda>reason. Inl (SystemError reason))
      | ReadResponse requests \<Rightarrow> Inr (Inr requests))"

interpretation system_dialogue: read_dialogue
  "\<lambda>(X, F, S, s, c). system_rounds X F S s c"
  "\<lambda>(X, F, S, s, c) n reads. and_then (ask_system S s c n reads) (system_answer_of F)"
  "\<lambda>(X, F, S, s, c). resolve_read X s"
  round_limit_error
  empty_round_error
  read_limit_error
  repeated_read_error
  MAX_WORLD_SYSTEM_SERVICE_READS
  by unfold_locales
    (auto simp: system_answer_of_def and_then_def split: sum.split world_system_service_response.split)

section \<open>Properties\<close>

definition bounded_error :: "system_error \<Rightarrow> bool" where
  "bounded_error e \<longleftrightarrow>
     (case e of SystemRead _ \<Rightarrow> True | SystemRejected r \<Rightarrow> length r \<le> MAX_SYSTEM_DIAGNOSTIC_BYTES
      | SystemError r \<Rightarrow> length r \<le> MAX_SYSTEM_DIAGNOSTIC_BYTES)"

lemma resolve_read_bounded: "resolve_read X s q = Inl e \<Longrightarrow> bounded_error e"
  by (cases q) (auto simp: resolve_read_def result_simps bounded_error_def Let_def)

lemma display_bounded: "length (service_call_error_display e) \<le> 64"
  by (cases e) simp_all

lemma bounded_errors [simp]:
  "bounded_error (SystemError r) \<longleftrightarrow> length r \<le> MAX_SYSTEM_DIAGNOSTIC_BYTES"
  "bounded_error (SystemRejected r) \<longleftrightarrow> length r \<le> MAX_SYSTEM_DIAGNOSTIC_BYTES"
  "bounded_error (SystemRead err)"
  by (simp_all add: bounded_error_def)

lemma ask_errors_bounded: "bounded_error encode_error" "bounded_error (transport_error e)" "bounded_error response_error"
  using display_bounded [of e]
  by (simp_all add: encode_error_def transport_error_def response_error_def MAX_SYSTEM_DIAGNOSTIC_BYTES_def)

lemma ask_system_bounded: "ask_system S s c n reads = Inl e \<Longrightarrow> bounded_error e"
  by (auto simp: ask_system_def result_simps ask_errors_bounded)

lemma system_answer_bounded: "system_answer_of F r = Inl e \<Longrightarrow> bounded_error e"
  by (cases r) (auto simp: system_answer_of_def validate_diagnostic_def result_simps bounded_error_def
      MAX_SYSTEM_DIAGNOSTIC_BYTES_def split: if_splits)

lemmas loop_errors = round_limit_error_def empty_round_error_def read_limit_error_def repeated_read_error_def

lemma system_rounds_bounded:
  assumes "system_rounds X F S s c n reads seen = Inl e"
  shows "bounded_error e"
proof -
  have "bounded_error round_limit_error" "bounded_error empty_round_error" "bounded_error read_limit_error"
      "bounded_error repeated_read_error"
    by (simp_all add: loop_errors MAX_SYSTEM_DIAGNOSTIC_BYTES_def)
  then show ?thesis
    using system_dialogue.rounds_error [of "(X, F, S, s, c)" n reads seen e, unfolded prod.case, OF assms]
      ask_system_bounded system_answer_bounded resolve_read_bounded
    by (fastforce simp only: and_then_Inl insert_iff empty_iff)
qed

lemma fold_push_mutation:
  "fold (\<lambda>m. push_mutation (f m)) ms t = t\<lparr>tx_mutations := tx_mutations t @ map f ms\<rparr>"
  by (induction ms arbitrary: t) (simp_all add: push_mutation_def)

lemma fold_push_event:
  "fold (\<lambda>p. push_event (f p)) ps t = t\<lparr>tx_events := tx_events t @ map f ps\<rparr>"
  by (induction ps arbitrary: t) (simp_all add: push_event_def)

lemma fold_push_effect:
  "fold (\<lambda>p. push_effect (f p)) ps t = t\<lparr>tx_effects := tx_effects t @ map f ps\<rparr>"
  by (induction ps arbitrary: t) (simp_all add: push_effect_def)

lemma decode_transaction_fields:
  "decode_transaction F p =
     \<lparr>tx_mutations = map decode_mutation (wst_mutations p),
      tx_events = map (proposed_event F) (enumerate 0 (wst_events p)),
      tx_effects = map (proposed_effect F) (enumerate 0 (wst_effects p))\<rparr>"
  by (simp add: decode_transaction_def transaction_new_def fold_push_mutation fold_push_event fold_push_effect)

lemma decode_mutation_ordinary: "\<not> authority_mutation (decode_mutation m)"
  by (cases m) (simp_all add: decode_mutation_def authority_mutation_def)

lemma decode_encode_target [simp]: "decode_facet_target (encode_facet_target t) = t"
  by (cases t) (simp_all add: decode_facet_target_def encode_facet_target_def)

lemma encode_decode_target [simp]: "encode_facet_target (decode_facet_target t) = t"
  by (cases t) (simp_all add: decode_facet_target_def encode_facet_target_def)

text \<open>
  C36. All that a provider is ever sent is, at most eight times, the envelope of the command with the results of at most
  256 distinct reads, as the pinned snapshot gives them: two providers that answer these bytes alike give the
  same evaluation, whatever they answer to others.
\<close>

lemma provider_sees_truthful_envelopes:
  assumes "\<And>n reads request. n < MAX_WORLD_SYSTEM_SERVICE_ROUNDS \<Longrightarrow>
      truthful (resolve_read X s) MAX_WORLD_SYSTEM_SERVICE_READS reads \<Longrightarrow>
      to_vec (sws_client S) (system_envelope s c reads) = Some request \<Longrightarrow>
      call_service (sws_client S) n (sws_contract S) request = call n (sws_contract S) request"
  shows "evaluate_service X F (S\<lparr>sws_client := (sws_client S)\<lparr>call_service := call\<rparr>\<rparr>) s c = evaluate_service X F S s c"
proof -
  let ?S = "S\<lparr>sws_client := (sws_client S)\<lparr>call_service := call\<rparr>\<rparr>"
  have "ask_system S s c n reads = ask_system ?S s c n reads"
    if "n < MAX_WORLD_SYSTEM_SERVICE_ROUNDS" "truthful (resolve_read X s) MAX_WORLD_SYSTEM_SERVICE_READS reads" for n reads
  proof -
    have "MAX_WORLD_SYSTEM_SERVICE_ROUNDS - Suc n < MAX_WORLD_SYSTEM_SERVICE_ROUNDS" using that(1) by simp
    then show ?thesis
      using assms that(2) by (cases "to_vec (sws_client S) (system_envelope s c reads)") (simp_all add: ask_system_def)
  qed
  then have "system_rounds X F S s c MAX_WORLD_SYSTEM_SERVICE_ROUNDS [] {} =
      system_rounds X F ?S s c MAX_WORLD_SYSTEM_SERVICE_ROUNDS [] {}"
    using system_dialogue.rounds_cong [of MAX_WORLD_SYSTEM_SERVICE_ROUNDS "(X, F, S, s, c)" "(X, F, ?S, s, c)" "[]" "{}"]
    by simp
  then show ?thesis by (simp add: evaluate_service_def)
qed

text \<open>
  A service-backed system proposes nothing of its own: a transaction it evaluates to is the translation of a
  proposal the provider answered to a truthful envelope, for a command of its schema in its world; it holds the proposed
  mutations, events and effects in order, with fresh identities, and no mutation of authority.
\<close>

lemma service_system_translates_proposal:
  assumes "evaluate_service X F S s c = Inr t"
  shows "snap_world_id s = sws_world_id S \<and> command_schema c = sws_command_schema S \<and>
    (\<exists>n < MAX_WORLD_SYSTEM_SERVICE_ROUNDS. \<exists>reads p.
       truthful (resolve_read X s) MAX_WORLD_SYSTEM_SERVICE_READS reads \<and>
       ask_system S s c n reads = Inr (TransactionResponse p) \<and>
       tx_mutations t = map decode_mutation (wst_mutations p) \<and>
       tx_events t = map (proposed_event F) (enumerate 0 (wst_events p)) \<and>
       tx_effects t = map (proposed_effect F) (enumerate 0 (wst_effects p))) \<and>
    reject_privileged_authority_output (command_schema c) t False = Inr ()"
proof -
  have here: "snap_world_id s = sws_world_id S" "command_schema c = sws_command_schema S"
      "system_rounds X F S s c MAX_WORLD_SYSTEM_SERVICE_ROUNDS [] {} = Inr t"
    using assms by (auto simp: evaluate_service_def split: if_splits)
  have "\<exists>m < MAX_WORLD_SYSTEM_SERVICE_ROUNDS. \<exists>reads. truthful (resolve_read X s) MAX_WORLD_SYSTEM_SERVICE_READS reads \<and>
      and_then (ask_system S s c m reads) (system_answer_of F) = Inr (Inl t)"
    using system_dialogue.rounds_result [of "(X, F, S, s, c)" _ "[]" "{}"] here(3) by simp
  then obtain n reads answer where n: "n < MAX_WORLD_SYSTEM_SERVICE_ROUNDS"
      "truthful (resolve_read X s) MAX_WORLD_SYSTEM_SERVICE_READS reads"
      "ask_system S s c n reads = Inr answer" "system_answer_of F answer = Inr (Inl t)"
    by (auto simp: result_simps)
  obtain p where p: "answer = TransactionResponse p" "t = decode_transaction F p"
    using n(4) by (cases answer) (auto simp: system_answer_of_def result_simps)
  then have "reject_privileged_authority_output (command_schema c) t False = Inr ()"
    by (simp add: reject_privileged_authority_output_def decode_transaction_fields list_ex_iff decode_mutation_ordinary)
  moreover have "tx_mutations t = map decode_mutation (wst_mutations p)"
      "tx_events t = map (proposed_event F) (enumerate 0 (wst_events p))"
      "tx_effects t = map (proposed_effect F) (enumerate 0 (wst_effects p))"
    by (simp_all add: p(2) decode_transaction_fields)
  ultimately show ?thesis using here(1,2) n p(1) by blast
qed

text \<open>
  Every error a provider can cause is bounded: whatever it answers, the diagnostic of a rejected or failed
  evaluation has at most 8192 bytes.
\<close>

lemma system_diagnostics_bounded:
  "case evaluate_service X F S s c of
     Inl (SystemRejected reason) \<Rightarrow> length reason \<le> MAX_SYSTEM_DIAGNOSTIC_BYTES
   | Inl (SystemError reason) \<Rightarrow> length reason \<le> MAX_SYSTEM_DIAGNOSTIC_BYTES
   | _ \<Rightarrow> True"
proof -
  have "bounded_error e" if "evaluate_service X F S s c = Inl e" for e
    using that by (auto simp: evaluate_service_def bounded_error_def MAX_SYSTEM_DIAGNOSTIC_BYTES_def
        dest: system_rounds_bounded split: if_splits)
  then show ?thesis by (fastforce simp: bounded_error_def split: sum.split system_error.split)
qed

end
