(* ===== verification/World_Projection.thy ===== *)
theory World_Projection
  imports World_Service
begin

text \<open>
  Projections: views of a world that services of extensions compute, from reads filtered by the owner of
  the projection (\<open>crates/sdk/src/world_projection.rs\<close>, \<open>crates/world-runtime/src/projection.rs\<close>).
\<close>

section \<open>Transport types (world\_projection.rs)\<close>

definition MAX_WORLD_PROJECTION_INPUT_BYTES :: nat where
  "MAX_WORLD_PROJECTION_INPUT_BYTES = 64 * 1024"

definition MAX_WORLD_PROJECTION_DIAGNOSTIC_BYTES :: nat where
  "MAX_WORLD_PROJECTION_DIAGNOSTIC_BYTES = 8 * 1024"

datatype world_projection_read_request =
    ProjectEntity entity_id
  | ProjectRelation relation_id
  | ProjectFacet world_system_facet_target schema_key
  | ProjectCanControl entity_id schema_key

datatype world_projection_read_result =
    EntityProjected entity_id "world_system_entity_record option"
  | RelationProjected relation_id "world_system_relation_record option"
  | FacetProjected world_system_facet_target schema_key "world_system_facet_record option"
  | CanControlProjected entity_id schema_key bool

record world_projection_service_request =
  wpq_world_id :: world_id
  wpq_snapshot_position :: u64
  wpq_projection_schema :: schema_key
  wpq_principal :: principal_id
  wpq_input :: json
  wpq_reads :: "world_projection_read_result list"

datatype world_projection_service_response =
    ProjectionComplete json
  | ProjectionRead "world_projection_read_request list"
  | ProjectionRejected string
  | ProjectionFailed string

record world_projection_view =
  view_world_id :: world_id
  view_snapshot_position :: u64
  view_schema :: schema_key
  view_principal :: principal_id
  view_value :: json

section \<open>The service (projection.rs)\<close>

definition MAX_WORLD_PROJECTION_SERVICE_ROUNDS :: nat where
  "MAX_WORLD_PROJECTION_SERVICE_ROUNDS = 8"

definition MAX_WORLD_PROJECTION_SERVICE_READS :: nat where
  "MAX_WORLD_PROJECTION_SERVICE_READS = 256"

datatype world_projection_error =
    CrossWorldBinding
  | ProjectionSchemaUnavailable schema_key
  | ProjectionSchemaKindMismatch schema_key
  | ProjectionSchemaOwnerMismatch schema_key
  | ProjectionInputTooLarge nat nat
  | ProjectionReadError world_read_error
  | ProjectionTransport service_call_error
  | ProjectionRequestEncode
  | ProjectionResponseDecode
  | EmptyReadRound
  | RepeatedRead
  | ReadLimitExceeded
  | RoundLimitExceeded
  | ProjectionDiagnosticTooLarge
  | ProjectionRejectedError string
  | ProjectionFailedError string
  | InvalidOutput world_error

type_synonym projection_client = "(world_projection_service_request, world_projection_service_response) service_client"

record service_world_projection =
  swp_world_id :: world_id
  swp_schema :: schema_key
  swp_owner :: string
  swp_contract :: contract_key
  swp_client :: projection_client

definition service_world_projection_new ::
  "world_id \<Rightarrow> schema_key \<Rightarrow> string \<Rightarrow> projection_client \<Rightarrow> service_world_projection" where
  "service_world_projection_new w k owner client =
     \<lparr>swp_world_id = w, swp_schema = k, swp_owner = owner,
      swp_contract = world_projection_service_contract_key k, swp_client = client\<rparr>"

definition schema_owned_by ::
  "externs \<Rightarrow> world_snapshot \<Rightarrow> schema_key \<Rightarrow> string \<Rightarrow> schema_kind \<Rightarrow> world_read_error + bool" where
  "schema_owned_by X s k owner kind =
     map_ok (\<lambda>d. case d of None \<Rightarrow> False | Some d \<Rightarrow> definition_kind d = kind \<and> definition_owner d = owner)
       (read_schema_definition X s k)"

definition resolve_projection_read ::
  "externs \<Rightarrow> world_snapshot \<Rightarrow> principal_id \<Rightarrow> string \<Rightarrow> world_projection_read_request \<Rightarrow>
   world_projection_error + world_projection_read_result" where
  "resolve_projection_read X s p owner q =
     map_err ProjectionReadError
     (case q of
        ProjectEntity i \<Rightarrow>
          and_then (read_entity s i) (\<lambda>found.
          case found of
            None \<Rightarrow> Inr (EntityProjected i None)
          | Some e \<Rightarrow>
              and_then (schema_owned_by X s (entity_schema e) owner Entity) (\<lambda>owned.
              Inr (EntityProjected i (if owned then Some (encode_entity e) else None))))
      | ProjectRelation i \<Rightarrow>
          and_then (read_relation s i) (\<lambda>found.
          case found of
            None \<Rightarrow> Inr (RelationProjected i None)
          | Some r \<Rightarrow>
              and_then (schema_owned_by X s (relation_schema r) owner Relation) (\<lambda>owned.
              Inr (RelationProjected i (if owned then Some (encode_relation r) else None))))
      | ProjectFacet t k \<Rightarrow>
          and_then (schema_owned_by X s k owner Facet) (\<lambda>owned.
          if owned
          then and_then (read_facet X s (decode_facet_target t) k) (\<lambda>v.
               Inr (FacetProjected t k (map_option encode_facet v)))
          else Inr (FacetProjected t k None))
      | ProjectCanControl e k \<Rightarrow>
          and_then (schema_owned_by X s k owner Command) (\<lambda>owned.
          if owned
          then and_then (read_can_control s p e k) (\<lambda>allowed. Inr (CanControlProjected e k allowed))
          else Inr (CanControlProjected e k False)))"

definition validate_projection_diagnostic :: "string \<Rightarrow> world_projection_error + string" where
  "validate_projection_diagnostic reason =
     (if length reason > MAX_WORLD_PROJECTION_DIAGNOSTIC_BYTES then Inl ProjectionDiagnosticTooLarge else Inr reason)"

definition projection_envelope ::
  "service_world_projection \<Rightarrow> world_snapshot \<Rightarrow> principal_id \<Rightarrow> json \<Rightarrow> world_projection_read_result list \<Rightarrow>
   world_projection_service_request" where
  "projection_envelope P s p input reads =
     \<lparr>wpq_world_id = snap_world_id s, wpq_snapshot_position = snap_position s, wpq_projection_schema = swp_schema P,
      wpq_principal = p, wpq_input = input, wpq_reads = reads\<rparr>"

text \<open>One call of the provider, with \<open>n\<close> rounds left after it.\<close>

definition ask_projection ::
  "service_world_projection \<Rightarrow> world_snapshot \<Rightarrow> principal_id \<Rightarrow> json \<Rightarrow> nat \<Rightarrow> world_projection_read_result list \<Rightarrow>
   world_projection_error + world_projection_service_response" where
  "ask_projection P s p input n reads =
     and_then (ok_or ProjectionRequestEncode (to_vec (swp_client P) (projection_envelope P s p input reads))) (\<lambda>request.
     and_then (map_err ProjectionTransport
        (call_service (swp_client P) (MAX_WORLD_PROJECTION_SERVICE_ROUNDS - Suc n) (swp_contract P) request)) (\<lambda>response.
     ok_or ProjectionResponseDecode (from_slice (swp_client P) response)))"

fun projection_rounds ::
  "externs \<Rightarrow> service_world_projection \<Rightarrow> schema_registry \<Rightarrow> world_snapshot \<Rightarrow> principal_id \<Rightarrow> json \<Rightarrow> nat \<Rightarrow>
   world_projection_read_result list \<Rightarrow> world_projection_read_request set \<Rightarrow>
   world_projection_error + world_projection_view" where
  "projection_rounds X P reg s p input 0 reads seen = Inl RoundLimitExceeded"
| "projection_rounds X P reg s p input (Suc n) reads seen =
     and_then (ask_projection P s p input n reads) (\<lambda>response.
     case response of
       ProjectionComplete v \<Rightarrow>
         and_then (map_err InvalidOutput (validate_payload reg (swp_schema P) Projection v)) (\<lambda>_.
         Inr \<lparr>view_world_id = snap_world_id s, view_snapshot_position = snap_position s,
              view_schema = swp_schema P, view_principal = p, view_value = v\<rparr>)
     | ProjectionRejected reason \<Rightarrow> and_then (validate_projection_diagnostic reason) (\<lambda>reason. Inl (ProjectionRejectedError reason))
     | ProjectionFailed reason \<Rightarrow> and_then (validate_projection_diagnostic reason) (\<lambda>reason. Inl (ProjectionFailedError reason))
     | ProjectionRead requests \<Rightarrow>
         if requests = [] then Inl EmptyReadRound
         else if length reads + length requests > MAX_WORLD_PROJECTION_SERVICE_READS then Inl ReadLimitExceeded
         else
           and_then (resolve_reads (resolve_projection_read X s p (swp_owner P)) RepeatedRead requests reads seen) (\<lambda>(reads, seen).
           projection_rounds X P reg s p input n reads seen))"

definition project ::
  "externs \<Rightarrow> service_world_projection \<Rightarrow> world_snapshot \<Rightarrow> principal_id \<Rightarrow> json \<Rightarrow>
   world_projection_error + world_projection_view" where
  "project X P s p input =
     (if snap_world_id s \<noteq> swp_world_id P then Inl CrossWorldBinding
      else
        and_then (map_err ProjectionReadError (read_schema_definition X s (swp_schema P))) (\<lambda>found.
        and_then (ok_or (ProjectionSchemaUnavailable (swp_schema P)) found) (\<lambda>d.
        if definition_kind d \<noteq> Projection then Inl (ProjectionSchemaKindMismatch (swp_schema P))
        else if definition_owner d \<noteq> swp_owner P then Inl (ProjectionSchemaOwnerMismatch (swp_schema P))
        else if length (json_text X input) > MAX_WORLD_PROJECTION_INPUT_BYTES
        then Inl (ProjectionInputTooLarge (length (json_text X input)) MAX_WORLD_PROJECTION_INPUT_BYTES)
        else
          and_then (map_err InvalidOutput (registry_register (validator_for X) schema_registry_new d)) (\<lambda>(_, reg).
          projection_rounds X P reg s p input MAX_WORLD_PROJECTION_SERVICE_ROUNDS [] {}))))"

section \<open>The projection is a dialogue\<close>

definition projection_answer_of ::
  "service_world_projection \<Rightarrow> schema_registry \<Rightarrow> world_snapshot \<Rightarrow> principal_id \<Rightarrow> world_projection_service_response \<Rightarrow>
   world_projection_error + (world_projection_view + world_projection_read_request list)" where
  "projection_answer_of P reg s p response =
     (case response of
       ProjectionComplete v \<Rightarrow>
         and_then (map_err InvalidOutput (validate_payload reg (swp_schema P) Projection v)) (\<lambda>_.
         Inr (Inl \<lparr>view_world_id = snap_world_id s, view_snapshot_position = snap_position s,
              view_schema = swp_schema P, view_principal = p, view_value = v\<rparr>))
     | ProjectionRejected reason \<Rightarrow> and_then (validate_projection_diagnostic reason) (\<lambda>reason. Inl (ProjectionRejectedError reason))
     | ProjectionFailed reason \<Rightarrow> and_then (validate_projection_diagnostic reason) (\<lambda>reason. Inl (ProjectionFailedError reason))
     | ProjectionRead requests \<Rightarrow> Inr (Inr requests))"

interpretation projection_dialogue: read_dialogue
  "\<lambda>(X, P, reg, s, p, input). projection_rounds X P reg s p input"
  "\<lambda>(X, P, reg, s, p, input) n reads. and_then (ask_projection P s p input n reads) (projection_answer_of P reg s p)"
  "\<lambda>(X, P, reg, s, p, input). resolve_projection_read X s p (swp_owner P)"
  RoundLimitExceeded EmptyReadRound ReadLimitExceeded RepeatedRead MAX_WORLD_PROJECTION_SERVICE_READS
  by unfold_locales
    (auto simp: projection_answer_of_def and_then_def split: sum.split world_projection_service_response.split)

section \<open>What a projection can see\<close>

text \<open>A schema of a kind that the owner of the projection registered.\<close>

definition owns_schema :: "externs \<Rightarrow> world_snapshot \<Rightarrow> string \<Rightarrow> schema_kind \<Rightarrow> schema_key \<Rightarrow> bool" where
  "owns_schema X s owner kind k \<longleftrightarrow>
     (\<exists>d. load_schema X (snap_db s) k = Inr (Some d) \<and> definition_kind d = kind \<and> definition_owner d = owner)"

text \<open>
  Two snapshots agree for an owner and a principal when they know the same schemas and agree on the entities,
  relations and facets of the owner's schemas, and on the principal's authority for the owner's commands. Anything else
  may differ: what other extensions store, and what other principals may do.
\<close>

definition same_view :: "externs \<Rightarrow> string \<Rightarrow> principal_id \<Rightarrow> world_snapshot \<Rightarrow> world_snapshot \<Rightarrow> bool" where
  "same_view X owner p s s' \<longleftrightarrow>
     snap_world_id s = snap_world_id s' \<and> snap_position s = snap_position s' \<and>
     load_schema X (snap_db s) = load_schema X (snap_db s') \<and>
     (\<forall>i k. owns_schema X s owner Entity k \<longrightarrow>
        (aw_entities (abs_db (snap_db s)) i = Some k \<longleftrightarrow> aw_entities (abs_db (snap_db s')) i = Some k)) \<and>
     (\<forall>i k v. owns_schema X s owner Relation k \<longrightarrow>
        (aw_relations (abs_db (snap_db s)) i = Some (k, v) \<longleftrightarrow> aw_relations (abs_db (snap_db s')) i = Some (k, v))) \<and>
     (\<forall>t k. owns_schema X s owner Facet k \<longrightarrow>
        aw_facets (abs_db (snap_db s)) (t, k) = aw_facets (abs_db (snap_db s')) (t, k)) \<and>
     (\<forall>e k. owns_schema X s owner Command k \<longrightarrow>
        abs_can_control (abs_db (snap_db s)) p e k (uint (snap_position s)) =
        abs_can_control (abs_db (snap_db s')) p e k (uint (snap_position s)))"

lemma schema_owned_by_wf:
  assumes "db_wf X (snap_db s)"
  shows "schema_owned_by X s k owner kind = Inr (owns_schema X s owner kind k)"
proof -
  have "schemas_wf X (snap_db s)" using assms by (rule db_wf_parts)
  then obtain reg :: schema_registry where "load_schema X (snap_db s) k = Inr (definitions reg k)"
    using mirrors_load [of X "snap_db s"] unfolding mirrors_def by blast
  then show ?thesis
    by (simp add: schema_owned_by_def read_schema_definition_def snapshot_load_schema_def owns_schema_def split: option.split)
qed

text \<open>The four reads, over the abstract world.\<close>

lemma project_entity_wf:
  assumes "db_wf X (snap_db s)"
  shows "resolve_projection_read X s p owner (ProjectEntity i) = Inr (EntityProjected i
    (case aw_entities (abs_db (snap_db s)) i of
       None \<Rightarrow> None
     | Some k \<Rightarrow> if owns_schema X s owner Entity k then Some \<lparr>wse_id = i, wse_schema = k\<rparr> else None))"
  by (simp add: resolve_projection_read_def read_entity_def snapshot_load_entity_def load_entity_abs [OF assms]
      schema_owned_by_wf [OF assms] encode_entity_def split: option.split)

lemma project_relation_wf:
  assumes "db_wf X (snap_db s)"
  shows "resolve_projection_read X s p owner (ProjectRelation i) = Inr (RelationProjected i
    (case aw_relations (abs_db (snap_db s)) i of
       None \<Rightarrow> None
     | Some (k, f, t) \<Rightarrow>
         if owns_schema X s owner Relation k then Some \<lparr>wsr_id = i, wsr_schema = k, wsr_from = f, wsr_to = t\<rparr> else None))"
  by (simp add: resolve_projection_read_def read_relation_def snapshot_load_relation_def load_relation_abs [OF assms]
      schema_owned_by_wf [OF assms] encode_relation_def split: option.split)

lemma project_control_wf:
  assumes "db_wf X (snap_db s)" and "uint (snap_position s) < 2 ^ 63"
  shows "resolve_projection_read X s p owner (ProjectCanControl e k) = Inr (CanControlProjected e k
    (owns_schema X s owner Command k \<and> abs_can_control (abs_db (snap_db s)) p e k (uint (snap_position s))))"
  by (simp add: resolve_projection_read_def schema_owned_by_wf [OF assms(1)] read_can_control_def snapshot_can_control_def
      principal_can_control_abs [OF assms])

lemma same_view_read:
  assumes wf: "db_wf X (snap_db s)" "db_wf X (snap_db s')" and pos: "uint (snap_position s) < 2 ^ 63"
    and same: "same_view X owner p s s'"
  shows "resolve_projection_read X s p owner q = resolve_projection_read X s' p owner q"
proof (cases q)
  case (ProjectEntity i)
  have "owns_schema X s' owner Entity = owns_schema X s owner Entity"
    using same by (simp add: same_view_def owns_schema_def fun_eq_iff)
  moreover have "owns_schema X s owner Entity k \<Longrightarrow>
      aw_entities (abs_db (snap_db s)) i = Some k \<longleftrightarrow> aw_entities (abs_db (snap_db s')) i = Some k" for k
    using same by (simp add: same_view_def)
  ultimately show ?thesis unfolding ProjectEntity project_entity_wf [OF wf(1)] project_entity_wf [OF wf(2)]
    by (fastforce split: option.split)
next
  case (ProjectRelation i)
  have "owns_schema X s' owner Relation = owns_schema X s owner Relation"
    using same by (simp add: same_view_def owns_schema_def fun_eq_iff)
  moreover have "owns_schema X s owner Relation k \<Longrightarrow>
      aw_relations (abs_db (snap_db s)) i = Some (k, v) \<longleftrightarrow> aw_relations (abs_db (snap_db s')) i = Some (k, v)" for k v
    using same unfolding same_view_def by blast
  ultimately show ?thesis unfolding ProjectRelation project_relation_wf [OF wf(1)] project_relation_wf [OF wf(2)]
    by (fastforce split: option.split)
next
  case (ProjectFacet t k)
  have "owns_schema X s' owner Facet = owns_schema X s owner Facet"
    using same by (simp add: same_view_def owns_schema_def fun_eq_iff)
  moreover have "owns_schema X s owner Facet k \<Longrightarrow>
      aw_facets (abs_db (snap_db s)) (decode_facet_target t, k) = aw_facets (abs_db (snap_db s')) (decode_facet_target t, k)"
    using same by (simp add: same_view_def)
  ultimately show ?thesis
    by (simp add: ProjectFacet resolve_projection_read_def schema_owned_by_wf wf read_facet_def snapshot_load_facet_def
        load_facet_abs)
next
  case (ProjectCanControl e k)
  have "owns_schema X s' owner Command = owns_schema X s owner Command" "snap_position s' = snap_position s"
    using same by (simp_all add: same_view_def owns_schema_def fun_eq_iff)
  moreover have "owns_schema X s owner Command k \<Longrightarrow>
      abs_can_control (abs_db (snap_db s)) p e k (uint (snap_position s)) =
      abs_can_control (abs_db (snap_db s')) p e k (uint (snap_position s))"
    using same unfolding same_view_def by blast
  ultimately show ?thesis using pos by (auto simp: ProjectCanControl project_control_wf wf)
qed

text \<open>
  C9. Non-interference: what a projection shows a principal depends only on the schemas, the owner's part of the world and
  that principal's authority for the owner's commands. On two snapshots that agree on these, every request gives the
  same view or the same error, whatever the provider does, and however they differ elsewhere.
\<close>

lemma projection_noninterference:
  assumes "db_wf X (snap_db s)" and "db_wf X (snap_db s')" and "uint (snap_position s) < 2 ^ 63"
    and "same_view X (swp_owner P) p s s'"
  shows "project X P s p input = project X P s' p input"
proof -
  have here: "snap_world_id s' = snap_world_id s" "snap_position s' = snap_position s"
      "load_schema X (snap_db s') = load_schema X (snap_db s)"
    using assms(4) by (simp_all add: same_view_def)
  have reads: "resolve_projection_read X s p (swp_owner P) = resolve_projection_read X s' p (swp_owner P)"
    using same_view_read [OF assms] by blast
  have "ask_projection P s' p input n rs = ask_projection P s p input n rs"
      "projection_answer_of P reg s' p = projection_answer_of P reg s p" for n rs reg
    by (simp_all add: ask_projection_def projection_envelope_def projection_answer_of_def here fun_eq_iff
        split: world_projection_service_response.split)
  then have "projection_rounds X P reg s p input n [] {} = projection_rounds X P reg s' p input n [] {}" for reg n
    using projection_dialogue.rounds_cong [of n "(X, P, reg, s, p, input)" "(X, P, reg, s', p, input)" "[]" "{}"]
    by (simp add: reads)
  then show ?thesis
    by (simp add: project_def here read_schema_definition_def snapshot_load_schema_def cong: if_cong)
qed

text \<open>
  A view is what it says: it names the world, the position and the principal it was computed for, its schema is a
  projection schema of the owner, its value was the provider's answer to truthful reads of the snapshot and is
  accepted by the schema, and the input was at most 64 KiB.
\<close>

lemma projection_view_validated:
  assumes "project X P s p input = Inr view"
  shows "view_world_id view = swp_world_id P \<and> view_world_id view = snap_world_id s \<and>
    view_snapshot_position view = snap_position s \<and> view_schema view = swp_schema P \<and> view_principal view = p \<and>
    length (json_text X input) \<le> 65536 \<and>
    (\<exists>d v. load_schema X (snap_db s) (swp_schema P) = Inr (Some d) \<and> definition_kind d = Projection \<and>
       definition_owner d = swp_owner P \<and> validator_for X (definition_document d) = Inr v \<and> v (view_value view) = None) \<and>
    (\<exists>n < 8. \<exists>reads. truthful (resolve_projection_read X s p (swp_owner P)) 256 reads \<and>
       ask_projection P s p input n reads = Inr (ProjectionComplete (view_value view)))"
proof -
  obtain d r reg where d: "snap_world_id s = swp_world_id P" "load_schema X (snap_db s) (swp_schema P) = Inr (Some d)"
      "definition_kind d = Projection" "definition_owner d = swp_owner P"
      "length (json_text X input) \<le> MAX_WORLD_PROJECTION_INPUT_BYTES"
      "registry_register (validator_for X) schema_registry_new d = Inr (r, reg)"
      "projection_rounds X P reg s p input MAX_WORLD_PROJECTION_SERVICE_ROUNDS [] {} = Inr view"
    using assms by (auto simp: project_def result_simps read_schema_definition_def snapshot_load_schema_def split: if_splits)
  have "\<exists>m < MAX_WORLD_PROJECTION_SERVICE_ROUNDS. \<exists>reads.
      truthful (resolve_projection_read X s p (swp_owner P)) MAX_WORLD_PROJECTION_SERVICE_READS reads \<and>
      and_then (ask_projection P s p input m reads) (projection_answer_of P reg s p) = Inr (Inl view)"
    using projection_dialogue.rounds_result [of "(X, P, reg, s, p, input)" _ "[]" "{}"] d(7) by simp
  then obtain n reads answer where n: "n < MAX_WORLD_PROJECTION_SERVICE_ROUNDS"
      "truthful (resolve_projection_read X s p (swp_owner P)) MAX_WORLD_PROJECTION_SERVICE_READS reads"
      "ask_projection P s p input n reads = Inr answer" "projection_answer_of P reg s p answer = Inr (Inl view)"
    by (auto simp: result_simps)
  obtain v where v: "answer = ProjectionComplete v" "validate_payload reg (swp_schema P) Projection v = Inr ()"
      "view = \<lparr>view_world_id = snap_world_id s, view_snapshot_position = snap_position s, view_schema = swp_schema P,
        view_principal = p, view_value = v\<rparr>"
    using n(4) by (cases answer) (auto simp: projection_answer_of_def result_simps)
  have "\<exists>vd. validator_for X (definition_document d) = Inr vd \<and> vd v = None"
    using d(6) v(2) by (auto simp: registry_register_Inr validate_payload_Inr schema_registry_new_def split: if_splits)
  then show ?thesis
    using d n v by (auto simp: MAX_WORLD_PROJECTION_SERVICE_ROUNDS_def MAX_WORLD_PROJECTION_SERVICE_READS_def
        MAX_WORLD_PROJECTION_INPUT_BYTES_def)
qed

end
