(* ===== verification/World_Effect.thy ===== *)
theory World_Effect
  imports World_Contracts Storage_Properties
begin

text \<open>
  Effect handlers of extensions (\<open>crates/world-runtime/src/effect.rs\<close>): a claimed job is sent to a service, whose
  answer may hold a follow-up command, accepted only when it is tied to the job.
\<close>

section \<open>The protocol\<close>

definition MAX_WORLD_EFFECT_DIAGNOSTIC_BYTES :: nat where
  "MAX_WORLD_EFFECT_DIAGNOSTIC_BYTES = 8 * 1024"

definition effect_completion_command_id :: "effect_job_id \<Rightarrow> command_id" where
  "effect_completion_command_id i = from_bytes (into_bytes i)"

record world_effect_service_request =
  weq_world_id :: world_id
  weq_job :: stored_job
  weq_lease_expires_at :: unix_time
  weq_completion_command_id :: command_id

definition world_effect_service_request_new :: "claimed_effect_job \<Rightarrow> world_effect_service_request" where
  "world_effect_service_request_new claim =
     (let job = claimed_job claim
      in \<lparr>weq_world_id = job_world_id job, weq_job = job, weq_lease_expires_at = claimed_lease claim,
          weq_completion_command_id = effect_completion_command_id (job_id job)\<rparr>)"

datatype world_effect_service_response =
    EffectComplete "world_command option"
  | EffectRetry string
  | EffectCancel string

datatype world_effect_service_error =
    EffectWorldMismatch
  | EffectSchemaMismatch
  | EffectTransport service_call_error
  | EffectInvalidResponse
  | EffectDiagnosticTooLarge
  | EffectCommandIdMismatch
  | EffectCommandPrincipalMismatch
  | EffectCommandCorrelationMismatch
  | EffectCommandCausationMismatch

section \<open>Execution\<close>

definition validate_effect_response ::
  "stored_job \<Rightarrow> world_effect_service_response \<Rightarrow> world_effect_service_error + unit" where
  "validate_effect_response job response =
     (case response of
        EffectRetry reason \<Rightarrow>
          if length reason > MAX_WORLD_EFFECT_DIAGNOSTIC_BYTES then Inl EffectDiagnosticTooLarge else Inr ()
      | EffectCancel reason \<Rightarrow>
          if length reason > MAX_WORLD_EFFECT_DIAGNOSTIC_BYTES then Inl EffectDiagnosticTooLarge else Inr ()
      | EffectComplete None \<Rightarrow> Inr ()
      | EffectComplete (Some c) \<Rightarrow>
          if command_id c \<noteq> effect_completion_command_id (job_id job) then Inl EffectCommandIdMismatch
          else if command_principal c \<noteq> prov_principal (job_provenance job) then Inl EffectCommandPrincipalMismatch
          else if command_correlation c \<noteq> prov_correlation (job_provenance job) then Inl EffectCommandCorrelationMismatch
          else if command_causation c \<noteq> Some (CausedByEffect (job_id job)) then Inl EffectCommandCausationMismatch
          else Inr ())"

type_synonym effect_client = "(world_effect_service_request, world_effect_service_response) service_client"

record service_world_effect_handler =
  seh_world_id :: world_id
  seh_schema :: schema_key
  seh_contract :: contract_key
  seh_client :: effect_client

definition service_world_effect_handler_new :: "world_id \<Rightarrow> schema_key \<Rightarrow> effect_client \<Rightarrow> service_world_effect_handler" where
  "service_world_effect_handler_new w k client =
     \<lparr>seh_world_id = w, seh_schema = k, seh_contract = world_effect_service_contract_key k, seh_client = client\<rparr>"

definition execute_effect ::
  "service_world_effect_handler \<Rightarrow> claimed_effect_job \<Rightarrow> world_effect_service_error + world_effect_service_response" where
  "execute_effect H claim =
     (let job = claimed_job claim
      in if job_world_id job \<noteq> seh_world_id H then Inl EffectWorldMismatch
         else if job_schema job \<noteq> seh_schema H then Inl EffectSchemaMismatch
         else
           and_then (ok_or EffectInvalidResponse (to_vec (seh_client H) (world_effect_service_request_new claim))) (\<lambda>request.
           and_then (map_err EffectTransport (call_service (seh_client H) 0 (seh_contract H) request)) (\<lambda>response.
           and_then (ok_or EffectInvalidResponse (from_slice (seh_client H) response)) (\<lambda>response.
           and_then (validate_effect_response job response) (\<lambda>_.
           Inr response)))))"

section \<open>Properties\<close>

lemma execute_effect_valid:
  assumes "execute_effect H claim = Inr response"
  shows "validate_effect_response (claimed_job claim) response = Inr ()" and "job_world_id (claimed_job claim) = seh_world_id H"
    and "job_schema (claimed_job claim) = seh_schema H"
  using assms by (auto simp: execute_effect_def Let_def result_simps split: if_splits)

lemma follow_up_valid:
  "validate_effect_response job (EffectComplete (Some c)) = Inr () \<longleftrightarrow>
     command_id c = effect_completion_command_id (job_id job) \<and> command_principal c = prov_principal (job_provenance job) \<and>
     command_correlation c = prov_correlation (job_provenance job) \<and> command_causation c = Some (CausedByEffect (job_id job))"
  by (simp add: validate_effect_response_def)

lemma completion_id_inject: "effect_completion_command_id i = effect_completion_command_id j \<longleftrightarrow> i = j"
proof -
  have "into_bytes (effect_completion_command_id i) = into_bytes i" for i
    by (simp add: effect_completion_command_id_def into_from_bytes)
  then show ?thesis by (metis into_bytes_inject)
qed

text \<open>
  What a handler may answer: a follow-up command is accepted only with the identity of its job, the principal and
  the correlation of the command that caused the job, and the job as its cause; follow-ups of different jobs have
  different identities; and a diagnostic has at most 8192 bytes.
\<close>

lemma follow_up_tied_to_job:
  assumes "execute_effect H claim = Inr response"
  shows "case response of
      EffectComplete None \<Rightarrow> True
    | EffectComplete (Some c) \<Rightarrow>
        command_principal c = prov_principal (job_provenance (claimed_job claim)) \<and>
        command_correlation c = prov_correlation (job_provenance (claimed_job claim)) \<and>
        command_causation c = Some (CausedByEffect (job_id (claimed_job claim))) \<and>
        (\<forall>i. command_id c = effect_completion_command_id i \<longleftrightarrow> i = job_id (claimed_job claim))
    | EffectRetry reason \<Rightarrow> length reason \<le> 8192
    | EffectCancel reason \<Rightarrow> length reason \<le> 8192"
  using execute_effect_valid(1) [OF assms]
  by (auto simp: follow_up_valid completion_id_inject validate_effect_response_def MAX_WORLD_EFFECT_DIAGNOSTIC_BYTES_def
      split: world_effect_service_response.split option.split if_splits)

text \<open>
  C11. An effect is answered in the world at most once: when a follow-up of a job has committed, a follow-up of any
  other execution of the same job, by whatever handler and attempt, changes nothing at any later point; it is answered
  with the first receipt when it is the same command, and refused with \<open>CommandIdConflict\<close> otherwise.
\<close>

lemma effect_follow_up_once:
  assumes "execute_effect H claim = Inr (EffectComplete (Some c))"
    and "execute_effect H' claim' = Inr (EffectComplete (Some c'))"
    and "job_id (claimed_job claim') = job_id (claimed_job claim)"
    and inv: "storage_inv X db" and adm: "admissible_commit X (t, evaluated, now)"
    and first: "commit X c t evaluated now db = (Inr r, db1)" and later: "(storage_step X w)\<^sup>*\<^sup>* db1 db2"
  shows "commit X c' t' evaluated' now' db2 =
    (if command_digest X c' = command_digest X c then Inr (already r)
     else Inl (World (CommandIdConflict (command_id c'))), db2)"
proof -
  have same: "command_id c' = command_id c"
    using execute_effect_valid(1) [OF assms(1)] execute_effect_valid(1) [OF assms(2)] assms(3) by (simp add: follow_up_valid)
  have sub: "submit_commit X c (t, evaluated, now) db = (Inr r, db1)" using first by (simp add: submit_commit_def)
  have "storage_step X w db db1" using adm first by (auto simp: admissible_commit_def intro: storage_step.commit)
  then have inv1: "storage_inv X db1" by (rule storage_step_inv [OF inv])
  have rec: "storage_inv X db2 \<and> committed_receipt X db2 c = Inr (Some (already r))"
    using store.receipt_for_ever [OF later inv1] store.receipt_after [OF inv sub] by blast
  show ?thesis
  proof (cases "command_digest X c' = command_digest X c")
    case True
    then have "committed_receipt X db2 c' = Inr (Some (already r))" using rec same by (simp add: committed_receipt_def)
    then show ?thesis using True by (simp add: commit_def commit_transaction_def committed_receipt_def)
  next
    case False
    then show ?thesis using conflict_of_receipt [OF storage_inv_wf _ same] rec by simp
  qed
qed

end
