(* ===== verification/Runtime_Witnesses.thy ===== *)
theory Runtime_Witnesses
  imports World_Witnesses Runtime_Properties World_Projection World_Effect
begin

text \<open>The runtime and its services on the example world, and the general theorems applied to them.\<close>

section \<open>A command, from submission to answer\<close>

definition ex_systems :: systems where
  "ex_systems = [SchemaKey (SchemaId ''ex.note'') (SchemaVersion 1) \<mapsto>
     \<lparr>evaluate_system = \<lambda>s c. Answered (Inr ex_transaction), can_mutate_authority = False\<rparr>]"

definition ex_outcome :: world_command_outcome where
  "ex_outcome = \<lparr>outcome_receipt = new_receipt ex_command ex_transaction 1,
     outcome_events = map (stored_event_of ex_world ex_command 1 ex_now) (enumerate 0 (tx_events ex_transaction))\<rparr>"

lemma ex_systems_admissible: "systems_admissible ex_externs ex_systems"
proof -
  have "commit_bounded ex_transaction now" if "clock_bounded now" for now
    using that by (simp add: commit_bounded_def ex_transaction_def mutation_bounded_def ex_person_def)
  then have "admissible_commit ex_externs (ex_transaction, evaluated, now)" if "clock_bounded now" for now evaluated
    using that by (simp add: admissible_commit_def) (simp add: ex_transaction_def)
  then show ?thesis by (auto simp: systems_admissible_def ex_systems_def split: if_splits)
qed

lemma ex_clock: "clock_bounded ex_now"
  by (simp add: clock_bounded_def ex_now_def)

lemma ex_lookup: "lookup_stage ex_externs ex_world ex_command ex_db1 = Inr None"
  by (simp add: lookup_stage_def ex_new)

lemma ex_evaluate: "evaluate_stage ex_externs ex_world ex_systems ex_command ex_db1 = Inr (ex_transaction, 0)"
proof -
  have "validate_command ex_externs ex_db1 ex_command = Inr 0"
    using ex_checked by (auto simp: check_commit_def validate_command_def result_simps split: if_splits)
  then have "snapshot_for_command ex_externs ex_world ex_command ex_db1 =
      Inr \<lparr>snap_db = ex_db1, snap_world_id = ex_world, snap_position = 0\<rparr>"
    by (simp add: snapshot_for_command_def)
  moreover have "ex_systems (command_schema ex_command) =
      Some \<lparr>evaluate_system = \<lambda>s c. Answered (Inr ex_transaction), can_mutate_authority = False\<rparr>"
    by (simp add: ex_systems_def ex_command_def command_with_ids_def)
  ultimately show ?thesis
    by (simp add: evaluate_stage_def reject_privileged_authority_output_def ex_transaction_def ex_person_def authority_mutation_def)
qed

lemma ex_commit_stage:
  "commit_stage ex_externs ex_world ex_command ex_transaction 0 ex_now ex_db1 = (Inr ex_outcome, ex_db2)"
proof -
  have pos: "receipt_position (new_receipt ex_command ex_transaction 1) = 1" by (simp add: new_receipt_def)
  have "events_at_position ex_externs ex_db2 ex_world 1 = Inr (outcome_events ex_outcome)"
    using commit_events_read_back [OF ex_db1_wf ex_new ex_checked _ ex_bounded ex_committed(1), of ex_world]
    by (simp add: ex_outcome_def pos) (simp add: ex_transaction_def)
  then show ?thesis
    by (simp add: commit_stage_def ex_committed(1) outcome_of_def pos) (simp add: ex_outcome_def)
qed

definition ex_rt :: "worker_phase \<Rightarrow> runtime_state" where
  "ex_rt phase = \<lparr>rt_accepting = True, rt_submitted = [ex_command], rt_queue = [], rt_worker = phase,
     rt_answers = [], rt_db = ex_db1\<rparr>"

definition ex_queued :: runtime_state where
  "ex_queued = (ex_rt Waiting)\<lparr>rt_queue := [(0, ex_command)]\<rparr>"

definition ex_answered :: runtime_state where
  "ex_answered = (ex_rt Waiting)\<lparr>rt_answers := [(0, ex_command, Inr ex_outcome)], rt_db := ex_db2\<rparr>"

lemma ex_work:
  "work ex_externs ex_world ex_systems ex_now ex_queued = Some (ex_rt (Looking 0 ex_command))"
  "work ex_externs ex_world ex_systems ex_now (ex_rt (Looking 0 ex_command)) = Some (ex_rt (Evaluating 0 ex_command))"
  "work ex_externs ex_world ex_systems ex_now (ex_rt (Evaluating 0 ex_command)) =
     Some (ex_rt (Committing 0 ex_command ex_transaction 0))"
  "work ex_externs ex_world ex_systems ex_now (ex_rt (Committing 0 ex_command ex_transaction 0)) = Some ex_answered"
  by (simp_all add: work_def ex_rt_def ex_queued_def ex_answered_def ex_lookup ex_evaluate ex_commit_stage send_answer_def)

lemma ex_submit: "submit 1 ex_command (started ex_db1) = (Inr 0, ex_queued)"
  by (simp add: submit_def started_def ex_queued_def ex_rt_def)

lemma ex_runtime_run:
  "(runtime_step ex_externs ex_world ex_systems 1)\<^sup>*\<^sup>* (started ex_db1) ex_queued"
  "(runtime_step ex_externs ex_world ex_systems 1)\<^sup>*\<^sup>* (started ex_db1) (ex_rt (Committing 0 ex_command ex_transaction 0))"
  "(runtime_step ex_externs ex_world ex_systems 1)\<^sup>*\<^sup>* (started ex_db1) ex_answered"
proof -
  note step = runtime_step.work [OF ex_clock, where capacity = 1]
  show q: "(runtime_step ex_externs ex_world ex_systems 1)\<^sup>*\<^sup>* (started ex_db1) ex_queued"
    using runtime_step.submit [OF ex_submit] by blast
  show c: "(runtime_step ex_externs ex_world ex_systems 1)\<^sup>*\<^sup>* (started ex_db1) (ex_rt (Committing 0 ex_command ex_transaction 0))"
    by (rule rtranclp_trans [OF q]) (use step [OF ex_work(1)] step [OF ex_work(2)] step [OF ex_work(3)] in
        \<open>meson rtranclp.rtrancl_into_rtrancl rtranclp.rtrancl_refl\<close>)
  show "(runtime_step ex_externs ex_world ex_systems 1)\<^sup>*\<^sup>* (started ex_db1) ex_answered"
    using c step [OF ex_work(4)] by (rule rtranclp.rtrancl_into_rtrancl)
qed

section \<open>Promises of the runtime\<close>

lemma answers_final_witness:
  "process_command ex_externs ex_world Map.empty ex_now ex_command ex_db2 ex_db2 ex_db3 =
     (Inr (replayed_outcome ex_outcome), ex_db3)"
proof -
  have "(0, ex_command, Inr ex_outcome) \<in> set (rt_answers ex_answered)" by (simp add: ex_answered_def)
  from answers_final [OF ex_db1_inv ex_systems_admissible ex_runtime_run(3) this rtranclp.rtrancl_refl]
  show ?thesis by (simp add: ex_answered_def)
qed

lemma tickets_served_in_order_witness: "answered ex_answered = [(0, ex_command)]"
  using tickets_served_in_order [OF ex_db1_inv ex_systems_admissible ex_runtime_run(3)]
  by (simp add: ex_answered_def ex_rt_def)

lemma shutdown_drains_witness:
  "answered (run_worker ex_externs ex_world ex_systems (replicate 8 ex_now) (stop_worker ex_queued)) = [(0, ex_command)]"
proof -
  have "4 * (length (rt_queue ex_queued) + 1) \<le> length (replicate 8 ex_now)" by (simp add: ex_queued_def)
  then show ?thesis
    using shutdown_drains [OF ex_db1_inv ex_systems_admissible ex_runtime_run(1), of "replicate 8 ex_now"] ex_clock
    by (simp add: ex_queued_def ex_rt_def Let_def)
qed

lemma worker_runs_process_command_witness:
  "\<exists>n \<le> 3. run_worker ex_externs ex_world ex_systems (replicate n ex_now) (ex_rt (Looking 0 ex_command)) = ex_answered"
proof -
  have "rt_worker (ex_rt (Looking 0 ex_command)) = Looking 0 ex_command" by (simp add: ex_rt_def)
  from worker_runs_process_command [OF this, of ex_externs ex_world ex_systems ex_now] show ?thesis
    by (simp add: process_command_def ex_rt_def ex_lookup ex_evaluate ex_commit_stage ex_answered_def send_answer_def)
qed


lemma start_runtime_iff_witness:
  "start_runtime ex_externs ex_world 4096 [SchemaKey (SchemaId ''ex.note'') (SchemaVersion 1)] ex_db1 = Inr () \<and>
   start_runtime ex_externs ex_world 4097 [] ex_db1 \<noteq> Inr ()"
  using start_runtime_iff [OF ex_db1_wf, of ex_world] by (simp add: ex_load_schema(1) ex_definition_def)

section \<open>A service-backed system\<close>

text \<open>A provider that first reads the person and then proposes an event.\<close>

definition ex_proposal :: world_system_transaction where
  "ex_proposal = \<lparr>wst_mutations = [ProposeDeleteEntity (OpaqueId 20)],
     wst_events = [\<lparr>wsp_event_schema = SchemaKey (SchemaId ''ex.noted'') (SchemaVersion 1), wsp_event_payload = JNull\<rparr>],
     wst_effects = []\<rparr>"

definition ex_ids :: fresh_ids where
  "ex_ids = \<lparr>fresh_event = \<lambda>n. OpaqueId (word_of_nat (100 + n)), fresh_job = \<lambda>n. OpaqueId (word_of_nat (200 + n))\<rparr>"

definition ex_service :: service_world_system where
  "ex_service = service_world_system_new ex_world (SchemaKey (SchemaId ''ex.note'') (SchemaVersion 1))
     \<lparr>to_vec = \<lambda>q. Some (replicate (length (wsq_reads q)) 0),
      from_slice = \<lambda>b. Some (if b = [] then ReadResponse [ReadEntity (OpaqueId 20)] else TransactionResponse ex_proposal),
      call_service = \<lambda>n k b. Inr b\<rparr>"

definition ex_snapshot :: "world_db \<Rightarrow> world_snapshot" where
  "ex_snapshot db = \<lparr>snap_db = db, snap_world_id = ex_world, snap_position = 1\<rparr>"

lemma ex_person_read:
  "resolve_read ex_externs (ex_snapshot ex_db2) (ReadEntity (OpaqueId 20)) =
     Inr (EntityRead (OpaqueId 20) (map_option (\<lambda>k. \<lparr>wse_id = OpaqueId 20, wse_schema = k\<rparr>) (aw_entities (abs_db ex_db2) (OpaqueId 20))))"
  by (simp add: resolve_read_def read_entity_def snapshot_load_entity_def ex_snapshot_def load_entity_abs [OF ex_db2_wf]
      option.map_comp comp_def encode_entity_def)

lemma ex_service_evaluates:
  "evaluate_service ex_externs ex_ids ex_service (ex_snapshot ex_db2) ex_command = Inr (decode_transaction ex_ids ex_proposal)"
  by (simp add: evaluate_service_def ex_service_def service_world_system_new_def ex_command_def command_with_ids_def
      MAX_WORLD_SYSTEM_SERVICE_ROUNDS_def MAX_WORLD_SYSTEM_SERVICE_READS_def numeral_eq_Suc ask_system_def system_envelope_def
      ex_person_read) (simp add: ex_snapshot_def)

lemma provider_sees_truthful_envelopes_witness:
  "evaluate_service ex_externs ex_ids (ex_service\<lparr>sws_client := (sws_client ex_service)\<lparr>call_service :=
      \<lambda>n k b. if length b > 256 then Inl ProviderFailed else Inr b\<rparr>\<rparr>) (ex_snapshot ex_db2) ex_command =
   Inr (decode_transaction ex_ids ex_proposal)"
proof -
  let ?call = "\<lambda>n (k :: contract_key) (b :: blob). if length b > 256 then Inl ProviderFailed else Inr b"
  have "call_service (sws_client ex_service) n (sws_contract ex_service) request = ?call n (sws_contract ex_service) request"
    if "truthful (resolve_read ex_externs (ex_snapshot ex_db2)) MAX_WORLD_SYSTEM_SERVICE_READS reads"
      "to_vec (sws_client ex_service) (system_envelope (ex_snapshot ex_db2) ex_command reads) = Some request" for n reads request
    using that by (auto simp: truthful_def MAX_WORLD_SYSTEM_SERVICE_READS_def ex_service_def service_world_system_new_def
        system_envelope_def)
  from provider_sees_truthful_envelopes [where S = ex_service and F = ex_ids, OF this] show ?thesis by (simp add: ex_service_evaluates)
qed

lemma service_system_translates_proposal_witness:
  "reject_privileged_authority_output (command_schema ex_command) (decode_transaction ex_ids ex_proposal) False = Inr ()"
  using service_system_translates_proposal [OF ex_service_evaluates] by blast

section \<open>A projection\<close>

definition ex_projection :: service_world_projection where
  "ex_projection = service_world_projection_new ex_world (SchemaKey (SchemaId ''ex.view'') (SchemaVersion 1)) ''view''
     \<lparr>to_vec = \<lambda>q. Some (replicate (length (wpq_reads q)) 0),
      from_slice = \<lambda>b. Some (if b = [] then ProjectionRead [ProjectEntity (OpaqueId 20)] else ProjectionComplete JNull),
      call_service = \<lambda>n k b. Inr b\<rparr>"

lemma ex_db2_schemas: "load_schema ex_externs ex_db2 = load_schema ex_externs ex_db1"
  using ex_committed(2) by (simp add: fun_eq_iff load_schema_def commit_writes_def)

text \<open>The example has no facets and no grants, and its only entity is not the projection owner's.\<close>

lemma ex_same_view: "same_view ex_externs ''view'' p (ex_snapshot ex_db1) (ex_snapshot ex_db2)"
proof -
  have run: "abs_run ex_externs (tx_mutations ex_transaction) (abs_db ex_db1) = Inr (abs_db ex_db2)"
    by (rule commit_written_abs [OF ex_db1_wf ex_bounded ex_committed(1)]) (simp add: new_receipt_def)
  have "abs_db ex_db2 = (abs_db ex_db1)\<lparr>aw_entities := (aw_entities (abs_db ex_db1))
      (OpaqueId 20 \<mapsto> SchemaKey (SchemaId ''ex.person'') (SchemaVersion 1))\<rparr>"
    using run by (simp add: abs_run_def ex_transaction_def ex_person_def abs_apply_def split: if_splits)
  moreover have "\<not> owns_schema ex_externs (ex_snapshot ex_db1) ''view'' Entity (SchemaKey (SchemaId ''ex.person'') (SchemaVersion 1))"
    by (simp add: owns_schema_def ex_snapshot_def ex_load_schema(2) ex_definition_def)
  moreover have "aw_entities (abs_db ex_db1) i = None" for i
    by (simp add: abs_db_def ex_db1_def new_db_def empty_db_def lookup_def)
  ultimately show ?thesis
    by (auto simp: same_view_def ex_snapshot_def ex_db2_schemas abs_can_control_def)
qed

lemma ex_projected:
  assumes "db_wf ex_externs db" and "load_schema ex_externs db = load_schema ex_externs ex_db1"
  shows "project ex_externs ex_projection (ex_snapshot db) p JNull = Inr
    \<lparr>view_world_id = ex_world, view_snapshot_position = 1,
     view_schema = SchemaKey (SchemaId ''ex.view'') (SchemaVersion 1), view_principal = p, view_value = JNull\<rparr>"
proof -
  have db: "snap_db (ex_snapshot db) = db" "snap_world_id (ex_snapshot db) = ex_world" "snap_position (ex_snapshot db) = 1"
    by (simp_all add: ex_snapshot_def)
  have input_size: "length (json_text ex_externs JNull) = 4" by (simp add: ex_externs_def)
  obtain v where read: "resolve_projection_read ex_externs (ex_snapshot db) p ''view'' (ProjectEntity (OpaqueId 20)) = Inr v"
    using project_entity_wf [of ex_externs "ex_snapshot db"] assms(1) db by simp
  have reg: "registry_register (validator_for ex_externs) schema_registry_new ex_view = Inr (Registered,
      \<lparr>definitions = [SchemaKey (SchemaId ''ex.view'') (SchemaVersion 1) \<mapsto> ex_view],
       validators = [SchemaKey (SchemaId ''ex.view'') (SchemaVersion 1) \<mapsto> \<lambda>_. None]\<rparr>)"
    by (simp add: registry_register_Inr schema_registry_new_def) (simp add: ex_view_def ex_definition_def)
  have schema: "read_schema_definition ex_externs (ex_snapshot db) (SchemaKey (SchemaId ''ex.view'') (SchemaVersion 1)) = Inr (Some ex_view)"
    by (simp add: read_schema_definition_def snapshot_load_schema_def db assms(2) ex_load_schema(5))
  have kind: "definition_kind ex_view = Projection" "definition_owner ex_view = ''view''"
    by (simp_all add: ex_view_def ex_definition_def)
  let ?reg = "\<lparr>definitions = [SchemaKey (SchemaId ''ex.view'') (SchemaVersion 1) \<mapsto> ex_view],
       validators = [SchemaKey (SchemaId ''ex.view'') (SchemaVersion 1) \<mapsto> \<lambda>_. None]\<rparr>"
  have rounds: "projection_rounds ex_externs ex_projection ?reg (ex_snapshot db) p JNull (Suc (Suc n)) [] {} = Inr
    \<lparr>view_world_id = ex_world, view_snapshot_position = 1,
     view_schema = SchemaKey (SchemaId ''ex.view'') (SchemaVersion 1), view_principal = p, view_value = JNull\<rparr>" for n
    by (simp add: ex_projection_def service_world_projection_new_def ask_projection_def projection_envelope_def read db
        MAX_WORLD_PROJECTION_SERVICE_READS_def validate_payload_def require_kind_def kind)
  have eight: "MAX_WORLD_PROJECTION_SERVICE_ROUNDS = Suc (Suc 6)" by (simp add: MAX_WORLD_PROJECTION_SERVICE_ROUNDS_def)
  note rounds [of 6, folded eight]
  moreover have "swp_world_id ex_projection = ex_world" "swp_owner ex_projection = ''view''"
      "swp_schema ex_projection = SchemaKey (SchemaId ''ex.view'') (SchemaVersion 1)"
    by (simp_all add: ex_projection_def service_world_projection_new_def)
  ultimately show ?thesis
    by (simp add: project_def db schema kind input_size reg MAX_WORLD_PROJECTION_INPUT_BYTES_def)
qed

lemma projection_noninterference_witness:
  "project ex_externs ex_projection (ex_snapshot ex_db1) (OpaqueId 12) JNull =
     project ex_externs ex_projection (ex_snapshot ex_db2) (OpaqueId 12) JNull"
  using projection_noninterference [of ex_externs "ex_snapshot ex_db1" "ex_snapshot ex_db2" ex_projection "OpaqueId 12" JNull]
    ex_db1_wf ex_db2_wf ex_same_view
  by (simp add: ex_snapshot_def ex_projection_def service_world_projection_new_def)

lemma projection_view_validated_witness:
  "\<exists>n < 8. \<exists>reads. truthful (resolve_projection_read ex_externs (ex_snapshot ex_db2) (OpaqueId 12) ''view'') 256 reads \<and>
     ask_projection ex_projection (ex_snapshot ex_db2) (OpaqueId 12) JNull n reads = Inr (ProjectionComplete JNull)"
  using projection_view_validated [OF ex_projected [OF ex_db2_wf ex_db2_schemas], of "OpaqueId 12"]
  by (simp add: ex_projection_def service_world_projection_new_def)

section \<open>An effect handler\<close>

definition ex_claim :: claimed_effect_job where
  "ex_claim = \<lparr>claimed_job = \<lparr>job_world_id = ex_world, job_id = ex_job, job_position = 1, job_index = 0,
     job_provenance = \<lparr>prov_command_id = OpaqueId 10, prov_command_schema = SchemaKey (SchemaId ''ex.note'') (SchemaVersion 1),
       prov_principal = OpaqueId 12, prov_actor = ActorPrincipal (OpaqueId 12), prov_causation = None,
       prov_correlation = OpaqueId 11, prov_effective_at = None, prov_recorded_at = UnixTimeMillis 1000\<rparr>,
     job_schema = SchemaKey (SchemaId ''ex.send'') (SchemaVersion 1), job_payload = JNull, job_attempt_count = 1\<rparr>,
     claimed_lease = UnixTimeMillis 10\<rparr>"

definition ex_follow_up :: "json \<Rightarrow> world_command" where
  "ex_follow_up payload = caused_by (CausedByEffect ex_job)
     (command_with_ids (effect_completion_command_id ex_job) (OpaqueId 11) (SchemaKey (SchemaId ''ex.note'') (SchemaVersion 1))
        (OpaqueId 12) (ActorPrincipal (OpaqueId 12)) payload)"

definition ex_handler :: "json \<Rightarrow> service_world_effect_handler" where
  "ex_handler payload = service_world_effect_handler_new ex_world (SchemaKey (SchemaId ''ex.send'') (SchemaVersion 1))
     \<lparr>to_vec = \<lambda>_. Some [], from_slice = \<lambda>_. Some (EffectComplete (Some (ex_follow_up payload))),
      call_service = \<lambda>n k b. Inr b\<rparr>"

lemma ex_executed: "execute_effect (ex_handler payload) ex_claim = Inr (EffectComplete (Some (ex_follow_up payload)))"
  by (simp add: execute_effect_def ex_handler_def service_world_effect_handler_new_def ex_claim_def
      validate_effect_response_def ex_follow_up_def caused_by_def command_with_ids_def)

lemma follow_up_tied_to_job_witness: "command_causation (ex_follow_up JNull) = Some (CausedByEffect ex_job)"
  using follow_up_tied_to_job [OF ex_executed, of JNull] by (simp add: ex_claim_def)

lemma effect_follow_up_once_witness:
  "\<exists>db. commit ex_externs (ex_follow_up (JArray [])) ex_transaction 1 ex_now db =
     (Inl (World (CommandIdConflict (effect_completion_command_id ex_job))), db)"
proof -
  have "ex_note (ex_follow_up JNull)" by (simp add: ex_note_def ex_follow_up_def caused_by_def command_with_ids_def)
  then obtain db where db: "commit ex_externs (ex_follow_up JNull) ex_transaction 0 ex_now ex_db1 =
      (Inr (new_receipt (ex_follow_up JNull) ex_transaction 1), db)"
    by (rule ex_committed_note)
  have "command_digest ex_externs (ex_follow_up (JArray [])) \<noteq> command_digest ex_externs (ex_follow_up JNull)"
    by (simp add: command_digest_def ex_externs_def command_value_def ex_follow_up_def caused_by_def command_with_ids_def)
  then show ?thesis
    using effect_follow_up_once [OF ex_executed ex_executed refl ex_db1_inv ex_admissible db rtranclp.rtrancl_refl,
        of "JArray []" ex_transaction 1 ex_now]
    by (intro exI [of _ db]) (simp add: ex_follow_up_def caused_by_def command_with_ids_def)
qed

end
