(* ===== verification/Extension_Composition.thy ===== *)
theory Extension_Composition
  imports Contracts "HOL-Library.Multiset"
begin

text \<open>
  Resolution of contracts between the components of extensions (\<open>crates/extension-engine/src/composition.rs\<close>):
  which providers a consumer is bound to, and why it is not.
\<close>

section \<open>Endpoints with their owners\<close>

record owned_provider =
  op_owner :: component_ref
  op_provider :: contract_provider

record owned_consumer =
  oc_owner :: component_ref
  oc_consumer :: contract_consumer

record contract_binding =
  binding_consumer :: component_ref
  binding_contract :: contract_key
  binding_required :: bool
  binding_providers :: "component_ref list"

datatype unresolved_reason =
  UndefinedContract | ConsumerIneligible | NoProvider | NoEligibleProvider | PreferredProviderUnavailable

fun unresolved_reason_display :: "unresolved_reason \<Rightarrow> string" where
  "unresolved_reason_display UndefinedContract = ''undefined contract''"
| "unresolved_reason_display ConsumerIneligible = ''consumer is ineligible''"
| "unresolved_reason_display NoProvider = ''no provider''"
| "unresolved_reason_display NoEligibleProvider = ''no eligible provider''"
| "unresolved_reason_display PreferredProviderUnavailable = ''preferred provider is unavailable''"

record unresolved_contract =
  unresolved_consumer :: component_ref
  unresolved_key :: contract_key
  unresolved_required :: bool
  unresolved_reason :: unresolved_reason

record composition_snapshot =
  snapshot_bindings :: "contract_binding list"
  snapshot_unresolved :: "unresolved_contract list"

section \<open>Resolution\<close>

definition component_ref_key :: "component_ref \<Rightarrow> string \<times> string" where
  "component_ref_key c = (ref_instance c, ref_component c)"

definition requirements_satisfied :: "secret_manager \<Rightarrow> component_ref \<Rightarrow> grant_requirement list \<Rightarrow> bool" where
  "requirements_satisfied m owner requirements =
     list_all (\<lambda>r. case r of SecretRead p \<Rightarrow> has_read_grant m owner p) requirements"

definition eligible_provider :: "secret_manager \<Rightarrow> owned_provider \<Rightarrow> bool" where
  "eligible_provider m c = requirements_satisfied m (op_owner c) (provider_grants (op_provider c))"

definition resolve_contract_providers ::
  "contract_key \<Rightarrow> resolution_policy \<Rightarrow> owned_provider list \<Rightarrow> component_ref option \<Rightarrow> secret_manager \<Rightarrow>
   unresolved_reason + component_ref list" where
  "resolve_contract_providers contract resolution providers preferred m =
     (let matching = filter (\<lambda>c. provider_contract (op_provider c) = contract) providers
      in case (resolution, preferred) of
           (Single, Some p) \<Rightarrow>
             (case find (\<lambda>c. op_owner c = p \<and> eligible_provider m c) matching of
                None \<Rightarrow> Inl PreferredProviderUnavailable
              | Some c \<Rightarrow> Inr [op_owner c])
         | _ \<Rightarrow>
             if matching = [] then Inl NoProvider
             else
               (let matching = sort_key (\<lambda>c. component_ref_key (op_owner c)) (filter (eligible_provider m) matching)
                in if matching = [] then Inl NoEligibleProvider
                   else case resolution of
                          Single \<Rightarrow> Inr [op_owner (hd matching)]
                        | Multiple \<Rightarrow> Inr (map op_owner matching)))"

text \<open>One consumer: the body of the loop of \<open>resolve_contracts\<close>.\<close>

definition resolve_consumer ::
  "contract_definition list \<Rightarrow> owned_provider list \<Rightarrow> (contract_key \<rightharpoonup> component_ref) \<Rightarrow> secret_manager \<Rightarrow> owned_consumer \<Rightarrow>
   unresolved_contract + contract_binding" where
  "resolve_consumer definitions providers preferred m c =
     (let contract = consumer_contract (oc_consumer c);
          unresolved = (\<lambda>reason. \<lparr>unresolved_consumer = oc_owner c, unresolved_key = contract,
            unresolved_required = consumer_required (oc_consumer c), unresolved_reason = reason\<rparr>)
      in case find (\<lambda>d. def_contract d = contract) definitions of
           None \<Rightarrow> Inl (unresolved UndefinedContract)
         | Some d \<Rightarrow>
             if \<not> requirements_satisfied m (oc_owner c) (consumer_grants (oc_consumer c))
             then Inl (unresolved ConsumerIneligible)
             else
               (case resolve_contract_providers contract (def_resolution d) providers (preferred contract) m of
                  Inl reason \<Rightarrow> Inl (unresolved reason)
                | Inr selected \<Rightarrow>
                    Inr \<lparr>binding_consumer = oc_owner c, binding_contract = contract,
                         binding_required = consumer_required (oc_consumer c), binding_providers = selected\<rparr>))"

definition push_answer :: "unresolved_contract + contract_binding \<Rightarrow> composition_snapshot \<Rightarrow> composition_snapshot" where
  "push_answer answer s =
     (case answer of
        Inl u \<Rightarrow> s\<lparr>snapshot_unresolved := snapshot_unresolved s @ [u]\<rparr>
      | Inr b \<Rightarrow> s\<lparr>snapshot_bindings := snapshot_bindings s @ [b]\<rparr>)"

definition binding_key :: "contract_binding \<Rightarrow> (string \<times> string) \<times> string" where
  "binding_key b = (component_ref_key (binding_consumer b), contract_key_display (binding_contract b))"

definition unresolved_sort_key :: "unresolved_contract \<Rightarrow> (string \<times> string) \<times> string" where
  "unresolved_sort_key u = (component_ref_key (unresolved_consumer u), contract_key_display (unresolved_key u))"

definition resolve_contracts ::
  "contract_definition list \<Rightarrow> owned_provider list \<Rightarrow> owned_consumer list \<Rightarrow> (contract_key \<rightharpoonup> component_ref) \<Rightarrow>
   secret_manager \<Rightarrow> composition_snapshot" where
  "resolve_contracts definitions providers consumers preferred m =
     (let s = fold (\<lambda>c. push_answer (resolve_consumer definitions providers preferred m c)) consumers
           \<lparr>snapshot_bindings = [], snapshot_unresolved = []\<rparr>
      in \<lparr>snapshot_bindings = sort_key binding_key (snapshot_bindings s),
          snapshot_unresolved = sort_key unresolved_sort_key (snapshot_unresolved s)\<rparr>)"

section \<open>What is selected\<close>

text \<open>The owners that offer a contract and hold the grants they need.\<close>

definition eligible_owners :: "contract_key \<Rightarrow> owned_provider list \<Rightarrow> secret_manager \<Rightarrow> component_ref set" where
  "eligible_owners contract providers m =
     {op_owner c | c. c \<in> set providers \<and> provider_contract (op_provider c) = contract \<and> eligible_provider m c}"

lemma component_ref_key_inject: "component_ref_key a = component_ref_key b \<longleftrightarrow> a = b"
  by (cases a; cases b) (simp add: component_ref_key_def)

lemma sort_key_mset_cong:
  assumes "mset xs = mset ys" and "inj_on f (set xs)"
  shows "sort_key f xs = sort_key f ys"
  by (rule sort_key_inj_key_eq [OF _ assms(2)]) (simp_all add: assms(1))

text \<open>The owners in the order of their keys; a selection without preference is this list, or its head.\<close>

definition selection :: "contract_key \<Rightarrow> owned_provider list \<Rightarrow> secret_manager \<Rightarrow> component_ref list" where
  "selection contract providers m = sort_key component_ref_key
     (map op_owner (filter (\<lambda>c. provider_contract (op_provider c) = contract \<and> eligible_provider m c) providers))"

lemma set_selection: "set (selection contract providers m) = eligible_owners contract providers m"
  by (auto simp: selection_def eligible_owners_def)

lemma selection_cong:
  assumes "mset providers = mset providers'"
  shows "selection contract providers m = selection contract providers' m"
proof -
  have "mset (map op_owner (filter P providers)) = mset (map op_owner (filter P providers'))" for P
    using assms by simp
  then show ?thesis unfolding selection_def
    by (rule sort_key_mset_cong) (simp add: inj_on_def component_ref_key_inject)
qed

lemma resolve_contract_providers_selection:
  "resolve_contract_providers contract resolution providers preferred m =
     (case (resolution, preferred) of
        (Single, Some p) \<Rightarrow> if p \<in> eligible_owners contract providers m then Inr [p] else Inl PreferredProviderUnavailable
      | _ \<Rightarrow>
          if \<forall>c \<in> set providers. provider_contract (op_provider c) \<noteq> contract then Inl NoProvider
          else if selection contract providers m = [] then Inl NoEligibleProvider
          else case resolution of
                 Single \<Rightarrow> Inr [hd (selection contract providers m)]
               | Multiple \<Rightarrow> Inr (selection contract providers m))"
proof -
  let ?matching = "filter (\<lambda>c. provider_contract (op_provider c) = contract) providers"
  let ?sorted = "sort_key (\<lambda>c. component_ref_key (op_owner c)) (filter (eligible_provider m) ?matching)"
  have sorted: "map op_owner ?sorted = selection contract providers m"
    by (simp add: selection_def sort_key_under_map conj_commute)
  then have empty: "?sorted = [] \<longleftrightarrow> selection contract providers m = []"
    by (metis Nil_is_map_conv)
  have head: "?sorted \<noteq> [] \<Longrightarrow> op_owner (hd ?sorted) = hd (selection contract providers m)"
    using sorted by (metis hd_map)
  have none: "?matching = [] \<longleftrightarrow> (\<forall>c \<in> set providers. provider_contract (op_provider c) \<noteq> contract)"
    by (simp add: filter_empty_conv)
  have preference: "(case find (\<lambda>c. op_owner c = p \<and> eligible_provider m c) ?matching of
        None \<Rightarrow> Inl PreferredProviderUnavailable | Some c \<Rightarrow> Inr [op_owner c]) =
      (if p \<in> eligible_owners contract providers m then Inr [p] else Inl PreferredProviderUnavailable)" for p
  proof (cases "find (\<lambda>c. op_owner c = p \<and> eligible_provider m c) ?matching")
    case None
    then have "\<forall>c \<in> set providers. provider_contract (op_provider c) = contract \<longrightarrow> op_owner c = p \<longrightarrow> \<not> eligible_provider m c"
      by (simp add: find_None_iff)
    then have "p \<notin> eligible_owners contract providers m" unfolding eligible_owners_def by blast
    with None show ?thesis by simp
  next
    case (Some c)
    then have c: "c \<in> set ?matching" "op_owner c = p" "eligible_provider m c"
      by (auto dest: find_Some_set)
    then have "p \<in> eligible_owners contract providers m" unfolding eligible_owners_def by auto
    with Some c show ?thesis by simp
  qed
  show ?thesis
  proof (cases resolution)
    case Single
    with head show ?thesis
      unfolding resolve_contract_providers_def Let_def none [symmetric] empty [symmetric]
      by (cases preferred) (simp_all add: preference del: filter_filter cong: if_cong)
  next
    case Multiple
    then show ?thesis
      unfolding resolve_contract_providers_def Let_def none [symmetric] empty [symmetric] sorted [symmetric]
      by (simp del: filter_filter)
  qed
qed

lemma selection_least:
  assumes "selection contract providers m \<noteq> []"
  shows "hd (selection contract providers m) \<in> eligible_owners contract providers m"
    and "\<forall>q \<in> eligible_owners contract providers m. component_ref_key (hd (selection contract providers m)) \<le> component_ref_key q"
proof -
  obtain p ps where s: "selection contract providers m = p # ps" using assms by (cases "selection contract providers m") auto
  have "sorted (map component_ref_key (p # ps))" unfolding s [symmetric] selection_def by simp
  moreover have members: "eligible_owners contract providers m = set (p # ps)"
    unfolding set_selection [symmetric] s by simp
  ultimately show "\<forall>q \<in> eligible_owners contract providers m. component_ref_key (hd (selection contract providers m)) \<le> component_ref_key q"
    by (auto simp: s)
  show "hd (selection contract providers m) \<in> eligible_owners contract providers m" by (simp add: s members)
qed

lemma selected_policy:
  assumes "resolve_contract_providers contract resolution providers preferred m = Inr selected"
  shows "selected \<noteq> [] \<and> set selected \<subseteq> eligible_owners contract providers m \<and>
    (case resolution of
       Multiple \<Rightarrow> set selected = eligible_owners contract providers m \<and> sorted (map component_ref_key selected)
     | Single \<Rightarrow> \<exists>p. selected = [p] \<and>
         (case preferred of
            Some q \<Rightarrow> p = q
          | None \<Rightarrow> \<forall>q \<in> eligible_owners contract providers m. component_ref_key p \<le> component_ref_key q))"
proof (cases resolution)
  case Single
  show ?thesis
  proof (cases preferred)
    case None
    with Single assms have "selection contract providers m \<noteq> []" "selected = [hd (selection contract providers m)]"
      by (auto simp: resolve_contract_providers_selection split: if_splits)
    with Single None selection_least show ?thesis by auto
  next
    case (Some p)
    with Single assms show ?thesis by (auto simp: resolve_contract_providers_selection split: if_splits)
  qed
next
  case Multiple
  with assms have "selection contract providers m \<noteq> []" "selected = selection contract providers m"
    by (auto simp: resolve_contract_providers_selection split: if_splits)
  with Multiple show ?thesis by (simp add: set_selection) (simp add: selection_def)
qed

section \<open>The snapshot\<close>

definition bound_answers :: "(unresolved_contract + contract_binding) list \<Rightarrow> contract_binding list" where
  "bound_answers answers = concat (map (case_sum (\<lambda>u. []) (\<lambda>b. [b])) answers)"

definition unresolved_answers :: "(unresolved_contract + contract_binding) list \<Rightarrow> unresolved_contract list" where
  "unresolved_answers answers = concat (map (case_sum (\<lambda>u. [u]) (\<lambda>b. [])) answers)"

lemma answers_Nil [simp]: "bound_answers [] = []" "unresolved_answers [] = []"
  by (simp_all add: bound_answers_def unresolved_answers_def)

lemma answers_Cons [simp]:
  "bound_answers (Inr b # xs) = b # bound_answers xs"
  "bound_answers (Inl u # xs) = bound_answers xs"
  "unresolved_answers (Inr b # xs) = unresolved_answers xs"
  "unresolved_answers (Inl u # xs) = u # unresolved_answers xs"
  by (simp_all add: bound_answers_def unresolved_answers_def)

lemma set_answers [simp]:
  "b \<in> set (bound_answers xs) \<longleftrightarrow> Inr b \<in> set xs"
  "u \<in> set (unresolved_answers xs) \<longleftrightarrow> Inl u \<in> set xs"
  by (auto simp: bound_answers_def unresolved_answers_def split: sum.splits)

lemma fold_push_answer:
  "fold (\<lambda>c. push_answer (f c)) cs s =
     \<lparr>snapshot_bindings = snapshot_bindings s @ bound_answers (map f cs),
      snapshot_unresolved = snapshot_unresolved s @ unresolved_answers (map f cs)\<rparr>"
proof (induction cs arbitrary: s)
  case (Cons c cs)
  then show ?case by (cases "f c") (simp_all add: push_answer_def)
qed simp

lemma resolve_contracts_answers:
  "resolve_contracts definitions providers consumers preferred m =
     (let answers = map (resolve_consumer definitions providers preferred m) consumers
      in \<lparr>snapshot_bindings = sort_key binding_key (bound_answers answers),
          snapshot_unresolved = sort_key unresolved_sort_key (unresolved_answers answers)\<rparr>)"
  by (simp add: resolve_contracts_def fold_push_answer Let_def)

text \<open>What an answer says about the consumer it is for.\<close>

definition consumer_facts :: "owned_consumer \<Rightarrow> component_ref \<times> contract_key \<times> bool" where
  "consumer_facts c = (oc_owner c, consumer_contract (oc_consumer c), consumer_required (oc_consumer c))"

definition binding_facts :: "contract_binding \<Rightarrow> component_ref \<times> contract_key \<times> bool" where
  "binding_facts b = (binding_consumer b, binding_contract b, binding_required b)"

definition unresolved_facts :: "unresolved_contract \<Rightarrow> component_ref \<times> contract_key \<times> bool" where
  "unresolved_facts u = (unresolved_consumer u, unresolved_key u, unresolved_required u)"

lemma resolve_consumer_facts:
  "case_sum unresolved_facts binding_facts (resolve_consumer definitions providers preferred m c) = consumer_facts c"
  by (simp add: resolve_consumer_def Let_def consumer_facts_def binding_facts_def unresolved_facts_def
      split: option.split sum.split)

lemma answers_facts:
  "mset (map binding_facts (bound_answers xs)) + mset (map unresolved_facts (unresolved_answers xs)) =
     mset (map (case_sum unresolved_facts binding_facts) xs)"
proof (induction xs)
  case (Cons a xs) then show ?case by (cases a) (simp_all add: ac_simps)
qed simp

text \<open>
  Resolution accounts for every consumer: each consumer has exactly one entry, a binding or an unresolved contract, with
  its owner, its contract and whether it is required, and no entry is made up; both lists are in the order of their keys.
\<close>

theorem resolution_accounts_for_every_consumer:
  "let s = resolve_contracts definitions providers consumers preferred m
   in mset (map binding_facts (snapshot_bindings s)) + mset (map unresolved_facts (snapshot_unresolved s)) =
        mset (map consumer_facts consumers) \<and>
      sorted (map binding_key (snapshot_bindings s)) \<and> sorted (map unresolved_sort_key (snapshot_unresolved s))"
proof -
  have "map (case_sum unresolved_facts binding_facts) (map (resolve_consumer definitions providers preferred m) consumers) =
      map consumer_facts consumers"
    by (simp add: resolve_consumer_facts)
  then show ?thesis
    using answers_facts [of "map (resolve_consumer definitions providers preferred m) consumers"]
    by (simp only: resolve_contracts_answers Let_def composition_snapshot.simps mset_map mset_sort simp_thms sorted_sort_key)
qed

lemma binding_origin:
  assumes "b \<in> set (snapshot_bindings (resolve_contracts definitions providers consumers preferred m))"
  obtains c d where "c \<in> set consumers" "find (\<lambda>d. def_contract d = binding_contract b) definitions = Some d"
    and "binding_facts b = consumer_facts c" "requirements_satisfied m (oc_owner c) (consumer_grants (oc_consumer c))"
    and "resolve_contract_providers (binding_contract b) (def_resolution d) providers (preferred (binding_contract b)) m =
      Inr (binding_providers b)"
proof -
  obtain c where c: "c \<in> set consumers" "resolve_consumer definitions providers preferred m c = Inr b"
    using assms by (auto simp: resolve_contracts_answers Let_def)
  then obtain d selected where d: "find (\<lambda>d. def_contract d = consumer_contract (oc_consumer c)) definitions = Some d"
    and grants: "requirements_satisfied m (oc_owner c) (consumer_grants (oc_consumer c))"
    and selected: "resolve_contract_providers (consumer_contract (oc_consumer c)) (def_resolution d) providers
      (preferred (consumer_contract (oc_consumer c))) m = Inr selected"
    and b: "b = \<lparr>binding_consumer = oc_owner c, binding_contract = consumer_contract (oc_consumer c),
      binding_required = consumer_required (oc_consumer c), binding_providers = selected\<rparr>"
    by (auto simp: resolve_consumer_def Let_def split: option.splits if_splits sum.splits)
  show thesis
    by (rule that [OF c(1)]) (use d grants selected in \<open>simp_all add: b binding_facts_def consumer_facts_def\<close>)
qed

text \<open>
  A binding is what the policy of its contract says: it is for a consumer that holds the grants it requires, of a defined
  contract; a contract of one provider gives exactly the preferred one, or the eligible one of the least key, and a contract of
  many gives all the eligible ones, at least one, in the order of their keys. Nobody is bound to a component that lacks a grant.
\<close>

theorem bindings_follow_policy:
  assumes "b \<in> set (snapshot_bindings (resolve_contracts definitions providers consumers preferred m))"
  shows "\<exists>c \<in> set consumers. \<exists>d \<in> set definitions.
    binding_facts b = consumer_facts c \<and> def_contract d = binding_contract b \<and>
    requirements_satisfied m (oc_owner c) (consumer_grants (oc_consumer c)) \<and>
    binding_providers b \<noteq> [] \<and> set (binding_providers b) \<subseteq> eligible_owners (binding_contract b) providers m \<and>
    (case def_resolution d of
       Multiple \<Rightarrow> set (binding_providers b) = eligible_owners (binding_contract b) providers m \<and>
                   sorted (map component_ref_key (binding_providers b))
     | Single \<Rightarrow> \<exists>p. binding_providers b = [p] \<and>
         (case preferred (binding_contract b) of
            Some q \<Rightarrow> p = q
          | None \<Rightarrow> \<forall>q \<in> eligible_owners (binding_contract b) providers m. component_ref_key p \<le> component_ref_key q))"
proof -
  obtain c d where c: "c \<in> set consumers" and d: "find (\<lambda>d. def_contract d = binding_contract b) definitions = Some d"
    and facts: "binding_facts b = consumer_facts c" "requirements_satisfied m (oc_owner c) (consumer_grants (oc_consumer c))"
    and selected: "resolve_contract_providers (binding_contract b) (def_resolution d) providers (preferred (binding_contract b)) m =
      Inr (binding_providers b)"
    using assms by (rule binding_origin)
  have def: "d \<in> set definitions" "def_contract d = binding_contract b" using find_Some_set [OF d] by auto
  note policy = selected_policy [OF selected]
  show ?thesis
    by (intro bexI [OF _ c] bexI [OF _ def(1)] conjI facts def(2) policy [THEN conjunct1]
        policy [THEN conjunct2, THEN conjunct1] policy [THEN conjunct2, THEN conjunct2])
qed

section \<open>The order of registration\<close>

lemma find_permuted:
  assumes "mset xs = mset ys" "distinct (map key xs)"
  shows "find (\<lambda>x. key x = k) xs = find (\<lambda>x. key x = k) ys"
proof (cases "k \<in> key ` set xs")
  case True
  then obtain x where x: "x \<in> set xs" "k = key x" by auto
  have "mset (map key xs) = mset (map key ys)" using assms(1) by simp
  then have "distinct (map key ys)" using assms(2) mset_eq_imp_distinct_iff by blast
  moreover have "x \<in> set ys" using x assms(1) by (metis set_mset_mset)
  ultimately show ?thesis using x assms(2) by (simp add: find_key_unique)
next
  case False
  moreover have "set ys = set xs" using assms(1) by (metis set_mset_mset)
  ultimately have "find (\<lambda>x. key x = k) xs = None" "find (\<lambda>x. key x = k) ys = None"
    by (auto simp: find_None_iff)
  then show ?thesis by simp
qed

lemma resolve_consumer_permuted:
  assumes "mset definitions = mset definitions'" "distinct (map def_contract definitions)" "mset providers = mset providers'"
  shows "resolve_consumer definitions providers preferred m c = resolve_consumer definitions' providers' preferred m c"
proof -
  have same: "set providers = set providers'" using assms(3) by (metis set_mset_mset)
  have providers: "resolve_contract_providers k r providers pref m = resolve_contract_providers k r providers' pref m" for k r pref
    unfolding resolve_contract_providers_selection selection_cong [OF assms(3)] eligible_owners_def same by (rule refl)
  show ?thesis unfolding resolve_consumer_def find_permuted [OF assms(1,2)] providers by (rule refl)
qed

lemma mset_answers_permuted:
  assumes "mset xs = mset ys"
  shows "mset (bound_answers xs) = mset (bound_answers ys)" "mset (unresolved_answers xs) = mset (unresolved_answers ys)"
proof -
  have "mset (bound_answers zs) = (\<Sum>a \<in># mset zs. case_sum (\<lambda>u. {#}) (\<lambda>b. {#b#}) a)" for zs
    by (induction zs rule: list.induct) (auto split: sum.split simp: bound_answers_def)
  then show "mset (bound_answers xs) = mset (bound_answers ys)" by (simp only: assms)
  have "mset (unresolved_answers zs) = (\<Sum>a \<in># mset zs. case_sum (\<lambda>u. {#u#}) (\<lambda>b. {#}) a)" for zs
    by (induction zs rule: list.induct) (auto split: sum.split simp: unresolved_answers_def)
  then show "mset (unresolved_answers xs) = mset (unresolved_answers ys)" by (simp only: assms)
qed

definition consumer_slot :: "owned_consumer \<Rightarrow> component_ref \<times> contract_key" where
  "consumer_slot c = (oc_owner c, consumer_contract (oc_consumer c))"

lemma consumer_answer:
  "Inr b = resolve_consumer definitions providers preferred m c \<Longrightarrow> (binding_consumer b, binding_contract b) = consumer_slot c"
  "Inl u = resolve_consumer definitions providers preferred m c \<Longrightarrow> (unresolved_consumer u, unresolved_key u) = consumer_slot c"
  using resolve_consumer_facts [of definitions providers preferred m c]
  by (auto simp: consumer_slot_def consumer_facts_def binding_facts_def unresolved_facts_def dest!: sym [of "Inr b"] sym [of "Inl u"])

lemma answers_keys_inj:
  assumes "inj_on consumer_slot (set consumers)"
  shows "inj_on binding_key (set (bound_answers (map (resolve_consumer definitions providers preferred m) consumers)))"
    and "inj_on unresolved_sort_key (set (unresolved_answers (map (resolve_consumer definitions providers preferred m) consumers)))"
proof -
  let ?f = "resolve_consumer definitions providers preferred m"
  show "inj_on binding_key (set (bound_answers (map ?f consumers)))"
  proof (rule inj_onI)
    fix a b
    assume "a \<in> set (bound_answers (map ?f consumers))" "b \<in> set (bound_answers (map ?f consumers))"
      and key: "binding_key a = binding_key b"
    then obtain c d where c: "c \<in> set consumers" "Inr a = ?f c" and d: "d \<in> set consumers" "Inr b = ?f d" by auto
    from key have "(binding_consumer a, binding_contract a) = (binding_consumer b, binding_contract b)"
      by (auto simp: binding_key_def component_ref_key_inject dest: contract_key_display_inject)
    then have "consumer_slot c = consumer_slot d" using consumer_answer(1) [OF c(2)] consumer_answer(1) [OF d(2)] by simp
    then have "c = d" using assms c(1) d(1) by (simp add: inj_on_def)
    with c(2) d(2) show "a = b" by (metis sum.inject(2))
  qed
  show "inj_on unresolved_sort_key (set (unresolved_answers (map ?f consumers)))"
  proof (rule inj_onI)
    fix a b
    assume "a \<in> set (unresolved_answers (map ?f consumers))" "b \<in> set (unresolved_answers (map ?f consumers))"
      and key: "unresolved_sort_key a = unresolved_sort_key b"
    then obtain c d where c: "c \<in> set consumers" "Inl a = ?f c" and d: "d \<in> set consumers" "Inl b = ?f d" by auto
    from key have "(unresolved_consumer a, unresolved_key a) = (unresolved_consumer b, unresolved_key b)"
      by (auto simp: unresolved_sort_key_def component_ref_key_inject dest: contract_key_display_inject)
    then have "consumer_slot c = consumer_slot d" using consumer_answer(2) [OF c(2)] consumer_answer(2) [OF d(2)] by simp
    then have "c = d" using assms c(1) d(1) by (simp add: inj_on_def)
    with c(2) d(2) show "a = b" by (metis sum.inject(1))
  qed
qed

text \<open>
  Resolution does not depend on the order of registration: the definitions (one per contract), the providers and the
  consumers (one per component and contract) in any other order give the same snapshot, in the same order.
\<close>

theorem resolution_ignores_order:
  assumes "mset definitions = mset definitions'" "distinct (map def_contract definitions)"
    and "mset providers = mset providers'"
    and "mset consumers = mset consumers'" "distinct (map consumer_slot consumers)"
  shows "resolve_contracts definitions providers consumers preferred m = resolve_contracts definitions' providers' consumers' preferred m"
proof -
  let ?f = "resolve_consumer definitions providers preferred m"
  have f: "resolve_consumer definitions' providers' preferred m = ?f"
    by (rule ext) (rule resolve_consumer_permuted [OF assms(1-3), symmetric])
  have answers: "mset (map ?f consumers) = mset (map ?f consumers')" using assms(4) by simp
  have "inj_on consumer_slot (set consumers)" using assms(5) by (simp add: distinct_map)
  note keys = answers_keys_inj [OF this, of definitions providers preferred m]
  show ?thesis
    by (simp add: resolve_contracts_answers Let_def f
        sort_key_mset_cong [OF mset_answers_permuted(1) [OF answers] keys(1)]
        sort_key_mset_cong [OF mset_answers_permuted(2) [OF answers] keys(2)])
qed

end
