(* ===== verification/Extension_Services.thy ===== *)
theory Extension_Services
  imports Extension_Composition "HOL-Library.AList"
begin

text \<open>
  The routing of service calls between components (\<open>crates/extension-engine/src/services.rs\<close>): the registered
  instances of each scope, the cached routes, the provider handles and the nested calls of components.

  The state lock is held by no code that panics and the policy does not change while an operation runs, so the branches for a
  poisoned lock and for a policy that changed meanwhile are not taken. Instances and definitions are in the order in which the
  hash maps iterate.
\<close>

section \<open>The state\<close>

record owned_definition =
  od_owner :: component_ref
  od_definition :: contract_definition

record 'h service_instance =
  si_extension :: string
  si_scope :: string
  si_active :: bool
  si_definitions :: "owned_definition list"
  si_providers :: "owned_provider list"
  si_consumers :: "owned_consumer list"
  si_components :: "(string \<times> 'h) list"

record route_key =
  rk_caller :: component_ref
  rk_contract :: contract_key
  rk_inactive :: bool

record cached_route =
  cr_topology :: u64
  cr_policy :: u64
  cr_result :: "service_call_error + component_ref"

record provider_handle_key =
  hk_caller :: component_ref
  hk_contract :: contract_key
  hk_provider :: component_ref
  hk_inactive :: bool

record 'h service_state =
  sv_instances :: "(string \<times> 'h service_instance) list"
  sv_platform :: "string \<rightharpoonup> contract_definition list"
  sv_preferred :: "string \<rightharpoonup> (contract_key \<times> component_ref) list"
  sv_topology :: u64
  sv_routes :: "route_key \<rightharpoonup> cached_route"
  sv_next_handle :: u64
  sv_handle_policy :: u64
  sv_handles :: "u64 \<rightharpoonup> provider_handle_key"
  sv_handle_cache :: "provider_handle_key \<rightharpoonup> u64"

record component_identity =
  ci_extension :: string
  ci_instance :: string
  ci_scope :: string
  ci_component :: string

definition service_state_new :: "'h service_state" where
  "service_state_new = \<lparr>sv_instances = [], sv_platform = Map.empty, sv_preferred = Map.empty, sv_topology = 0,
     sv_routes = Map.empty, sv_next_handle = 0, sv_handle_policy = 0, sv_handles = Map.empty, sv_handle_cache = Map.empty\<rparr>"

definition topology_changed :: "'h service_state \<Rightarrow> 'h service_state" where
  "topology_changed s = s\<lparr>sv_topology := sv_topology s + 1, sv_routes := Map.empty, sv_handles := Map.empty,
     sv_handle_cache := Map.empty\<rparr>"

definition sync_provider_handle_policy :: "u64 \<Rightarrow> 'h service_state \<Rightarrow> 'h service_state" where
  "sync_provider_handle_policy revision s =
     (if sv_handle_policy s \<noteq> revision
      then s\<lparr>sv_handle_policy := revision, sv_handles := Map.empty, sv_handle_cache := Map.empty\<rparr> else s)"

definition issue_provider_handle :: "provider_handle_key \<Rightarrow> 'h service_state \<Rightarrow> service_call_error + u64 \<times> 'h service_state" where
  "issue_provider_handle key s =
     (case sv_handle_cache s key of
        Some handle \<Rightarrow> Inr (handle, s)
      | None \<Rightarrow>
          if sv_next_handle s = - 1 then Inl Unavailable
          else (let raw = sv_next_handle s + 1
                in Inr (raw, s\<lparr>sv_next_handle := raw, sv_handles := (sv_handles s)(raw \<mapsto> key),
                              sv_handle_cache := (sv_handle_cache s)(key \<mapsto> raw)\<rparr>)))"

definition service_component :: "'h service_state \<Rightarrow> component_ref \<Rightarrow> 'h option" where
  "service_component s owner =
     (case map_of (sv_instances s) (ref_instance owner) of
        None \<Rightarrow> None | Some i \<Rightarrow> map_of (si_components i) (ref_component owner))"

definition service_component_identity :: "'h service_state \<Rightarrow> component_ref \<Rightarrow> component_identity option" where
  "service_component_identity s owner =
     (case map_of (sv_instances s) (ref_instance owner) of
        None \<Rightarrow> None
      | Some i \<Rightarrow>
          if map_of (si_components i) (ref_component owner) \<noteq> None
          then Some \<lparr>ci_extension = si_extension i, ci_instance = ref_instance owner, ci_scope = si_scope i,
                     ci_component = ref_component owner\<rparr>
          else None)"

section \<open>The topology\<close>

text \<open>\<open>None\<close> is the \<open>Err(())\<close> of the code.\<close>

definition define_platform_contract :: "string \<Rightarrow> contract_definition \<Rightarrow> 'h service_state \<Rightarrow> 'h service_state option" where
  "define_platform_contract scope d s =
     (let definitions = (case sv_platform s scope of None \<Rightarrow> [] | Some ds \<Rightarrow> ds)
      in case find (\<lambda>e. def_contract e = def_contract d) definitions of
           Some existing \<Rightarrow> if existing \<noteq> d then None else Some s
         | None \<Rightarrow> Some (topology_changed (s\<lparr>sv_platform := (sv_platform s)(scope \<mapsto> definitions @ [d])\<rparr>)))"

definition clear_platform_contracts_in_scope :: "string \<Rightarrow> 'h service_state \<Rightarrow> 'h service_state" where
  "clear_platform_contracts_in_scope scope s =
     (if sv_platform s scope \<noteq> None then topology_changed (s\<lparr>sv_platform := (sv_platform s)(scope := None)\<rparr>) else s)"

definition register_instance :: "string \<Rightarrow> 'h service_instance \<Rightarrow> 'h service_state \<Rightarrow> 'h service_state option" where
  "register_instance name i s =
     (if map_of (sv_instances s) name \<noteq> None then None
      else Some (topology_changed (s\<lparr>sv_instances := sv_instances s @ [(name, i\<lparr>si_active := False\<rparr>)]\<rparr>)))"

definition unregister_instance :: "string \<Rightarrow> 'h service_state \<Rightarrow> 'h service_state" where
  "unregister_instance name s =
     (if map_of (sv_instances s) name \<noteq> None
      then topology_changed (s\<lparr>sv_instances := filter (\<lambda>e. fst e \<noteq> name) (sv_instances s)\<rparr>) else s)"

definition set_active :: "string \<Rightarrow> bool \<Rightarrow> 'h service_state \<Rightarrow> 'h service_state" where
  "set_active name active s =
     s\<lparr>sv_instances := map (\<lambda>(k, i). (k, if k = name then i\<lparr>si_active := active\<rparr> else i)) (sv_instances s)\<rparr>"

definition activate_instance :: "string \<Rightarrow> 'h service_state \<Rightarrow> 'h service_state option" where
  "activate_instance name s =
     (case map_of (sv_instances s) name of
        None \<Rightarrow> None
      | Some i \<Rightarrow> Some (if \<not> si_active i then topology_changed (set_active name True s) else s))"

definition deactivate_instance :: "string \<Rightarrow> 'h service_state \<Rightarrow> 'h service_state" where
  "deactivate_instance name s =
     (case map_of (sv_instances s) name of
        None \<Rightarrow> s
      | Some i \<Rightarrow> if si_active i then topology_changed (set_active name False s) else s)"

definition set_preferred_provider :: "string \<Rightarrow> contract_key \<Rightarrow> component_ref \<Rightarrow> 'h service_state \<Rightarrow> 'h service_state" where
  "set_preferred_provider scope contract provider s =
     (let providers = (case sv_preferred s scope of None \<Rightarrow> [] | Some ps \<Rightarrow> ps);
          s = s\<lparr>sv_preferred := (sv_preferred s)(scope \<mapsto> providers)\<rparr>
      in if map_of providers contract \<noteq> Some provider
         then topology_changed (s\<lparr>sv_preferred := (sv_preferred s)(scope \<mapsto> AList.update contract provider providers)\<rparr>)
         else s)"

definition clear_preferred_provider :: "string \<Rightarrow> contract_key \<Rightarrow> 'h service_state \<Rightarrow> 'h service_state" where
  "clear_preferred_provider scope contract s =
     (case sv_preferred s scope of
        None \<Rightarrow> s
      | Some providers \<Rightarrow>
          if map_of providers contract = None then s
          else (let left = AList.delete contract providers
                in topology_changed (s\<lparr>sv_preferred := (sv_preferred s)(scope := (if left = [] then None else Some left))\<rparr>)))"

section \<open>Resolution\<close>

text \<open>What one instance contributes to the resolution for a caller: definitions, providers and consumers.\<close>

definition instance_entries ::
  "component_ref \<Rightarrow> string \<Rightarrow> bool \<Rightarrow> string \<times> 'h service_instance \<Rightarrow>
   contract_definition list \<times> owned_provider list \<times> owned_consumer list" where
  "instance_entries caller scope allow_inactive e =
     (case e of (name, i) \<Rightarrow>
        if si_scope i \<noteq> scope then ([], [], [])
        else if si_active i then (map od_definition (si_definitions i), si_providers i, si_consumers i)
        else if allow_inactive \<and> name = ref_instance caller
          then (map od_definition (si_definitions i), [], filter (\<lambda>c. oc_owner c = caller) (si_consumers i))
        else ([], [], []))"

definition resolve_binding_uncached ::
  "secret_manager \<Rightarrow> 'h service_state \<Rightarrow> component_ref \<Rightarrow> contract_key \<Rightarrow> bool \<Rightarrow>
   service_call_error + resolution_policy \<times> component_ref list" where
  "resolve_binding_uncached m s caller contract allow_inactive =
     (case map_of (sv_instances s) (ref_instance caller) of
        None \<Rightarrow> Inl Unavailable
      | Some caller_instance \<Rightarrow>
          (let scope = si_scope caller_instance;
               entries = map (instance_entries caller scope allow_inactive) (sv_instances s);
               definitions = (case sv_platform s scope of None \<Rightarrow> [] | Some ds \<Rightarrow> ds) @ concat (map fst entries);
               providers = concat (map (fst \<circ> snd) entries);
               consumers = concat (map (snd \<circ> snd) entries)
           in if \<not> list_ex (\<lambda>c. oc_owner c = caller \<and> consumer_contract (oc_consumer c) = contract) consumers
              then Inl NotConsumer
              else case find (\<lambda>d. def_contract d = contract) definitions of
                None \<Rightarrow> Inl Unavailable
              | Some d \<Rightarrow>
                  if def_protocol d \<noteq> Service then Inl NotServiceContract
                  else
                    (let preferences = (case sv_preferred s scope of None \<Rightarrow> Map.empty | Some ps \<Rightarrow> map_of ps);
                         snapshot = resolve_contracts definitions providers consumers preferences m
                     in case find (\<lambda>b. binding_consumer b = caller \<and> binding_contract b = contract) (snapshot_bindings snapshot) of
                          None \<Rightarrow> Inl Unavailable
                        | Some b \<Rightarrow> Inr (def_resolution d, binding_providers b))))"

definition resolve_uncached ::
  "secret_manager \<Rightarrow> 'h service_state \<Rightarrow> component_ref \<Rightarrow> contract_key \<Rightarrow> bool \<Rightarrow> service_call_error + component_ref" where
  "resolve_uncached m s caller contract allow_inactive =
     and_then (resolve_binding_uncached m s caller contract allow_inactive)
       (\<lambda>(resolution, providers). if length providers \<noteq> 1 then Inl UnsupportedResolution else Inr (providers ! 0))"

text \<open>The component and the identity of a provider: the three lines after every resolution.\<close>

definition provider_component ::
  "'h service_state \<Rightarrow> component_ref \<Rightarrow> service_call_error + component_ref \<times> 'h \<times> component_identity" where
  "provider_component s provider =
     (case service_component s provider of
        None \<Rightarrow> Inl Unavailable
      | Some component \<Rightarrow>
          (case service_component_identity s provider of
             None \<Rightarrow> Inl Unavailable
           | Some identity \<Rightarrow> Inr (provider, component, identity)))"

definition resolve_provider ::
  "secret_manager \<Rightarrow> component_ref \<Rightarrow> contract_key \<Rightarrow> bool \<Rightarrow> 'h service_state \<Rightarrow>
   (service_call_error + component_ref \<times> 'h \<times> component_identity) \<times> 'h service_state" where
  "resolve_provider m caller contract allow_inactive s =
     (let key = \<lparr>rk_caller = caller, rk_contract = contract, rk_inactive = allow_inactive\<rparr>;
          fresh =
            (let result = resolve_uncached m s caller contract allow_inactive;
                 s' = s\<lparr>sv_routes := (sv_routes s)(key \<mapsto>
                        \<lparr>cr_topology = sv_topology s, cr_policy = policy_revision m, cr_result = result\<rparr>)\<rparr>
             in (and_then result (provider_component s'), s'))
      in case sv_routes s key of
           None \<Rightarrow> fresh
         | Some cached \<Rightarrow>
             if cr_topology cached = sv_topology s \<and> cr_policy cached = policy_revision m
             then (and_then (cr_result cached) (provider_component s), s) else fresh)"

definition resolve_platform_provider ::
  "secret_manager \<Rightarrow> string \<Rightarrow> string option \<Rightarrow> contract_key \<Rightarrow> 'h service_state \<Rightarrow>
   service_call_error + component_ref \<times> 'h \<times> component_identity" where
  "resolve_platform_provider m scope extension contract s =
     (case find (\<lambda>d. def_contract d = contract) (case sv_platform s scope of None \<Rightarrow> [] | Some ds \<Rightarrow> ds) of
        None \<Rightarrow> Inl Unavailable
      | Some d \<Rightarrow>
          if def_protocol d \<noteq> Service then Inl NotServiceContract
          else
            (let providers = concat (map si_providers
                   (filter (\<lambda>i. si_active i \<and> si_scope i = scope \<and> (case extension of None \<Rightarrow> True | Some e \<Rightarrow> si_extension i = e))
                     (map snd (sv_instances s))));
                 preferred = (case sv_preferred s scope of None \<Rightarrow> None | Some ps \<Rightarrow> map_of ps contract)
             in case resolve_contract_providers contract (def_resolution d) providers preferred m of
                  Inl _ \<Rightarrow> Inl Unavailable
                | Inr resolved \<Rightarrow>
                    if length resolved \<noteq> 1 then Inl UnsupportedResolution
                    else provider_component s (resolved ! 0)))"

section \<open>Handles\<close>

definition max_service_providers :: nat where "max_service_providers = 64"

fun issue_provider_handles ::
  "provider_handle_key list \<Rightarrow> 'h service_state \<Rightarrow> (service_call_error + u64 list) \<times> 'h service_state" where
  "issue_provider_handles [] s = (Inr [], s)"
| "issue_provider_handles (key # keys) s =
     (case issue_provider_handle key s of
        Inl e \<Rightarrow> (Inl e, s)
      | Inr (handle, s) \<Rightarrow>
          (case issue_provider_handles keys s of
             (Inl e, s) \<Rightarrow> (Inl e, s)
           | (Inr handles, s) \<Rightarrow> (Inr (handle # handles), s)))"

definition list_providers_with_mode ::
  "secret_manager \<Rightarrow> component_ref \<Rightarrow> contract_key \<Rightarrow> bool \<Rightarrow> 'h service_state \<Rightarrow>
   (service_call_error + u64 list) \<times> 'h service_state" where
  "list_providers_with_mode m caller contract allow_inactive s =
     (let s = sync_provider_handle_policy (policy_revision m) s
      in case resolve_binding_uncached m s caller contract allow_inactive of
           Inl e \<Rightarrow> (Inl e, s)
         | Inr (resolution, providers) \<Rightarrow>
             if resolution \<noteq> Multiple then (Inl UnsupportedResolution, s)
             else if length providers > max_service_providers then (Inl ResponseTooLarge, s)
             else issue_provider_handles
               (map (\<lambda>p. \<lparr>hk_caller = caller, hk_contract = contract, hk_provider = p, hk_inactive = allow_inactive\<rparr>) providers) s)"

definition resolve_provider_handle ::
  "secret_manager \<Rightarrow> component_ref \<Rightarrow> u64 \<Rightarrow> bool \<Rightarrow> 'h service_state \<Rightarrow>
   service_call_error + contract_key \<times> component_ref \<times> 'h \<times> component_identity" where
  "resolve_provider_handle m caller handle allow_inactive s =
     (if sv_handle_policy s \<noteq> policy_revision m then Inl Unavailable
      else case sv_handles s handle of
        None \<Rightarrow> Inl Unavailable
      | Some key \<Rightarrow>
          if hk_caller key \<noteq> caller \<or> hk_inactive key \<noteq> allow_inactive then Inl Unavailable
          else and_then (provider_component s (hk_provider key)) (\<lambda>found. Inr (hk_contract key, found)))"

end
