(* ===== verification/Extension_Routing.thy ===== *)
theory Extension_Routing
  imports Extension_Services
begin

text \<open>
  The service runtime over its history: the caches never answer with anything but what resolution answers now, a provider
  handle never means two things, and a route stays inside the scope of its caller.
\<close>

section \<open>Histories\<close>

datatype 'h service_event =
    DefinePlatform string contract_definition
  | ClearPlatform string
  | Register string "'h service_instance"
  | Unregister string
  | Activate string
  | Deactivate string
  | Prefer string contract_key component_ref
  | ClearPreferred string contract_key
  | Grant component_ref secret_path_pattern
  | RevokeGrants component_ref
  | ResolveProvider component_ref contract_key bool
  | ListProviders component_ref contract_key bool

definition or_same :: "'a option \<Rightarrow> 'a \<Rightarrow> 'a" where
  "or_same r s = (case r of None \<Rightarrow> s | Some s' \<Rightarrow> s')"

fun apply_service_event :: "'h service_event \<Rightarrow> 'h service_state \<times> secret_manager \<Rightarrow> 'h service_state \<times> secret_manager" where
  "apply_service_event (DefinePlatform scope d) (s, m) = (or_same (define_platform_contract scope d s) s, m)"
| "apply_service_event (ClearPlatform scope) (s, m) = (clear_platform_contracts_in_scope scope s, m)"
| "apply_service_event (Register name i) (s, m) = (or_same (register_instance name i s) s, m)"
| "apply_service_event (Unregister name) (s, m) = (unregister_instance name s, m)"
| "apply_service_event (Activate name) (s, m) = (or_same (activate_instance name s) s, m)"
| "apply_service_event (Deactivate name) (s, m) = (deactivate_instance name s, m)"
| "apply_service_event (Prefer scope k p) (s, m) = (set_preferred_provider scope k p s, m)"
| "apply_service_event (ClearPreferred scope k) (s, m) = (clear_preferred_provider scope k s, m)"
| "apply_service_event (Grant owner p) (s, m) = (s, grant_read owner p m)"
| "apply_service_event (RevokeGrants owner) (s, m) = (s, revoke_component owner m)"
| "apply_service_event (ResolveProvider caller k inactive) (s, m) = (snd (resolve_provider m caller k inactive s), m)"
| "apply_service_event (ListProviders caller k inactive) (s, m) = (snd (list_providers_with_mode m caller k inactive s), m)"

definition service_history :: "'h service_event list \<Rightarrow> 'h service_state \<times> secret_manager" where
  "service_history es = fold apply_service_event es (service_state_new, secret_manager_new)"

section \<open>What resolution looks at\<close>

definition same_topology :: "'h service_state \<Rightarrow> 'h service_state \<Rightarrow> bool" where
  "same_topology s t \<longleftrightarrow> sv_instances s = sv_instances t \<and> sv_platform s = sv_platform t \<and> sv_preferred s = sv_preferred t"

lemma same_topology_resolves:
  assumes "same_topology s t"
  shows "resolve_binding_uncached m s caller k inactive = resolve_binding_uncached m t caller k inactive"
    and "resolve_uncached m s caller k inactive = resolve_uncached m t caller k inactive"
    and "provider_component s p = provider_component t p"
proof -
  have same: "sv_instances s = sv_instances t" "sv_platform s = sv_platform t" "sv_preferred s = sv_preferred t"
    using assms by (simp_all add: same_topology_def)
  show binding: "resolve_binding_uncached m s caller k inactive = resolve_binding_uncached m t caller k inactive"
    unfolding resolve_binding_uncached_def same by (rule refl)
  show "resolve_uncached m s caller k inactive = resolve_uncached m t caller k inactive"
    unfolding resolve_uncached_def binding by (rule refl)
  show "provider_component s p = provider_component t p"
    unfolding provider_component_def service_component_def service_component_identity_def same by (rule refl)
qed

lemma same_topology_trans: "same_topology s t \<Longrightarrow> same_topology t u \<Longrightarrow> same_topology s u"
  by (simp add: same_topology_def)

section \<open>The invariant\<close>

text \<open>Routes and handles that carry the current revisions say what resolution says now.\<close>

definition routes_current :: "'h service_state \<Rightarrow> secret_manager \<Rightarrow> bool" where
  "routes_current s m \<longleftrightarrow> (\<forall>key cached. sv_routes s key = Some cached \<longrightarrow>
     cr_topology cached = sv_topology s \<and> cr_policy cached \<le> policy_revision m \<and>
     (cr_policy cached = policy_revision m \<longrightarrow>
        cr_result cached = resolve_uncached m s (rk_caller key) (rk_contract key) (rk_inactive key)))"

definition handle_valid :: "'h service_state \<Rightarrow> secret_manager \<Rightarrow> provider_handle_key \<Rightarrow> bool" where
  "handle_valid s m key \<longleftrightarrow>
     (\<exists>providers. resolve_binding_uncached m s (hk_caller key) (hk_contract key) (hk_inactive key) = Inr (Multiple, providers) \<and>
        hk_provider key \<in> set providers)"

definition handles_current :: "'h service_state \<Rightarrow> secret_manager \<Rightarrow> bool" where
  "handles_current s m \<longleftrightarrow> sv_handle_policy s \<le> policy_revision m \<and>
     (\<forall>handle key. sv_handles s handle = Some key \<longrightarrow> handle \<le> sv_next_handle s \<and>
        (sv_handle_policy s = policy_revision m \<longrightarrow> handle_valid s m key)) \<and>
     (\<forall>handle key. sv_handle_cache s key = Some handle \<longrightarrow> sv_handles s handle = Some key)"

definition service_inv :: "nat \<Rightarrow> 'h service_state \<times> secret_manager \<Rightarrow> bool" where
  "service_inv n sm \<longleftrightarrow> (case sm of (s, m) \<Rightarrow>
     unat (policy_revision m) \<le> n \<and> routes_current s m \<and> handles_current s m)"

lemma inv_new: "service_inv 0 (service_state_new, secret_manager_new)"
  by (simp add: service_inv_def routes_current_def handles_current_def service_state_new_def secret_manager_new_def)

lemma inv_mono: "service_inv n sm \<Longrightarrow> n \<le> n' \<Longrightarrow> service_inv n' sm"
  by (auto simp: service_inv_def split: prod.splits)

text \<open>A change of the topology empties the caches.\<close>

lemma inv_topology:
  assumes "service_inv n (s, m)" "sv_handle_policy s' = sv_handle_policy s"
  shows "service_inv n (topology_changed s', m)"
  using assms by (simp add: service_inv_def routes_current_def handles_current_def topology_changed_def)

lemma inv_policy:
  assumes inv: "service_inv n (s, m)" and m': "m' = m \<or> policy_revision m' = policy_revision m + 1" and n: "Suc n < 2 ^ 64"
  shows "service_inv (Suc n) (s, m')"
proof (cases "m' = m")
  case True
  with inv show ?thesis by (auto intro: inv_mono)
next
  case False
  then have m': "policy_revision m' = policy_revision m + 1" using m' by simp
  have small: "unat (policy_revision m) \<le> n" using inv by (simp add: service_inv_def)
  then have up: "unat (policy_revision m') = Suc (unat (policy_revision m))"
    using n unfolding m' by (simp add: unat_word_ariths)
  have later: "r \<le> policy_revision m' \<and> r \<noteq> policy_revision m'" if "r \<le> policy_revision m" for r
    using that up by (auto simp: word_le_nat_alt)
  show ?thesis
    using inv later up small unfolding service_inv_def routes_current_def handles_current_def by auto
qed

lemma policy_moves:
  "grant_read owner p m = m \<or> policy_revision (grant_read owner p m) = policy_revision m + 1"
  "revoke_component owner m = m \<or> policy_revision (revoke_component owner m) = policy_revision m + 1"
proof -
  show "grant_read owner p m = m \<or> policy_revision (grant_read owner p m) = policy_revision m + 1"
    by (cases "read_grants m owner") (auto simp: grant_read_def Let_def fun_upd_idem)
qed (simp add: revoke_component_def)

section \<open>Every operation keeps it\<close>

lemma handle_valid_same: "same_topology s t \<Longrightarrow> handle_valid s m key \<longleftrightarrow> handle_valid t m key"
  by (simp add: handle_valid_def same_topology_resolves(1))

lemma inv_resolve:
  assumes "service_inv n (s, m)"
  shows "service_inv n (snd (resolve_provider m caller k inactive s), m)"
    and "same_topology (snd (resolve_provider m caller k inactive s)) s"
    and "sv_next_handle (snd (resolve_provider m caller k inactive s)) = sv_next_handle s"
    and "sv_handles (snd (resolve_provider m caller k inactive s)) = sv_handles s"
proof -
  define key where "key = \<lparr>rk_caller = caller, rk_contract = k, rk_inactive = inactive\<rparr>"
  define s' where "s' = s\<lparr>sv_routes := (sv_routes s)(key \<mapsto> \<lparr>cr_topology = sv_topology s, cr_policy = policy_revision m,
    cr_result = resolve_uncached m s caller k inactive\<rparr>)\<rparr>"
  have cases: "snd (resolve_provider m caller k inactive s) = s \<or> snd (resolve_provider m caller k inactive s) = s'"
    by (auto simp: resolve_provider_def Let_def s'_def key_def split: option.split)
  have same: "same_topology s' s" by (simp add: s'_def same_topology_def)
  have fields: "sv_topology s' = sv_topology s" "sv_handle_policy s' = sv_handle_policy s" "sv_handles s' = sv_handles s"
    "sv_next_handle s' = sv_next_handle s" "sv_handle_cache s' = sv_handle_cache s"
    by (simp_all add: s'_def)
  have "routes_current s' m"
    unfolding routes_current_def same_topology_resolves(2) [OF same] fields
    using assms by (auto simp: s'_def key_def service_inv_def routes_current_def)
  moreover have "handles_current s' m"
    using assms by (simp add: handles_current_def service_inv_def fields handle_valid_same [OF same])
  ultimately have "service_inv n (s', m)" using assms by (simp add: service_inv_def)
  with cases assms show "service_inv n (snd (resolve_provider m caller k inactive s), m)" by metis
  show "same_topology (snd (resolve_provider m caller k inactive s)) s"
    using cases same by (auto simp: same_topology_def)
  show "sv_next_handle (snd (resolve_provider m caller k inactive s)) = sv_next_handle s"
    "sv_handles (snd (resolve_provider m caller k inactive s)) = sv_handles s"
    using cases fields by auto
qed

lemma next_handle_greater:
  fixes n h :: u64
  assumes "n \<noteq> - 1" "h \<le> n"
  shows "h < n + 1"
proof -
  have "1 + n \<noteq> 0" using assms(1) by (metis add.commute add_eq_0_iff)
  then have "unat (1 + n) = Suc (unat n)" by (rule unatSuc)
  with assms(2) show ?thesis by (simp add: word_le_nat_alt word_less_nat_alt add.commute)
qed

lemma inv_issue:
  assumes inv: "service_inv n (s, m)" and policy: "sv_handle_policy s = policy_revision m" and valid: "handle_valid s m key"
    and issue: "issue_provider_handle key s = Inr (handle, s')"
  shows "service_inv n (s', m)" and "same_topology s' s" and "sv_handle_policy s' = policy_revision m"
    and "sv_handles s' handle = Some key"
    and "sv_next_handle s \<le> sv_next_handle s'"
    and "\<And>h. h \<le> sv_next_handle s \<Longrightarrow> sv_handles s' h = sv_handles s h"
proof -
  show same: "same_topology s' s"
    using issue by (auto simp: issue_provider_handle_def Let_def same_topology_def split: option.splits if_splits)
  show policy': "sv_handle_policy s' = policy_revision m"
    using issue policy by (auto simp: issue_provider_handle_def Let_def split: option.splits if_splits)
  have handles: "handles_current s m" and routes: "routes_current s m" using inv by (auto simp: service_inv_def)
  have "service_inv n (s', m) \<and> sv_handles s' handle = Some key \<and> sv_next_handle s \<le> sv_next_handle s' \<and>
    (\<forall>h. h \<le> sv_next_handle s \<longrightarrow> sv_handles s' h = sv_handles s h)"
  proof (cases "sv_handle_cache s key")
    case (Some h)
    with issue have "s' = s" "handle = h" by (simp_all add: issue_provider_handle_def)
    with Some inv handles show ?thesis by (simp add: handles_current_def)
  next
    case None
    with issue have raw: "sv_next_handle s \<noteq> - 1" "handle = sv_next_handle s + 1"
      and s': "s' = s\<lparr>sv_next_handle := handle, sv_handles := (sv_handles s)(handle \<mapsto> key),
        sv_handle_cache := (sv_handle_cache s)(key \<mapsto> handle)\<rparr>"
      by (auto simp: issue_provider_handle_def Let_def split: if_splits)
    have greater: "h < handle" if "h \<le> sv_next_handle s" for h
      using next_handle_greater [OF raw(1) that] raw(2) by simp
    have below: "h < handle" if "sv_handles s h = Some k" for h k
      using that handles greater by (auto simp: handles_current_def)
    have "handles_current s' m"
      unfolding handles_current_def
    proof (intro conjI allI impI)
      show "sv_handle_policy s' \<le> policy_revision m" using policy' by simp
    next
      fix h k assume h: "sv_handles s' h = Some k"
      show "h \<le> sv_next_handle s'"
        using h below by (cases "h = handle") (auto simp: s' intro: order_less_imp_le)
      show "handle_valid s' m k"
        unfolding handle_valid_same [OF same] using h valid handles policy
        by (cases "h = handle") (auto simp: s' handles_current_def)
    next
      fix h k assume h: "sv_handle_cache s' k = Some h"
      show "sv_handles s' h = Some k"
      proof (cases "k = key")
        case False
        then have "sv_handle_cache s k = Some h" using h by (simp add: s')
        then have old: "sv_handles s h = Some k" using handles by (simp add: handles_current_def)
        from below [OF this] have "h \<noteq> handle" by auto
        with old show ?thesis by (simp add: s')
      qed (use h in \<open>simp add: s'\<close>)
    qed
    moreover have "routes_current s' m"
      using routes unfolding routes_current_def same_topology_resolves(2) [OF same] by (simp add: s')
    moreover have "sv_handles s' h = sv_handles s h" if "h \<le> sv_next_handle s" for h
      using greater [OF that] by (auto simp: s')
    moreover have "sv_next_handle s \<le> sv_next_handle s'" using greater [of "sv_next_handle s"] by (simp add: s')
    ultimately show ?thesis using inv by (simp add: service_inv_def s')
  qed
  then show "service_inv n (s', m)" "sv_handles s' handle = Some key" "sv_next_handle s \<le> sv_next_handle s'"
    "\<And>h. h \<le> sv_next_handle s \<Longrightarrow> sv_handles s' h = sv_handles s h" by auto
qed

text \<open>Handle numbers only grow, and an old number keeps its meaning or loses it.\<close>

definition handles_grow :: "'h service_state \<Rightarrow> 'h service_state \<Rightarrow> bool" where
  "handles_grow s s' \<longleftrightarrow> sv_next_handle s \<le> sv_next_handle s' \<and>
     (\<forall>h \<le> sv_next_handle s. sv_handles s' h = None \<or> sv_handles s' h = sv_handles s h)"

lemma handles_grow_refl: "handles_grow s s"
  by (simp add: handles_grow_def)

lemma handles_grow_trans: "handles_grow s t \<Longrightarrow> handles_grow t u \<Longrightarrow> handles_grow s u"
  unfolding handles_grow_def by (metis order_trans)

lemma handles_grow_topology: "sv_next_handle t = sv_next_handle s \<Longrightarrow> handles_grow s (topology_changed t)"
  by (simp add: handles_grow_def topology_changed_def)

lemma issue_handles:
  assumes "service_inv n (s, m)" "sv_handle_policy s = policy_revision m" "\<forall>key \<in> set keys. handle_valid s m key"
    and "issue_provider_handles keys s = (r, s')"
  shows "service_inv n (s', m) \<and> same_topology s' s \<and> sv_handle_policy s' = policy_revision m \<and>
    sv_next_handle s \<le> sv_next_handle s' \<and>
    (\<forall>h \<le> sv_next_handle s. sv_handles s' h = sv_handles s h) \<and>
    (\<forall>hs. r = Inr hs \<longrightarrow> map (sv_handles s') hs = map Some keys)"
  using assms
proof (induction keys arbitrary: s r s')
  case (Cons key keys)
  show ?case
  proof (cases "issue_provider_handle key s")
    case (Inl e)
    with Cons.prems show ?thesis by (auto simp: same_topology_def)
  next
    case (Inr q)
    obtain handle t where q: "q = (handle, t)" by (cases q)
    have issue: "issue_provider_handle key s = Inr (handle, t)" using Inr q by simp
    have "handle_valid s m key" using Cons.prems(3) by simp
    note head = inv_issue [OF Cons.prems(1,2) this issue]
    obtain r' u where rest: "issue_provider_handles keys t = (r', u)" by (cases "issue_provider_handles keys t")
    have "\<forall>k \<in> set keys. handle_valid t m k" using Cons.prems(3) by (simp add: handle_valid_same [OF head(2)])
    note tail = Cons.IH [OF head(1,3) this rest]
    have "handle \<le> sv_next_handle t" using head(1,4) by (auto simp: service_inv_def handles_current_def)
    then have handle: "sv_handles u handle = Some key" using tail head(4) by simp
    have s': "s' = u" "\<And>hs. r = Inr hs \<Longrightarrow> \<exists>hs'. r' = Inr hs' \<and> hs = handle # hs'"
      using Cons.prems(4) by (auto simp: issue rest split: sum.splits)
    have "same_topology u s" using tail head(2) same_topology_trans by blast
    moreover have "sv_next_handle s \<le> sv_next_handle u" using head(5) tail by (auto intro: order_trans)
    moreover have "sv_handles u h = sv_handles s h" if "h \<le> sv_next_handle s" for h
    proof -
      have "h \<le> sv_next_handle t" using that head(5) by (rule order_trans)
      then have "sv_handles u h = sv_handles t h" using tail by blast
      then show ?thesis using head(6) [OF that] by simp
    qed
    ultimately show ?thesis using tail handle s' by auto
  qed
qed (auto simp: same_topology_def)

lemma inv_sync:
  assumes "service_inv n (s, m)"
  shows "service_inv n (sync_provider_handle_policy (policy_revision m) s, m)"
    and "same_topology (sync_provider_handle_policy (policy_revision m) s) s"
    and "sv_handle_policy (sync_provider_handle_policy (policy_revision m) s) = policy_revision m"
    and "handles_grow s (sync_provider_handle_policy (policy_revision m) s)"
proof -
  show "same_topology (sync_provider_handle_policy (policy_revision m) s) s"
    by (simp add: sync_provider_handle_policy_def same_topology_def)
  note same = this
  show "sv_handle_policy (sync_provider_handle_policy (policy_revision m) s) = policy_revision m"
    "handles_grow s (sync_provider_handle_policy (policy_revision m) s)"
    by (simp_all add: sync_provider_handle_policy_def handles_grow_def)
  show "service_inv n (sync_provider_handle_policy (policy_revision m) s, m)"
    using assms unfolding service_inv_def prod.case routes_current_def handles_current_def same_topology_resolves(2) [OF same]
      handle_valid_same [OF same]
    by (auto simp: sync_provider_handle_policy_def)
qed

lemma inv_list_providers:
  assumes inv: "service_inv n (s, m)" and run: "list_providers_with_mode m caller k inactive s = (r, s')"
  shows "service_inv n (s', m) \<and> same_topology s' s \<and> sv_handle_policy s' = policy_revision m \<and> handles_grow s s' \<and>
    (\<forall>hs. r = Inr hs \<longrightarrow> (\<exists>providers. resolve_binding_uncached m s caller k inactive = Inr (Multiple, providers) \<and>
       map (sv_handles s') hs = map (\<lambda>p. Some \<lparr>hk_caller = caller, hk_contract = k, hk_provider = p, hk_inactive = inactive\<rparr>) providers))"
proof -
  define t where "t = sync_provider_handle_policy (policy_revision m) s"
  note sync = inv_sync [OF inv, folded t_def]
  show ?thesis
  proof (cases "resolve_binding_uncached m t caller k inactive")
    case (Inl e)
    with run sync show ?thesis by (auto simp: list_providers_with_mode_def Let_def t_def [symmetric])
  next
    case (Inr q)
    obtain resolution providers where q: "q = (resolution, providers)" by (cases q)
    let ?keys = "map (\<lambda>p. \<lparr>hk_caller = caller, hk_contract = k, hk_provider = p, hk_inactive = inactive\<rparr>) providers"
    have binding: "resolve_binding_uncached m t caller k inactive = Inr (resolution, providers)" using Inr q by simp
    show ?thesis
    proof (cases "resolution = Multiple \<and> \<not> length providers > max_service_providers")
      case False
      with run sync binding show ?thesis
        by (auto simp: list_providers_with_mode_def Let_def t_def [symmetric] split: if_splits)
    next
      case True
      then have "\<forall>key \<in> set ?keys. handle_valid t m key" using binding by (auto simp: handle_valid_def)
      moreover have issue: "issue_provider_handles ?keys t = (r, s')"
        using run True binding by (simp add: list_providers_with_mode_def Let_def t_def [symmetric])
      ultimately have all: "service_inv n (s', m) \<and> same_topology s' t \<and> sv_handle_policy s' = policy_revision m \<and> sv_next_handle t \<le> sv_next_handle s' \<and>
          (\<forall>h \<le> sv_next_handle t. sv_handles s' h = sv_handles t h) \<and> (\<forall>hs. r = Inr hs \<longrightarrow> map (sv_handles s') hs = map Some ?keys)"
        by (rule issue_handles [OF sync(1) sync(3)])
      then have "handles_grow t s'" by (simp add: handles_grow_def)
      then have "handles_grow s s'" using sync(4) handles_grow_trans by blast
      moreover have "same_topology s' s" using all sync(2) same_topology_trans by blast
      ultimately show ?thesis using all binding True same_topology_resolves(1) [OF sync(2)] by (simp add: o_def)
    qed
  qed
qed

text \<open>Every operation on the topology leaves the state or ends with \<open>topology_changed\<close>.\<close>

definition topology_move :: "'h service_state \<Rightarrow> 'h service_state \<Rightarrow> bool" where
  "topology_move s s' \<longleftrightarrow> s' = s \<or>
     (\<exists>t. s' = topology_changed t \<and> sv_handle_policy t = sv_handle_policy s \<and> sv_next_handle t = sv_next_handle s)"

lemma topology_move_refl: "topology_move s s"
  by (simp add: topology_move_def)

lemma topology_move_change:
  "sv_handle_policy t = sv_handle_policy s \<Longrightarrow> sv_next_handle t = sv_next_handle s \<Longrightarrow> topology_move s (topology_changed t)"
  unfolding topology_move_def by blast

lemma topology_moves:
  "topology_move s (or_same (define_platform_contract scope d s) s)"
  "topology_move s (clear_platform_contracts_in_scope scope s)"
  "topology_move s (or_same (register_instance name i s) s)"
  "topology_move s (unregister_instance name s)"
  "topology_move s (or_same (activate_instance name s) s)"
  "topology_move s (deactivate_instance name s)"
  "topology_move s (clear_preferred_provider scope k s)"
  by (simp_all add: or_same_def define_platform_contract_def clear_platform_contracts_in_scope_def register_instance_def
      unregister_instance_def activate_instance_def deactivate_instance_def clear_preferred_provider_def set_active_def Let_def
      topology_move_refl topology_move_change split: option.split)

lemma topology_move_prefer: "topology_move s (set_preferred_provider scope k p s)"
proof (cases "sv_preferred s scope")
  case (Some ps)
  then have "s\<lparr>sv_preferred := (sv_preferred s)(scope \<mapsto> ps)\<rparr> = s" by (simp add: fun_upd_idem)
  with Some show ?thesis unfolding topology_move_def set_preferred_provider_def Let_def by fastforce
qed (fastforce simp: topology_move_def set_preferred_provider_def Let_def)

lemma inv_move:
  assumes "service_inv n (s, m)" "topology_move s s'"
  shows "service_inv (Suc n) (s', m)" "handles_grow s s'"
proof -
  have "service_inv n (s', m)" using assms inv_topology unfolding topology_move_def by metis
  then show "service_inv (Suc n) (s', m)" by (rule inv_mono) simp
  show "handles_grow s s'" using assms(2) handles_grow_refl handles_grow_topology unfolding topology_move_def by metis
qed

lemma inv_event:
  assumes inv: "service_inv n (s, m)" and n: "Suc n < 2 ^ 64"
  shows "service_inv (Suc n) (apply_service_event e (s, m)) \<and> handles_grow s (fst (apply_service_event e (s, m)))"
proof (cases e)
  case (Grant owner p)
  then show ?thesis using inv_policy [OF inv policy_moves(1) n] by (simp add: handles_grow_refl)
next
  case (RevokeGrants owner)
  then show ?thesis using inv_policy [OF inv policy_moves(2) n] by (simp add: handles_grow_refl)
next
  case (ResolveProvider caller k inactive)
  then show ?thesis using inv_mono [OF inv_resolve(1) [OF inv]] inv_resolve(3,4) [OF inv] by (simp add: handles_grow_def)
next
  case (ListProviders caller k inactive)
  obtain r s' where run: "list_providers_with_mode m caller k inactive s = (r, s')"
    by (cases "list_providers_with_mode m caller k inactive s")
  from inv_list_providers [OF inv run] show ?thesis by (auto simp: ListProviders run intro: inv_mono)
qed (auto intro!: inv_move [OF inv] topology_moves topology_move_prefer)

lemma inv_history:
  assumes "length es < 2 ^ 64"
  shows "service_inv (length es) (service_history es)"
  using assms
proof (induction es rule: rev_induct)
  case Nil
  show ?case using inv_new by (simp add: service_history_def)
next
  case (snoc e es)
  then have "service_inv (length es) (service_history es)" by simp
  moreover obtain s m where "service_history es = (s, m)" by (cases "service_history es")
  ultimately show ?case using inv_event [of "length es" s m e] snoc.prems by (simp add: service_history_def)
qed

section \<open>What callers get\<close>

text \<open>
  C14. The route cache is invisible: after any history of registrations, activations, preferences, grants and calls, the provider
  that a caller is routed to is the one an uncached resolution finds now, and so is every failure.
\<close>

theorem cached_routes_are_current:
  assumes "length es < 2 ^ 64" and "service_history es = (s, m)"
  shows "fst (resolve_provider m caller k inactive s) = and_then (resolve_uncached m s caller k inactive) (provider_component s)"
proof -
  have inv: "routes_current s m" using inv_history [OF assms(1)] assms(2) by (simp add: service_inv_def)
  let ?key = "\<lparr>rk_caller = caller, rk_contract = k, rk_inactive = inactive\<rparr>"
  have component: "provider_component (s\<lparr>sv_routes := r\<rparr>) = provider_component s" for r
    by (rule ext) (rule same_topology_resolves(3), simp add: same_topology_def)
  show ?thesis
  proof (cases "sv_routes s ?key")
    case None
    then show ?thesis by (simp add: resolve_provider_def Let_def component)
  next
    case (Some cached)
    then have "cr_policy cached = policy_revision m \<Longrightarrow> cr_result cached = resolve_uncached m s caller k inactive"
      using inv by (auto simp: routes_current_def)
    with Some show ?thesis by (simp add: resolve_provider_def Let_def component)
  qed
qed


text \<open>
  What a caller lists is what it can call: the handles of a listing, at most 64, resolve in order to the providers of the
  caller's current binding.
\<close>

theorem listed_handles_resolve:
  assumes "length es < 2 ^ 64" and "service_history es = (s, m)"
    and "list_providers_with_mode m caller k inactive s = (Inr handles, s')"
  shows "\<exists>providers. resolve_binding_uncached m s caller k inactive = Inr (Multiple, providers) \<and>
    length handles \<le> max_service_providers \<and>
    map (\<lambda>h. resolve_provider_handle m caller h inactive s') handles =
      map (\<lambda>p. and_then (provider_component s p) (\<lambda>found. Inr (k, found))) providers"
proof -
  have inv: "service_inv (length es) (s, m)" using inv_history [OF assms(1)] assms(2) by simp
  from inv_list_providers [OF inv assms(3)] obtain providers where
    binding: "resolve_binding_uncached m s caller k inactive = Inr (Multiple, providers)"
    and handles: "map (sv_handles s') handles =
      map (\<lambda>p. Some \<lparr>hk_caller = caller, hk_contract = k, hk_provider = p, hk_inactive = inactive\<rparr>) providers"
    and same: "same_topology s' s" and policy: "sv_handle_policy s' = policy_revision m" by auto
  have "length handles = length providers" using arg_cong [OF handles, of length] by simp
  moreover have "length providers \<le> max_service_providers"
    using assms(3) binding same_topology_resolves(1) [OF inv_sync(2) [OF inv]]
    by (auto simp: list_providers_with_mode_def Let_def split: if_splits)
  moreover have "resolve_provider_handle m caller (handles ! i) inactive s' =
      and_then (provider_component s (providers ! i)) (\<lambda>found. Inr (k, found))" if "i < length handles" for i
  proof -
    have "sv_handles s' (handles ! i) =
        Some \<lparr>hk_caller = caller, hk_contract = k, hk_provider = providers ! i, hk_inactive = inactive\<rparr>"
      using that arg_cong [OF handles, of "\<lambda>xs. xs ! i"] calculation(1) by simp
    then show ?thesis by (simp add: resolve_provider_handle_def policy same_topology_resolves(3) [OF same])
  qed
  ultimately show ?thesis using binding by (auto intro!: nth_equalityI)
qed

text \<open>
  Handle numbers are never reused: a number that means a caller, a contract, a provider and a mode at one time means
  exactly the same whenever it means anything later.
\<close>

theorem handles_never_reused:
  assumes "length (es @ es') < 2 ^ 64"
    and "sv_handles (fst (service_history es)) h = Some key"
    and "sv_handles (fst (service_history (es @ es'))) h = Some key'"
  shows "key' = key"
proof -
  have inv: "service_inv (length es) (service_history es)" using assms(1) by (intro inv_history) simp
  then have issued: "h \<le> sv_next_handle (fst (service_history es))"
    using assms(2) by (auto simp: service_inv_def handles_current_def split: prod.splits)
  have "handles_grow (fst (service_history es)) (fst (service_history (es @ es')))" using assms(1)
  proof (induction es' rule: rev_induct)
    case (snoc e es')
    obtain s m where history: "service_history (es @ es') = (s, m)" by (cases "service_history (es @ es')")
    have "service_inv (length (es @ es')) (s, m)" using inv_history [of "es @ es'"] snoc.prems history by simp
    with inv_event [OF this, of e] snoc.prems
    have "handles_grow s (fst (service_history (es @ es' @ [e])))" using history by (simp add: service_history_def)
    then show ?case using snoc history handles_grow_trans by fastforce
  qed (simp add: handles_grow_refl)
  with issued assms(2,3) show ?thesis by (auto simp: handles_grow_def)
qed

end
