(* ===== verification/Extension_Calls.thy ===== *)
theory Extension_Calls
  imports Extension_Routing
begin

text \<open>
  Service calls between components (\<open>crates/extension-engine/src/services.rs\<close>): the checks of the transport, the lock of
  the provider, its handler, and the calls its handler makes in turn.

  A component is a parameter: its state, the limit it sets on messages, and a handler whose run is the tree of the calls it
  makes on its context, each with what it does on the answer. Bytes are lists of characters.
\<close>

section \<open>Components\<close>

text \<open>\<open>ExtensionError\<close>: the transport tells only messages that are too large from the other constructors.\<close>

datatype extension_failure = HostMessageTooLarge string nat nat | OtherExtensionError string

datatype 'c service_behaviour =
    Respond string 'c
  | FailWith extension_failure 'c
  | CallService contract_key string "service_call_error + string \<Rightarrow> 'c service_behaviour"
  | ListServiceProviders contract_key "service_call_error + u64 list \<Rightarrow> 'c service_behaviour"
  | CallServiceProvider u64 string "service_call_error + string \<Rightarrow> 'c service_behaviour"
  | ReadSecret secret_path "secret_access_error + string \<Rightarrow> 'c service_behaviour"

record 'c component_code =
  code_limit :: "'c \<Rightarrow> nat option"
  code_handle :: "'c \<Rightarrow> contract_key \<Rightarrow> string \<Rightarrow> 'c service_behaviour"

datatype lock_status = Unlocked | Locked | Poisoned

record ('h, 'c) call_state =
  cs_services :: "'h service_state"
  cs_contents :: "'h \<Rightarrow> 'c"
  cs_locks :: "'h \<Rightarrow> lock_status"

text \<open>The policy does not change during a call: components cannot change it.\<close>

record 'c call_host =
  host_secrets :: secret_manager
  host_vault :: "secret_path \<Rightarrow> secret_access_error + string option"
  host_code :: "'c component_code"

definition max_message_bytes :: nat where "max_message_bytes = 8 * 1024 * 1024"

type_synonym ('h, 'c) invoker =
  "component_ref \<Rightarrow> 'h \<Rightarrow> component_identity \<Rightarrow> contract_key \<Rightarrow> string \<Rightarrow> ('h, 'c) call_state \<Rightarrow>
   ((service_call_error + string) \<times> ('h, 'c) call_state) option"

section \<open>Calls\<close>

text \<open>\<open>call_with_stack\<close> and \<open>call_provider_with_stack\<close>, over the invocation of a provider with the stack of the caller.\<close>

definition call_with ::
  "'c call_host \<Rightarrow> ('h, 'c) invoker \<Rightarrow> component_ref \<Rightarrow> contract_key \<Rightarrow> string \<Rightarrow> bool \<Rightarrow> ('h, 'c) call_state \<Rightarrow>
   ((service_call_error + string) \<times> ('h, 'c) call_state) option" where
  "call_with host invoke caller contract request allow_inactive w =
     (if length request > max_message_bytes then Some (Inl RequestTooLarge, w)
      else case resolve_provider (host_secrets host) caller contract allow_inactive (cs_services w) of
        (Inl e, s) \<Rightarrow> Some (Inl e, w\<lparr>cs_services := s\<rparr>)
      | (Inr (provider, component, identity), s) \<Rightarrow>
          invoke provider component identity contract request (w\<lparr>cs_services := s\<rparr>))"

definition call_provider_with ::
  "'c call_host \<Rightarrow> ('h, 'c) invoker \<Rightarrow> component_ref \<Rightarrow> u64 \<Rightarrow> string \<Rightarrow> bool \<Rightarrow> ('h, 'c) call_state \<Rightarrow>
   ((service_call_error + string) \<times> ('h, 'c) call_state) option" where
  "call_provider_with host invoke caller handle request allow_inactive w =
     (if length request > max_message_bytes then Some (Inl RequestTooLarge, w)
      else case resolve_provider_handle (host_secrets host) caller handle allow_inactive (cs_services w) of
        Inl e \<Rightarrow> Some (Inl e, w)
      | Inr (contract, provider, component, identity) \<Rightarrow> invoke provider component identity contract request w)"

text \<open>The run of a handler with its context, which calls in the name of \<open>owner\<close>.\<close>

primrec run_service ::
  "'c call_host \<Rightarrow> ('h, 'c) invoker \<Rightarrow> component_ref \<Rightarrow> 'c service_behaviour \<Rightarrow> ('h, 'c) call_state \<Rightarrow>
   ((extension_failure + string) \<times> 'c \<times> ('h, 'c) call_state) option" where
  "run_service host invoke owner (Respond response c) w = Some (Inr response, c, w)"
| "run_service host invoke owner (FailWith e c) w = Some (Inl e, c, w)"
| "run_service host invoke owner (CallService contract request next) w =
     (case call_with host invoke owner contract request True w of
        None \<Rightarrow> None | Some (answer, w) \<Rightarrow> run_service host invoke owner (next answer) w)"
| "run_service host invoke owner (ListServiceProviders contract next) w =
     (case list_providers_with_mode (host_secrets host) owner contract True (cs_services w) of
        (answer, s) \<Rightarrow> run_service host invoke owner (next answer) (w\<lparr>cs_services := s\<rparr>))"
| "run_service host invoke owner (CallServiceProvider handle request next) w =
     (case call_provider_with host invoke owner handle request True w of
        None \<Rightarrow> None | Some (answer, w) \<Rightarrow> run_service host invoke owner (next answer) w)"
| "run_service host invoke owner (ReadSecret path next) w =
     run_service host invoke owner (next (read_for_component (host_vault host) (host_secrets host) owner path)) w"

definition provider_transport_error :: "extension_failure \<Rightarrow> service_call_error" where
  "provider_transport_error e =
     (case e of
        HostMessageTooLarge operation actual maximum \<Rightarrow>
          if operation = ''service request'' then RequestTooLarge
          else if operation = ''service response'' then ResponseTooLarge
          else ProviderFailed
      | OtherExtensionError _ \<Rightarrow> ProviderFailed)"

text \<open>
  The number of nested calls still allowed is fuel; without any, the model has no answer. The stack holds the providers that
  are being called, the outermost first.
\<close>

primrec invoke_provider ::
  "nat \<Rightarrow> 'c call_host \<Rightarrow> component_ref list \<Rightarrow> ('h, 'c) invoker" where
  "invoke_provider 0 host stack provider component identity contract request w = None"
| "invoke_provider (Suc fuel) host stack provider component identity contract request w =
     (if provider \<in> set stack then Some (Inl CyclicCall, w)
      else case cs_locks w component of
        Locked \<Rightarrow> Some (Inl ProviderBusy, w)
      | Poisoned \<Rightarrow> Some (Inl ProviderFailed, w)
      | Unlocked \<Rightarrow>
          (let content = cs_contents w component;
               limit = min (case code_limit (host_code host) content of None \<Rightarrow> max_message_bytes | Some l \<Rightarrow> l) max_message_bytes
           in if length request > limit then Some (Inl RequestTooLarge, w)
              else case run_service host (invoke_provider fuel host (stack @ [provider])) provider
                     (code_handle (host_code host) content contract request)
                     (w\<lparr>cs_locks := (cs_locks w)(component := Locked)\<rparr>) of
                None \<Rightarrow> None
              | Some (result, content, w) \<Rightarrow>
                  (let w = w\<lparr>cs_contents := (cs_contents w)(component := content),
                             cs_locks := (cs_locks w)(component := Unlocked)\<rparr>
                   in Some (case result of
                        Inl e \<Rightarrow> (Inl (provider_transport_error e), w)
                      | Inr response \<Rightarrow> (if length response > limit then Inl ResponseTooLarge else Inr response, w)))))"

text \<open>The entry points: a component from outside any call, or from an execution of the host; and the platform itself.\<close>

definition call_service :: "nat \<Rightarrow> 'c call_host \<Rightarrow> component_ref \<Rightarrow> contract_key \<Rightarrow> string \<Rightarrow> bool \<Rightarrow> ('h, 'c) call_state \<Rightarrow>
    ((service_call_error + string) \<times> ('h, 'c) call_state) option" where
  "call_service fuel host caller contract request from_execution w =
     call_with host (invoke_provider fuel host []) caller contract request from_execution w"

definition call_service_provider :: "nat \<Rightarrow> 'c call_host \<Rightarrow> component_ref \<Rightarrow> u64 \<Rightarrow> string \<Rightarrow> bool \<Rightarrow> ('h, 'c) call_state \<Rightarrow>
    ((service_call_error + string) \<times> ('h, 'c) call_state) option" where
  "call_service_provider fuel host caller handle request from_execution w =
     call_provider_with host (invoke_provider fuel host []) caller handle request from_execution w"


section \<open>Nested calls end\<close>

definition registered_components :: "'h service_state \<Rightarrow> component_ref set" where
  "registered_components s = {r. service_component s r \<noteq> None}"

lemma finite_registered: "finite (registered_components s)"
proof (rule finite_subset)
  let ?f = "\<lambda>(name, c). \<lparr>ref_instance = name, ref_component = c\<rparr>"
  show "registered_components s \<subseteq> ?f ` (\<Union>(name, i) \<in> set (sv_instances s). (\<lambda>c. (name, fst c)) ` set (si_components i))"
  proof
    fix r assume "r \<in> registered_components s"
    then obtain i c where "map_of (sv_instances s) (ref_instance r) = Some i" "map_of (si_components i) (ref_component r) = Some c"
      by (auto simp: registered_components_def service_component_def split: option.splits)
    then have "(ref_instance r, i) \<in> set (sv_instances s)" "(ref_component r, c) \<in> set (si_components i)"
      by (simp_all add: map_of_SomeD)
    then show "r \<in> ?f ` (\<Union>(name, i) \<in> set (sv_instances s). (\<lambda>c. (name, fst c)) ` set (si_components i))"
      by (intro image_eqI [of _ _ "(ref_instance r, ref_component r)"]) force+
  qed
qed (auto split: prod.splits)

text \<open>The services of a call keep their topology; so do the locks, once the call is over.\<close>

definition settles :: "('h, 'c) call_state \<Rightarrow> ('h, 'c) call_state \<Rightarrow> bool" where
  "settles w w' \<longleftrightarrow> same_topology (cs_services w') (cs_services w) \<and> cs_locks w' = cs_locks w"

lemma settles_refl: "settles w w"
  by (simp add: settles_def same_topology_def)

lemma settles_trans: "settles w w' \<Longrightarrow> settles w' w'' \<Longrightarrow> settles w w''"
  by (auto simp: settles_def intro: same_topology_trans)

definition invoker_ends :: "'h service_state \<Rightarrow> ('h, 'c) invoker \<Rightarrow> bool" where
  "invoker_ends s invoke \<longleftrightarrow> (\<forall>provider component identity contract request w.
     same_topology (cs_services w) s \<longrightarrow> provider \<in> registered_components s \<longrightarrow>
     (\<exists>r w'. invoke provider component identity contract request w = Some (r, w') \<and> settles w w' \<and>
        (\<forall>response. r = Inr response \<longrightarrow> length response \<le> max_message_bytes)))"

lemma registered_same: "same_topology s t \<Longrightarrow> registered_components s = registered_components t"
  by (simp add: registered_components_def service_component_def same_topology_def)

lemma resolve_topology: "same_topology (snd (resolve_provider m caller k inactive s)) s"
  by (auto simp: resolve_provider_def Let_def same_topology_def split: option.split)

lemma provider_component_registered: "provider_component s p = Inr (q, h, i) \<Longrightarrow> q \<in> registered_components s"
  by (auto simp: provider_component_def registered_components_def split: option.splits)

lemma resolve_registered:
  assumes "resolve_provider m caller k inactive s = (Inr (p, h, i), s')"
  shows "p \<in> registered_components s"
proof -
  have "and_then r (provider_component t) = Inr (p, h, i) \<Longrightarrow> p \<in> registered_components t" for r and t :: "'a service_state"
    by (auto simp: and_then_def intro: provider_component_registered split: sum.splits)
  moreover have "registered_components (s\<lparr>sv_routes := x\<rparr>) = registered_components s" for x
    by (simp add: registered_components_def service_component_def)
  ultimately show ?thesis using assms
    by (auto simp: resolve_provider_def Let_def split: option.splits if_splits)
qed

lemma handle_registered:
  "resolve_provider_handle m caller handle inactive s = Inr (k, p, h, i) \<Longrightarrow> p \<in> registered_components s"
  by (auto simp: resolve_provider_handle_def and_then_def intro: provider_component_registered
      split: option.splits if_splits sum.splits)


lemma issue_topology: "same_topology (snd (issue_provider_handles keys s)) s"
proof (induction keys arbitrary: s)
  case (Cons key keys)
  show ?case
  proof (cases "issue_provider_handle key s")
    case (Inr q)
    obtain handle t where q: "q = (handle, t)" by (cases q)
    have "same_topology t s"
      using Inr q by (auto simp: issue_provider_handle_def Let_def same_topology_def split: option.splits if_splits)
    with Cons.IH [of t] Inr q show ?thesis
      by (auto intro: same_topology_trans split: prod.splits sum.splits)
  qed (simp add: same_topology_def)
qed (simp add: same_topology_def)

lemma list_topology: "same_topology (snd (list_providers_with_mode m caller k inactive s)) s"
proof -
  have sync: "same_topology (sync_provider_handle_policy r s) s" for r
    by (simp add: sync_provider_handle_policy_def same_topology_def)
  show ?thesis
    using sync issue_topology same_topology_trans
    by (fastforce simp: list_providers_with_mode_def Let_def split: sum.split)
qed




text \<open>What a call comes to: an answer within the limit, everything settled.\<close>

definition call_ends :: "('h, 'c) call_state \<Rightarrow> ((service_call_error + string) \<times> ('h, 'c) call_state) option \<Rightarrow> bool" where
  "call_ends w result \<longleftrightarrow> (\<exists>r w'. result = Some (r, w') \<and> settles w w' \<and>
     (\<forall>response. r = Inr response \<longrightarrow> length response \<le> max_message_bytes))"

lemma call_endsI: "settles w w' \<Longrightarrow> call_ends w (Some (Inl e, w'))"
  by (simp add: call_ends_def)

lemma call_ends_later: "settles w w' \<Longrightarrow> call_ends w' result \<Longrightarrow> call_ends w result"
  unfolding call_ends_def by (blast intro: settles_trans)

lemma invoker_endsD:
  "invoker_ends s invoke \<Longrightarrow> same_topology (cs_services w) s \<Longrightarrow> provider \<in> registered_components (cs_services w) \<Longrightarrow>
    call_ends w (invoke provider component identity contract request w)"
  using registered_same unfolding invoker_ends_def call_ends_def by blast

lemma call_with_ends:
  assumes "invoker_ends s invoke" "same_topology (cs_services w) s"
  shows "call_ends w (call_with host invoke caller k request inactive w)"
proof -
  obtain r t where r: "resolve_provider (host_secrets host) caller k inactive (cs_services w) = (r, t)" by fastforce
  then have t: "same_topology t (cs_services w)"
    using resolve_topology [of "host_secrets host" caller k inactive "cs_services w"] by simp
  let ?w = "w\<lparr>cs_services := t\<rparr>"
  have w: "settles w ?w" using t by (simp add: settles_def)
  have "call_ends w (invoke p h i k request ?w)" if "r = Inr (p, h, i)" for p h i
  proof (rule call_ends_later [OF w], rule invoker_endsD [OF assms(1)])
    show "same_topology (cs_services ?w) s" using t assms(2) by (auto intro: same_topology_trans)
    show "p \<in> registered_components (cs_services ?w)"
      using resolve_registered [OF r [unfolded that]] registered_same [OF t] by simp
  qed
  then show ?thesis using r w by (auto simp: call_with_def intro: call_endsI settles_refl split: sum.split)
qed

lemma call_provider_with_ends:
  assumes "invoker_ends s invoke" "same_topology (cs_services w) s"
  shows "call_ends w (call_provider_with host invoke caller handle request inactive w)"
proof (cases "resolve_provider_handle (host_secrets host) caller handle inactive (cs_services w)")
  case (Inr q)
  obtain k p h i where q: "q = (k, p, h, i)" by (cases q)
  from invoker_endsD [OF assms handle_registered [OF Inr [unfolded q]]] show ?thesis
    by (simp add: call_provider_with_def Inr q call_endsI settles_refl)
qed (simp add: call_provider_with_def call_endsI settles_refl)

lemma run_service_ends:
  assumes "invoker_ends s invoke" "same_topology (cs_services w) s"
  shows "\<exists>r c w'. run_service host invoke owner b w = Some (r, c, w') \<and> settles w w'"
  using assms(2)
proof (induction b arbitrary: w)
  case (CallService k request f)
  from call_with_ends [OF assms(1) CallService.prems, of host owner k request True]
  obtain r w' where call: "call_with host invoke owner k request True w = Some (r, w')" "settles w w'"
    by (auto simp: call_ends_def)
  then have "same_topology (cs_services w') s" using CallService.prems by (auto simp: settles_def intro: same_topology_trans)
  from CallService.IH [OF _ this, of "f r"] call show ?case by (auto intro: settles_trans)
next
  case (ListServiceProviders k f)
  obtain r t where l: "list_providers_with_mode (host_secrets host) owner k True (cs_services w) = (r, t)" by fastforce
  then have t: "same_topology t (cs_services w)"
    using list_topology [of "host_secrets host" owner k True "cs_services w"] by simp
  then have "same_topology (cs_services (w\<lparr>cs_services := t\<rparr>)) s"
    using ListServiceProviders.prems by (auto intro: same_topology_trans)
  from ListServiceProviders.IH [OF _ this, of "f r"] l t show ?case
    by (auto simp: settles_def intro: same_topology_trans)
next
  case (CallServiceProvider handle request f)
  from call_provider_with_ends [OF assms(1) CallServiceProvider.prems, of host owner handle request True]
  obtain r w' where call: "call_provider_with host invoke owner handle request True w = Some (r, w')" "settles w w'"
    by (auto simp: call_ends_def)
  then have "same_topology (cs_services w') s" using CallServiceProvider.prems by (auto simp: settles_def intro: same_topology_trans)
  from CallServiceProvider.IH [OF _ this, of "f r"] call show ?case by (auto intro: settles_trans)
next
  case (ReadSecret path f)
  from ReadSecret.IH [OF _ ReadSecret.prems] show ?case by simp
qed (auto simp: settles_refl)

lemma invoke_provider_ends:
  "card (registered_components s - set stack) < fuel \<Longrightarrow> invoker_ends s (invoke_provider fuel host stack)"
proof (induction fuel arbitrary: stack)
  case (Suc fuel)
  have "call_ends w (invoke_provider (Suc fuel) host stack p h i k request w)"
    if w: "same_topology (cs_services w) s" and p: "p \<in> registered_components s" for p h i k request w
  proof (cases "p \<in> set stack \<or> cs_locks w h \<noteq> Unlocked")
    case True
    then show ?thesis by (auto intro: call_endsI settles_refl split: lock_status.split)
  next
    case False
    let ?content = "cs_contents w h"
    let ?limit = "min (case code_limit (host_code host) ?content of None \<Rightarrow> max_message_bytes | Some l \<Rightarrow> l) max_message_bytes"
    let ?w = "w\<lparr>cs_locks := (cs_locks w)(h := Locked)\<rparr>"
    have "registered_components s - set (stack @ [p]) = (registered_components s - set stack) - {p}" by auto
    then have "card (registered_components s - set (stack @ [p])) < fuel"
      using Suc.prems p False card_Diff1_less [of "registered_components s - set stack" p] finite_registered [of s] by simp
    then have "invoker_ends s (invoke_provider fuel host (stack @ [p]))" by (rule Suc.IH)
    then obtain r c w' where run: "run_service host (invoke_provider fuel host (stack @ [p])) p
        (code_handle (host_code host) ?content k request) ?w = Some (r, c, w')" "settles ?w w'"
      using run_service_ends [of s _ ?w] w by fastforce
    let ?done = "w'\<lparr>cs_contents := (cs_contents w')(h := c), cs_locks := (cs_locks w')(h := Unlocked)\<rparr>"
    have "settles w ?done" using run(2) False by (auto simp: settles_def fun_upd_idem)
    then show ?thesis using False run(1)
      by (auto simp: Let_def call_ends_def settles_refl split: sum.split)
  qed
  then show ?case unfolding invoker_ends_def call_ends_def by blast
qed simp

section \<open>The fuel does not matter\<close>

definition invoker_le :: "('h, 'c) invoker \<Rightarrow> ('h, 'c) invoker \<Rightarrow> bool" where
  "invoker_le f g \<longleftrightarrow> (\<forall>p h i k request w x. f p h i k request w = Some x \<longrightarrow> g p h i k request w = Some x)"

lemma invoker_leD: "invoker_le f g \<Longrightarrow> f p h i k request w = Some x \<Longrightarrow> g p h i k request w = Some x"
  unfolding invoker_le_def by blast

lemma call_with_le: "invoker_le f g \<Longrightarrow> call_with host f caller k request b w = Some x \<Longrightarrow> call_with host g caller k request b w = Some x"
  by (auto simp: call_with_def invoker_leD split: prod.splits sum.splits if_splits)

lemma call_provider_with_le:
  "invoker_le f g \<Longrightarrow> call_provider_with host f caller h request b w = Some x \<Longrightarrow> call_provider_with host g caller h request b w = Some x"
  by (auto simp: call_provider_with_def invoker_leD split: prod.splits sum.splits if_splits)

lemma run_service_le:
  assumes "invoker_le f g"
  shows "run_service host f owner b w = Some x \<Longrightarrow> run_service host g owner b w = Some x"
proof (induction b arbitrary: w)
  case (CallService k request f')
  then obtain answer w' where "call_with host f owner k request True w = Some (answer, w')"
    "run_service host f owner (f' answer) w' = Some x" by (auto split: option.splits)
  with CallService.IH call_with_le [OF assms] show ?case by fastforce
next
  case (CallServiceProvider handle request f')
  then obtain answer w' where "call_provider_with host f owner handle request True w = Some (answer, w')"
    "run_service host f owner (f' answer) w' = Some x" by (auto split: option.splits)
  with CallServiceProvider.IH call_provider_with_le [OF assms] show ?case by fastforce
qed (auto split: prod.splits)

lemma invoke_provider_le: "invoker_le (invoke_provider fuel host stack) (invoke_provider (Suc fuel) host stack)"
proof (induction fuel arbitrary: stack)
  case (Suc fuel)
  show ?case unfolding invoker_le_def
  proof (intro allI impI)
    fix p h i k request and w :: "('a, 'b) call_state" and x
    assume more: "invoke_provider (Suc fuel) host stack p h i k request w = Some x"
    let ?run = "\<lambda>fuel. run_service host (invoke_provider fuel host (stack @ [p])) p
      (code_handle (host_code host) (cs_contents w h) k request) (w\<lparr>cs_locks := (cs_locks w)(h := Locked)\<rparr>)"
    show "invoke_provider (Suc (Suc fuel)) host stack p h i k request w = Some x"
    proof (cases "?run fuel")
      case None
      with more show ?thesis by (auto simp: Let_def split: if_splits lock_status.splits)
    next
      case (Some y)
      then have "?run (Suc fuel) = Some y" by (rule run_service_le [OF Suc.IH])
      with more Some show ?thesis
        unfolding invoke_provider.simps(2) [of "Suc fuel"] invoke_provider.simps(2) [of fuel] by (simp only: Let_def)
    qed
  qed
qed (simp add: invoker_le_def)

lemma invoke_provider_more: "invoke_provider fuel host stack p h i k request w = Some x \<Longrightarrow>
    invoke_provider (fuel + n) host stack p h i k request w = Some x"
proof (induction n)
  case (Suc n)
  then have "invoke_provider (fuel + n) host stack p h i k request w = Some x" by simp
  then show ?case unfolding add_Suc_right by (rule invoker_leD [OF invoke_provider_le])
qed simp

lemma invoker_le_more: "invoker_le (invoke_provider fuel host stack) (invoke_provider (fuel + n) host stack)"
  unfolding invoker_le_def by (intro allI impI invoke_provider_more)

text \<open>As much fuel as there are components, and one more.\<close>

definition call_fuel :: "('h, 'c) call_state \<Rightarrow> nat" where
  "call_fuel w = Suc (card (registered_components (cs_services w)))"

lemma call_fuel_ends: "invoker_ends (cs_services w) (invoke_provider (call_fuel w) host [])"
  by (rule invoke_provider_ends) (simp add: call_fuel_def)

text \<open>
  C13. A service call comes back, whatever the components do: nested calls cannot go on for ever, because no component is
  entered twice, so as much fuel as there are registered components, and one more, is enough, and more fuel gives the same.
  The answer is within the limit of 8 MiB or an error, every lock that was taken is released, and no call changes the topology.
\<close>

theorem service_calls_return:
  assumes "call_fuel w \<le> fuel"
  shows "\<exists>r w'. call_service fuel host caller k request inactive w = Some (r, w') \<and>
    call_service (call_fuel w) host caller k request inactive w = Some (r, w') \<and>
    cs_locks w' = cs_locks w \<and> same_topology (cs_services w') (cs_services w) \<and>
    (\<forall>response. r = Inr response \<longrightarrow> length response \<le> max_message_bytes)"
proof -
  obtain n where fuel: "fuel = call_fuel w + n" using assms by (auto simp: le_iff_add)
  have "same_topology (cs_services w) (cs_services w)" by (simp add: same_topology_def)
  from call_with_ends [where caller = caller and k = k and request = request and inactive = inactive and host = host, OF call_fuel_ends [of w host] this] obtain r w' where
    call: "call_with host (invoke_provider (call_fuel w) host []) caller k request inactive w = Some (r, w')"
    and ends: "settles w w'" "\<forall>response. r = Inr response \<longrightarrow> length response \<le> max_message_bytes"
    by (auto simp: call_ends_def)
  from call_with_le [OF invoker_le_more call] call ends show ?thesis
    by (auto simp: call_service_def fuel settles_def)
qed


end
