(* ===== verification/Extension_Activation.thy ===== *)
theory Extension_Activation
  imports Extension_Composition "HOL-Library.While_Combinator"
begin

text \<open>
  The order in which a batch of extension instances is activated
  (\<open>crates/extension-engine/src/activation.rs\<close>): providers before consumers, by Kahn's algorithm over the indices of
  the batch, and the cycle that is reported when there is no such order.
\<close>

section \<open>The plan\<close>

datatype activation_plan_error =
    DuplicateInstance string
  | RequiredContractUnresolved (failed_instance: string) (failed_component: string) (failed_contract: contract_key)
      (failed_reason: unresolved_reason)
  | DependencyCycle "string list"

fun joined_instances :: "string list \<Rightarrow> string" where
  "joined_instances [] = []"
| "joined_instances [x] = x"
| "joined_instances (x # y # xs) = x @ '' -> '' @ joined_instances (y # xs)"

definition activation_plan_error_display :: "activation_plan_error \<Rightarrow> string" where
  "activation_plan_error_display e =
     (case e of
        DuplicateInstance i \<Rightarrow> ''extension instance `'' @ i @ ''` appears more than once in the activation plan''
      | RequiredContractUnresolved i c k r \<Rightarrow>
          ''required contract `'' @ contract_key_display k @ ''` for component `'' @ c @ ''` in extension instance `'' @ i @
          ''` is unresolved: '' @ unresolved_reason_display r
      | DependencyCycle instances \<Rightarrow> ''activation dependency cycle detected: '' @ joined_instances instances)"

record plan_graph =
  outgoing :: "nat list list"
  incoming :: "nat list list"
  indegrees :: "nat list"
  edges :: "(nat \<times> nat) set"

fun index_instances :: "nat \<Rightarrow> string list \<Rightarrow> (string \<rightharpoonup> nat) \<Rightarrow> string + (string \<rightharpoonup> nat)" where
  "index_instances i [] indices = Inr indices"
| "index_instances i (x # xs) indices =
     (if indices x \<noteq> None then Inl x else index_instances (Suc i) xs (indices(x \<mapsto> i)))"

definition add_dependency :: "(string \<rightharpoonup> nat) \<Rightarrow> string \<Rightarrow> string \<Rightarrow> plan_graph \<Rightarrow> plan_graph" where
  "add_dependency indices provider consumer g =
     (if provider = consumer then g
      else case indices consumer of
        None \<Rightarrow> g
      | Some c \<Rightarrow>
          (case indices provider of
             None \<Rightarrow> g
           | Some p \<Rightarrow>
               if (p, c) \<in> edges g then g
               else \<lparr>outgoing = (outgoing g)[p := outgoing g ! p @ [c]],
                     incoming = (incoming g)[c := incoming g ! c @ [p]],
                     indegrees = (indegrees g)[c := indegrees g ! c + 1],
                     edges = insert (p, c) (edges g)\<rparr>))"

definition empty_graph :: "nat \<Rightarrow> plan_graph" where
  "empty_graph n = \<lparr>outgoing = replicate n [], incoming = replicate n [], indegrees = replicate n 0, edges = {}\<rparr>"

definition build_graph :: "(string \<rightharpoonup> nat) \<Rightarrow> nat \<Rightarrow> contract_binding list \<Rightarrow> (string \<times> string) list \<Rightarrow> plan_graph" where
  "build_graph indices n bindings dependencies =
     (let g = fold (\<lambda>b. fold (\<lambda>p. add_dependency indices (ref_instance p) (ref_instance (binding_consumer b)))
                (binding_providers b)) (filter binding_required bindings) (empty_graph n);
          g = fold (\<lambda>(p, c). add_dependency indices p c) dependencies g
      in g\<lparr>outgoing := map sort (outgoing g), incoming := map sort (incoming g)\<rparr>)"

text \<open>The heap of ready indices pops its least element: it is the list of its elements in order.\<close>

definition release_dependent :: "nat \<Rightarrow> nat list \<times> nat list \<Rightarrow> nat list \<times> nat list" where
  "release_dependent d s =
     (case s of (degrees, ready) \<Rightarrow>
        let degrees = degrees[d := degrees ! d - 1]
        in (degrees, if degrees ! d = 0 then insort d ready else ready))"

definition plan_step :: "nat list list \<Rightarrow> nat list \<times> nat list \<times> nat list \<Rightarrow> nat list \<times> nat list \<times> nat list" where
  "plan_step out s =
     (case s of (ready, degrees, ordered) \<Rightarrow>
        let index = hd ready;
            (degrees, ready) = fold release_dependent (out ! index) (degrees, tl ready)
        in (ready, degrees, ordered @ [index]))"

definition order_indices :: "nat list list \<Rightarrow> nat list \<Rightarrow> (nat list \<times> nat list \<times> nat list) option" where
  "order_indices out degrees =
     while_option (\<lambda>(ready, degrees, ordered). ready \<noteq> []) (plan_step out)
       (filter (\<lambda>i. degrees ! i = 0) [0..<length degrees], degrees, [])"

partial_function (option) trace_cycle ::
  "string list \<Rightarrow> nat list list \<Rightarrow> nat list \<Rightarrow> nat \<Rightarrow> nat list \<Rightarrow> (nat \<rightharpoonup> nat) \<Rightarrow> string list option" where
  "trace_cycle instances inc residual current path positions =
     (case positions current of
        Some start \<Rightarrow> Some (map (\<lambda>i. instances ! i) (drop start path) @ [instances ! current])
      | None \<Rightarrow>
          (let candidates = filter (\<lambda>i. residual ! i > 0) (inc ! current)
           in if candidates = []
              then Some (map (\<lambda>i. instances ! i) (filter (\<lambda>i. residual ! i > 0) [0..<length residual]))
              else trace_cycle instances inc residual (min_list candidates) (path @ [current])
                     (positions(current \<mapsto> length path))))"

definition find_dependency_cycle :: "string list \<Rightarrow> nat list list \<Rightarrow> nat list \<Rightarrow> string list option" where
  "find_dependency_cycle instances inc residual =
     (case find (\<lambda>i. residual ! i > 0) [0..<length residual] of
        None \<Rightarrow> Some []
      | Some current \<Rightarrow> trace_cycle instances inc residual current [] (\<lambda>_. None))"

text \<open>
  The whole planner; \<open>None\<close> would be a planner that does not return. The \<open>debug_assert!\<close> on providers outside the batch,
  absent from a release build, has no part in the model.
\<close>

definition build_activation_plan ::
  "composition_snapshot \<Rightarrow> string list \<Rightarrow> (string \<times> string) list \<Rightarrow> (activation_plan_error + string list) option" where
  "build_activation_plan snapshot scheduled dependencies =
     (case index_instances 0 scheduled (\<lambda>_. None) of
        Inl x \<Rightarrow> Some (Inl (DuplicateInstance x))
      | Inr indices \<Rightarrow>
          (case find (\<lambda>u. unresolved_required u \<and> indices (ref_instance (unresolved_consumer u)) \<noteq> None)
                  (snapshot_unresolved snapshot) of
             Some u \<Rightarrow> Some (Inl (RequiredContractUnresolved (ref_instance (unresolved_consumer u))
               (ref_component (unresolved_consumer u)) (unresolved_key u) (unresolved_reason u)))
           | None \<Rightarrow>
               (let g = build_graph indices (length scheduled) (snapshot_bindings snapshot) dependencies
                in case order_indices (outgoing g) (indegrees g) of
                     None \<Rightarrow> None
                   | Some (ready, degrees, ordered) \<Rightarrow>
                       if length ordered \<noteq> length scheduled
                       then (case find_dependency_cycle scheduled (incoming g) degrees of
                               None \<Rightarrow> None
                             | Some cycle \<Rightarrow> Some (Inl (DependencyCycle cycle)))
                       else Some (Inr (map (\<lambda>i. scheduled ! i) ordered)))))"

section \<open>The graph\<close>

definition graph_of :: "nat \<Rightarrow> (nat \<times> nat) set \<Rightarrow> plan_graph \<Rightarrow> bool" where
  "graph_of n E g \<longleftrightarrow>
     edges g = E \<and> E \<subseteq> {..<n} \<times> {..<n} \<and>
     length (outgoing g) = n \<and> length (incoming g) = n \<and> length (indegrees g) = n \<and>
     (\<forall>i < n. distinct (outgoing g ! i) \<and> set (outgoing g ! i) = {c. (i, c) \<in> E}) \<and>
     (\<forall>i < n. distinct (incoming g ! i) \<and> set (incoming g ! i) = {p. (p, i) \<in> E}) \<and>
     (\<forall>i < n. indegrees g ! i = length (incoming g ! i))"

lemma graph_of_empty: "graph_of n {} (empty_graph n)"
  by (simp add: graph_of_def empty_graph_def)

lemma graph_of_insert:
  assumes g: "graph_of n E g" and new: "(p, c) \<notin> E" and range: "p < n" "c < n"
  shows "graph_of n (insert (p, c) E)
    \<lparr>outgoing = (outgoing g)[p := outgoing g ! p @ [c]], incoming = (incoming g)[c := incoming g ! c @ [p]],
     indegrees = (indegrees g)[c := indegrees g ! c + 1], edges = insert (p, c) (edges g)\<rparr>"
  using assms by (auto simp: graph_of_def nth_list_update)

definition index_edge :: "(string \<rightharpoonup> nat) \<Rightarrow> string \<times> string \<Rightarrow> (nat \<times> nat) set" where
  "index_edge indices e = {(i, j). fst e \<noteq> snd e \<and> indices (fst e) = Some i \<and> indices (snd e) = Some j}"

lemma graph_of_add:
  assumes "graph_of n E g" "\<And>x i. indices x = Some i \<Longrightarrow> i < n"
  shows "graph_of n (E \<union> index_edge indices (p, c)) (add_dependency indices p c g)"
proof (cases "p = c \<or> indices c = None \<or> indices p = None")
  case True
  then have "index_edge indices (p, c) = {}" "add_dependency indices p c g = g"
    by (auto simp: index_edge_def add_dependency_def split: option.split)
  with assms(1) show ?thesis by simp
next
  case False
  then obtain i j where ij: "indices p = Some i" "indices c = Some j" "p \<noteq> c" by auto
  then have "index_edge indices (p, c) = {(i, j)}" by (auto simp: index_edge_def)
  moreover have "edges g = E" using assms(1) by (simp add: graph_of_def)
  ultimately show ?thesis using assms(1) graph_of_insert [OF assms(1) _ assms(2) [OF ij(1)] assms(2) [OF ij(2)]] ij
    by (cases "(i, j) \<in> E") (simp_all add: add_dependency_def insert_absorb)
qed

lemma graph_of_fold:
  assumes "graph_of n E g" "\<And>x i. indices x = Some i \<Longrightarrow> i < n"
  shows "graph_of n (E \<union> (\<Union>e \<in> set es. index_edge indices e)) (fold (\<lambda>(p, c). add_dependency indices p c) es g)"
  using assms(1)
proof (induction es arbitrary: E g)
  case (Cons e es)
  obtain p c where e: "e = (p, c)" by (cases e)
  from Cons.IH [OF graph_of_add [where p = p and c = c, OF Cons.prems assms(2)]] show ?case by (simp add: e Un_assoc)
qed simp

text \<open>The dependencies between instances: a provider and the consumer that requires it.\<close>

definition required_dependencies :: "composition_snapshot \<Rightarrow> (string \<times> string) list \<Rightarrow> (string \<times> string) list" where
  "required_dependencies snapshot dependencies =
     concat (map (\<lambda>b. map (\<lambda>p. (ref_instance p, ref_instance (binding_consumer b))) (binding_providers b))
       (filter binding_required (snapshot_bindings snapshot))) @ dependencies"

lemma fold_pairs: "fold (\<lambda>p. add (f p) x) ps g = fold (\<lambda>(p, c). add p c) (map (\<lambda>p. (f p, x)) ps) g"
  by (induction ps arbitrary: g) simp_all

lemma fold_concat_map:
  assumes "\<And>b g. h' b g = fold h (f b) g"
  shows "fold h' bs g = fold h (concat (map f bs)) g"
  by (induction bs arbitrary: g) (simp_all add: assms)

lemma graph_of_sorted:
  assumes "graph_of n E g"
  shows "graph_of n E (g\<lparr>outgoing := map sort (outgoing g), incoming := map sort (incoming g)\<rparr>)"
  using assms by (auto simp: graph_of_def)

lemma graph_of_build:
  assumes "\<And>x i. indices x = Some i \<Longrightarrow> i < n"
  shows "graph_of n (\<Union>e \<in> set (required_dependencies snapshot dependencies). index_edge indices e)
    (build_graph indices n (snapshot_bindings snapshot) dependencies)"
proof -
  let ?add = "\<lambda>(p, c). add_dependency indices p c"
  have flat: "fold (\<lambda>b. fold (\<lambda>p. add_dependency indices (ref_instance p) (ref_instance (binding_consumer b)))
      (binding_providers b)) bs g =
    fold ?add (concat (map (\<lambda>b. map (\<lambda>p. (ref_instance p, ref_instance (binding_consumer b))) (binding_providers b)) bs)) g" for bs g
    by (rule fold_concat_map) (rule fold_pairs)
  have "build_graph indices n (snapshot_bindings snapshot) dependencies =
    (let g = fold ?add (required_dependencies snapshot dependencies) (empty_graph n)
     in g\<lparr>outgoing := map sort (outgoing g), incoming := map sort (incoming g)\<rparr>)"
    unfolding build_graph_def required_dependencies_def Let_def flat fold_append o_apply by (rule refl)
  with graph_of_sorted [OF graph_of_fold [OF graph_of_empty assms]] show ?thesis by (simp add: Let_def)
qed

end
