(* ===== verification/Extension_Activation_Facts.thy ===== *)
theory Extension_Activation_Facts
  imports Extension_Activation
begin

text \<open>
  Why the planner is right: the loop keeps, for every index, the number of its providers that are still to come, so the ready
  indices are the ones all of whose providers are ordered; what is left at the end has a provider in what is left, hence a cycle.
\<close>

section \<open>The loop\<close>

definition candidates :: "nat \<Rightarrow> (nat \<times> nat) set \<Rightarrow> nat list \<Rightarrow> nat set" where
  "candidates n E ordered = {i. i < n \<and> i \<notin> set ordered \<and> (\<forall>p. (p, i) \<in> E \<longrightarrow> p \<in> set ordered)}"

text \<open>Every index is, when it is ordered, the least of those that can be.\<close>

definition least_first :: "nat \<Rightarrow> (nat \<times> nat) set \<Rightarrow> nat list \<Rightarrow> bool" where
  "least_first n E ordered \<longleftrightarrow> (\<forall>k < length ordered. ordered ! k \<in> candidates n E (take k ordered) \<and>
     (\<forall>j \<in> candidates n E (take k ordered). ordered ! k \<le> j))"

definition plan_inv :: "nat \<Rightarrow> (nat \<times> nat) set \<Rightarrow> nat list \<times> nat list \<times> nat list \<Rightarrow> bool" where
  "plan_inv n E s \<longleftrightarrow> (case s of (ready, degrees, ordered) \<Rightarrow>
     distinct ordered \<and> set ordered \<subseteq> {..<n} \<and> least_first n E ordered \<and>
     length degrees = n \<and> (\<forall>i < n. degrees ! i = card {p. (p, i) \<in> E \<and> p \<notin> set ordered}) \<and>
     sorted ready \<and> distinct ready \<and> set ready = candidates n E ordered)"

lemma least_first_snoc:
  "least_first n E (ordered @ [i]) \<longleftrightarrow>
     least_first n E ordered \<and> i \<in> candidates n E ordered \<and> (\<forall>j \<in> candidates n E ordered. i \<le> j)"
  by (auto simp: least_first_def less_Suc_eq nth_append)

lemma least_first_closed:
  assumes "least_first n E ordered" "(p, i) \<in> E" "i \<in> set ordered"
  shows "p \<in> set ordered"
proof -
  obtain k where "k < length ordered" "ordered ! k = i" using assms(3) by (auto simp: in_set_conv_nth)
  with assms(1,2) have "p \<in> set (take k ordered)" by (auto simp: least_first_def candidates_def)
  then show ?thesis by (rule in_set_takeD)
qed

lemma release_dependents:
  assumes "distinct ds" "\<And>d. d \<in> set ds \<Longrightarrow> d < length degrees \<and> 0 < degrees ! d \<and> d \<notin> D"
    and "sorted ready" "distinct ready" "set ready = {i. i < length degrees \<and> i \<notin> D \<and> degrees ! i = 0}"
  shows "\<exists>degrees' ready'. fold release_dependent ds (degrees, ready) = (degrees', ready') \<and>
    length degrees' = length degrees \<and>
    (\<forall>i < length degrees. degrees' ! i = (if i \<in> set ds then degrees ! i - 1 else degrees ! i)) \<and>
    sorted ready' \<and> distinct ready' \<and> set ready' = {i. i < length degrees \<and> i \<notin> D \<and> degrees' ! i = 0}"
  using assms
proof (induction ds arbitrary: degrees ready)
  case (Cons d ds)
  let ?degrees = "degrees[d := degrees ! d - 1]"
  let ?ready = "if ?degrees ! d = 0 then insort d ready else ready"
  have d: "d < length degrees" "0 < degrees ! d" "d \<notin> D" "d \<notin> set ds" using Cons.prems(1,2) by auto
  then have "d \<notin> set ready" using Cons.prems(5) by auto
  then have "distinct ?ready" "sorted ?ready" using Cons.prems(3,4) by (auto simp: distinct_insort sorted_insort)
  moreover have "set ?ready = {i. i < length ?degrees \<and> i \<notin> D \<and> ?degrees ! i = 0}"
  proof (cases "degrees ! d - 1 = 0")
    case True
    with d Cons.prems(5) have "set ?ready = insert d {i. i < length degrees \<and> i \<notin> D \<and> degrees ! i = 0}"
      by (simp add: set_insort_key)
    also have "\<dots> = {i. i < length ?degrees \<and> i \<notin> D \<and> ?degrees ! i = 0}"
      using d True by (intro set_eqI) (simp add: nth_list_update, blast)
    finally show ?thesis .
  next
    case False
    with d have "set ?ready = set ready" by simp
    also have "\<dots> = {i. i < length ?degrees \<and> i \<notin> D \<and> ?degrees ! i = 0}"
      unfolding Cons.prems(5) using d False by (intro set_eqI) (auto simp: nth_list_update)
    finally show ?thesis .
  qed
  moreover have "\<And>e. e \<in> set ds \<Longrightarrow> e < length ?degrees \<and> 0 < ?degrees ! e \<and> e \<notin> D"
    using Cons.prems(2) d(4) by (auto simp: nth_list_update)
  ultimately obtain degrees' ready' where rest: "fold release_dependent ds (?degrees, ?ready) = (degrees', ready')"
    "length degrees' = length ?degrees"
    "\<forall>i < length ?degrees. degrees' ! i = (if i \<in> set ds then ?degrees ! i - 1 else ?degrees ! i)"
    "sorted ready'" "distinct ready'" "set ready' = {i. i < length ?degrees \<and> i \<notin> D \<and> degrees' ! i = 0}"
    using Cons.IH [of ?degrees ?ready] Cons.prems(1) by auto
  have "fold release_dependent (d # ds) (degrees, ready) = (degrees', ready')"
    using rest(1) by (simp add: release_dependent_def Let_def)
  moreover have "\<forall>i < length degrees. degrees' ! i = (if i \<in> set (d # ds) then degrees ! i - 1 else degrees ! i)"
    using rest(3) d by (simp add: nth_list_update)
  ultimately show ?case using rest(2,4,5,6) by (intro exI [of _ degrees'] exI [of _ ready']) simp
qed simp

lemma candidates_degree:
  assumes "finite E" "\<forall>i < n. degrees ! i = card {p. (p, i) \<in> E \<and> p \<notin> set ordered}"
  shows "candidates n E ordered = {i. i < n \<and> i \<notin> set ordered \<and> degrees ! i = 0}"
proof -
  have "finite {p. (p, i) \<in> E \<and> p \<notin> set ordered}" for i
    by (rule finite_subset [OF _ finite_imageI [OF assms(1), of fst]]) force
  then show ?thesis using assms(2) by (auto simp: candidates_def)
qed

text \<open>What the loop needs of the graph: the dependents of every index, each once, and no index its own dependent.\<close>

definition dependents_of :: "nat \<Rightarrow> (nat \<times> nat) set \<Rightarrow> nat list list \<Rightarrow> bool" where
  "dependents_of n E out \<longleftrightarrow> E \<subseteq> {..<n} \<times> {..<n} \<and> (\<forall>i. (i, i) \<notin> E) \<and>
     (\<forall>i < n. distinct (out ! i) \<and> set (out ! i) = {c. (i, c) \<in> E})"

lemma plan_step_inv:
  assumes graph: "dependents_of n E out" and inv: "plan_inv n E (ready, degrees, ordered)" and some: "ready \<noteq> []"
  shows "plan_inv n E (plan_step out (ready, degrees, ordered))"
    and "\<exists>ready' degrees'. plan_step out (ready, degrees, ordered) = (ready', degrees', ordered @ [hd ready])"
proof -
  obtain i rest where ready: "ready = i # rest" using some by (cases ready) auto
  have fin: "finite E" using graph by (auto simp: dependents_of_def intro: finite_subset)
  have i: "i \<in> candidates n E ordered" and least: "\<forall>j \<in> candidates n E ordered. i \<le> j"
    using inv by (auto simp: plan_inv_def ready)
  then have i_range: "i < n" "i \<notin> set ordered" by (auto simp: candidates_def)
  have degree: "length degrees = n" "\<forall>j < n. degrees ! j = card {p. (p, j) \<in> E \<and> p \<notin> set ordered}"
    using inv by (auto simp: plan_inv_def)
  have dependents: "distinct (out ! i)" "set (out ! i) = {c. (i, c) \<in> E}"
    using graph i_range by (auto simp: dependents_of_def)
  have finp: "finite {p. (p, j) \<in> E \<and> p \<notin> A}" for j A
    by (rule finite_subset [OF _ finite_imageI [OF fin, of fst]]) force
  have "d < length degrees \<and> 0 < degrees ! d \<and> d \<notin> set (ordered @ [i])" if "d \<in> set (out ! i)" for d
  proof -
    have d: "(i, d) \<in> E" using that dependents by simp
    then have "d < n" "d \<noteq> i" using graph by (auto simp: dependents_of_def)
    moreover have "d \<notin> set ordered" using inv d i_range(2) least_first_closed by (fastforce simp: plan_inv_def)
    moreover have "i \<in> {p. (p, d) \<in> E \<and> p \<notin> set ordered}" using d i_range by simp
    then have "0 < card {p. (p, d) \<in> E \<and> p \<notin> set ordered}" using finp card_gt_0_iff by blast
    ultimately show ?thesis using degree by simp
  qed
  moreover have "sorted rest" "distinct rest" "set rest = {j. j < length degrees \<and> j \<notin> set (ordered @ [i]) \<and> degrees ! j = 0}"
    using inv candidates_degree [OF fin degree(2)] degree(1) by (auto simp: plan_inv_def ready)
  ultimately obtain degrees' ready' where step: "fold release_dependent (out ! i) (degrees, rest) = (degrees', ready')"
    and degrees': "length degrees' = n" "\<forall>j < n. degrees' ! j = (if j \<in> set (out ! i) then degrees ! j - 1 else degrees ! j)"
    and ready': "sorted ready'" "distinct ready'" "set ready' = {j. j < n \<and> j \<notin> set (ordered @ [i]) \<and> degrees' ! j = 0}"
    using release_dependents [OF dependents(1), of degrees "set (ordered @ [i])" rest] degree(1) by auto
  have next_degree: "\<forall>j < n. degrees' ! j = card {p. (p, j) \<in> E \<and> p \<notin> set (ordered @ [i])}"
  proof (intro allI impI)
    fix j assume j: "j < n"
    have split: "{p. (p, j) \<in> E \<and> p \<notin> set (ordered @ [i])} = {p. (p, j) \<in> E \<and> p \<notin> set ordered} - {i}" by auto
    show "degrees' ! j = card {p. (p, j) \<in> E \<and> p \<notin> set (ordered @ [i])}"
    proof (cases "(i, j) \<in> E")
      case True
      then have "i \<in> {p. (p, j) \<in> E \<and> p \<notin> set ordered}" using i_range by simp
      with True show ?thesis unfolding split using degrees' degree j dependents finp by simp
    next
      case False
      then have "{p. (p, j) \<in> E \<and> p \<notin> set ordered} - {i} = {p. (p, j) \<in> E \<and> p \<notin> set ordered}" by auto
      with False show ?thesis unfolding split using degrees' degree j dependents by simp
    qed
  qed
  have next_state: "plan_step out (ready, degrees, ordered) = (ready', degrees', ordered @ [i])"
    by (simp add: plan_step_def ready step)
  then show "\<exists>ready' degrees'. plan_step out (ready, degrees, ordered) = (ready', degrees', ordered @ [hd ready])"
    by (simp add: ready)
  have "set ready' = candidates n E (ordered @ [i])"
    using ready'(3) candidates_degree [OF fin next_degree] by simp
  with next_state inv i least i_range degrees'(1) ready' next_degree show "plan_inv n E (plan_step out (ready, degrees, ordered))"
    by (simp add: plan_inv_def least_first_snoc)
qed

section \<open>The whole loop\<close>

lemma order_indices_result:
  assumes graph: "dependents_of n E out" and degrees: "length degrees = n" "\<forall>i < n. degrees ! i = card {p. (p, i) \<in> E}"
  obtains residual ordered where "order_indices out degrees = Some ([], residual, ordered)"
    and "plan_inv n E ([], residual, ordered)"
proof -
  let ?ready = "filter (\<lambda>i. degrees ! i = 0) [0..<length degrees]"
  let ?c = "\<lambda>(ready :: nat list, degrees :: nat list, ordered :: nat list). ready \<noteq> []"
  have fin: "finite E" using graph by (auto simp: dependents_of_def intro: finite_subset)
  have "set ?ready = candidates n E []"
    using candidates_degree [OF fin, of n degrees "[]"] degrees by auto
  moreover have "sorted ?ready" by (simp add: sorted_wrt_filter)
  ultimately have start: "plan_inv n E (?ready, degrees, [])"
    using degrees by (simp add: plan_inv_def least_first_def)
  have "\<exists>t. while_option ?c (plan_step out) (?ready, degrees, []) = Some t"
  proof (rule measure_while_option_Some [where P = "plan_inv n E" and f = "\<lambda>(ready, degrees, ordered). n - length ordered", OF _ start])
    fix s assume inv: "plan_inv n E s" and go: "?c s"
    obtain ready degrees ordered where s: "s = (ready, degrees, ordered)" by (cases s)
    with inv go have inv: "plan_inv n E (ready, degrees, ordered)" "ready \<noteq> []" by simp_all
    obtain ready' degrees' where next_state: "plan_step out s = (ready', degrees', ordered @ [hd ready])"
      using plan_step_inv(2) [OF graph inv] s by auto
    have next_inv: "plan_inv n E (ready', degrees', ordered @ [hd ready])"
      using plan_step_inv(1) [OF graph inv] next_state s by simp
    then have "distinct (ordered @ [hd ready])" "set (ordered @ [hd ready]) \<subseteq> {..<n}" by (auto simp: plan_inv_def)
    then have "length (ordered @ [hd ready]) \<le> n" by (metis distinct_card card_mono finite_lessThan card_lessThan)
    then show "plan_inv n E (plan_step out s) \<and>
        (case plan_step out s of (ready, degrees, ordered) \<Rightarrow> n - length ordered) < (case s of (ready, degrees, ordered) \<Rightarrow> n - length ordered)"
      using next_inv by (simp add: next_state [unfolded s] s)
  qed
  then obtain ready residual ordered where loop: "while_option ?c (plan_step out) (?ready, degrees, []) = Some (ready, residual, ordered)"
    by auto
  have "plan_inv n E (ready, residual, ordered)"
    by (rule while_option_rule [where P = "plan_inv n E", OF _ loop start])
      (auto intro: plan_step_inv(1) [OF graph])
  moreover have "ready = []" using while_option_stop [OF loop] by simp
  ultimately show thesis using that loop by (simp add: order_indices_def)
qed

text \<open>When some index is left, each that is left has a provider that is left.\<close>

definition left_over :: "nat list \<Rightarrow> nat set" where
  "left_over residual = {i. i < length residual \<and> residual ! i > 0}"

lemma left_over_iff:
  assumes "plan_inv n E ([], residual, ordered)" "finite E"
  shows "left_over residual = {..<n} - set ordered"
proof -
  have inv: "length residual = n" "\<forall>i < n. residual ! i = card {p. (p, i) \<in> E \<and> p \<notin> set ordered}"
      "candidates n E ordered = {}" "least_first n E ordered"
    using assms by (auto simp: plan_inv_def)
  have "residual ! i = 0" if "i \<in> set ordered" "i < n" for i
  proof -
    have "{p. (p, i) \<in> E \<and> p \<notin> set ordered} = {}" using least_first_closed [OF inv(4)] that by blast
    with inv(2) that(2) show ?thesis by (simp only: card.empty)
  qed
  moreover have "residual ! i > 0" if "i \<notin> set ordered" "i < n" for i
    using inv(3) that candidates_degree [OF assms(2) inv(2)] by auto
  ultimately show ?thesis using inv(1) by (fastforce simp: left_over_def)
qed

lemma left_over_provider:
  assumes inv: "plan_inv n E ([], residual, ordered)" and E: "E \<subseteq> {..<n} \<times> {..<n}" and i: "i \<in> left_over residual"
  shows "\<exists>p. (p, i) \<in> E \<and> p \<in> left_over residual"
proof -
  have fin: "finite E" using E by (auto intro: finite_subset)
  have "i < n" "i \<notin> set ordered" using i left_over_iff [OF inv fin] by auto
  moreover have "candidates n E ordered = {}" using inv by (auto simp: plan_inv_def)
  ultimately obtain p where "(p, i) \<in> E" "p \<notin> set ordered" by (auto simp: candidates_def)
  with E show ?thesis unfolding left_over_iff [OF inv fin] by auto
qed

section \<open>The cycle\<close>

text \<open>A list of indices that goes back from consumers to providers, and comes back to where it began.\<close>

definition goes_back :: "('a \<times> 'a) set \<Rightarrow> 'a list \<Rightarrow> bool" where
  "goes_back E xs \<longleftrightarrow> successively (\<lambda>c p. (p, c) \<in> E) xs"

definition is_cycle :: "('a \<times> 'a) set \<Rightarrow> 'a list \<Rightarrow> bool" where
  "is_cycle E xs \<longleftrightarrow> 2 \<le> length xs \<and> hd xs = last xs \<and> goes_back E xs"

lemma goes_back_snoc: "goes_back E (xs @ [x, y]) \<longleftrightarrow> goes_back E (xs @ [x]) \<and> (y, x) \<in> E"
  by (auto simp: goes_back_def successively_append_iff)

lemma goes_back_drop: "goes_back E xs \<Longrightarrow> goes_back E (drop k xs)"
  unfolding goes_back_def by (metis append_take_drop_id successively_append_iff)

lemma goes_back_map:
  "goes_back E xs \<Longrightarrow> (\<And>a b. (a, b) \<in> E \<Longrightarrow> (f a, f b) \<in> F) \<Longrightarrow> goes_back F (map f xs)"
  by (simp add: goes_back_def successively_map) (erule successively_mono, blast)

lemma goes_back_trancl:
  "goes_back E (x # xs) \<Longrightarrow> xs \<noteq> [] \<Longrightarrow> (last xs, x) \<in> E\<^sup>+"
proof (induction xs arbitrary: x)
  case (Cons y ys)
  then have step: "(y, x) \<in> E" "goes_back E (y # ys)" by (simp_all add: goes_back_def)
  show ?case
  proof (cases "ys = []")
    case False
    with Cons.IH [OF step(2)] step(1) show ?thesis by (simp add: trancl_into_trancl)
  qed (use step in simp)
qed simp

lemma cycle_not_acyclic: "is_cycle E xs \<Longrightarrow> \<not> acyclic E"
proof -
  assume c: "is_cycle E xs"
  then obtain x ys where xs: "xs = x # ys" "ys \<noteq> []" by (cases xs) (auto simp: is_cycle_def Suc_le_eq)
  with c have "goes_back E (x # ys)" "last ys = x" by (auto simp: is_cycle_def)
  with goes_back_trancl [OF this(1) xs(2)] have "(x, x) \<in> E\<^sup>+" by simp
  then show ?thesis by (auto simp: acyclic_def)
qed

lemma min_list_filter_mem: "filter P xs \<noteq> [] \<Longrightarrow> min_list (filter P xs) \<in> set xs \<and> P (min_list (filter P xs))"
  for xs :: "nat list"
proof -
  assume some: "filter P xs \<noteq> []"
  then have "min_list (filter P xs) \<in> set (filter P xs)"
    unfolding min_list_Min [OF some] using some by (intro Min_in) (simp_all only: finite_set set_empty not_False_eq_True)
  then show ?thesis by simp
qed

lemma trace_cycle_finds:
  assumes inc: "\<And>i. i \<in> R \<Longrightarrow> set (inc ! i) = {p. (p, i) \<in> E}"
    and R: "R = {i. i < length residual \<and> residual ! i > 0}" "E \<subseteq> {..<length residual} \<times> {..<length residual}"
    and step_back: "\<And>i. i \<in> R \<Longrightarrow> \<exists>p. (p, i) \<in> E \<and> p \<in> R"
    and path: "goes_back E (path @ [current])" "set path \<subseteq> R" "current \<in> R"
    and positions: "\<And>i k. positions i = Some k \<longleftrightarrow> k < length path \<and> path ! k = i"
  shows "\<exists>cycle. trace_cycle instances inc residual current path positions = Some (map (\<lambda>i. instances ! i) cycle) \<and>
    is_cycle E cycle \<and> set cycle \<subseteq> R"
  using path positions
proof (induction "card R - card (set path)" arbitrary: current path positions rule: less_induct)
  case less
  show ?case
  proof (cases "positions current")
    case (Some start)
    then have start: "start < length path" "path ! start = current" using less.prems(4) by auto
    let ?cycle = "drop start path @ [current]"
    have "?cycle = drop start (path @ [current])" using start by simp
    then have "goes_back E ?cycle" using goes_back_drop [OF less.prems(1)] by (simp only:)
    moreover have "hd ?cycle = current" using start by (simp add: hd_append hd_drop_conv_nth)
    moreover have "2 \<le> length ?cycle" using start by simp
    ultimately have "is_cycle E ?cycle" by (simp add: is_cycle_def)
    moreover have "set ?cycle \<subseteq> R" using less.prems(2,3) set_drop_subset [of start path] by auto
    ultimately show ?thesis using Some by (intro exI [of _ ?cycle]) (simp add: trace_cycle.simps)
  next
    case None
    let ?candidates = "filter (\<lambda>i. residual ! i > 0) (inc ! current)"
    obtain p where p: "(p, current) \<in> E" "p \<in> R" using step_back less.prems(3) by blast
    then have some: "?candidates \<noteq> []" using inc [OF less.prems(3)] R(1) by (auto simp: filter_empty_conv)
    let ?next = "min_list ?candidates"
    have "?next \<in> set (inc ! current)" "residual ! ?next > 0" using min_list_filter_mem [OF some] by auto
    then have next_index: "(?next, current) \<in> E" "?next \<in> R" using inc [OF less.prems(3)] R by auto
    have fresh: "current \<notin> set path" using None less.prems(4) by (metis in_set_conv_nth option.distinct(1))
    have "card (insert current (set path)) \<le> card R"
      using less.prems(2,3) R(1) by (intro card_mono) auto
    then have smaller: "card R - card (set (path @ [current])) < card R - card (set path)"
      using fresh by (simp add: card_insert_if)
    have "(positions(current \<mapsto> length path)) i = Some k \<longleftrightarrow> k < length (path @ [current]) \<and> (path @ [current]) ! k = i" for i k
      using less.prems(4) fresh None by (auto simp: nth_append less_Suc_eq)
    moreover have "goes_back E ((path @ [current]) @ [?next])"
      using less.prems(1) next_index(1) by (simp add: goes_back_snoc)
    ultimately show ?thesis
      using less.hyps [OF smaller, of ?next "positions(current \<mapsto> length path)"] next_index(2) less.prems(2,3) None some
      by (subst trace_cycle.simps) simp
  qed
qed

end
