(* ===== verification/Extension_Plans.thy ===== *)
theory Extension_Plans
  imports Extension_Activation_Facts
begin

text \<open>
  What the planner of activations promises: an order that puts every provider before its consumers and keeps to the order of the
  batch where it can, or a genuine cycle.
\<close>

section \<open>Indices and instances\<close>

lemma index_instances_ok:
  "distinct xs \<Longrightarrow> \<forall>x \<in> set xs. indices x = None \<Longrightarrow>
    index_instances i xs indices = Inr (indices ++ map_of (zip xs [i..<i + length xs]))"
proof (induction i xs indices rule: index_instances.induct)
  case (2 i x xs indices)
  have "map_of (zip xs [Suc i..<Suc i + length xs]) x = None"
    using "2.prems"(1) by (intro map_of_zip_is_None [THEN iffD2]) (simp_all del: upt_Suc)
  then have "(indices(x \<mapsto> i)) ++ map_of (zip xs [Suc i..<Suc i + length xs]) =
      indices ++ (map_of (zip xs [Suc i..<Suc i + length xs]))(x \<mapsto> i)"
    by (subst map_add_upd_left) (simp_all only: domIff map_add_upd not_not)
  moreover have "index_instances (Suc i) xs (indices(x \<mapsto> i)) =
      Inr ((indices(x \<mapsto> i)) ++ map_of (zip xs [Suc i..<Suc i + length xs]))"
    using "2.prems" by (intro "2.IH") auto
  ultimately show ?case using "2.prems" by (simp add: upt_conv_Cons del: upt_Suc fun_upd_apply)
qed simp

lemma index_instances_duplicate:
  "\<not> (distinct xs \<and> (\<forall>x \<in> set xs. indices x = None)) \<Longrightarrow> \<exists>x. index_instances i xs indices = Inl x"
proof (induction i xs indices rule: index_instances.induct)
  case (2 i x xs indices)
  show ?case
  proof (cases "indices x = None")
    case True
    have "\<not> (distinct xs \<and> (\<forall>y \<in> set xs. (indices(x \<mapsto> i)) y = None))"
      using "2.prems" True by (auto split: if_splits)
    with "2.IH" True have "\<exists>y. index_instances (Suc i) xs (indices(x \<mapsto> i)) = Inl y" by blast
    with True show ?thesis by simp
  qed simp
qed simp

definition positions_of :: "string list \<Rightarrow> (string \<rightharpoonup> nat)" where
  "positions_of xs = map_of (zip xs [0..<length xs])"

lemma index_instances_iff:
  "index_instances 0 xs (\<lambda>_. None) = Inr indices \<longleftrightarrow> distinct xs \<and> indices = positions_of xs"
proof (cases "distinct xs")
  case True
  with index_instances_ok [of xs "\<lambda>_. None" 0] show ?thesis by (auto simp: positions_of_def)
next
  case False
  with index_instances_duplicate [of xs "\<lambda>_. None" 0] show ?thesis by auto
qed

lemma positions_of_iff: "distinct xs \<Longrightarrow> positions_of xs x = Some i \<longleftrightarrow> i < length xs \<and> xs ! i = x"
  by (auto simp: positions_of_def map_of_eq_Some_iff map_fst_zip in_set_zip)

lemma positions_of_None: "positions_of xs x = None \<longleftrightarrow> x \<notin> set xs"
  unfolding positions_of_def by (rule map_of_zip_is_None) simp

text \<open>The dependencies that bind a batch: between two different instances of it.\<close>

definition batch_dependencies :: "composition_snapshot \<Rightarrow> string list \<Rightarrow> (string \<times> string) list \<Rightarrow> (string \<times> string) set" where
  "batch_dependencies snapshot scheduled dependencies =
     {(p, c). (p, c) \<in> set (required_dependencies snapshot dependencies) \<and> p \<noteq> c \<and> p \<in> set scheduled \<and> c \<in> set scheduled}"

definition blocked :: "composition_snapshot \<Rightarrow> string list \<Rightarrow> bool" where
  "blocked snapshot scheduled \<longleftrightarrow> (\<exists>u \<in> set (snapshot_unresolved snapshot).
     unresolved_required u \<and> ref_instance (unresolved_consumer u) \<in> set scheduled)"

definition index_dependencies :: "composition_snapshot \<Rightarrow> string list \<Rightarrow> (string \<times> string) list \<Rightarrow> (nat \<times> nat) set" where
  "index_dependencies snapshot scheduled dependencies =
     (\<Union>e \<in> set (required_dependencies snapshot dependencies). index_edge (positions_of scheduled) e)"

lemma index_dependencies_iff:
  assumes "distinct scheduled"
  shows "(i, j) \<in> index_dependencies snapshot scheduled dependencies \<longleftrightarrow>
    i < length scheduled \<and> j < length scheduled \<and>
    (scheduled ! i, scheduled ! j) \<in> batch_dependencies snapshot scheduled dependencies"
  unfolding index_dependencies_def batch_dependencies_def index_edge_def
  by (force simp: positions_of_iff [OF assms])

section \<open>The two outcomes\<close>

lemma build_unblocked:
  assumes distinct: "distinct scheduled" and free: "\<not> blocked snapshot scheduled"
    and g: "g = build_graph (positions_of scheduled) (length scheduled) (snapshot_bindings snapshot) dependencies"
  shows "build_activation_plan snapshot scheduled dependencies =
    (case order_indices (outgoing g) (indegrees g) of
       None \<Rightarrow> None
     | Some (ready, degrees, ordered) \<Rightarrow>
         if length ordered \<noteq> length scheduled
         then (case find_dependency_cycle scheduled (incoming g) degrees of
                 None \<Rightarrow> None
               | Some cycle \<Rightarrow> Some (Inl (DependencyCycle cycle)))
         else Some (Inr (map (\<lambda>i. scheduled ! i) ordered)))"
proof -
  have "index_instances 0 scheduled (\<lambda>_. None) = Inr (positions_of scheduled)"
    using distinct by (simp add: index_instances_iff)
  moreover have "find (\<lambda>u. unresolved_required u \<and> positions_of scheduled (ref_instance (unresolved_consumer u)) \<noteq> None)
      (snapshot_unresolved snapshot) = None"
    using free by (auto simp: find_None_iff positions_of_None blocked_def)
  ultimately show ?thesis
    by (simp only: build_activation_plan_def g Let_def sum.case option.case)
qed

lemma plan_outcomes:
  assumes distinct: "distinct scheduled" and free: "\<not> blocked snapshot scheduled"
  obtains
    (order) ordered where "build_activation_plan snapshot scheduled dependencies = Some (Inr (map (\<lambda>i. scheduled ! i) ordered))"
      and "distinct ordered" "set ordered = {..<length scheduled}"
      and "least_first (length scheduled) (index_dependencies snapshot scheduled dependencies) ordered"
  | (cycle) cycle where
      "build_activation_plan snapshot scheduled dependencies = Some (Inl (DependencyCycle (map (\<lambda>i. scheduled ! i) cycle)))"
      and "is_cycle (index_dependencies snapshot scheduled dependencies) cycle"
proof -
  let ?n = "length scheduled"
  let ?E = "index_dependencies snapshot scheduled dependencies"
  let ?g = "build_graph (positions_of scheduled) ?n (snapshot_bindings snapshot) dependencies"
  note build = build_unblocked [OF distinct free refl]
  have graph: "graph_of ?n ?E ?g" unfolding index_dependencies_def
    by (rule graph_of_build) (simp add: positions_of_iff [OF distinct])
  have E: "?E \<subseteq> {..<?n} \<times> {..<?n}" "\<forall>i. (i, i) \<notin> ?E"
    by (auto simp: index_dependencies_iff [OF distinct] batch_dependencies_def)
  then have fin: "finite ?E" by (auto intro: finite_subset)
  have dependents: "dependents_of ?n ?E (outgoing ?g)" using graph E by (simp add: dependents_of_def graph_of_def)
  have inc: "set (incoming ?g ! i) = {p. (p, i) \<in> ?E}" "distinct (incoming ?g ! i)" if "i < ?n" for i
    using graph that by (simp_all add: graph_of_def)
  have "indegrees ?g ! i = card {p. (p, i) \<in> ?E}" if "i < ?n" for i
    using graph that distinct_card [OF inc(2) [OF that]] inc(1) [OF that] by (simp add: graph_of_def)
  then obtain residual ordered where loop: "order_indices (outgoing ?g) (indegrees ?g) = Some ([], residual, ordered)"
    and inv: "plan_inv ?n ?E ([], residual, ordered)"
    using order_indices_result [OF dependents, of "indegrees ?g"] graph by (auto simp: graph_of_def)
  have ordered: "distinct ordered" "set ordered \<subseteq> {..<?n}" "least_first ?n ?E ordered" "length residual = ?n"
    using inv by (auto simp: plan_inv_def)
  show thesis
  proof (cases "length ordered = ?n")
    case True
    then have "set ordered = {..<?n}"
      using ordered(1,2) by (intro card_subset_eq) (simp_all add: distinct_card)
    moreover have "build_activation_plan snapshot scheduled dependencies = Some (Inr (map (\<lambda>i. scheduled ! i) ordered))"
      using True by (simp add: build loop)
    ultimately show thesis using order ordered(1,3) by blast
  next
    case False
    let ?R = "left_over residual"
    have R: "?R = {..<?n} - set ordered" by (rule left_over_iff [OF inv fin])
    have "?R \<noteq> {}"
    proof
      assume "?R = {}"
      then have "set ordered = {..<?n}" using R ordered(2) by auto
      then show False using False distinct_card [OF ordered(1)] by simp
    qed
    then obtain i where i: "find (\<lambda>i. residual ! i > 0) [0..<length residual] = Some i"
      by (cases "find (\<lambda>i. residual ! i > 0) [0..<length residual]") (auto simp: find_None_iff left_over_def)
    then have "i \<in> ?R" using find_Some_set [OF i] by (simp add: left_over_def)
    then obtain cycle where
      "trace_cycle scheduled (incoming ?g) residual i [] (\<lambda>_. None) = Some (map (\<lambda>i. scheduled ! i) cycle)" "is_cycle ?E cycle"
      using trace_cycle_finds [of ?R "incoming ?g" ?E residual "[]" i "\<lambda>_. None" scheduled]
        left_over_provider [OF inv E(1)] inc R E(1) ordered(4)
      by (auto simp: left_over_def goes_back_def)
    moreover from this have "build_activation_plan snapshot scheduled dependencies = Some (Inl (DependencyCycle (map (\<lambda>i. scheduled ! i) cycle)))"
      using False i by (simp add: build loop find_dependency_cycle_def)
    ultimately show thesis using cycle by blast
  qed
qed

lemma order_names:
  assumes distinct: "distinct scheduled" and ordered: "distinct ordered" "set ordered = {..<length scheduled}"
    and least: "least_first (length scheduled) (index_dependencies snapshot scheduled dependencies) ordered"
    and plan: "plan = map (\<lambda>i. scheduled ! i) ordered"
  shows "distinct plan \<and> set plan = set scheduled \<and>
    (\<forall>k < length plan.
      (\<forall>p. (p, plan ! k) \<in> batch_dependencies snapshot scheduled dependencies \<longrightarrow> p \<in> set (take k plan)) \<and>
      (\<forall>j < length scheduled.
        scheduled ! j \<notin> set (take k plan) \<and>
        (\<forall>p. (p, scheduled ! j) \<in> batch_dependencies snapshot scheduled dependencies \<longrightarrow> p \<in> set (take k plan)) \<longrightarrow>
        (\<exists>i \<le> j. scheduled ! i = plan ! k)))"
proof -
  let ?n = "length scheduled"
  let ?D = "batch_dependencies snapshot scheduled dependencies"
  let ?E = "index_dependencies snapshot scheduled dependencies"
  have inj: "scheduled ! i = scheduled ! j \<longleftrightarrow> i = j" if "i < ?n" "j < ?n" for i j
    using distinct that by (simp add: nth_eq_iff_index_eq)
  have "inj_on ((!) scheduled) {..<?n}" using inj by (auto simp: inj_on_def)
  then have "distinct plan" using ordered by (simp add: plan distinct_map)
  moreover have "set plan = set scheduled" unfolding plan set_map ordered(2) by (auto simp: set_conv_nth)
  moreover have member: "scheduled ! i \<in> set (take k plan) \<longleftrightarrow> i \<in> set (take k ordered)" if "i < ?n" for i k
  proof -
    have "set (take k ordered) \<subseteq> {..<?n}" using ordered(2) set_take_subset [of k ordered] by auto
    then show ?thesis using inj that by (auto simp: plan take_map)
  qed
  have provider: "\<exists>i < ?n. scheduled ! i = p" if "(p, c) \<in> ?D" for p c
    using that by (auto simp: batch_dependencies_def in_set_conv_nth)
  have "(\<forall>p. (p, plan ! k) \<in> ?D \<longrightarrow> p \<in> set (take k plan)) \<and>
      (\<forall>j < ?n. scheduled ! j \<notin> set (take k plan) \<and> (\<forall>p. (p, scheduled ! j) \<in> ?D \<longrightarrow> p \<in> set (take k plan)) \<longrightarrow>
        (\<exists>i \<le> j. scheduled ! i = plan ! k))" if k: "k < length plan" for k
  proof (intro conjI allI impI)
    let ?i = "ordered ! k"
    have i: "?i < ?n" "plan ! k = scheduled ! ?i" using k ordered(2) nth_mem [of k ordered] by (auto simp: plan)
    have first: "?i \<in> candidates ?n ?E (take k ordered)" "\<And>j. j \<in> candidates ?n ?E (take k ordered) \<Longrightarrow> ?i \<le> j"
      using least k by (auto simp: least_first_def plan)
    fix p assume p: "(p, plan ! k) \<in> ?D"
    then obtain q where q: "q < ?n" "scheduled ! q = p" using provider by blast
    with p i have "(q, ?i) \<in> ?E" by (simp add: index_dependencies_iff [OF distinct])
    with first(1) have "q \<in> set (take k ordered)" by (simp add: candidates_def)
    with q member show "p \<in> set (take k plan)" by auto
  next
    let ?i = "ordered ! k"
    have i: "?i < ?n" "plan ! k = scheduled ! ?i" using k ordered(2) nth_mem [of k ordered] by (auto simp: plan)
    fix j assume j: "j < ?n"
      and free: "scheduled ! j \<notin> set (take k plan) \<and> (\<forall>p. (p, scheduled ! j) \<in> ?D \<longrightarrow> p \<in> set (take k plan))"
    have "j \<in> candidates ?n ?E (take k ordered)"
      using j free member by (auto simp: candidates_def index_dependencies_iff [OF distinct])
    then have "?i \<le> j" using least k by (auto simp: least_first_def plan)
    with i show "\<exists>i \<le> j. scheduled ! i = plan ! k" by auto
  qed
  ultimately show ?thesis by blast
qed

lemma ordered_acyclic:
  fixes plan :: "string list"
  assumes "distinct plan" "\<And>p c. (p, c) \<in> D \<Longrightarrow> c \<in> set plan"
    and "\<And>k p. k < length plan \<Longrightarrow> (p, plan ! k) \<in> D \<Longrightarrow> p \<in> set (take k plan)"
  shows "acyclic D"
proof (rule acyclicI_order [where f = "\<lambda>x. - int (the (positions_of plan x))"])
  fix p c assume d: "(p, c) \<in> D"
  then obtain k where k: "k < length plan" "plan ! k = c" using assms(2) by (metis in_set_conv_nth)
  with d assms(3) have "p \<in> set (take k plan)" by auto
  then obtain i where "i < k" "plan ! i = p" using k by (auto simp: in_set_conv_nth)
  with k have "positions_of plan p = Some i" "positions_of plan c = Some k" by (simp_all add: positions_of_iff [OF assms(1)])
  with \<open>i < k\<close> show "- int (the (positions_of plan c)) < - int (the (positions_of plan p))" by simp
qed

lemma cycle_names:
  assumes "distinct scheduled" "is_cycle (index_dependencies snapshot scheduled dependencies) cycle"
  shows "is_cycle (batch_dependencies snapshot scheduled dependencies) (map (\<lambda>i. scheduled ! i) cycle)"
proof -
  have "cycle \<noteq> []" using assms(2) by (auto simp: is_cycle_def)
  then show ?thesis using assms(2) unfolding is_cycle_def
    by (auto simp: hd_map last_map elim!: goes_back_map simp: index_dependencies_iff [OF assms(1)])
qed

lemma plan_blocked:
  assumes "distinct scheduled" "blocked snapshot scheduled"
  shows "\<exists>i c k r. build_activation_plan snapshot scheduled dependencies = Some (Inl (RequiredContractUnresolved i c k r))"
proof -
  have indices: "index_instances 0 scheduled (\<lambda>_. None) = Inr (positions_of scheduled)"
    using assms(1) by (simp add: index_instances_iff)
  obtain u where "find (\<lambda>u. unresolved_required u \<and> positions_of scheduled (ref_instance (unresolved_consumer u)) \<noteq> None)
      (snapshot_unresolved snapshot) = Some u"
    using assms(2) by (cases "find (\<lambda>u. unresolved_required u \<and> positions_of scheduled (ref_instance (unresolved_consumer u)) \<noteq> None)
      (snapshot_unresolved snapshot)") (auto simp: find_None_iff positions_of_None blocked_def)
  then show ?thesis by (simp add: build_activation_plan_def indices)
qed

lemma plan_duplicate:
  "\<not> distinct scheduled \<Longrightarrow> \<exists>x. build_activation_plan snapshot scheduled dependencies = Some (Inl (DuplicateInstance x))"
  using index_instances_duplicate [of scheduled "\<lambda>_. None" 0] by (auto simp: build_activation_plan_def)

text \<open>
  C30. An activation plan is a permutation of the batch in which every instance comes after all the instances of the batch it
  requires; and among the instances that could be activated next, it always takes the one that was scheduled first, so the
  plan is determined by the batch.
\<close>

theorem activation_order_correct:
  assumes "build_activation_plan snapshot scheduled dependencies = Some (Inr plan)"
  shows "distinct plan \<and> set plan = set scheduled \<and>
    (\<forall>k < length plan.
      (\<forall>p. (p, plan ! k) \<in> batch_dependencies snapshot scheduled dependencies \<longrightarrow> p \<in> set (take k plan)) \<and>
      (\<forall>j < length scheduled.
        scheduled ! j \<notin> set (take k plan) \<and>
        (\<forall>p. (p, scheduled ! j) \<in> batch_dependencies snapshot scheduled dependencies \<longrightarrow> p \<in> set (take k plan)) \<longrightarrow>
        (\<exists>i \<le> j. scheduled ! i = plan ! k)))"
proof -
  have distinct: "distinct scheduled" using plan_duplicate [of scheduled snapshot dependencies] assms by auto
  moreover have "\<not> blocked snapshot scheduled" using plan_blocked [OF distinct, of snapshot dependencies] assms by auto
  ultimately show ?thesis
    by (cases rule: plan_outcomes [where dependencies = dependencies]) (use assms order_names [OF distinct] in auto)
qed

text \<open>
  A reported dependency cycle is a genuine one: at least two entries, the first repeated at the end, and each instance
  requires the next one of the list.
\<close>

theorem reported_cycle_is_genuine:
  assumes "build_activation_plan snapshot scheduled dependencies = Some (Inl (DependencyCycle cycle))"
  shows "is_cycle (batch_dependencies snapshot scheduled dependencies) cycle"
proof -
  have distinct: "distinct scheduled" using plan_duplicate [of scheduled snapshot dependencies] assms by auto
  moreover have "\<not> blocked snapshot scheduled" using plan_blocked [OF distinct, of snapshot dependencies] assms by auto
  ultimately show ?thesis
    by (cases rule: plan_outcomes [where dependencies = dependencies]) (use assms cycle_names [OF distinct] in auto)
qed

text \<open>
  C31. The planner always returns, and it finds an order exactly when there is one: no instance twice in the batch, no required
  contract of the batch unresolved, and no cycle among the dependencies of the batch.
\<close>

theorem planner_returns_and_is_complete:
  "(\<exists>r. build_activation_plan snapshot scheduled dependencies = Some r) \<and>
   ((\<exists>plan. build_activation_plan snapshot scheduled dependencies = Some (Inr plan)) \<longleftrightarrow>
      distinct scheduled \<and> \<not> blocked snapshot scheduled \<and> acyclic (batch_dependencies snapshot scheduled dependencies))"
proof (cases "distinct scheduled \<and> \<not> blocked snapshot scheduled")
  case False
  then show ?thesis using plan_duplicate [of scheduled snapshot dependencies] plan_blocked [of scheduled snapshot dependencies]
    by (cases "distinct scheduled") auto
next
  case True
  then have distinct: "distinct scheduled" and free: "\<not> blocked snapshot scheduled" by simp_all
  from distinct free show ?thesis
  proof (cases rule: plan_outcomes [where dependencies = dependencies])
    case (order ordered)
    note names = order_names [OF distinct order(2-4) refl]
    have "acyclic (batch_dependencies snapshot scheduled dependencies)"
    proof (rule ordered_acyclic [OF names [THEN conjunct1]])
      fix p c assume "(p, c) \<in> batch_dependencies snapshot scheduled dependencies"
      then show "c \<in> set (map (\<lambda>i. scheduled ! i) ordered)"
        unfolding names [THEN conjunct2, THEN conjunct1] by (simp add: batch_dependencies_def)
    qed (use names in blast)
    with order(1) True show ?thesis by simp
  next
    case (cycle cycle)
    then show ?thesis using True cycle_not_acyclic [OF cycle_names [OF distinct cycle(2)]] by simp
  qed
qed

end
