(* ===== verification/Extension_Witnesses.thy ===== *)
theory Extension_Witnesses
  imports Extension_Calls Extension_Plans
begin

text \<open>A composition, a batch, and a scope with two instances: the general theorems applied to them.\<close>

section \<open>Secrets and composition\<close>

lemma allows_pattern_iff_subset_witness:
  "allows_pattern (Descendants (SecretPath ''world'')) (Exact (SecretPath ''world.key'')) \<longleftrightarrow>
    (\<forall>path. valid_path path \<longrightarrow> pattern_matches (Exact (SecretPath ''world.key'')) path \<longrightarrow>
      pattern_matches (Descendants (SecretPath ''world'')) path)"
proof (rule allows_pattern_iff_subset)
  show "valid_pattern (Descendants (SecretPath ''world''))" by code_simp
  show "valid_pattern (Exact (SecretPath ''world.key''))" by code_simp
qed

definition ex_echo :: contract_key where
  "ex_echo = \<lparr>contract_id = ''echo'', contract_version = ContractVersion 1\<rparr>"

definition ex_server :: component_ref where "ex_server = \<lparr>ref_instance = ''a'', ref_component = ''main''\<rparr>"
definition ex_client :: component_ref where "ex_client = \<lparr>ref_instance = ''b'', ref_component = ''main''\<rparr>"

definition ex_definition :: contract_definition where
  "ex_definition = \<lparr>def_contract = ex_echo, def_resolution = Multiple, def_protocol = Service\<rparr>"

definition ex_provider :: owned_provider where
  "ex_provider = \<lparr>op_owner = ex_server, op_provider = \<lparr>provider_contract = ex_echo, provider_grants = []\<rparr>\<rparr>"

definition ex_consumer :: owned_consumer where
  "ex_consumer = \<lparr>oc_owner = ex_client,
     oc_consumer = \<lparr>consumer_contract = ex_echo, consumer_required = True, consumer_grants = []\<rparr>\<rparr>"

definition ex_binding :: contract_binding where
  "ex_binding = \<lparr>binding_consumer = ex_client, binding_contract = ex_echo, binding_required = True, binding_providers = [ex_server]\<rparr>"

lemmas ex_parts = ex_echo_def ex_server_def ex_client_def ex_definition_def ex_provider_def ex_consumer_def ex_binding_def

lemma ex_snapshot:
  "resolve_contracts [ex_definition] [ex_provider] [ex_consumer] Map.empty secret_manager_new =
     \<lparr>snapshot_bindings = [ex_binding], snapshot_unresolved = []\<rparr>"
  by (simp add: resolve_contracts_def resolve_consumer_def resolve_contract_providers_def Let_def push_answer_def
      eligible_provider_def requirements_satisfied_def ex_parts)

lemma bindings_follow_policy_witness:
  "\<exists>c \<in> {ex_consumer}. binding_facts ex_binding = consumer_facts c \<and>
     set (binding_providers ex_binding) \<subseteq> eligible_owners ex_echo [ex_provider] secret_manager_new"
  using bindings_follow_policy [of ex_binding "[ex_definition]" "[ex_provider]" "[ex_consumer]" Map.empty secret_manager_new]
  by (auto simp: ex_snapshot) (auto simp: ex_binding_def)

lemma resolution_ignores_order_witness:
  "resolve_contracts [ex_definition] [ex_provider, ex_provider\<lparr>op_owner := ex_client\<rparr>] [ex_consumer] Map.empty secret_manager_new =
   resolve_contracts [ex_definition] [ex_provider\<lparr>op_owner := ex_client\<rparr>, ex_provider] [ex_consumer] Map.empty secret_manager_new"
  by (rule resolution_ignores_order) (simp_all add: add_mset_commute)

section \<open>A batch\<close>

lemma ex_plan:
  "build_activation_plan \<lparr>snapshot_bindings = [ex_binding], snapshot_unresolved = []\<rparr> [''b'', ''a''] [] = Some (Inr [''a'', ''b''])"
  by code_simp

lemma activation_order_correct_witness: "distinct [''a'', ''b''] \<and> set [''a'', ''b''] = set [''b'', ''a'']"
  using activation_order_correct [OF ex_plan] by blast

lemma ex_cycle:
  "build_activation_plan \<lparr>snapshot_bindings = [ex_binding], snapshot_unresolved = []\<rparr> [''b'', ''a''] [(''b'', ''a'')] =
     Some (Inl (DependencyCycle [''b'', ''a'', ''b'']))"
  by code_simp (simp add: trace_cycle.simps)

lemma reported_cycle_is_genuine_witness:
  "is_cycle (batch_dependencies \<lparr>snapshot_bindings = [ex_binding], snapshot_unresolved = []\<rparr> [''b'', ''a''] [(''b'', ''a'')])
     [''b'', ''a'', ''b'']"
  by (rule reported_cycle_is_genuine [OF ex_cycle])

section \<open>A scope\<close>

definition ex_instance :: "owned_provider list \<Rightarrow> owned_consumer list \<Rightarrow> nat \<Rightarrow> nat service_instance" where
  "ex_instance providers consumers component = \<lparr>si_extension = ''ext'', si_scope = ''w'', si_active = False, si_definitions = [],
     si_providers = providers, si_consumers = consumers, si_components = [(''main'', component)]\<rparr>"

definition ex_events :: "nat service_event list" where
  "ex_events = [DefinePlatform ''w'' ex_definition, Register ''a'' (ex_instance [ex_provider] [] 0),
     Register ''b'' (ex_instance [] [ex_consumer] 1), Activate ''a'', Activate ''b'', ListProviders ex_client ex_echo False]"

definition ex_services :: "nat service_state" where "ex_services = fst (service_history ex_events)"
definition ex_policy :: secret_manager where "ex_policy = snd (service_history ex_events)"

lemma ex_history: "service_history ex_events = (ex_services, ex_policy)"
  by (simp add: ex_services_def ex_policy_def)

lemma ex_events_few: "length ex_events < 2 ^ 64"
  by (simp add: ex_events_def)

lemma ex_uncached: "and_then (resolve_uncached ex_policy ex_services ex_client ex_echo False) (provider_component ex_services) =
    Inr (ex_server, 0, \<lparr>ci_extension = ''ext'', ci_instance = ''a'', ci_scope = ''w'', ci_component = ''main''\<rparr>)"
  by code_simp

lemma cached_routes_are_current_witness:
  "fst (resolve_provider ex_policy ex_client ex_echo False ex_services) =
    Inr (ex_server, 0, \<lparr>ci_extension = ''ext'', ci_instance = ''a'', ci_scope = ''w'', ci_component = ''main''\<rparr>)"
  using cached_routes_are_current [OF ex_events_few ex_history] ex_uncached by simp



lemma ex_listed: "fst (list_providers_with_mode ex_policy ex_client ex_echo False ex_services) = Inr [1]"
  by code_simp

lemma listed_handles_resolve_witness:
  "\<exists>providers. resolve_binding_uncached ex_policy ex_services ex_client ex_echo False = Inr (Multiple, providers) \<and>
     length [1 :: u64] \<le> max_service_providers"
proof -
  obtain s' where "list_providers_with_mode ex_policy ex_client ex_echo False ex_services = (Inr [1], s')"
    using ex_listed by (metis prod.collapse)
  from listed_handles_resolve [OF ex_events_few ex_history this] show ?thesis by blast
qed

lemma ex_handle_key: "sv_handles ex_services 1 =
    Some \<lparr>hk_caller = ex_client, hk_contract = ex_echo, hk_provider = ex_server, hk_inactive = False\<rparr>"
  by code_simp

lemma handles_never_reused_witness:
  "\<lparr>hk_caller = ex_client, hk_contract = ex_echo, hk_provider = ex_server, hk_inactive = False\<rparr> =
   \<lparr>hk_caller = ex_client, hk_contract = ex_echo, hk_provider = ex_server, hk_inactive = False\<rparr>"
  by (rule handles_never_reused [of ex_events "[]" 1]) (simp_all add: ex_history ex_handle_key ex_events_few [simplified])

section \<open>A call\<close>

text \<open>The provider echoes; it first calls the service it offers, which is refused: it is not a consumer of it.\<close>

definition ex_code :: "nat component_code" where
  "ex_code = \<lparr>code_limit = \<lambda>c. None, code_handle = \<lambda>c k request. CallService k request (\<lambda>answer. Respond request (Suc c))\<rparr>"

definition ex_host :: "nat call_host" where
  "ex_host = \<lparr>host_secrets = ex_policy, host_vault = \<lambda>path. Inr None, host_code = ex_code\<rparr>"

definition ex_call_state :: "(nat, nat) call_state" where
  "ex_call_state = \<lparr>cs_services = ex_services, cs_contents = \<lambda>h. 0, cs_locks = \<lambda>h. Unlocked\<rparr>"

lemma service_calls_return_witness:
  "\<exists>r w'. call_service (call_fuel ex_call_state) ex_host ex_client ex_echo ''hi'' False ex_call_state = Some (r, w') \<and>
    cs_locks w' = cs_locks ex_call_state"
  using service_calls_return [OF order_refl [of "call_fuel ex_call_state"]] by blast







end
