(* ===== verification/Ui_Nodes.thy ===== *)
theory Ui_Nodes
  imports Contracts Schema_Keys
begin

text \<open>
  The portable UI protocol (\<open>crates/sdk/src/ui\<close>): surfaces, nodes, patches, actions and errors. Identifiers are
  their strings.
\<close>

section \<open>Nodes\<close>

datatype ui_button_appearance = DefaultAppearance | PrimaryAppearance | Subtle | Danger

record ui_button =
  button_label :: string
  button_action :: string
  button_enabled :: bool
  button_appearance :: ui_button_appearance

record ui_icon =
  icon_slot :: string
  icon_label :: "string option"
  icon_size :: "u32 option"

record ui_image =
  image_media_type :: string
  image_data_base64 :: string
  image_alt :: string
  image_width :: "u32 option"
  image_height :: "u32 option"

record ui_asset_image =
  asset_digest :: string
  asset_size :: u64
  asset_media_type :: string
  asset_alt :: string
  asset_width :: "u32 option"
  asset_height :: "u32 option"

record ui_checkbox =
  checkbox_label :: string
  checkbox_checked :: bool
  checkbox_change :: string
  checkbox_enabled :: bool

record ui_select =
  select_value :: string
  select_options :: "(string \<times> string) list"
  select_change :: string
  select_enabled :: bool

record ui_text_field =
  field_value :: string
  field_placeholder :: "string option"
  field_change :: "string option"
  field_submit :: "string option"
  field_submit_label :: "string option"
  field_enabled :: bool

record ui_asset_picker =
  picker_label :: string
  picker_media_types :: "string list"
  picker_max_bytes :: u64
  picker_change :: string
  picker_enabled :: bool

record ui_resource_picker =
  resource_label :: string
  resource_media_types :: "string list"
  resource_extensions :: "string list"
  resource_max_bytes :: u64
  resource_change :: string
  resource_enabled :: bool

datatype ui_split_axis = Horizontal | Vertical

record ui_split =
  split_children :: "string list"
  split_weights :: "u32 list"
  split_axis :: ui_split_axis

datatype ui_sort_direction = Ascending | Descending

record ui_grid_column =
  column_key :: "string option"
  column_label :: string
  column_weight :: u32
  column_sort :: "string option"
  column_direction :: "ui_sort_direction option"

record ui_grid =
  grid_columns :: "ui_grid_column list"
  grid_cells :: "string list"
  grid_selected :: "u32 list"
  grid_row_keys :: "string list"
  grid_row_action :: "string option"

text \<open>A container is its list of children; the text and markdown nodes are their text.\<close>

datatype (plugins only: code size) ui_node_kind =
    TextNode string
  | MarkdownNode string
  | ButtonNode ui_button
  | IconNode ui_icon
  | ImageNode ui_image
  | AssetImageNode ui_asset_image
  | CheckboxNode ui_checkbox
  | SelectNode ui_select
  | TextInputNode ui_text_field
  | TextAreaNode ui_text_field
  | AssetPickerNode ui_asset_picker
  | ResourcePickerNode ui_resource_picker
  | SplitNode ui_split
  | RowNode "string list"
  | ColumnNode "string list"
  | ListNode "string list"
  | DataGridNode ui_grid

record ui_node =
  node_id :: string
  node_semantic :: "contract_key option"
  node_traits :: "string list"
  node_kind :: ui_node_kind

definition required_capability :: "ui_node_kind \<Rightarrow> string" where
  "required_capability k =
     (case k of
        TextNode _ \<Rightarrow> ''rintawa.ui.text@1''
      | MarkdownNode _ \<Rightarrow> ''rintawa.ui.markdown@1''
      | ButtonNode _ \<Rightarrow> ''rintawa.ui.button@1''
      | IconNode _ \<Rightarrow> ''rintawa.ui.icon@1''
      | ImageNode _ \<Rightarrow> ''rintawa.ui.image@1''
      | AssetImageNode _ \<Rightarrow> ''rintawa.ui.asset-image@1''
      | CheckboxNode _ \<Rightarrow> ''rintawa.ui.input.checkbox@1''
      | SelectNode _ \<Rightarrow> ''rintawa.ui.input.select@1''
      | TextInputNode _ \<Rightarrow> ''rintawa.ui.input.text@1''
      | TextAreaNode _ \<Rightarrow> ''rintawa.ui.input.text-area@1''
      | AssetPickerNode _ \<Rightarrow> ''rintawa.ui.input.asset@1''
      | ResourcePickerNode _ \<Rightarrow> ''rintawa.ui.input.resource@1''
      | SplitNode _ \<Rightarrow> ''rintawa.ui.layout.split@1''
      | RowNode _ \<Rightarrow> ''rintawa.ui.layout.row@1''
      | ColumnNode _ \<Rightarrow> ''rintawa.ui.layout.column@1''
      | ListNode _ \<Rightarrow> ''rintawa.ui.list@1''
      | DataGridNode _ \<Rightarrow> ''rintawa.ui.data-grid@1'')"

text \<open>\<open>children_mut\<close>: the list of children, when the node is a container, and the node with another list.\<close>

definition container_children :: "ui_node_kind \<Rightarrow> string list option" where
  "container_children k =
     (case k of
        SplitNode n \<Rightarrow> Some (split_children n)
      | RowNode cs \<Rightarrow> Some cs
      | ColumnNode cs \<Rightarrow> Some cs
      | ListNode cs \<Rightarrow> Some cs
      | DataGridNode n \<Rightarrow> Some (grid_cells n)
      | _ \<Rightarrow> None)"

definition set_children :: "string list \<Rightarrow> ui_node_kind \<Rightarrow> ui_node_kind" where
  "set_children cs k =
     (case k of
        SplitNode n \<Rightarrow> SplitNode (n\<lparr>split_children := cs\<rparr>)
      | RowNode _ \<Rightarrow> RowNode cs
      | ColumnNode _ \<Rightarrow> ColumnNode cs
      | ListNode _ \<Rightarrow> ListNode cs
      | DataGridNode n \<Rightarrow> DataGridNode (n\<lparr>grid_cells := cs\<rparr>)
      | k \<Rightarrow> k)"

definition children :: "ui_node_kind \<Rightarrow> string list" where
  "children k = (case container_children k of None \<Rightarrow> [] | Some cs \<Rightarrow> cs)"

section \<open>Actions\<close>

record ui_asset_ref =
  ref_digest :: string
  ref_size :: u64
  ref_media_type :: string
  ref_name :: "string option"

record ui_resource_ref =
  res_id :: string
  res_size :: u64
  res_media_type :: string
  res_name :: "string option"

datatype ui_payload =
  NoPayload | TextPayload string | BooleanPayload bool | AssetPayload ui_asset_ref | ResourcePayload ui_resource_ref

record ui_action_event =
  event_owner_instance :: string
  event_surface :: string
  event_node :: string
  event_action :: string
  event_revision :: u64
  event_payload :: ui_payload

definition has_action :: "ui_node_kind \<Rightarrow> string \<Rightarrow> bool" where
  "has_action k a =
     (case k of
        ButtonNode n \<Rightarrow> (button_action n = a)
      | CheckboxNode n \<Rightarrow> (checkbox_change n = a)
      | SelectNode n \<Rightarrow> (select_change n = a)
      | TextInputNode n \<Rightarrow> (field_change n = Some a \<or> field_submit n = Some a)
      | TextAreaNode n \<Rightarrow> (field_change n = Some a \<or> field_submit n = Some a)
      | AssetPickerNode n \<Rightarrow> (picker_change n = a)
      | ResourcePickerNode n \<Rightarrow> (resource_change n = a)
      | DataGridNode n \<Rightarrow> (grid_row_action n = Some a \<or> list_ex (\<lambda>c. column_sort c = Some a) (grid_columns n))
      | _ \<Rightarrow> False)"

definition is_action_enabled :: "ui_node_kind \<Rightarrow> string \<Rightarrow> bool" where
  "is_action_enabled k a =
     (case k of
        ButtonNode n \<Rightarrow> (button_action n = a \<and> button_enabled n)
      | CheckboxNode n \<Rightarrow> (checkbox_change n = a \<and> checkbox_enabled n)
      | SelectNode n \<Rightarrow> (select_change n = a \<and> select_enabled n)
      | TextInputNode n \<Rightarrow> (has_action (TextInputNode n) a \<and> field_enabled n)
      | TextAreaNode n \<Rightarrow> (has_action (TextAreaNode n) a \<and> field_enabled n)
      | AssetPickerNode n \<Rightarrow> (picker_change n = a \<and> picker_enabled n)
      | ResourcePickerNode n \<Rightarrow> (resource_change n = a \<and> resource_enabled n)
      | DataGridNode n \<Rightarrow> has_action (DataGridNode n) a
      | _ \<Rightarrow> False)"

definition accepts_resource :: "ui_resource_picker \<Rightarrow> ui_resource_ref \<Rightarrow> bool" where
  "accepts_resource n r =
     (let extension_matches = (case res_name r of
            None \<Rightarrow> False | Some name \<Rightarrow> list_ex (\<lambda>e. ends_with (to_ascii_lowercase name) e) (resource_extensions n));
          media_matches = res_media_type r \<in> set (resource_media_types n)
      in res_id r \<noteq> [] \<and> 0 < res_size r \<and> res_size r \<le> resource_max_bytes n \<and> (media_matches \<or> extension_matches))"

definition accepts_action_payload :: "ui_node_kind \<Rightarrow> string \<Rightarrow> ui_payload \<Rightarrow> bool" where
  "accepts_action_payload k a p =
     (case k of
        ButtonNode n \<Rightarrow> (button_action n = a \<and> p = NoPayload)
      | CheckboxNode n \<Rightarrow> (checkbox_change n = a \<and> (case p of BooleanPayload _ \<Rightarrow> True | _ \<Rightarrow> False))
      | SelectNode n \<Rightarrow> (select_change n = a \<and> (case p of TextPayload v \<Rightarrow> list_ex (\<lambda>o'. fst o' = v) (select_options n) | _ \<Rightarrow> False))
      | TextInputNode n \<Rightarrow> (has_action (TextInputNode n) a \<and> (case p of TextPayload _ \<Rightarrow> True | _ \<Rightarrow> False))
      | TextAreaNode n \<Rightarrow> (has_action (TextAreaNode n) a \<and> (case p of TextPayload _ \<Rightarrow> True | _ \<Rightarrow> False))
      | AssetPickerNode n \<Rightarrow> (picker_change n = a \<and>
      (case p of AssetPayload r \<Rightarrow> 0 < ref_size r \<and> ref_size r \<le> picker_max_bytes n \<and> ref_media_type r \<in> set (picker_media_types n)
       | _ \<Rightarrow> False))
      | ResourcePickerNode n \<Rightarrow> (resource_change n = a \<and> (case p of ResourcePayload r \<Rightarrow> accepts_resource n r | _ \<Rightarrow> False))
      | DataGridNode n \<Rightarrow> (case p of
        TextPayload v \<Rightarrow>
          grid_row_action n = Some a \<and> v \<in> set (grid_row_keys n) \<or>
          list_ex (\<lambda>c. column_sort c = Some a \<and> column_key c = Some v) (grid_columns n)
      | _ \<Rightarrow> False)
      | _ \<Rightarrow> False)"

section \<open>Surfaces and patches\<close>

record ui_snapshot =
  snap_surface :: string
  snap_revision :: u64
  snap_root :: string
  snap_nodes :: "ui_node list"

datatype ui_patch =
    UpsertNode ui_node
  | RemoveNode string
  | InsertChild string u32 string
  | RemoveChild string string
  | MoveChild string string u32

record ui_patch_batch =
  batch_surface :: string
  batch_base :: u64
  batch_next :: u64
  batch_patches :: "ui_patch list"

datatype ui_placement = Primary | Secondary | Sidebar | Settings | Dialog | Status | Overlay

record ui_contribution =
  contribution_id :: string
  contribution_placement :: ui_placement
  contribution_semantic :: "contract_key option"
  contribution_activity :: "(string \<times> string \<times> string option) option"
  contribution_traits :: "string list"
  contribution_capabilities :: "string list"

record ui_layer_descriptor =
  layer_protocol :: u32
  layer_capabilities :: "string list"

record world_presentation =
  presentation_entry :: string
  presentation_intent :: "contract_key option"

datatype ui_context = LayerLocal | FocusedWorld world_id

definition PORTABLE_UI_PROTOCOL_MAJOR :: u32 where "PORTABLE_UI_PROTOCOL_MAJOR = 1"

section \<open>Errors\<close>

datatype (plugins only: code size) ui_error =
    InstanceAlreadyRegistered string | InstanceNotRegistered string | RuntimeUnavailable | LayerUnavailable
  | ActionQueueFull | WorldFocusQueueFull | LayerAlreadyRegistered | LayerNotRegistered
  | WorldPresentationAlreadyRegistered | WorldPresentationNotRegistered | LayerAlreadyAttached | LayerNotOwner
  | ScopeNotVisible | UnsupportedProtocol u32 u32 | UnsupportedCapability string
  | SurfaceAlreadyRegistered string | SurfaceNotRegistered string | SurfaceNotOwned string
  | SurfaceNotMounted string | SurfaceAlreadyMounted string | RevisionMismatch u64 u64 | InvalidRevision u64 u64
  | SurfaceTooLarge nat nat | PatchBatchTooLarge nat nat | DuplicateNode string | NodeNotFound string
  | RootNotFound string | NodeNotContainer string | InvalidChildIndex string u32 | ChildNotFound string string
  | RootHasParent string | MultipleParents string | OrphanNode string | CycleDetected string | InvalidLayout string
  | ActionNotBound string string string | ActionDisabled string string | InvalidActionPayload string string
  | OwnerInactive

end
