(* ===== verification/Ui_Validation.thy ===== *)
theory Ui_Validation
  imports Ui_Nodes
begin

text \<open>
  The validation of surface snapshots (\<open>crates/ui-runtime/src/validation.rs\<close>): the layout of every node, and that the
  nodes are a tree under the root. The hash map of the nodes iterates in the order of the snapshot.
\<close>

section \<open>Bounds\<close>

definition MAX_LAYOUT_WEIGHT :: u32 where "MAX_LAYOUT_WEIGHT = 10000"
definition MAX_ICON_SIZE :: u32 where "MAX_ICON_SIZE = 256"
definition MAX_IMAGE_DIMENSION :: u32 where "MAX_IMAGE_DIMENSION = 4096"
definition MAX_IMAGE_BASE64_BYTES :: nat where "MAX_IMAGE_BASE64_BYTES = 1024 * 1024"
definition MAX_ASSET_IMAGE_BYTES :: u64 where "MAX_ASSET_IMAGE_BYTES = 32 * 1024 * 1024"
definition MAX_ASSET_PICKER_BYTES :: u64 where "MAX_ASSET_PICKER_BYTES = 32 * 1024 * 1024"
definition MAX_ASSET_PICKER_MEDIA_TYPES :: nat where "MAX_ASSET_PICKER_MEDIA_TYPES = 16"
definition MAX_ASSET_PICKER_MEDIA_TYPE_BYTES :: nat where "MAX_ASSET_PICKER_MEDIA_TYPE_BYTES = 128"
definition MAX_RESOURCE_PICKER_BYTES :: u64 where "MAX_RESOURCE_PICKER_BYTES = 8 * 1024 * 1024"
definition MAX_RESOURCE_PICKER_MEDIA_TYPES :: nat where "MAX_RESOURCE_PICKER_MEDIA_TYPES = 16"
definition MAX_RESOURCE_PICKER_EXTENSIONS :: nat where "MAX_RESOURCE_PICKER_EXTENSIONS = 32"
definition MAX_RESOURCE_PICKER_EXTENSION_BYTES :: nat where "MAX_RESOURCE_PICKER_EXTENSION_BYTES = 32"
definition MAX_SELECT_OPTIONS :: nat where "MAX_SELECT_OPTIONS = 256"
definition MAX_DATA_GRID_COLUMNS :: nat where "MAX_DATA_GRID_COLUMNS = 64"
definition DEFAULT_MAX_SURFACE_NODES :: nat where "DEFAULT_MAX_SURFACE_NODES = 4096"
definition DEFAULT_MAX_PATCH_OPERATIONS :: nat where "DEFAULT_MAX_PATCH_OPERATIONS = 1024"

text \<open>The message of an invalid layout: the sort of node, its identifier in quotes, and what it requires.\<close>

definition layout_message :: "string \<Rightarrow> string \<Rightarrow> string \<Rightarrow> ui_error" where
  "layout_message what node rest = InvalidLayout (what @ '' node '' @ CHR 0x27 # node @ CHR 0x27 # rest)"

section \<open>Layout\<close>

definition out_of_range :: "'a::len word option \<Rightarrow> 'a word \<Rightarrow> bool" where
  "out_of_range v maximum = (case v of None \<Rightarrow> False | Some x \<Rightarrow> x = 0 \<or> x > maximum)"

definition validate_icon :: "string \<Rightarrow> ui_icon \<Rightarrow> ui_error + unit" where
  "validate_icon node n =
     ensure (\<not> out_of_range (icon_size n) MAX_ICON_SIZE)
       (layout_message ''icon'' node '' requires requested size in 1..=256'')"

definition validate_image :: "string \<Rightarrow> ui_image \<Rightarrow> ui_error + unit" where
  "validate_image node n =
     and_then (ensure (image_media_type n \<in> {''image/png'', ''image/webp''})
       (layout_message ''image'' node '' requires PNG or WebP media'')) (\<lambda>_.
     and_then (ensure (length (image_data_base64 n) \<le> MAX_IMAGE_BASE64_BYTES)
       (layout_message ''image'' node '' exceeds 1048576 encoded bytes'')) (\<lambda>_.
     ensure (\<not> (out_of_range (image_width n) MAX_IMAGE_DIMENSION \<or> out_of_range (image_height n) MAX_IMAGE_DIMENSION))
       (layout_message ''image'' node '' requires requested dimensions in 1..=4096'')))"

definition validate_asset_image :: "string \<Rightarrow> ui_asset_image \<Rightarrow> ui_error + unit" where
  "validate_asset_image node n =
     and_then (ok_or (layout_message ''asset-image'' node '' requires canonical sha256 digest'')
       (strip_prefix ''sha256:'' (asset_digest n))) (\<lambda>hex.
     and_then (ensure (length hex = 64 \<and> list_all is_lower_hex hex)
       (layout_message ''asset-image'' node '' requires canonical sha256 digest'')) (\<lambda>_.
     and_then (ensure (\<not> (asset_size n = 0 \<or> asset_size n > MAX_ASSET_IMAGE_BYTES))
       (layout_message ''asset-image'' node '' requires asset size in 1..=33554432'')) (\<lambda>_.
     and_then (ensure (asset_media_type n \<in> {''image/png'', ''image/webp'', ''image/jpeg''})
       (layout_message ''asset-image'' node '' requires PNG, WebP, or JPEG media'')) (\<lambda>_.
     ensure (\<not> (out_of_range (asset_width n) MAX_IMAGE_DIMENSION \<or> out_of_range (asset_height n) MAX_IMAGE_DIMENSION))
       (layout_message ''asset-image'' node '' requires requested dimensions in 1..=4096'')))))"

text \<open>The loop over media types, with the set of those seen.\<close>

fun canonical_media_types :: "string list \<Rightarrow> string list \<Rightarrow> bool" where
  "canonical_media_types seen [] = True"
| "canonical_media_types seen (t # ts) =
     (\<not> (t = [] \<or> length t > MAX_ASSET_PICKER_MEDIA_TYPE_BYTES \<or> t \<noteq> to_ascii_lowercase t \<or> CHR ''/'' \<notin> set t \<or> t \<in> set seen) \<and>
      canonical_media_types (t # seen) ts)"

definition validate_asset_picker :: "string \<Rightarrow> ui_asset_picker \<Rightarrow> ui_error + unit" where
  "validate_asset_picker node n =
     and_then (ensure (\<not> (picker_max_bytes n = 0 \<or> picker_max_bytes n > MAX_ASSET_PICKER_BYTES))
       (layout_message ''asset-picker'' node '' requires max-bytes in 1..=33554432'')) (\<lambda>_.
     and_then (ensure (\<not> (picker_media_types n = [] \<or> length (picker_media_types n) > MAX_ASSET_PICKER_MEDIA_TYPES))
       (layout_message ''asset-picker'' node '' requires 1..=16 media types'')) (\<lambda>_.
     ensure (canonical_media_types [] (picker_media_types n))
       (layout_message ''asset-picker'' node '' requires unique canonical lowercase media types'')))"

fun canonical_extensions :: "string list \<Rightarrow> string list \<Rightarrow> bool" where
  "canonical_extensions seen [] = True"
| "canonical_extensions seen (e # es) =
     (\<not> (length e < 2 \<or> length e > MAX_RESOURCE_PICKER_EXTENSION_BYTES \<or> hd e \<noteq> CHR ''.'' \<or> e \<noteq> to_ascii_lowercase e \<or>
         \<not> list_all (\<lambda>c. is_ascii_alphanumeric c \<or> c = CHR ''-'' \<or> c = CHR ''_'') (drop 1 e) \<or> e \<in> set seen) \<and>
      canonical_extensions (e # seen) es)"

definition validate_resource_picker :: "string \<Rightarrow> ui_resource_picker \<Rightarrow> ui_error + unit" where
  "validate_resource_picker node n =
     and_then (ensure (\<not> (resource_max_bytes n = 0 \<or> resource_max_bytes n > MAX_RESOURCE_PICKER_BYTES))
       (layout_message ''resource-picker'' node '' requires max-bytes in 1..=8388608'')) (\<lambda>_.
     and_then (ensure (\<not> (length (resource_media_types n) > MAX_RESOURCE_PICKER_MEDIA_TYPES \<or>
         length (resource_extensions n) > MAX_RESOURCE_PICKER_EXTENSIONS \<or>
         resource_media_types n = [] \<and> resource_extensions n = []))
       (layout_message ''resource-picker'' node '' requires at least one bounded media type or extension'')) (\<lambda>_.
     and_then (ensure (canonical_media_types [] (resource_media_types n))
       (layout_message ''resource-picker'' node '' requires unique canonical lowercase media types'')) (\<lambda>_.
     ensure (canonical_extensions [] (resource_extensions n))
       (layout_message ''resource-picker'' node '' requires unique lowercase file extensions''))))"

definition validate_select :: "string \<Rightarrow> ui_select \<Rightarrow> ui_error + unit" where
  "validate_select node n =
     ensure (length (select_options n) \<le> MAX_SELECT_OPTIONS) (layout_message ''select'' node '' exceeds 256 options'')"

definition bad_weight :: "u32 \<Rightarrow> bool" where
  "bad_weight w \<longleftrightarrow> w = 0 \<or> w > MAX_LAYOUT_WEIGHT"

definition validate_split_layout :: "string \<Rightarrow> ui_split \<Rightarrow> ui_error + unit" where
  "validate_split_layout node n =
     and_then (ensure (length (split_children n) = length (split_weights n))
       (layout_message ''split'' node ('' has '' @ show_nat (length (split_children n)) @ '' children but '' @
          show_nat (length (split_weights n)) @ '' weights''))) (\<lambda>_.
     ensure (\<not> list_ex bad_weight (split_weights n)) (layout_message ''split'' node '' requires weights in 1..=10000''))"

text \<open>The loop over the columns, with the keys seen.\<close>

fun validate_columns :: "string \<Rightarrow> string list \<Rightarrow> ui_grid_column list \<Rightarrow> ui_error + unit" where
  "validate_columns node seen [] = Inr ()"
| "validate_columns node seen (c # cs) =
     and_then (ensure (\<not> (case column_key c of None \<Rightarrow> False | Some key \<Rightarrow> key = [] \<or> key \<in> set seen))
       (layout_message ''data-grid'' node '' requires non-empty unique column keys'')) (\<lambda>_.
     and_then (ensure (\<not> (column_sort c \<noteq> None \<and> column_key c = None))
       (layout_message ''data-grid'' node '' requires a column key for sortable columns'')) (\<lambda>_.
     and_then (ensure (\<not> (column_direction c \<noteq> None \<and> column_sort c = None))
       (layout_message ''data-grid'' node '' cannot advertise sort direction without a sort action'')) (\<lambda>_.
     validate_columns node (case column_key c of None \<Rightarrow> seen | Some key \<Rightarrow> key # seen) cs)))"

fun validate_selected :: "string \<Rightarrow> nat \<Rightarrow> u32 list \<Rightarrow> u32 list \<Rightarrow> ui_error + unit" where
  "validate_selected node rows seen [] = Inr ()"
| "validate_selected node rows seen (r # rs) =
     and_then (ensure (\<not> (unat r \<ge> rows \<or> r \<in> set seen))
       (layout_message ''data-grid'' node ('' contains invalid selected row '' @ show_u32 r))) (\<lambda>_.
     validate_selected node rows (r # seen) rs)"

text \<open>Rows are selected by 32-bit indices, which always fit a \<open>usize\<close> of the supported targets.\<close>

definition validate_data_grid_layout :: "string \<Rightarrow> ui_grid \<Rightarrow> ui_error + unit" where
  "validate_data_grid_layout node n =
     (let columns = length (grid_columns n); rows = length (grid_cells n) div columns in
     and_then (ensure (\<not> (grid_columns n = [] \<or> columns > MAX_DATA_GRID_COLUMNS))
       (layout_message ''data-grid'' node '' requires 1..=64 columns'')) (\<lambda>_.
     and_then (ensure (\<not> list_ex (\<lambda>c. bad_weight (column_weight c)) (grid_columns n))
       (layout_message ''data-grid'' node '' requires column weights in 1..=10000'')) (\<lambda>_.
     and_then (validate_columns node [] (grid_columns n)) (\<lambda>_.
     and_then (ensure (length (grid_cells n) mod columns = 0)
       (layout_message ''data-grid'' node ('' has '' @ show_nat (length (grid_cells n)) @ '' cells for '' @ show_nat columns @ '' columns''))) (\<lambda>_.
     and_then (ensure (\<not> (grid_row_action n \<noteq> None \<and> length (grid_row_keys n) \<noteq> rows))
       (layout_message ''data-grid'' node '' requires one row key per row when row activation is enabled'')) (\<lambda>_.
     and_then (if grid_row_keys n = [] then Inr ()
       else and_then (ensure (length (grid_row_keys n) = rows)
              (layout_message ''data-grid'' node ('' has '' @ show_nat (length (grid_row_keys n)) @ '' row keys for '' @ show_nat rows @ '' rows'')))
            (\<lambda>_. ensure ([] \<notin> set (grid_row_keys n) \<and> distinct (grid_row_keys n))
              (layout_message ''data-grid'' node '' requires non-empty unique row keys''))) (\<lambda>_.
     validate_selected node rows [] (grid_selected n))))))))"

definition validate_layout :: "ui_node \<Rightarrow> ui_error + unit" where
  "validate_layout n =
     (case node_kind n of
        IconNode k \<Rightarrow> validate_icon (node_id n) k
      | ImageNode k \<Rightarrow> validate_image (node_id n) k
      | AssetImageNode k \<Rightarrow> validate_asset_image (node_id n) k
      | AssetPickerNode k \<Rightarrow> validate_asset_picker (node_id n) k
      | ResourcePickerNode k \<Rightarrow> validate_resource_picker (node_id n) k
      | SelectNode k \<Rightarrow> validate_select (node_id n) k
      | SplitNode k \<Rightarrow> validate_split_layout (node_id n) k
      | DataGridNode k \<Rightarrow> validate_data_grid_layout (node_id n) k
      | _ \<Rightarrow> Inr ())"

section \<open>The tree\<close>

definition find_node :: "ui_node list \<Rightarrow> string \<Rightarrow> ui_node option" where
  "find_node nodes i = find (\<lambda>n. node_id n = i) nodes"

fun node_map :: "ui_node list \<Rightarrow> ui_node list \<Rightarrow> ui_error + ui_node list" where
  "node_map seen [] = Inr seen"
| "node_map seen (n # ns) =
     (if find_node seen (node_id n) \<noteq> None then Inl (DuplicateNode (node_id n)) else node_map (seen @ [n]) ns)"

fun link_children :: "ui_node list \<Rightarrow> string \<Rightarrow> string list \<Rightarrow> (string \<rightharpoonup> string) \<Rightarrow> ui_error + (string \<rightharpoonup> string)" where
  "link_children nodes parent [] parents = Inr parents"
| "link_children nodes parent (c # cs) parents =
     (if find_node nodes c = None then Inl (NodeNotFound c)
      else if parents c \<noteq> None then Inl (MultipleParents c)
      else link_children nodes parent cs (parents(c \<mapsto> parent)))"

fun link_nodes :: "ui_node list \<Rightarrow> ui_node list \<Rightarrow> (string \<rightharpoonup> string) \<Rightarrow> ui_error + (string \<rightharpoonup> string)" where
  "link_nodes nodes [] parents = Inr parents"
| "link_nodes nodes (n # ns) parents =
     and_then (validate_layout n) (\<lambda>_.
     and_then (link_children nodes (node_id n) (children (node_kind n)) parents) (\<lambda>parents.
     link_nodes nodes ns parents))"

text \<open>The walk from one node up to its ancestors, with those passed; \<open>None\<close> would be a walk that does not end.\<close>

partial_function (option) climb :: "(string \<rightharpoonup> string) \<Rightarrow> string list \<Rightarrow> string \<Rightarrow> (ui_error + unit) option" where
  "climb parents chain current =
     (case parents current of
        None \<Rightarrow> Some (Inr ())
      | Some parent \<Rightarrow>
          if current \<in> set chain then Some (Inl (CycleDetected current)) else climb parents (current # chain) parent)"

fun detect_cycles :: "(string \<rightharpoonup> string) \<Rightarrow> ui_node list \<Rightarrow> (ui_error + unit) option" where
  "detect_cycles parents [] = Some (Inr ())"
| "detect_cycles parents (n # ns) =
     (case climb parents [] (node_id n) of
        None \<Rightarrow> None
      | Some (Inl e) \<Rightarrow> Some (Inl e)
      | Some (Inr _) \<Rightarrow> detect_cycles parents ns)"

text \<open>The search from the root; the top of the stack is the head of the list.\<close>

partial_function (option) visit :: "ui_node list \<Rightarrow> string list \<Rightarrow> string list \<Rightarrow> string list option" where
  "visit nodes visited pending =
     (case pending of
        [] \<Rightarrow> Some visited
      | i # rest \<Rightarrow>
          if i \<in> set visited then visit nodes visited rest
          else visit nodes (i # visited)
            (case find_node nodes i of None \<Rightarrow> rest | Some n \<Rightarrow> rev (children (node_kind n)) @ rest))"

definition validate_reachability :: "string \<Rightarrow> ui_node list \<Rightarrow> (ui_error + unit) option" where
  "validate_reachability root nodes =
     (case visit nodes [] [root] of
        None \<Rightarrow> None
      | Some visited \<Rightarrow>
          if length visited \<noteq> length nodes
          then (case sort (filter (\<lambda>i. i \<notin> set visited) (map node_id nodes)) of
                  [] \<Rightarrow> Some (Inr ())
                | orphan # _ \<Rightarrow> Some (Inl (OrphanNode orphan)))
          else Some (Inr ()))"

definition validate_snapshot :: "ui_snapshot \<Rightarrow> (ui_error + unit) option" where
  "validate_snapshot s =
     (if length (snap_nodes s) > DEFAULT_MAX_SURFACE_NODES
      then Some (Inl (SurfaceTooLarge (length (snap_nodes s)) DEFAULT_MAX_SURFACE_NODES))
      else case node_map [] (snap_nodes s) of
        Inl e \<Rightarrow> Some (Inl e)
      | Inr nodes \<Rightarrow>
          if find_node nodes (snap_root s) = None then Some (Inl (RootNotFound (snap_root s)))
          else case link_nodes nodes nodes Map.empty of
            Inl e \<Rightarrow> Some (Inl e)
          | Inr parents \<Rightarrow>
              if parents (snap_root s) \<noteq> None then Some (Inl (RootHasParent (snap_root s)))
              else case detect_cycles parents nodes of
                None \<Rightarrow> None
              | Some (Inl e) \<Rightarrow> Some (Inl e)
              | Some (Inr _) \<Rightarrow> validate_reachability (snap_root s) nodes)"

definition required_capabilities :: "ui_snapshot \<Rightarrow> string list" where
  "required_capabilities s = remdups (map (\<lambda>n. required_capability (node_kind n)) (snap_nodes s))"

end
