(* ===== verification/Ui_Tree.thy ===== *)
theory Ui_Tree
  imports Ui_Validation
begin

text \<open>Validation accepts exactly the trees: the walks of the validator end, and what they check is what makes a tree.\<close>

section \<open>Trees\<close>

definition node_ids :: "ui_node list \<Rightarrow> string set" where
  "node_ids nodes = node_id ` set nodes"

definition child_edges :: "ui_node list \<Rightarrow> (string \<times> string) set" where
  "child_edges nodes = {(node_id n, c) | n c. n \<in> set nodes \<and> c \<in> set (children (node_kind n))}"

definition all_children :: "ui_node list \<Rightarrow> string list" where
  "all_children nodes = concat (map (\<lambda>n. children (node_kind n)) nodes)"

text \<open>
  Distinct nodes of valid layout, at most 4096; every child exists, no node is a child twice and the root is nobody's child;
  every node is reached from the root.
\<close>

definition ui_tree :: "ui_snapshot \<Rightarrow> bool" where
  "ui_tree s \<longleftrightarrow>
     length (snap_nodes s) \<le> DEFAULT_MAX_SURFACE_NODES \<and>
     distinct (map node_id (snap_nodes s)) \<and>
     (\<forall>n \<in> set (snap_nodes s). validate_layout n = Inr ()) \<and>
     snap_root s \<in> node_ids (snap_nodes s) \<and>
     distinct (snap_root s # all_children (snap_nodes s)) \<and>
     set (all_children (snap_nodes s)) \<subseteq> node_ids (snap_nodes s) \<and>
     (\<forall>i \<in> node_ids (snap_nodes s). (snap_root s, i) \<in> (child_edges (snap_nodes s))\<^sup>*)"

lemma find_node_None: "find_node nodes i = None \<longleftrightarrow> i \<notin> node_ids nodes"
  by (auto simp: find_node_def find_None_iff node_ids_def)

lemma find_node_Some: "find_node nodes i = Some n \<Longrightarrow> n \<in> set nodes \<and> node_id n = i"
  unfolding find_node_def by (rule find_Some_set)

lemma find_node_unique: "distinct (map node_id nodes) \<Longrightarrow> n \<in> set nodes \<Longrightarrow> find_node nodes (node_id n) = Some n"
  unfolding find_node_def by (rule find_key_unique)

lemma all_children_edges: "c \<in> set (all_children nodes) \<longleftrightarrow> (\<exists>p. (p, c) \<in> child_edges nodes)"
  by (auto simp: all_children_def child_edges_def)

section \<open>The map of nodes and the parents\<close>

lemma node_map_iff:
  "node_map seen ns = Inr nodes \<longleftrightarrow>
     distinct (map node_id ns) \<and> node_ids seen \<inter> node_ids ns = {} \<and> nodes = seen @ ns"
proof (induction ns arbitrary: seen)
  case (Cons n ns)
  then show ?case by (auto simp: find_node_None node_ids_def)
qed (auto simp: node_ids_def)

lemma link_children_iff:
  "link_children nodes p cs parents = Inr q \<longleftrightarrow>
     set cs \<subseteq> node_ids nodes \<and> distinct cs \<and> (\<forall>c \<in> set cs. parents c = None) \<and>
     q = (\<lambda>x. if x \<in> set cs then Some p else parents x)"
proof (induction cs arbitrary: parents)
  case (Cons c cs)
  have more: "(\<lambda>x. if x \<in> set cs then Some p else (parents(c \<mapsto> p)) x) = (\<lambda>x. if x \<in> set (c # cs) then Some p else parents x)"
    by auto
  have fresh: "(\<forall>x \<in> set cs. (parents(c \<mapsto> p)) x = None) \<longleftrightarrow> c \<notin> set cs \<and> (\<forall>x \<in> set cs. parents x = None)"
    by auto
  have "link_children nodes p (c # cs) parents = Inr q \<longleftrightarrow>
      c \<in> node_ids nodes \<and> parents c = None \<and> link_children nodes p cs (parents(c \<mapsto> p)) = Inr q"
    by (simp add: find_node_None del: fun_upd_apply)
  then show ?case unfolding Cons.IH more fresh by auto
qed auto

definition parent_links :: "ui_node list \<Rightarrow> (string \<rightharpoonup> string) \<Rightarrow> (string \<rightharpoonup> string)" where
  "parent_links ns parents = fold (\<lambda>n m x. if x \<in> set (children (node_kind n)) then Some (node_id n) else m x) ns parents"

lemma link_nodes_iff:
  "link_nodes nodes ns parents = Inr parents' \<longleftrightarrow>
     (\<forall>n \<in> set ns. validate_layout n = Inr ()) \<and> set (all_children ns) \<subseteq> node_ids nodes \<and> distinct (all_children ns) \<and>
     (\<forall>c \<in> set (all_children ns). parents c = None) \<and> parents' = parent_links ns parents"
proof (induction ns arbitrary: parents)
  case Nil
  then show ?case by (auto simp: all_children_def parent_links_def)
next
  case (Cons n ns)
  let ?cs = "children (node_kind n)"
  let ?parents = "\<lambda>x. if x \<in> set ?cs then Some (node_id n) else parents x"
  have "link_nodes nodes (n # ns) parents = Inr parents' \<longleftrightarrow> validate_layout n = Inr () \<and>
      (\<exists>q. link_children nodes (node_id n) ?cs parents = Inr q \<and> link_nodes nodes ns q = Inr parents')"
    by (cases "validate_layout n"; cases "link_children nodes (node_id n) ?cs parents") (simp_all add: result_simps)
  also have "\<dots> \<longleftrightarrow> validate_layout n = Inr () \<and> set ?cs \<subseteq> node_ids nodes \<and> distinct ?cs \<and> (\<forall>c \<in> set ?cs. parents c = None) \<and>
      link_nodes nodes ns ?parents = Inr parents'"
    by (simp add: link_children_iff)
  finally show ?case unfolding Cons.IH by (auto simp: all_children_def parent_links_def)
qed

lemma parent_links_iff:
  "distinct (all_children ns) \<Longrightarrow> (\<forall>c \<in> set (all_children ns). parents c = None) \<Longrightarrow>
    parent_links ns parents c = Some p \<longleftrightarrow> (p, c) \<in> child_edges ns \<or> parents c = Some p"
proof (induction ns arbitrary: parents)
  case (Cons n ns)
  let ?parents = "\<lambda>x. if x \<in> set (children (node_kind n)) then Some (node_id n) else parents x"
  have "parent_links (n # ns) parents = parent_links ns ?parents" by (simp add: parent_links_def)
  moreover have "distinct (all_children ns)" "\<forall>c \<in> set (all_children ns). ?parents c = None"
    using Cons.prems by (auto simp: all_children_def)
  moreover have "c \<in> set (children (node_kind n)) \<Longrightarrow> parents c = None" using Cons.prems by (auto simp: all_children_def)
  ultimately show ?case using Cons.IH [of ?parents] by (auto simp: child_edges_def)
qed (simp add: parent_links_def child_edges_def)

section \<open>Climbing\<close>

lemma climb_ends:
  assumes "finite (dom parents)" "set chain \<subseteq> dom parents" "distinct chain"
  shows "\<exists>r. climb parents chain current = Some r"
  using assms(2,3)
proof (induction "card (dom parents) - length chain" arbitrary: chain current rule: less_induct)
  case less
  show ?case
  proof (cases "parents current")
    case (Some parent)
    show ?thesis
    proof (cases "current \<in> set chain")
      case False
      have "length (current # chain) \<le> card (dom parents)"
        using less.prems False Some assms(1) card_mono [of "dom parents" "set (current # chain)"] distinct_card [of "current # chain"]
        by auto
      then have "card (dom parents) - length (current # chain) < card (dom parents) - length chain" by simp
      from less.hyps [OF this, of parent] less.prems False Some show ?thesis
        by (subst climb.simps) auto
    qed (use Some in \<open>simp add: climb.simps\<close>)
  qed (simp add: climb.simps)
qed

lemma detect_cycles_ends: "finite (dom parents) \<Longrightarrow> \<exists>r. detect_cycles parents ns = Some r"
proof (induction ns)
  case (Cons n ns)
  then obtain r r' where "climb parents [] (node_id n) = Some r" "detect_cycles parents ns = Some r'"
    using climb_ends [of parents "[]" "node_id n"] by auto
  then show ?case by (cases r) auto
qed simp

lemma detect_cycles_ok:
  "(\<And>n. n \<in> set ns \<Longrightarrow> climb parents [] (node_id n) = Some (Inr ())) \<Longrightarrow> detect_cycles parents ns = Some (Inr ())"
  by (induction ns) auto

text \<open>The depth of a node below a root without parent is unique, so climbing never comes back.\<close>

lemma depth_unique:
  assumes parents: "\<And>c p. parents c = Some p \<longleftrightarrow> (p, c) \<in> E" and root: "parents root = None"
  shows "(root, i) \<in> E ^^ d \<Longrightarrow> (root, i) \<in> E ^^ e \<Longrightarrow> d = e"
proof (induction d arbitrary: i e)
  case 0
  then show ?case using parents [of root] root by (cases e) auto
next
  case (Suc d)
  then obtain p where p: "(root, p) \<in> E ^^ d" "parents i = Some p" using parents by auto
  show ?case
  proof (cases e)
    case 0
    with Suc.prems(2) root p(2) show ?thesis by simp
  next
    case (Suc e')
    with Suc.prems(2) obtain q where "(root, q) \<in> E ^^ e'" "parents i = Some q" using parents by auto
    with p Suc.IH \<open>e = Suc e'\<close> show ?thesis by auto
  qed
qed

lemma climb_tree:
  assumes parents: "\<And>c p. parents c = Some p \<longleftrightarrow> (p, c) \<in> E" and root: "parents root = None"
    and deep: "(root, current) \<in> E ^^ d" "\<forall>x \<in> set chain. \<exists>e > d. (root, x) \<in> E ^^ e"
  shows "climb parents chain current = Some (Inr ())"
  using deep
proof (induction d arbitrary: current chain)
  case 0
  then show ?case using root by (simp add: climb.simps)
next
  case (Suc d)
  then obtain p where p: "(root, p) \<in> E ^^ d" "parents current = Some p" using parents by auto
  have "current \<notin> set chain"
  proof
    assume "current \<in> set chain"
    then obtain e where "e > Suc d" "(root, current) \<in> E ^^ e" using Suc.prems(2) by blast
    then show False using depth_unique [of parents, OF parents root Suc.prems(1)] by auto
  qed
  moreover have "\<forall>x \<in> set (current # chain). \<exists>e > d. (root, x) \<in> E ^^ e"
  proof
    fix x assume "x \<in> set (current # chain)"
    then have "x = current \<or> x \<in> set chain" by simp
    then show "\<exists>e > d. (root, x) \<in> E ^^ e"
    proof
      assume "x = current"
      with Suc.prems(1) show ?thesis by (intro exI [of _ "Suc d"]) (simp del: relpow.simps)
    next
      assume "x \<in> set chain"
      then obtain e where "e > Suc d" "(root, x) \<in> E ^^ e" using Suc.prems(2) by auto
      then show ?thesis by (intro exI [of _ e]) simp
    qed
  qed
  ultimately show ?case using Suc.IH [OF p(1)] p(2) by (subst climb.simps) simp
qed

section \<open>Searching\<close>

definition search_edges :: "ui_node list \<Rightarrow> (string \<times> string) set" where
  "search_edges nodes = {(i, c). \<exists>n. find_node nodes i = Some n \<and> c \<in> set (children (node_kind n))}"

lemma search_edges_distinct: "distinct (map node_id nodes) \<Longrightarrow> search_edges nodes = child_edges nodes"
  using find_node_unique find_node_Some by (fastforce simp: search_edges_def child_edges_def)

lemma visit_ends:
  assumes U: "finite U" "\<And>i c. (i, c) \<in> search_edges nodes \<Longrightarrow> c \<in> U"
    and start: "distinct visited" "set visited \<subseteq> U" "set pending \<subseteq> U"
      "\<And>i c. i \<in> set visited \<Longrightarrow> (i, c) \<in> search_edges nodes \<Longrightarrow> c \<in> set visited \<union> set pending"
  shows "\<exists>found. visit nodes visited pending = Some found \<and> distinct found \<and>
    set visited \<union> set pending \<subseteq> set found \<and> set found \<subseteq> (search_edges nodes)\<^sup>* `` (set visited \<union> set pending) \<and>
    (\<forall>i c. i \<in> set found \<longrightarrow> (i, c) \<in> search_edges nodes \<longrightarrow> c \<in> set found)"
  using start
proof (induction "(visited, pending)" arbitrary: visited pending
    rule: wf_induct_rule [OF wf_measures [of "[\<lambda>(v, p). card U - length v, \<lambda>(v, p). length p]"]])
  case 1
  show ?case
  proof (cases pending)
    case Nil
    with 1 show ?thesis by (auto simp: visit.simps)
  next
    case (Cons i rest)
    show ?thesis
    proof (cases "i \<in> set visited")
      case True
      have "\<exists>found. visit nodes visited rest = Some found \<and> distinct found \<and>
        set visited \<union> set rest \<subseteq> set found \<and> set found \<subseteq> (search_edges nodes)\<^sup>* `` (set visited \<union> set rest) \<and>
        (\<forall>i c. i \<in> set found \<longrightarrow> (i, c) \<in> search_edges nodes \<longrightarrow> c \<in> set found)"
        by (rule 1(1)) (use 1(2-5) Cons True in auto)
      with True Cons show ?thesis by (subst visit.simps) (auto simp: insert_absorb)
    next
      case False
      let ?more = "case find_node nodes i of None \<Rightarrow> [] | Some n \<Rightarrow> rev (children (node_kind n))"
      have more: "c \<in> set ?more \<longleftrightarrow> (i, c) \<in> search_edges nodes" for c
        by (cases "find_node nodes i") (auto simp: search_edges_def)
      have "length (i # visited) \<le> card U"
        using 1(2-4) False Cons U(1) card_mono [of U "set (i # visited)"] distinct_card [of "i # visited"] by auto
      then have smaller: "card U - length (i # visited) < card U - length visited" by simp
      have step: "visit nodes visited pending = visit nodes (i # visited) (?more @ rest)"
        using False Cons by (subst visit.simps) (auto split: option.split)
      have "\<exists>found. visit nodes (i # visited) (?more @ rest) = Some found \<and> distinct found \<and>
        set (i # visited) \<union> set (?more @ rest) \<subseteq> set found \<and>
        set found \<subseteq> (search_edges nodes)\<^sup>* `` (set (i # visited) \<union> set (?more @ rest)) \<and>
        (\<forall>i c. i \<in> set found \<longrightarrow> (i, c) \<in> search_edges nodes \<longrightarrow> c \<in> set found)"
      proof (rule 1(1))
        show "((i # visited, ?more @ rest), visited, pending) \<in> measures [\<lambda>(v, p). card U - length v, \<lambda>(v, p). length p]"
          using smaller by simp
        show "set (?more @ rest) \<subseteq> U" using more U(2) 1(4) Cons by auto
        show "c \<in> set (i # visited) \<union> set (?more @ rest)" if "j \<in> set (i # visited)" "(j, c) \<in> search_edges nodes" for j c
          using that 1(5) more Cons by auto
      qed (use 1(2-4) False Cons in auto)
      moreover have "(search_edges nodes)\<^sup>* `` (set (i # visited) \<union> set (?more @ rest)) \<subseteq>
          (search_edges nodes)\<^sup>* `` (set visited \<union> set pending)"
        using more Cons by (auto intro: converse_rtrancl_into_rtrancl)
      ultimately show ?thesis unfolding step using Cons by fastforce
    qed
  qed
qed

lemma visit_reachable:
  assumes "finite (Range (search_edges nodes))"
  shows "\<exists>found. visit nodes [] [root] = Some found \<and> distinct found \<and> set found = (search_edges nodes)\<^sup>* `` {root}"
proof -
  obtain found where found: "visit nodes [] [root] = Some found" "distinct found" "root \<in> set found"
    "set found \<subseteq> (search_edges nodes)\<^sup>* `` {root}" "\<forall>i c. i \<in> set found \<longrightarrow> (i, c) \<in> search_edges nodes \<longrightarrow> c \<in> set found"
    using visit_ends [of "insert root (Range (search_edges nodes))" nodes "[]" "[root]"] assms by auto
  have "i \<in> set found" if "(root, i) \<in> (search_edges nodes)\<^sup>*" for i
    using that by (induction rule: rtrancl_induct) (use found in auto)
  with found show ?thesis by auto
qed


section \<open>Validation\<close>

lemma finite_search_range: "finite (Range (search_edges nodes))"
proof (rule finite_subset)
  show "Range (search_edges nodes) \<subseteq> set (all_children nodes)"
    using find_node_Some by (fastforce simp: search_edges_def all_children_def)
qed simp

lemma validate_reachability_result:
  assumes "distinct (map node_id nodes)" "root \<in> node_ids nodes" "set (all_children nodes) \<subseteq> node_ids nodes"
  shows "\<exists>r. validate_reachability root nodes = Some r \<and>
    (r = Inr () \<longleftrightarrow> (\<forall>i \<in> node_ids nodes. (root, i) \<in> (child_edges nodes)\<^sup>*))"
proof -
  obtain found where found: "visit nodes [] [root] = Some found" "distinct found" "set found = (child_edges nodes)\<^sup>* `` {root}"
    using visit_reachable [OF finite_search_range] search_edges_distinct [OF assms(1)] by metis
  have sub: "set found \<subseteq> node_ids nodes"
  proof
    fix i assume "i \<in> set found"
    then have "(root, i) \<in> (child_edges nodes)\<^sup>*" using found(3) by simp
    then show "i \<in> node_ids nodes"
      by (induction rule: rtrancl_induct) (use assms(2,3) all_children_edges in auto)
  qed
  have card: "card (node_ids nodes) = length nodes" "card (set found) = length found"
    using distinct_card [OF assms(1)] distinct_card [OF found(2)] by (simp_all add: node_ids_def)
  have fin: "finite (node_ids nodes)" by (simp add: node_ids_def)
  have all: "length found = length nodes \<longleftrightarrow> node_ids nodes \<subseteq> set found"
  proof
    assume "length found = length nodes"
    with card have "card (set found) = card (node_ids nodes)" by simp
    then have "set found = node_ids nodes" by (rule card_subset_eq [OF fin sub])
    then show "node_ids nodes \<subseteq> set found" by simp
  next
    assume "node_ids nodes \<subseteq> set found"
    with sub have "set found = node_ids nodes" by (rule antisym)
    with card show "length found = length nodes" by simp
  qed
  show ?thesis
  proof (cases "length found = length nodes")
    case True
    with found all show ?thesis by (simp add: validate_reachability_def) blast
  next
    case False
    with all obtain n where n: "n \<in> set nodes" "node_id n \<notin> set found" by (auto simp: node_ids_def)
    then have "sort (filter (\<lambda>i. i \<notin> set found) (map node_id nodes)) \<noteq> []"
    proof -
      have "node_id n \<in> set (sort (filter (\<lambda>i. i \<notin> set found) (map node_id nodes)))" using n by simp
      then show ?thesis by (metis list.set(1) empty_iff)
    qed
    then obtain orphan rest where "sort (filter (\<lambda>i. i \<notin> set found) (map node_id nodes)) = orphan # rest"
      by (cases "sort (filter (\<lambda>i. i \<notin> set found) (map node_id nodes))") auto
    with found(1) False have "validate_reachability root nodes = Some (Inl (OrphanNode orphan))"
      by (simp add: validate_reachability_def)
    moreover have "\<not> (\<forall>i \<in> node_ids nodes. (root, i) \<in> (child_edges nodes)\<^sup>*)"
      using n found(3) by (auto simp: node_ids_def)
    ultimately show ?thesis by simp
  qed
qed

lemma parent_links_finite: "finite (dom parents) \<Longrightarrow> finite (dom (parent_links ns parents))"
proof (induction ns arbitrary: parents)
  case (Cons n ns)
  have "dom (\<lambda>x. if x \<in> set (children (node_kind n)) then Some (node_id n) else parents x) \<subseteq>
      set (children (node_kind n)) \<union> dom parents" by (auto split: if_splits)
  then have "finite (dom (\<lambda>x. if x \<in> set (children (node_kind n)) then Some (node_id n) else parents x))"
    by (rule finite_subset) (simp add: Cons.prems)
  from Cons.IH [OF this] show ?case by (simp add: parent_links_def)
qed (simp add: parent_links_def)

lemma tree_has_no_cycles:
  assumes parents: "\<And>c p. parents c = Some p \<longleftrightarrow> (p, c) \<in> E" and root: "parents root = None"
    and reach: "\<forall>n \<in> set ns. (root, node_id n) \<in> E\<^sup>*"
  shows "detect_cycles parents ns = Some (Inr ())"
proof (rule detect_cycles_ok)
  fix n assume "n \<in> set ns"
  then obtain d where "(root, node_id n) \<in> E ^^ d" using reach rtrancl_imp_relpow by blast
  then show "climb parents [] (node_id n) = Some (Inr ())"
    by (intro climb_tree [of parents, OF parents root]) simp_all
qed

text \<open>Where the nodes cannot be linked the snapshot is rejected; where they can, the walks decide.\<close>

lemma validate_snapshot_unlinked:
  assumes False: "\<not> (length (snap_nodes s) \<le> DEFAULT_MAX_SURFACE_NODES \<and> distinct (map node_id (snap_nodes s)) \<and>
    snap_root s \<in> node_ids (snap_nodes s) \<and> (\<exists>parents. link_nodes (snap_nodes s) (snap_nodes s) Map.empty = Inr parents))"
  shows "(\<exists>r. validate_snapshot s = Some r) \<and> (validate_snapshot s = Some (Inr ()) \<longleftrightarrow> ui_tree s)"
proof -
  let ?nodes = "snap_nodes s"
  have "ui_tree s \<Longrightarrow> \<exists>parents. link_nodes ?nodes ?nodes Map.empty = Inr parents"
    by (auto simp: ui_tree_def link_nodes_iff)
  then have no: "\<not> ui_tree s" using False by (auto simp: ui_tree_def)
  show ?thesis
  proof (cases "length ?nodes \<le> DEFAULT_MAX_SURFACE_NODES \<and> distinct (map node_id ?nodes)")
    case bounded: True
    then have map: "node_map [] ?nodes = Inr ?nodes" by (simp add: node_map_iff node_ids_def)
    show ?thesis
    proof (cases "snap_root s \<in> node_ids ?nodes")
      case True
      with False bounded obtain e where "link_nodes ?nodes ?nodes Map.empty = Inl e"
        by (cases "link_nodes ?nodes ?nodes Map.empty") auto
      with no True bounded map show ?thesis by (simp add: validate_snapshot_def find_node_None)
    next
      case False
      with no bounded map show ?thesis by (simp add: validate_snapshot_def find_node_None [THEN iffD2])
    qed
  next
    case False
    then have "length ?nodes \<le> DEFAULT_MAX_SURFACE_NODES \<Longrightarrow> \<exists>e. node_map [] ?nodes = Inl e"
      by (cases "node_map [] ?nodes") (auto simp: node_map_iff)
    with no show ?thesis by (auto simp: validate_snapshot_def)
  qed
qed

lemma validate_snapshot_linked:
  assumes True: "length (snap_nodes s) \<le> DEFAULT_MAX_SURFACE_NODES \<and> distinct (map node_id (snap_nodes s)) \<and>
    snap_root s \<in> node_ids (snap_nodes s) \<and> (\<exists>parents. link_nodes (snap_nodes s) (snap_nodes s) Map.empty = Inr parents)"
  shows "(\<exists>r. validate_snapshot s = Some r) \<and> (validate_snapshot s = Some (Inr ()) \<longleftrightarrow> ui_tree s)"
proof -
  let ?nodes = "snap_nodes s"
  obtain parents where link: "link_nodes ?nodes ?nodes Map.empty = Inr parents" using True by blast
  then have nodes: "\<forall>n \<in> set ?nodes. validate_layout n = Inr ()" "set (all_children ?nodes) \<subseteq> node_ids ?nodes"
    "distinct (all_children ?nodes)" "parents = parent_links ?nodes Map.empty"
    by (auto simp: link_nodes_iff)
  have parents: "parents c = Some p \<longleftrightarrow> (p, c) \<in> child_edges ?nodes" for c p
    using parent_links_iff [OF nodes(3), of Map.empty] nodes(4) by simp
  have root: "parents (snap_root s) = None \<longleftrightarrow> snap_root s \<notin> set (all_children ?nodes)"
    using parents [of "snap_root s"] by (cases "parents (snap_root s)") (auto simp: all_children_edges)
  have "node_map [] ?nodes = Inr ?nodes" using True by (auto simp: node_map_iff node_ids_def)
  then have result: "validate_snapshot s =
      (if parents (snap_root s) \<noteq> None then Some (Inl (RootHasParent (snap_root s)))
       else case detect_cycles parents ?nodes of
         None \<Rightarrow> None
       | Some (Inl e) \<Rightarrow> Some (Inl e)
       | Some (Inr _) \<Rightarrow> validate_reachability (snap_root s) ?nodes)"
    using True link by (simp add: validate_snapshot_def find_node_None)
  obtain r where r: "validate_reachability (snap_root s) ?nodes = Some r"
    "r = Inr () \<longleftrightarrow> (\<forall>i \<in> node_ids ?nodes. (snap_root s, i) \<in> (child_edges ?nodes)\<^sup>*)"
    using validate_reachability_result True nodes(2) by blast
  obtain q where q: "detect_cycles parents ?nodes = Some q"
    using detect_cycles_ends parent_links_finite [of Map.empty] nodes(4) by fastforce
  have tree: "ui_tree s \<longleftrightarrow> parents (snap_root s) = None \<and> r = Inr ()"
    using True nodes root r(2) by (auto simp: ui_tree_def)
  show ?thesis
  proof (cases "ui_tree s")
    case True
    then have "parents (snap_root s) = None" "\<forall>n \<in> set ?nodes. (snap_root s, node_id n) \<in> (child_edges ?nodes)\<^sup>*"
      using tree by (auto simp: ui_tree_def node_ids_def)
    from tree_has_no_cycles [of parents, OF parents this] show ?thesis using result r tree True by simp
  next
    case False
    with tree result r q show ?thesis by (auto split: sum.split)
  qed
qed

lemma validate_snapshot_tree: "(\<exists>r. validate_snapshot s = Some r) \<and> (validate_snapshot s = Some (Inr ()) \<longleftrightarrow> ui_tree s)"
  using validate_snapshot_unlinked validate_snapshot_linked by blast

lemma validate_snapshot_ends: "validate_snapshot s \<noteq> None"
  using validate_snapshot_tree [of s] by auto

lemma validate_snapshot_accepts: "validate_snapshot s = Some (Inr ()) \<longleftrightarrow> ui_tree s"
  using validate_snapshot_tree [of s] by blast

end
