(* ===== verification/Ui_Runtime.thy ===== *)
theory Ui_Runtime
  imports Ui_Validation "HOL-Library.AList"
begin

text \<open>
  The portable UI runtime (\<open>crates/ui-runtime/src/runtime.rs\<close>): registered and mounted surfaces, the layer that renders each
  scope, its focus on one world, and the queues of actions and focus requests. Layers and mounted surfaces are in the order in
  which the hash maps iterate; poisoning of the state lock is not modelled.
\<close>

section \<open>The state\<close>

record owned_surface =
  os_owner :: component_ref
  os_contribution :: ui_contribution

record ui_instance =
  ui_scope :: string
  ui_active :: bool
  ui_surfaces :: "string list"

record focused_presentation =
  fp_scope :: string
  fp_world :: world_id
  fp_descriptor :: world_presentation

record active_layer =
  al_owner :: component_ref
  al_descriptor :: ui_layer_descriptor
  al_capabilities :: "string list"
  al_focused :: "focused_presentation option"
  al_pending :: "world_id option"
  al_error :: "string option"

record queued_action =
  qa_layer :: component_ref
  qa_event :: ui_action_event

record queued_focus =
  qf_layer :: component_ref
  qf_world :: world_id

record ui_state =
  us_instances :: "string \<rightharpoonup> ui_instance"
  us_registered :: "string \<times> string \<rightharpoonup> owned_surface"
  us_descriptors :: "component_ref \<rightharpoonup> ui_layer_descriptor"
  us_presentations :: "component_ref \<rightharpoonup> world_presentation"
  us_mounted :: "((string \<times> string) \<times> ui_snapshot) list"
  us_layers :: "(string \<times> active_layer) list"
  us_actions :: "queued_action list"
  us_focus :: "queued_focus list"

definition MAX_QUEUED_ACTIONS :: nat where "MAX_QUEUED_ACTIONS = 64"
definition MAX_QUEUED_WORLD_FOCUS_REQUESTS :: nat where "MAX_QUEUED_WORLD_FOCUS_REQUESTS = 64"
definition MAX_WORLD_FOCUS_DIAGNOSTIC_BYTES :: nat where "MAX_WORLD_FOCUS_DIAGNOSTIC_BYTES = 2 * 1024"

definition ui_state_new :: ui_state where
  "ui_state_new = \<lparr>us_instances = Map.empty, us_registered = Map.empty, us_descriptors = Map.empty, us_presentations = Map.empty,
     us_mounted = [], us_layers = [], us_actions = [], us_focus = []\<rparr>"

section \<open>Instances\<close>

text \<open>The checks of a registration: the loop returns the surface identifiers seen.\<close>

fun check_surfaces :: "string \<Rightarrow> string list \<Rightarrow> owned_surface list \<Rightarrow> ui_error + string list" where
  "check_surfaces i seen [] = Inr seen"
| "check_surfaces i seen (s # ss) =
     (if ref_instance (os_owner s) \<noteq> i then Inl (SurfaceNotOwned (contribution_id (os_contribution s)))
      else if contribution_id (os_contribution s) \<in> set seen
        then Inl (SurfaceAlreadyRegistered (contribution_id (os_contribution s)))
      else check_surfaces i (seen @ [contribution_id (os_contribution s)]) ss)"

fun check_layers :: "string \<Rightarrow> component_ref list \<Rightarrow> (component_ref \<times> ui_layer_descriptor) list \<Rightarrow> ui_error + unit" where
  "check_layers i seen [] = Inr ()"
| "check_layers i seen (l # ls) =
     (if ref_instance (fst l) \<noteq> i then Inl LayerNotOwner
      else if fst l \<in> set seen then Inl LayerAlreadyRegistered
      else check_layers i (fst l # seen) ls)"

definition register_ui_instance ::
  "string \<Rightarrow> string \<Rightarrow> owned_surface list \<Rightarrow> (component_ref \<times> ui_layer_descriptor) list \<Rightarrow> ui_state \<Rightarrow> ui_error + ui_state" where
  "register_ui_instance i scope surfaces layers s =
     (if us_instances s i \<noteq> None then Inl (InstanceAlreadyRegistered i)
      else
        and_then (check_surfaces i [] surfaces) (\<lambda>ids.
        and_then (check_layers i [] layers) (\<lambda>_.
        Inr (s\<lparr>us_registered := fold (\<lambda>o' m. m((i, contribution_id (os_contribution o')) \<mapsto> o')) surfaces (us_registered s),
               us_descriptors := fold (\<lambda>l m. m(fst l \<mapsto> snd l)) layers (us_descriptors s),
               us_instances := (us_instances s)(i \<mapsto> \<lparr>ui_scope = scope, ui_active = False, ui_surfaces = ids\<rparr>)\<rparr>))))"

definition register_world_presentation :: "component_ref \<Rightarrow> world_presentation \<Rightarrow> ui_state \<Rightarrow> ui_error + ui_state" where
  "register_world_presentation owner d s =
     (if us_instances s (ref_instance owner) = None then Inl (InstanceNotRegistered (ref_instance owner))
      else if us_presentations s owner \<noteq> None then Inl WorldPresentationAlreadyRegistered
      else case us_registered s (ref_instance owner, presentation_entry d) of
        None \<Rightarrow> Inl (SurfaceNotRegistered (presentation_entry d))
      | Some surface \<Rightarrow>
          if os_owner surface \<noteq> owner then Inl (SurfaceNotOwned (presentation_entry d))
          else Inr (s\<lparr>us_presentations := (us_presentations s)(owner \<mapsto> d)\<rparr>))"

definition registered_world_presentation_descriptor :: "component_ref \<Rightarrow> ui_state \<Rightarrow> ui_error + world_presentation" where
  "registered_world_presentation_descriptor owner s = ok_or WorldPresentationNotRegistered (us_presentations s owner)"

text \<open>What both deactivation and removal of an instance withdraw.\<close>

definition withdraw_instance :: "string \<Rightarrow> ui_instance \<Rightarrow> ui_state \<Rightarrow> ui_state" where
  "withdraw_instance i inst s =
     s\<lparr>us_mounted := filter (\<lambda>e. \<not> (fst (fst e) = i \<and> snd (fst e) \<in> set (ui_surfaces inst))) (us_mounted s),
       us_actions := filter (\<lambda>q. ref_instance (qa_layer q) \<noteq> i \<and> event_owner_instance (qa_event q) \<noteq> i) (us_actions s),
       us_focus := filter (\<lambda>q. ref_instance (qf_layer q) \<noteq> i) (us_focus s),
       us_layers :=
         (case map_of (us_layers s) (ui_scope inst) of
            None \<Rightarrow> us_layers s
          | Some l \<Rightarrow> if ref_instance (al_owner l) = i then AList.delete (ui_scope inst) (us_layers s) else us_layers s)\<rparr>"

definition unregister_ui_instance :: "string \<Rightarrow> ui_state \<Rightarrow> ui_state" where
  "unregister_ui_instance i s =
     (case us_instances s i of
        None \<Rightarrow> s
      | Some inst \<Rightarrow>
          (withdraw_instance i inst s)
            \<lparr>us_instances := (us_instances s)(i := None),
             us_registered := (\<lambda>k. if fst k = i \<and> snd k \<in> set (ui_surfaces inst) then None else us_registered s k),
             us_descriptors := (\<lambda>o'. if ref_instance o' = i then None else us_descriptors s o'),
             us_presentations := (\<lambda>o'. if ref_instance o' = i then None else us_presentations s o')\<rparr>)"

definition set_instance_active :: "string \<Rightarrow> bool \<Rightarrow> ui_state \<Rightarrow> ui_error + ui_state" where
  "set_instance_active i active s =
     (case us_instances s i of
        None \<Rightarrow> Inl (InstanceNotRegistered i)
      | Some inst \<Rightarrow>
          (let s = s\<lparr>us_instances := (us_instances s)(i \<mapsto> inst\<lparr>ui_active := active\<rparr>)\<rparr>
           in Inr (if active then s else withdraw_instance i inst s)))"

section \<open>Layers\<close>

definition find_unsupported :: "string list \<Rightarrow> ui_contribution \<Rightarrow> ui_snapshot \<Rightarrow> string option" where
  "find_unsupported capabilities c snapshot =
     find (\<lambda>k. k \<notin> set capabilities) (contribution_capabilities c @ required_capabilities snapshot)"

definition ensure_surface_supported :: "string list \<Rightarrow> ui_contribution \<Rightarrow> ui_snapshot \<Rightarrow> ui_error + unit" where
  "ensure_surface_supported capabilities c snapshot =
     (case find_unsupported capabilities c snapshot of None \<Rightarrow> Inr () | Some k \<Rightarrow> Inl (UnsupportedCapability k))"

text \<open>A layer sees its own scope and the scope of the world it is focused on.\<close>

definition sees_scope :: "string \<Rightarrow> focused_presentation option \<Rightarrow> string \<Rightarrow> bool" where
  "sees_scope layer_scope focused scope \<longleftrightarrow>
     layer_scope = scope \<or> (case focused of None \<Rightarrow> False | Some f \<Rightarrow> fp_scope f = scope)"

text \<open>The loop over the mounted surfaces of the active instances whose scope satisfies the given condition.\<close>

definition check_mounted :: "string list \<Rightarrow> (string \<Rightarrow> bool) \<Rightarrow> ui_state \<Rightarrow> ui_error + unit" where
  "check_mounted capabilities visible s =
     for_each (\<lambda>(key, snapshot).
       case us_instances s (fst key) of
         None \<Rightarrow> Inr ()
       | Some inst \<Rightarrow>
           if \<not> visible (ui_scope inst) \<or> \<not> ui_active inst then Inr ()
           else case us_registered s key of
             None \<Rightarrow> Inl (SurfaceNotRegistered (snd key))
           | Some r \<Rightarrow> ensure_surface_supported capabilities (os_contribution r) snapshot) (us_mounted s)"

definition attach_layer :: "component_ref \<Rightarrow> ui_layer_descriptor \<Rightarrow> ui_state \<Rightarrow> ui_error + ui_state" where
  "attach_layer owner d s =
     (case us_instances s (ref_instance owner) of
        None \<Rightarrow> Inl (InstanceNotRegistered (ref_instance owner))
      | Some inst \<Rightarrow>
          if \<not> ui_active inst then Inl OwnerInactive
          else if layer_protocol d \<noteq> PORTABLE_UI_PROTOCOL_MAJOR
            then Inl (UnsupportedProtocol PORTABLE_UI_PROTOCOL_MAJOR (layer_protocol d))
          else
            (let scope = ui_scope inst; old = map_of (us_layers s) scope
             in if (case old of None \<Rightarrow> False | Some l \<Rightarrow> al_owner l \<noteq> owner) then Inl LayerAlreadyAttached
                else
                  (let focused = (case old of None \<Rightarrow> None | Some l \<Rightarrow> al_focused l);
                       pending = (case old of None \<Rightarrow> None | Some l \<Rightarrow> al_pending l);
                       last_error = (case old of None \<Rightarrow> None | Some l \<Rightarrow> al_error l);
                       capabilities = remdups (layer_capabilities d)
                   in and_then (check_mounted capabilities (sees_scope scope focused) s) (\<lambda>_.
                      Inr (s\<lparr>us_layers := AList.update scope
                        \<lparr>al_owner = owner, al_descriptor = d, al_capabilities = capabilities, al_focused = focused,
                         al_pending = pending, al_error = last_error\<rparr> (us_layers s)\<rparr>)))))"

definition registered_layer_descriptor :: "component_ref \<Rightarrow> ui_state \<Rightarrow> ui_error + ui_layer_descriptor" where
  "registered_layer_descriptor owner s = ok_or LayerNotRegistered (us_descriptors s owner)"

definition attach_registered_layer :: "component_ref \<Rightarrow> ui_state \<Rightarrow> ui_error + ui_state" where
  "attach_registered_layer owner s = and_then (registered_layer_descriptor owner s) (\<lambda>d. attach_layer owner d s)"

definition detach_layer :: "component_ref \<Rightarrow> ui_state \<Rightarrow> ui_error + ui_state" where
  "detach_layer owner s =
     (case us_instances s (ref_instance owner) of
        None \<Rightarrow> Inl (InstanceNotRegistered (ref_instance owner))
      | Some inst \<Rightarrow>
          (let rest = filter (\<lambda>q. qf_layer q \<noteq> owner) (us_focus s)
           in case map_of (us_layers s) (ui_scope inst) of
                None \<Rightarrow> Inr (s\<lparr>us_focus := rest\<rparr>)
              | Some l \<Rightarrow>
                  if al_owner l \<noteq> owner then Inl LayerNotOwner
                  else Inr (s\<lparr>us_layers := AList.delete (ui_scope inst) (us_layers s), us_focus := rest\<rparr>)))"

definition active_layer_in :: "string \<Rightarrow> ui_state \<Rightarrow> (component_ref \<times> ui_layer_descriptor) option" where
  "active_layer_in scope s = map_option (\<lambda>l. (al_owner l, al_descriptor l)) (map_of (us_layers s) scope)"

definition find_layer :: "component_ref \<Rightarrow> ui_state \<Rightarrow> (string \<times> active_layer) option" where
  "find_layer owner s = find (\<lambda>e. al_owner (snd e) = owner) (us_layers s)"

section \<open>Focus on a world\<close>

text \<open>\<open>iter_mut().find\<close>: the first element with a property is changed.\<close>

fun update_first :: "('a \<Rightarrow> bool) \<Rightarrow> ('a \<Rightarrow> 'a) \<Rightarrow> 'a list \<Rightarrow> 'a list" where
  "update_first P f [] = []"
| "update_first P f (x # xs) = (if P x then f x # xs else x # update_first P f xs)"

definition queue_world_focus_request :: "component_ref \<Rightarrow> world_id \<Rightarrow> ui_state \<Rightarrow> ui_error + ui_state" where
  "queue_world_focus_request owner world s =
     (case find_layer owner s of
        None \<Rightarrow> Inl LayerNotOwner
      | Some (scope, l) \<Rightarrow>
          (let queued = find (\<lambda>q. qf_layer q = owner) (us_focus s) \<noteq> None
           in if \<not> queued \<and> length (us_focus s) \<ge> MAX_QUEUED_WORLD_FOCUS_REQUESTS then Inl WorldFocusQueueFull
              else
                (let focus = (if queued then update_first (\<lambda>q. qf_layer q = owner) (\<lambda>q. q\<lparr>qf_world := world\<rparr>) (us_focus s)
                              else us_focus s @ [\<lparr>qf_layer = owner, qf_world = world\<rparr>])
                 in Inr (s\<lparr>us_focus := focus,
                           us_layers := AList.update scope (l\<lparr>al_pending := Some world, al_error := None\<rparr>) (us_layers s)\<rparr>))))"

definition drain_world_focus_requests :: "ui_state \<Rightarrow> queued_focus list \<times> ui_state" where
  "drain_world_focus_requests s = (us_focus s, s\<lparr>us_focus := []\<rparr>)"

text \<open>The longest prefix within the limit that ends at the boundary of a UTF-8 character.\<close>

definition is_char_boundary :: "string \<Rightarrow> nat \<Rightarrow> bool" where
  "is_char_boundary t i \<longleftrightarrow> i = 0 \<or> i = length t \<or>
     i < length t \<and> \<not> (128 \<le> (of_char (t ! i) :: nat) \<and> (of_char (t ! i) :: nat) < 192)"

fun floor_char_boundary :: "string \<Rightarrow> nat \<Rightarrow> nat" where
  "floor_char_boundary t 0 = 0"
| "floor_char_boundary t (Suc n) = (if is_char_boundary t (Suc n) then Suc n else floor_char_boundary t n)"

definition bounded_world_focus_diagnostic :: "string \<Rightarrow> string" where
  "bounded_world_focus_diagnostic t =
     take (floor_char_boundary t (min (length t) MAX_WORLD_FOCUS_DIAGNOSTIC_BYTES)) t"

definition record_world_focus_failure :: "component_ref \<Rightarrow> world_id \<Rightarrow> string \<Rightarrow> ui_state \<Rightarrow> ui_error + ui_state" where
  "record_world_focus_failure owner world diagnostic s =
     (case find_layer owner s of
        None \<Rightarrow> Inl LayerNotOwner
      | Some (scope, l) \<Rightarrow>
          Inr (if al_pending l = Some world
               then s\<lparr>us_layers := AList.update scope
                 (l\<lparr>al_pending := None, al_error := Some (bounded_world_focus_diagnostic diagnostic)\<rparr>) (us_layers s)\<rparr>
               else s))"

record ui_layer_presentation =
  lp_focused :: "(world_id \<times> world_presentation) option"
  lp_pending :: "world_id option"
  lp_error :: "string option"

definition presentation_state_for_layer :: "component_ref \<Rightarrow> ui_state \<Rightarrow> ui_error + ui_layer_presentation" where
  "presentation_state_for_layer owner s =
     (case find_layer owner s of
        None \<Rightarrow> Inl LayerNotOwner
      | Some (scope, l) \<Rightarrow>
          Inr \<lparr>lp_focused = map_option (\<lambda>f. (fp_world f, fp_descriptor f)) (al_focused l), lp_pending = al_pending l,
               lp_error = al_error l\<rparr>)"

definition set_focused_world_scope ::
  "component_ref \<Rightarrow> world_id \<Rightarrow> string \<Rightarrow> world_presentation \<Rightarrow> ui_state \<Rightarrow> ui_error + ui_state" where
  "set_focused_world_scope owner world scope d s =
     (case find_layer owner s of
        None \<Rightarrow> Inl LayerNotOwner
      | Some (layer_scope, l) \<Rightarrow>
          if layer_scope = scope then Inl ScopeNotVisible
          else
            and_then (check_mounted (al_capabilities l) (\<lambda>x. x = scope) s) (\<lambda>_.
            Inr (s\<lparr>us_layers := AList.update layer_scope
              (l\<lparr>al_focused := Some \<lparr>fp_scope = scope, fp_world = world, fp_descriptor = d\<rparr>,
                 al_pending := (if al_pending l = Some world then None else al_pending l),
                 al_error := None\<rparr>) (us_layers s)\<rparr>)))"

definition clear_focused_world_scope :: "component_ref \<Rightarrow> ui_state \<Rightarrow> ui_error + ui_state" where
  "clear_focused_world_scope owner s =
     (case find_layer owner s of
        None \<Rightarrow> Inl LayerNotOwner
      | Some (scope, l) \<Rightarrow>
          Inr (s\<lparr>us_layers := AList.update scope (l\<lparr>al_focused := None, al_pending := None, al_error := None\<rparr>) (us_layers s),
                 us_focus := filter (\<lambda>q. qf_layer q \<noteq> owner) (us_focus s)\<rparr>))"

definition clear_focused_world_scope_for_all_layers :: "string \<Rightarrow> ui_state \<Rightarrow> ui_state" where
  "clear_focused_world_scope_for_all_layers scope s =
     s\<lparr>us_layers := map (\<lambda>(k, l). (k, case al_focused l of
          None \<Rightarrow> l
        | Some f \<Rightarrow> if fp_scope f = scope then l\<lparr>al_focused := None\<rparr> else l)) (us_layers s)\<rparr>"

definition focused_world_for_layer :: "component_ref \<Rightarrow> ui_state \<Rightarrow> ui_error + world_id option" where
  "focused_world_for_layer owner s =
     (case find_layer owner s of
        None \<Rightarrow> Inl LayerNotOwner
      | Some (scope, l) \<Rightarrow> Inr (map_option fp_world (al_focused l)))"

end
