(* ===== verification/Ui_Surfaces.thy ===== *)
theory Ui_Surfaces
  imports Ui_Runtime
begin

text \<open>
  The mounted surfaces of the portable UI runtime (\<open>crates/ui-runtime/src/runtime.rs\<close>): mounting, patch batches,
  what a layer is shown, and the way of an action from a layer back to the component that owns the surface.
\<close>

section \<open>Patches\<close>

text \<open>The hash map of the nodes is a list with distinct identifiers: \<open>insert\<close>, and a change through \<open>get_mut\<close>.\<close>

definition put_node :: "ui_node \<Rightarrow> ui_node list \<Rightarrow> ui_node list" where
  "put_node n nodes =
     (if find_node nodes (node_id n) = None then nodes @ [n]
      else map (\<lambda>m. if node_id m = node_id n then n else m) nodes)"

definition put_children :: "string \<Rightarrow> string list \<Rightarrow> ui_node list \<Rightarrow> ui_node list" where
  "put_children parent cs nodes =
     map (\<lambda>m. if node_id m = parent then m\<lparr>node_kind := set_children cs (node_kind m)\<rparr> else m) nodes"

definition children_of :: "string \<Rightarrow> ui_node list \<Rightarrow> ui_error + string list" where
  "children_of parent nodes =
     and_then (ok_or (NodeNotFound parent) (find_node nodes parent)) (\<lambda>n.
     ok_or (NodeNotContainer parent) (container_children (node_kind n)))"

text \<open>\<open>Vec::insert\<close> behind the check of the index, which always fits a \<open>usize\<close> of the supported targets.\<close>

definition insert_child :: "string \<Rightarrow> u32 \<Rightarrow> string \<Rightarrow> string list \<Rightarrow> ui_error + string list" where
  "insert_child parent index child cs =
     (if unat index > length cs then Inl (InvalidChildIndex parent index)
      else Inr (take (unat index) cs @ child # drop (unat index) cs))"

text \<open>\<open>position\<close> and \<open>remove\<close>: the first occurrence goes.\<close>

definition remove_child :: "string \<Rightarrow> string \<Rightarrow> string list \<Rightarrow> ui_error + string list" where
  "remove_child parent child cs = (if child \<in> set cs then Inr (remove1 child cs) else Inl (ChildNotFound parent child))"

fun apply_patch :: "ui_patch \<Rightarrow> ui_node list \<Rightarrow> ui_error + ui_node list" where
  "apply_patch (UpsertNode n) nodes = Inr (put_node n nodes)"
| "apply_patch (RemoveNode i) nodes =
     (if find_node nodes i = None then Inl (NodeNotFound i) else Inr (filter (\<lambda>m. node_id m \<noteq> i) nodes))"
| "apply_patch (InsertChild parent index child) nodes =
     (if find_node nodes child = None then Inl (NodeNotFound child)
      else and_then (children_of parent nodes) (\<lambda>cs.
           and_then (insert_child parent index child cs) (\<lambda>cs.
           Inr (put_children parent cs nodes))))"
| "apply_patch (RemoveChild parent child) nodes =
     and_then (children_of parent nodes) (\<lambda>cs.
     and_then (remove_child parent child cs) (\<lambda>cs.
     Inr (put_children parent cs nodes)))"
| "apply_patch (MoveChild parent child index) nodes =
     and_then (children_of parent nodes) (\<lambda>cs.
     and_then (remove_child parent child cs) (\<lambda>cs.
     and_then (insert_child parent index child cs) (\<lambda>cs.
     Inr (put_children parent cs nodes))))"

definition apply_patch_operations :: "ui_patch list \<Rightarrow> ui_snapshot \<Rightarrow> ui_error + ui_snapshot" where
  "apply_patch_operations patches s =
     and_then (node_map [] (snap_nodes s)) (\<lambda>nodes.
     and_then (fold_result apply_patch patches nodes) (\<lambda>nodes.
     Inr (s\<lparr>snap_nodes := sort_key node_id nodes\<rparr>)))"

section \<open>Mounted surfaces\<close>

text \<open>The loop over the layers that see a scope.\<close>

definition check_visible_layers :: "string \<Rightarrow> ui_contribution \<Rightarrow> ui_snapshot \<Rightarrow> ui_state \<Rightarrow> ui_error + unit" where
  "check_visible_layers scope c snapshot s =
     for_each (\<lambda>(layer_scope, l).
       if sees_scope layer_scope (al_focused l) scope then ensure_surface_supported (al_capabilities l) c snapshot
       else Inr ()) (us_layers s)"

text \<open>The surface a component may change: registered, and registered by this component.\<close>

definition owned_registration :: "component_ref \<Rightarrow> string \<Rightarrow> ui_state \<Rightarrow> ui_error + owned_surface" where
  "owned_registration owner surface s =
     (case us_registered s (ref_instance owner, surface) of
        None \<Rightarrow> Inl (SurfaceNotRegistered surface)
      | Some r \<Rightarrow> if os_owner r \<noteq> owner then Inl (SurfaceNotOwned surface) else Inr r)"

text \<open>The last steps of a mount and of a patch batch.\<close>

definition present_snapshot :: "component_ref \<Rightarrow> ui_contribution \<Rightarrow> ui_snapshot \<Rightarrow> string \<Rightarrow> ui_state \<Rightarrow> ui_error + ui_state" where
  "present_snapshot owner c snapshot surface s =
     (case us_instances s (ref_instance owner) of
        None \<Rightarrow> Inl (InstanceNotRegistered (ref_instance owner))
      | Some inst \<Rightarrow>
          and_then (check_visible_layers (ui_scope inst) c snapshot s) (\<lambda>_.
          Inr (s\<lparr>us_mounted := AList.update (ref_instance owner, surface) snapshot (us_mounted s)\<rparr>)))"

definition mount_surface :: "component_ref \<Rightarrow> ui_snapshot \<Rightarrow> ui_state \<Rightarrow> (ui_error + ui_state) option" where
  "mount_surface owner snapshot s =
     (case validate_snapshot snapshot of
        None \<Rightarrow> None
      | Some (Inl e) \<Rightarrow> Some (Inl e)
      | Some (Inr _) \<Rightarrow> Some (
          and_then (owned_registration owner (snap_surface snapshot) s) (\<lambda>r.
          if map_of (us_mounted s) (ref_instance owner, snap_surface snapshot) \<noteq> None
            then Inl (SurfaceAlreadyMounted (snap_surface snapshot))
          else present_snapshot owner (os_contribution r) snapshot (snap_surface snapshot) s)))"

text \<open>The checks of a batch before its operations: the size, the owner, the mounted snapshot and the two revisions.\<close>

definition check_batch :: "component_ref \<Rightarrow> ui_patch_batch \<Rightarrow> ui_state \<Rightarrow> ui_error + owned_surface \<times> ui_snapshot" where
  "check_batch owner b s =
     (if length (batch_patches b) > DEFAULT_MAX_PATCH_OPERATIONS
      then Inl (PatchBatchTooLarge (length (batch_patches b)) DEFAULT_MAX_PATCH_OPERATIONS)
      else
        and_then (owned_registration owner (batch_surface b) s) (\<lambda>r.
        and_then (ok_or (SurfaceNotMounted (batch_surface b)) (map_of (us_mounted s) (ref_instance owner, batch_surface b))) (\<lambda>current.
        if snap_revision current \<noteq> batch_base b then Inl (RevisionMismatch (snap_revision current) (batch_base b))
        else if checked_add_u64 (batch_base b) 1 \<noteq> Some (batch_next b) then Inl (InvalidRevision (batch_base b) (batch_next b))
        else Inr (r, current))))"

definition apply_patches :: "component_ref \<Rightarrow> ui_patch_batch \<Rightarrow> ui_state \<Rightarrow> (ui_error + ui_state) option" where
  "apply_patches owner b s =
     (case check_batch owner b s of
        Inl e \<Rightarrow> Some (Inl e)
      | Inr (r, current) \<Rightarrow>
          case apply_patch_operations (batch_patches b) current of
            Inl e \<Rightarrow> Some (Inl e)
          | Inr patched \<Rightarrow>
              let new = patched\<lparr>snap_revision := batch_next b\<rparr>
              in case validate_snapshot new of
                   None \<Rightarrow> None
                 | Some (Inl e) \<Rightarrow> Some (Inl e)
                 | Some (Inr _) \<Rightarrow> Some (present_snapshot owner (os_contribution r) new (batch_surface b) s))"

definition unmount_surface :: "component_ref \<Rightarrow> string \<Rightarrow> ui_state \<Rightarrow> ui_error + ui_state" where
  "unmount_surface owner surface s =
     and_then (owned_registration owner surface s) (\<lambda>_.
     if map_of (us_mounted s) (ref_instance owner, surface) = None then Inl (SurfaceNotMounted surface)
     else Inr (s\<lparr>us_mounted := AList.delete (ref_instance owner, surface) (us_mounted s)\<rparr>))"

section \<open>Presentation\<close>

record ui_presentation =
  pr_owner :: component_ref
  pr_context :: "ui_context option"
  pr_contribution :: ui_contribution
  pr_snapshot :: ui_snapshot

definition presentation_of ::
  "(string \<rightharpoonup> ui_context) option \<Rightarrow> ui_state \<Rightarrow> (string \<times> string) \<times> ui_snapshot \<Rightarrow> ui_presentation option" where
  "presentation_of contexts s e =
     (case us_registered s (fst e) of
        None \<Rightarrow> None
      | Some r \<Rightarrow>
          case us_instances s (fst (fst e)) of
            None \<Rightarrow> None
          | Some inst \<Rightarrow>
              if \<not> ui_active inst then None
              else case contexts of
                None \<Rightarrow> Some \<lparr>pr_owner = os_owner r, pr_context = None, pr_contribution = os_contribution r, pr_snapshot = snd e\<rparr>
              | Some visible \<Rightarrow>
                  map_option (\<lambda>c. \<lparr>pr_owner = os_owner r, pr_context = Some c, pr_contribution = os_contribution r, pr_snapshot = snd e\<rparr>)
                    (visible (ui_scope inst)))"

definition presentation_order :: "ui_presentation \<Rightarrow> string \<times> string" where
  "presentation_order p = (ref_instance (pr_owner p), contribution_id (pr_contribution p))"

definition collect_presentations :: "(string \<rightharpoonup> ui_context) option \<Rightarrow> ui_state \<Rightarrow> ui_presentation list" where
  "collect_presentations contexts s = sort_key presentation_order (List.map_filter (presentation_of contexts s) (us_mounted s))"

definition presentation_surfaces :: "ui_state \<Rightarrow> ui_presentation list" where
  "presentation_surfaces s = collect_presentations None s"

definition layer_contexts :: "string \<Rightarrow> focused_presentation option \<Rightarrow> string \<rightharpoonup> ui_context" where
  "layer_contexts scope focused =
     (case focused of
        None \<Rightarrow> [scope \<mapsto> LayerLocal]
      | Some f \<Rightarrow> [scope \<mapsto> LayerLocal, fp_scope f \<mapsto> FocusedWorld (fp_world f)])"

definition presentation_surfaces_for_layer :: "component_ref \<Rightarrow> ui_state \<Rightarrow> ui_error + ui_presentation list" where
  "presentation_surfaces_for_layer owner s =
     (case find_layer owner s of
        None \<Rightarrow> Inl LayerNotOwner
      | Some (scope, l) \<Rightarrow> Inr (collect_presentations (Some (layer_contexts scope (al_focused l))) s))"

section \<open>Actions\<close>

text \<open>The checks against the mounted snapshot.\<close>

definition check_event :: "ui_snapshot \<Rightarrow> ui_action_event \<Rightarrow> ui_error + unit" where
  "check_event snapshot e =
     (if snap_revision snapshot \<noteq> event_revision e then Inl (RevisionMismatch (snap_revision snapshot) (event_revision e))
      else
        and_then (ok_or (NodeNotFound (event_node e)) (find_node (snap_nodes snapshot) (event_node e))) (\<lambda>n.
        and_then (ensure (has_action (node_kind n) (event_action e))
          (ActionNotBound (event_surface e) (event_node e) (event_action e))) (\<lambda>_.
        and_then (ensure (is_action_enabled (node_kind n) (event_action e))
          (ActionDisabled (event_node e) (event_action e))) (\<lambda>_.
        ensure (accepts_action_payload (node_kind n) (event_action e) (event_payload e))
          (InvalidActionPayload (event_node e) (event_action e))))))"

definition route_action :: "component_ref \<Rightarrow> ui_action_event \<Rightarrow> ui_state \<Rightarrow> ui_error + component_ref \<times> ui_action_event" where
  "route_action layer_owner e s =
     (case find_layer layer_owner s of
        None \<Rightarrow> Inl LayerNotOwner
      | Some (layer_scope, l) \<Rightarrow>
          case us_instances s (event_owner_instance e) of
            None \<Rightarrow> Inl (InstanceNotRegistered (event_owner_instance e))
          | Some target \<Rightarrow>
              if \<not> sees_scope layer_scope (al_focused l) (ui_scope target) then Inl ScopeNotVisible
              else if \<not> ui_active target then Inl OwnerInactive
              else
                and_then (ok_or (SurfaceNotRegistered (event_surface e)) (us_registered s (event_owner_instance e, event_surface e))) (\<lambda>r.
                and_then (ok_or (SurfaceNotMounted (event_surface e)) (map_of (us_mounted s) (event_owner_instance e, event_surface e))) (\<lambda>snapshot.
                and_then (check_event snapshot e) (\<lambda>_.
                Inr (os_owner r, e)))))"

definition queue_action :: "component_ref \<Rightarrow> ui_action_event \<Rightarrow> ui_state \<Rightarrow> ui_error + ui_state" where
  "queue_action layer_owner e s =
     and_then (route_action layer_owner e s) (\<lambda>_.
     if length (us_actions s) \<ge> MAX_QUEUED_ACTIONS then Inl ActionQueueFull
     else Inr (s\<lparr>us_actions := us_actions s @ [\<lparr>qa_layer = layer_owner, qa_event = e\<rparr>]\<rparr>))"

definition drain_queued_actions :: "ui_state \<Rightarrow> queued_action list \<times> ui_state" where
  "drain_queued_actions s = (us_actions s, s\<lparr>us_actions := []\<rparr>)"

section \<open>Histories\<close>

datatype ui_event =
    RegisterUi string string "owned_surface list" "(component_ref \<times> ui_layer_descriptor) list"
  | RegisterPresentation component_ref world_presentation
  | UnregisterUi string
  | SetActive string bool
  | Attach component_ref ui_layer_descriptor
  | AttachRegistered component_ref
  | Detach component_ref
  | RequestFocus component_ref world_id
  | DrainFocus
  | FocusFailed component_ref world_id string
  | FocusScope component_ref world_id string world_presentation
  | ClearFocus component_ref
  | ClearFocusForAll string
  | Mount component_ref ui_snapshot
  | Patch component_ref ui_patch_batch
  | Unmount component_ref string
  | QueueAction component_ref ui_action_event
  | DrainActions

definition ok_or_same :: "'e + 'a \<Rightarrow> 'a \<Rightarrow> 'a" where
  "ok_or_same r s = (case r of Inl _ \<Rightarrow> s | Inr s' \<Rightarrow> s')"

definition returned_or_same :: "('e + 'a) option \<Rightarrow> 'a \<Rightarrow> 'a" where
  "returned_or_same r s = (case r of None \<Rightarrow> s | Some x \<Rightarrow> ok_or_same x s)"

fun apply_ui_event :: "ui_event \<Rightarrow> ui_state \<Rightarrow> ui_state" where
  "apply_ui_event (RegisterUi i scope ss ls) s = ok_or_same (register_ui_instance i scope ss ls s) s"
| "apply_ui_event (RegisterPresentation owner d) s = ok_or_same (register_world_presentation owner d s) s"
| "apply_ui_event (UnregisterUi i) s = unregister_ui_instance i s"
| "apply_ui_event (SetActive i active) s = ok_or_same (set_instance_active i active s) s"
| "apply_ui_event (Attach owner d) s = ok_or_same (attach_layer owner d s) s"
| "apply_ui_event (AttachRegistered owner) s = ok_or_same (attach_registered_layer owner s) s"
| "apply_ui_event (Detach owner) s = ok_or_same (detach_layer owner s) s"
| "apply_ui_event (RequestFocus owner w) s = ok_or_same (queue_world_focus_request owner w s) s"
| "apply_ui_event DrainFocus s = snd (drain_world_focus_requests s)"
| "apply_ui_event (FocusFailed owner w diag) s = ok_or_same (record_world_focus_failure owner w diag s) s"
| "apply_ui_event (FocusScope owner w scope d) s = ok_or_same (set_focused_world_scope owner w scope d s) s"
| "apply_ui_event (ClearFocus owner) s = ok_or_same (clear_focused_world_scope owner s) s"
| "apply_ui_event (ClearFocusForAll scope) s = clear_focused_world_scope_for_all_layers scope s"
| "apply_ui_event (Mount owner snapshot) s = returned_or_same (mount_surface owner snapshot s) s"
| "apply_ui_event (Patch owner b) s = returned_or_same (apply_patches owner b s) s"
| "apply_ui_event (Unmount owner surface) s = ok_or_same (unmount_surface owner surface s) s"
| "apply_ui_event (QueueAction owner e) s = ok_or_same (queue_action owner e s) s"
| "apply_ui_event DrainActions s = snd (drain_queued_actions s)"

definition ui_history :: "ui_event list \<Rightarrow> ui_state" where
  "ui_history es = fold apply_ui_event es ui_state_new"

end
