(* ===== verification/Ui_Patches.thy ===== *)
theory Ui_Patches
  imports Ui_Tree Ui_Surfaces
begin

text \<open>
  Patches against their specification: a patch is an operation on the finite map from identifiers to nodes, and the order in
  which the hash map of the nodes iterates never shows in the result.
\<close>

section \<open>Patches on maps\<close>

definition spec_children :: "string \<Rightarrow> (string \<rightharpoonup> ui_node) \<Rightarrow> ui_error + string list" where
  "spec_children parent m =
     (case m parent of
        None \<Rightarrow> Inl (NodeNotFound parent)
      | Some n \<Rightarrow> (case container_children (node_kind n) of None \<Rightarrow> Inl (NodeNotContainer parent) | Some cs \<Rightarrow> Inr cs))"

definition spec_put_children :: "string \<Rightarrow> string list \<Rightarrow> (string \<rightharpoonup> ui_node) \<Rightarrow> (string \<rightharpoonup> ui_node)" where
  "spec_put_children parent cs m =
     m(parent := map_option (\<lambda>n. n\<lparr>node_kind := set_children cs (node_kind n)\<rparr>) (m parent))"

fun spec_patch :: "ui_patch \<Rightarrow> (string \<rightharpoonup> ui_node) \<Rightarrow> ui_error + (string \<rightharpoonup> ui_node)" where
  "spec_patch (UpsertNode n) m = Inr (m(node_id n \<mapsto> n))"
| "spec_patch (RemoveNode i) m = (if m i = None then Inl (NodeNotFound i) else Inr (m(i := None)))"
| "spec_patch (InsertChild parent index child) m =
     (if m child = None then Inl (NodeNotFound child)
      else and_then (spec_children parent m) (\<lambda>cs.
           map_ok (\<lambda>cs. spec_put_children parent cs m) (insert_child parent index child cs)))"
| "spec_patch (RemoveChild parent child) m =
     and_then (spec_children parent m) (\<lambda>cs. map_ok (\<lambda>cs. spec_put_children parent cs m) (remove_child parent child cs))"
| "spec_patch (MoveChild parent child index) m =
     and_then (spec_children parent m) (\<lambda>cs. and_then (remove_child parent child cs) (\<lambda>cs.
       map_ok (\<lambda>cs. spec_put_children parent cs m) (insert_child parent index child cs)))"

section \<open>Lists of nodes as maps\<close>

lemma find_node_append:
  "find_node (xs @ ys) i = (case find_node xs i of None \<Rightarrow> find_node ys i | Some n \<Rightarrow> Some n)"
  unfolding find_node_def by (induction xs) auto

lemma find_node_single: "find_node [n] i = (if node_id n = i then Some n else None)"
  by (simp add: find_node_def)

lemma find_node_map:
  assumes "\<And>n. node_id (f n) = node_id n"
  shows "find_node (map f nodes) i = map_option f (find_node nodes i)"
  unfolding find_node_def using assms by (induction nodes) auto

lemma put_node_map: "find_node (put_node n nodes) = (find_node nodes)(node_id n \<mapsto> n)"
proof (rule ext)
  fix i
  show "find_node (put_node n nodes) i = ((find_node nodes)(node_id n \<mapsto> n)) i"
  proof (cases "find_node nodes (node_id n) = None")
    case True
    then have "find_node (put_node n nodes) i = find_node (nodes @ [n]) i" by (simp add: put_node_def)
    also have "\<dots> = ((find_node nodes)(node_id n \<mapsto> n)) i"
      using True by (auto simp: find_node_append find_node_single split: option.split)
    finally show ?thesis .
  next
    case False
    have same: "node_id (if node_id m = node_id n then n else m) = node_id m" for m by simp
    have "put_node n nodes = map (\<lambda>m. if node_id m = node_id n then n else m) nodes"
      unfolding put_node_def using False by (rule if_not_P)
    then have "find_node (put_node n nodes) i = map_option (\<lambda>m. if node_id m = node_id n then n else m) (find_node nodes i)"
      by (simp only: find_node_map [OF same])
    then show ?thesis using False find_node_Some by (cases "find_node nodes i") fastforce+
  qed
qed

lemma put_children_map: "find_node (put_children parent cs nodes) = spec_put_children parent cs (find_node nodes)"
proof (rule ext)
  fix i
  have same: "node_id (if node_id m = parent then m\<lparr>node_kind := set_children cs (node_kind m)\<rparr> else m) = node_id m" for m
    by simp
  show "find_node (put_children parent cs nodes) i = spec_put_children parent cs (find_node nodes) i"
    unfolding put_children_def find_node_map [OF same] spec_put_children_def
    by (cases "find_node nodes i") (auto dest: find_node_Some)
qed

lemma remove_node_map: "find_node (filter (\<lambda>m. node_id m \<noteq> i) nodes) = (find_node nodes)(i := None)"
  unfolding find_node_def by (induction nodes) (auto simp: fun_eq_iff)

lemma children_of_map: "children_of parent nodes = spec_children parent (find_node nodes)"
  by (auto simp: children_of_def spec_children_def split: option.split)

lemma apply_patch_refines: "map_ok find_node (apply_patch p nodes) = spec_patch p (find_node nodes)"
  by (cases p)
    (auto simp: put_node_map put_children_map remove_node_map children_of_map and_then_def map_ok_def split: sum.splits)

section \<open>Identifiers stay distinct\<close>

lemma put_node_distinct: "distinct (map node_id nodes) \<Longrightarrow> distinct (map node_id (put_node n nodes))"
proof -
  have same: "map node_id (map (\<lambda>m. if node_id m = node_id n then n else m) nodes) = map node_id nodes" by auto
  assume "distinct (map node_id nodes)"
  then show ?thesis unfolding put_node_def using same find_node_None [of nodes "node_id n"]
    by (auto simp: node_ids_def simp del: map_map)
qed

lemma put_children_ids: "map node_id (put_children parent cs nodes) = map node_id nodes"
  by (auto simp: put_children_def)

lemma apply_patch_distinct:
  "apply_patch p nodes = Inr nodes' \<Longrightarrow> distinct (map node_id nodes) \<Longrightarrow> distinct (map node_id nodes')"
  by (cases p) (auto simp: result_simps put_node_distinct put_children_ids distinct_map_filter split: if_splits)

lemma fold_patches_refines:
  "map_ok find_node (fold_result apply_patch ps nodes) = fold_result spec_patch ps (find_node nodes)"
proof (induction ps arbitrary: nodes)
  case (Cons p ps)
  show ?case using Cons by (cases "apply_patch p nodes") (simp_all add: apply_patch_refines [symmetric])
qed simp

lemma fold_patches_distinct:
  "fold_result apply_patch ps nodes = Inr nodes' \<Longrightarrow> distinct (map node_id nodes) \<Longrightarrow> distinct (map node_id nodes')"
  by (induction ps arbitrary: nodes) (auto simp: result_simps dest: apply_patch_distinct)

section \<open>The list the patched map is written back as\<close>

lemma find_node_determines:
  assumes "distinct (map node_id xs)" "distinct (map node_id ys)" "find_node xs = find_node ys"
  shows "set xs = set ys"
  using assms find_node_unique find_node_Some by (metis subsetI subset_antisym)

lemma find_node_set:
  assumes "distinct (map node_id xs)" "distinct (map node_id ys)" "set xs = set ys"
  shows "find_node xs = find_node ys"
proof (rule ext)
  fix i
  show "find_node xs i = find_node ys i"
  proof (cases "find_node xs i")
    case None
    then have "i \<notin> node_ids ys" using assms(3) by (simp add: find_node_None node_ids_def)
    with None show ?thesis by (simp add: find_node_None [symmetric])
  next
    case (Some n)
    then have "n \<in> set ys" "node_id n = i" using assms(3) by (auto dest: find_node_Some)
    with Some find_node_unique [OF assms(2)] show ?thesis by auto
  qed
qed

lemma sorted_nodes_determined:
  assumes "distinct (map node_id xs)" "distinct (map node_id ys)" "find_node xs = find_node ys"
  shows "sort_key node_id xs = sort_key node_id ys"
proof -
  have set: "set xs = set ys" by (rule find_node_determines [OF assms])
  have ids: "map node_id (sort_key node_id xs) = map node_id (sort_key node_id ys)"
    using assms(1,2) set by (intro sorted_distinct_set_unique) (auto simp: distinct_map inj_on_def)
  have "inj_on node_id (set xs \<union> set ys)" using assms(1) set by (simp add: distinct_map)
  then show ?thesis using ids by (auto intro: map_inj_on)
qed

end
