(* ===== verification/Ui_Invariant.thy ===== *)
theory Ui_Invariant
  imports Ui_Patches
begin

text \<open>
  What holds of the UI runtime after any history of calls: who owns what is registered, that what is mounted is a tree, where
  layers are attached, and what the two queues hold.
\<close>

section \<open>Histories of calls\<close>

locale event_history =
  fixes step :: "'e \<Rightarrow> 's \<Rightarrow> 's" and init :: 's and inv :: "'s \<Rightarrow> bool"
  assumes inv_init: "inv init" and inv_step: "inv s \<Longrightarrow> inv (step e s)"
begin

lemma holds_from: "inv s \<Longrightarrow> inv (fold step es s)"
  by (induction es arbitrary: s) (simp_all add: inv_step)

lemma holds_always: "inv (fold step es init)"
  by (rule holds_from [OF inv_init])

end

text \<open>Histories whose every step satisfies a condition on the state it is taken in.\<close>

fun each_step :: "('e \<Rightarrow> 's \<Rightarrow> bool) \<Rightarrow> ('e \<Rightarrow> 's \<Rightarrow> 's) \<Rightarrow> 'e list \<Rightarrow> 's \<Rightarrow> bool" where
  "each_step allowed step [] s = True"
| "each_step allowed step (e # es) s = (allowed e s \<and> each_step allowed step es (step e s))"

locale guarded_history = event_history +
  fixes allowed :: "'a \<Rightarrow> 'b \<Rightarrow> bool" and promise :: "'b \<Rightarrow> bool"
  assumes promise_init: "promise init"
    and promise_step: "inv s \<Longrightarrow> promise s \<Longrightarrow> allowed e s \<Longrightarrow> promise (step e s)"
begin

lemma promise_from: "inv s \<Longrightarrow> promise s \<Longrightarrow> each_step allowed step es s \<Longrightarrow> promise (fold step es s)"
  by (induction es arbitrary: s) (simp_all add: inv_step promise_step)

lemma promise_history: "each_step allowed step es init \<Longrightarrow> promise (fold step es init)"
  by (rule promise_from [OF inv_init promise_init])

end

section \<open>The invariant\<close>

definition registrations_owned :: "ui_state \<Rightarrow> bool" where
  "registrations_owned s \<longleftrightarrow>
     (\<forall>i surface r. us_registered s (i, surface) = Some r \<longrightarrow>
        ref_instance (os_owner r) = i \<and> contribution_id (os_contribution r) = surface \<and>
        (\<exists>inst. us_instances s i = Some inst \<and> surface \<in> set (ui_surfaces inst)))"

definition declarations_owned :: "ui_state \<Rightarrow> bool" where
  "declarations_owned s \<longleftrightarrow>
     (\<forall>owner d. us_descriptors s owner = Some d \<longrightarrow> us_instances s (ref_instance owner) \<noteq> None) \<and>
     (\<forall>owner d. us_presentations s owner = Some d \<longrightarrow>
        (\<exists>r. us_registered s (ref_instance owner, presentation_entry d) = Some r \<and> os_owner r = owner))"

definition mounted_trees :: "ui_state \<Rightarrow> bool" where
  "mounted_trees s \<longleftrightarrow> distinct (map fst (us_mounted s)) \<and>
     (\<forall>key snapshot. map_of (us_mounted s) key = Some snapshot \<longrightarrow>
        us_registered s key \<noteq> None \<and> snap_surface snapshot = snd key \<and> ui_tree snapshot)"

definition instance_active :: "ui_state \<Rightarrow> string \<Rightarrow> bool" where
  "instance_active s i \<longleftrightarrow> (case us_instances s i of None \<Rightarrow> False | Some inst \<Rightarrow> ui_active inst)"

definition layers_attached :: "ui_state \<Rightarrow> bool" where
  "layers_attached s \<longleftrightarrow> distinct (map fst (us_layers s)) \<and>
     (\<forall>scope l. map_of (us_layers s) scope = Some l \<longrightarrow>
        (\<exists>inst. us_instances s (ref_instance (al_owner l)) = Some inst \<and> ui_scope inst = scope \<and> ui_active inst) \<and>
        layer_protocol (al_descriptor l) = PORTABLE_UI_PROTOCOL_MAJOR \<and>
        set (al_capabilities l) = set (layer_capabilities (al_descriptor l)))"

definition queues_bounded :: "ui_state \<Rightarrow> bool" where
  "queues_bounded s \<longleftrightarrow>
     length (us_actions s) \<le> MAX_QUEUED_ACTIONS \<and>
     (\<forall>q \<in> set (us_actions s). instance_active s (ref_instance (qa_layer q)) \<and> instance_active s (event_owner_instance (qa_event q))) \<and>
     length (us_focus s) \<le> MAX_QUEUED_WORLD_FOCUS_REQUESTS \<and>
     distinct (map qf_layer (us_focus s)) \<and>
     (\<forall>q \<in> set (us_focus s). \<exists>scope l. map_of (us_layers s) scope = Some l \<and> al_owner l = qf_layer q)"

definition ui_inv :: "ui_state \<Rightarrow> bool" where
  "ui_inv s \<longleftrightarrow>
     registrations_owned s \<and> declarations_owned s \<and> mounted_trees s \<and> layers_attached s \<and> queues_bounded s"

lemma ui_invI:
  "registrations_owned s \<Longrightarrow> declarations_owned s \<Longrightarrow> mounted_trees s \<Longrightarrow> layers_attached s \<Longrightarrow> queues_bounded s \<Longrightarrow> ui_inv s"
  by (simp add: ui_inv_def)

lemma ui_invD:
  assumes "ui_inv s"
  shows "registrations_owned s" "declarations_owned s" "mounted_trees s" "layers_attached s" "queues_bounded s"
  using assms by (simp_all add: ui_inv_def)

lemma ui_inv_new: "ui_inv ui_state_new"
  by (simp add: ui_inv_def registrations_owned_def declarations_owned_def mounted_trees_def layers_attached_def
      queues_bounded_def ui_state_new_def)

section \<open>What each part rests on\<close>

lemma registrations_owned_cong:
  "us_instances s' = us_instances s \<Longrightarrow> us_registered s' = us_registered s \<Longrightarrow> registrations_owned s' = registrations_owned s"
  unfolding registrations_owned_def by (elim ssubst) (rule refl)

lemma declarations_owned_cong:
  "us_instances s' = us_instances s \<Longrightarrow> us_registered s' = us_registered s \<Longrightarrow> us_descriptors s' = us_descriptors s \<Longrightarrow>
    us_presentations s' = us_presentations s \<Longrightarrow> declarations_owned s' = declarations_owned s"
  unfolding declarations_owned_def by (elim ssubst) (rule refl)

lemma mounted_trees_cong:
  "us_registered s' = us_registered s \<Longrightarrow> us_mounted s' = us_mounted s \<Longrightarrow> mounted_trees s' = mounted_trees s"
  unfolding mounted_trees_def by (elim ssubst) (rule refl)

lemma layers_attached_cong:
  "us_instances s' = us_instances s \<Longrightarrow> us_layers s' = us_layers s \<Longrightarrow> layers_attached s' = layers_attached s"
  unfolding layers_attached_def by (elim ssubst) (rule refl)

lemma queues_bounded_cong:
  "us_instances s' = us_instances s \<Longrightarrow> us_layers s' = us_layers s \<Longrightarrow> us_actions s' = us_actions s \<Longrightarrow>
    us_focus s' = us_focus s \<Longrightarrow> queues_bounded s' = queues_bounded s"
  unfolding queues_bounded_def instance_active_def by (elim ssubst) (rule refl)

lemmas ui_cong = registrations_owned_cong declarations_owned_cong mounted_trees_cong layers_attached_cong queues_bounded_cong

text \<open>A change of the presentation state of one layer keeps everything.\<close>

definition same_layer :: "active_layer \<Rightarrow> active_layer \<Rightarrow> bool" where
  "same_layer l l' \<longleftrightarrow> al_owner l' = al_owner l \<and> al_descriptor l' = al_descriptor l \<and> al_capabilities l' = al_capabilities l"

lemma find_layer_Some:
  assumes "find_layer owner s = Some (scope, l)" "layers_attached s"
  shows "map_of (us_layers s) scope = Some l" "al_owner l = owner"
proof -
  have "(scope, l) \<in> set (us_layers s) \<and> al_owner (snd (scope, l)) = owner"
    using assms(1) unfolding find_layer_def by (rule find_Some_set)
  then show "map_of (us_layers s) scope = Some l" "al_owner l = owner"
    using assms(2) by (auto simp: layers_attached_def)
qed

lemma inv_change_layer:
  assumes inv: "ui_inv s" and l: "map_of (us_layers s) scope = Some l" and same: "same_layer l l'"
  shows "ui_inv (s\<lparr>us_layers := AList.update scope l' (us_layers s)\<rparr>)"
proof (rule ui_invI)
  let ?s = "s\<lparr>us_layers := AList.update scope l' (us_layers s)\<rparr>"
  have "\<forall>q \<in> set (us_focus s). \<exists>scope l. map_of (us_layers ?s) scope = Some l \<and> al_owner l = qf_layer q"
  proof
    fix q assume "q \<in> set (us_focus s)"
    then obtain k m where "map_of (us_layers s) k = Some m" "al_owner m = qf_layer q"
      using ui_invD(5) [OF inv] by (auto simp: queues_bounded_def)
    then show "\<exists>scope l. map_of (us_layers ?s) scope = Some l \<and> al_owner l = qf_layer q"
      using l same by (cases "k = scope") (auto simp: update_conv' same_layer_def)
  qed
  then show "queues_bounded ?s" using ui_invD(5) [OF inv] by (simp add: queues_bounded_def instance_active_def)
  show "layers_attached ?s"
    using ui_invD(4) [OF inv] l same
    by (auto simp: layers_attached_def update_conv' same_layer_def distinct_update split: if_splits)
qed (use ui_invD [OF inv] in \<open>simp_all cong: ui_cong\<close>)

end
