(* ===== verification/Ui_Preserve.thy ===== *)
theory Ui_Preserve
  imports Ui_Invariant
begin

text \<open>Every operation of the UI runtime keeps the invariant.\<close>

section \<open>Registration\<close>

lemma check_surfaces_ok:
  "check_surfaces i seen ss = Inr ids \<Longrightarrow>
    ids = seen @ map (\<lambda>o'. contribution_id (os_contribution o')) ss \<and> (\<forall>o' \<in> set ss. ref_instance (os_owner o') = i)"
  by (induction ss arbitrary: seen) (fastforce split: if_splits)+

lemma check_layers_ok: "check_layers i seen ls = Inr u \<Longrightarrow> \<forall>l \<in> set ls. ref_instance (fst l) = i"
  by (induction ls arbitrary: seen) (auto split: if_splits)

definition add_surfaces :: "string \<Rightarrow> owned_surface list \<Rightarrow> (string \<times> string \<rightharpoonup> owned_surface) \<Rightarrow> (string \<times> string \<rightharpoonup> owned_surface)" where
  "add_surfaces i ss m = fold (\<lambda>o' m. m((i, contribution_id (os_contribution o')) \<mapsto> o')) ss m"

lemma add_surfaces_Some:
  "add_surfaces i ss m k = Some r \<Longrightarrow> r \<in> set ss \<and> k = (i, contribution_id (os_contribution r)) \<or> m k = Some r"
  unfolding add_surfaces_def by (induction ss arbitrary: m) (fastforce split: if_splits)+

lemma add_surfaces_other: "fst k \<noteq> i \<Longrightarrow> add_surfaces i ss m k = m k"
  unfolding add_surfaces_def by (induction ss arbitrary: m) auto

lemma add_layers_Some:
  "fold (\<lambda>l m. m(fst l \<mapsto> snd l)) ls m owner = Some d \<Longrightarrow> owner \<in> fst ` set ls \<or> m owner = Some d"
  by (induction ls arbitrary: m) (fastforce split: if_splits)+

lemma register_ui_instance_ok:
  assumes "register_ui_instance i scope ss ls s = Inr s'"
  shows "us_instances s i = None"
    and "s' = s\<lparr>us_registered := add_surfaces i ss (us_registered s),
      us_descriptors := fold (\<lambda>l m. m(fst l \<mapsto> snd l)) ls (us_descriptors s),
      us_instances := (us_instances s)(i \<mapsto> \<lparr>ui_scope = scope, ui_active = False,
        ui_surfaces = map (\<lambda>o'. contribution_id (os_contribution o')) ss\<rparr>)\<rparr>"
    and "\<forall>o' \<in> set ss. ref_instance (os_owner o') = i" and "\<forall>l \<in> set ls. ref_instance (fst l) = i"
  using assms check_surfaces_ok [of i "[]" ss] check_layers_ok [of i "[]" ls]
  by (auto simp: register_ui_instance_def add_surfaces_def result_simps split: if_splits)

lemma unregistered_surface: "registrations_owned s \<Longrightarrow> us_instances s i = None \<Longrightarrow> us_registered s (i, surface) = None"
  unfolding registrations_owned_def by (cases "us_registered s (i, surface)") fastforce+

lemma inv_register:
  assumes inv: "ui_inv s" and ok: "register_ui_instance i scope ss ls s = Inr s'"
  shows "ui_inv s'"
proof -
  note ok = register_ui_instance_ok [OF ok]
  have registered: "us_registered s' k = us_registered s k" if "us_registered s k \<noteq> None" for k
  proof -
    have "fst k \<noteq> i" using unregistered_surface [OF ui_invD(1) [OF inv] ok(1), of "snd k"] that by (cases k) auto
    then show ?thesis using ok(2) by (simp add: add_surfaces_other)
  qed
  have instances: "us_instances s' j = us_instances s j" if "us_instances s j \<noteq> None" for j
    using that ok(1,2) by auto
  have active: "instance_active s' j" if "instance_active s j" for j
    using that instances [of j] by (auto simp: instance_active_def split: option.splits)
  have rest: "us_mounted s' = us_mounted s" "us_layers s' = us_layers s" "us_actions s' = us_actions s"
    "us_focus s' = us_focus s" "us_presentations s' = us_presentations s"
    using ok(2) by simp_all
  show ?thesis
  proof (rule ui_invI)
    show "registrations_owned s'"
      unfolding registrations_owned_def
    proof (intro allI impI)
      fix j surface r assume "us_registered s' (j, surface) = Some r"
      then consider "r \<in> set ss" "j = i" "surface = contribution_id (os_contribution r)"
        | "us_registered s (j, surface) = Some r"
        using add_surfaces_Some ok(2) by fastforce
      then show "ref_instance (os_owner r) = j \<and> contribution_id (os_contribution r) = surface \<and>
          (\<exists>inst. us_instances s' j = Some inst \<and> surface \<in> set (ui_surfaces inst))"
        by cases (use ok ui_invD(1) [OF inv] instances in \<open>fastforce simp: registrations_owned_def\<close>)+
    qed
    show "declarations_owned s'"
      using ui_invD(2) [OF inv] registered ok(2,4) rest(5)
      by (fastforce simp: declarations_owned_def dest!: add_layers_Some)
    show "mounted_trees s'" using ui_invD(3) [OF inv] registered rest(1) by (fastforce simp: mounted_trees_def)
    show "layers_attached s'" using ui_invD(4) [OF inv] instances rest(2) unfolding layers_attached_def by fastforce
    show "queues_bounded s'" using ui_invD(5) [OF inv] active rest(2-4) by (simp add: queues_bounded_def)
  qed
qed

lemma inv_register_presentation:
  assumes "ui_inv s" "register_world_presentation owner d s = Inr s'"
  shows "ui_inv s'"
proof -
  obtain r where r: "us_registered s (ref_instance owner, presentation_entry d) = Some r" "os_owner r = owner"
    "s' = s\<lparr>us_presentations := (us_presentations s)(owner \<mapsto> d)\<rparr>"
    using assms(2) by (auto simp: register_world_presentation_def split: if_splits option.splits)
  have "declarations_owned s'" using ui_invD(2) [OF assms(1)] r by (auto simp: declarations_owned_def)
  with ui_invD [OF assms(1)] r(3) show ?thesis by (auto intro!: ui_invI simp: ui_inv_def cong: ui_cong)
qed

section \<open>Removal and deactivation\<close>

lemma map_of_filter_Some:
  "distinct (map fst xs) \<Longrightarrow> map_of (filter P xs) k = Some v \<longleftrightarrow> map_of xs k = Some v \<and> P (k, v)"
  by (simp add: distinct_map_filter map_of_eq_Some_iff)

lemma withdrawn_mounted:
  assumes "ui_inv s" "us_instances s i = Some inst"
  shows "map_of (us_mounted (withdraw_instance i inst s)) key = Some snapshot \<longleftrightarrow>
    map_of (us_mounted s) key = Some snapshot \<and> fst key \<noteq> i"
proof -
  have "snd key \<in> set (ui_surfaces inst)" if "map_of (us_mounted s) key = Some snapshot" "fst key = i"
    using that assms ui_invD(1,3) [OF assms(1)] unfolding registrations_owned_def mounted_trees_def
    by (cases key) fastforce
  then show ?thesis
    using ui_invD(3) [OF assms(1)] by (auto simp: withdraw_instance_def mounted_trees_def map_of_filter_Some)
qed

lemma withdrawn_layers:
  assumes "ui_inv s" "us_instances s i = Some inst"
  shows "map_of (us_layers (withdraw_instance i inst s)) scope = Some l \<longleftrightarrow>
    map_of (us_layers s) scope = Some l \<and> ref_instance (al_owner l) \<noteq> i"
proof -
  have "scope = ui_scope inst" if "map_of (us_layers s) scope = Some l" "ref_instance (al_owner l) = i"
    using that assms(2) ui_invD(4) [OF assms(1)] unfolding layers_attached_def by fastforce
  then show ?thesis by (auto simp: withdraw_instance_def delete_conv' split: option.splits)
qed

lemma withdrawn_distinct:
  assumes "ui_inv s"
  shows "distinct (map fst (us_mounted (withdraw_instance i inst s)))" "distinct (map fst (us_layers (withdraw_instance i inst s)))"
  using ui_invD(3,4) [OF assms]
  by (auto simp: withdraw_instance_def mounted_trees_def layers_attached_def distinct_map_filter distinct_delete split: option.split)

text \<open>The state after a withdrawal, when the entries of every other instance are as they were.\<close>

lemma inv_withdrawn:
  assumes inv: "ui_inv s" and i: "us_instances s i = Some inst"
    and instances: "\<And>j. j \<noteq> i \<Longrightarrow> us_instances s' j = us_instances s j"
    and withdrawn: "us_mounted s' = us_mounted (withdraw_instance i inst s)" "us_layers s' = us_layers (withdraw_instance i inst s)"
      "us_actions s' = us_actions (withdraw_instance i inst s)" "us_focus s' = us_focus (withdraw_instance i inst s)"
    and registered: "\<And>key. fst key \<noteq> i \<Longrightarrow> us_registered s' key = us_registered s key"
  shows "mounted_trees s'" "layers_attached s'" "queues_bounded s'"
proof -
  show "mounted_trees s'"
    using ui_invD(3) [OF inv] withdrawn_distinct(1) [OF inv] registered withdrawn(1)
    by (auto simp: mounted_trees_def withdrawn_mounted [OF inv i])
  show "layers_attached s'"
    using ui_invD(4) [OF inv] withdrawn_distinct(2) [OF inv] instances withdrawn(2)
    by (auto simp: layers_attached_def withdrawn_layers [OF inv i])
  have active: "instance_active s' j = instance_active s j" if "j \<noteq> i" for j
    using instances [OF that] by (simp add: instance_active_def)
  have actions: "us_actions s' = filter (\<lambda>q. ref_instance (qa_layer q) \<noteq> i \<and> event_owner_instance (qa_event q) \<noteq> i) (us_actions s)"
    and focus: "us_focus s' = filter (\<lambda>q. ref_instance (qf_layer q) \<noteq> i) (us_focus s)"
    using withdrawn(3,4) by (simp_all add: withdraw_instance_def)
  have layers: "\<exists>scope l. map_of (us_layers s') scope = Some l \<and> al_owner l = qf_layer q" if "q \<in> set (us_focus s')" for q
    using that ui_invD(5) [OF inv] withdrawn(2) unfolding focus
    by (fastforce simp: queues_bounded_def withdrawn_layers [OF inv i])
  have lengths: "length (us_actions s') \<le> length (us_actions s)" "length (us_focus s') \<le> length (us_focus s)"
    unfolding actions focus by (rule length_filter_le)+
  have old: "length (us_actions s) \<le> MAX_QUEUED_ACTIONS" "length (us_focus s) \<le> MAX_QUEUED_WORLD_FOCUS_REQUESTS"
    "distinct (map qf_layer (us_focus s))"
    "\<forall>q \<in> set (us_actions s). instance_active s (ref_instance (qa_layer q)) \<and> instance_active s (event_owner_instance (qa_event q))"
    using ui_invD(5) [OF inv] by (simp_all add: queues_bounded_def)
  have "\<forall>q \<in> set (us_actions s'). instance_active s' (ref_instance (qa_layer q)) \<and> instance_active s' (event_owner_instance (qa_event q))"
    using old(4) active by (auto simp: actions)
  moreover have "distinct (map qf_layer (us_focus s'))" using old(3) by (simp add: focus distinct_map_filter)
  ultimately show "queues_bounded s'" using old(1,2) layers lengths by (simp add: queues_bounded_def)
qed

lemma inv_set_active:
  assumes inv: "ui_inv s" and ok: "set_instance_active i active s = Inr s'"
  shows "ui_inv s'"
proof -
  obtain inst where i: "us_instances s i = Some inst"
    using ok by (auto simp: set_instance_active_def split: option.splits)
  define t where "t = s\<lparr>us_instances := (us_instances s)(i \<mapsto> inst\<lparr>ui_active := active\<rparr>)\<rparr>"
  have s': "s' = (if active then t else withdraw_instance i inst t)"
    using ok i by (cases active) (simp_all add: set_instance_active_def t_def Let_def)
  have frame: "us_registered s' = us_registered s" "us_descriptors s' = us_descriptors s" "us_presentations s' = us_presentations s"
    "us_instances s' = (us_instances s)(i \<mapsto> inst\<lparr>ui_active := active\<rparr>)"
    by (auto simp: s' t_def withdraw_instance_def)
  have reg: "registrations_owned s'" using ui_invD(1) [OF inv] i frame unfolding registrations_owned_def by fastforce
  have decl: "declarations_owned s'" using ui_invD(2) [OF inv] frame by (auto simp: declarations_owned_def)
  show ?thesis
  proof (cases active)
    case True
    then have same: "us_mounted s' = us_mounted s" "us_layers s' = us_layers s" "us_actions s' = us_actions s" "us_focus s' = us_focus s"
      by (simp_all add: s' t_def)
    have active: "instance_active s' j" if "instance_active s j" for j
      using that True frame(4) i by (auto simp: instance_active_def split: option.splits)
    have "layers_attached s'" using ui_invD(4) [OF inv] i True frame(4) same(2) unfolding layers_attached_def by fastforce
    moreover have "mounted_trees s'" using ui_invD(3) [OF inv] frame(1) same(1) by (simp add: mounted_trees_def)
    moreover have "queues_bounded s'" using ui_invD(5) [OF inv] active same by (simp add: queues_bounded_def)
    ultimately show ?thesis using reg decl by (auto intro: ui_invI)
  next
    case False
    have "us_mounted s' = us_mounted (withdraw_instance i inst s)" "us_layers s' = us_layers (withdraw_instance i inst s)"
      "us_actions s' = us_actions (withdraw_instance i inst s)" "us_focus s' = us_focus (withdraw_instance i inst s)"
      using False by (simp_all add: s' t_def withdraw_instance_def split: option.split)
    from inv_withdrawn [OF inv i _ this] reg decl frame show ?thesis by (auto intro: ui_invI)
  qed
qed

lemma inv_unregister:
  assumes inv: "ui_inv s"
  shows "ui_inv (unregister_ui_instance i s)"
proof (cases "us_instances s i")
  case None
  then show ?thesis using inv by (simp add: unregister_ui_instance_def)
next
  case (Some inst)
  define s' where "s' = unregister_ui_instance i s"
  have frame: "us_instances s' = (us_instances s)(i := None)"
    "us_registered s' = (\<lambda>k. if fst k = i \<and> snd k \<in> set (ui_surfaces inst) then None else us_registered s k)"
    "us_descriptors s' = (\<lambda>o'. if ref_instance o' = i then None else us_descriptors s o')"
    "us_presentations s' = (\<lambda>o'. if ref_instance o' = i then None else us_presentations s o')"
    using Some by (simp_all add: s'_def unregister_ui_instance_def)
  have kept: "us_registered s' (j, surface) = (if j = i then None else us_registered s (j, surface))" for j surface
    using ui_invD(1) [OF inv] Some frame(2)
    by (cases "us_registered s (j, surface)") (fastforce simp: registrations_owned_def)+
  have "us_mounted s' = us_mounted (withdraw_instance i inst s)" "us_layers s' = us_layers (withdraw_instance i inst s)"
    "us_actions s' = us_actions (withdraw_instance i inst s)" "us_focus s' = us_focus (withdraw_instance i inst s)"
    using Some by (simp_all add: s'_def unregister_ui_instance_def)
  note rest = inv_withdrawn [OF inv Some _ this]
  have "registrations_owned s'" using ui_invD(1) [OF inv] frame(1) kept by (auto simp: registrations_owned_def split: if_splits)
  moreover have "declarations_owned s'" using ui_invD(2) [OF inv] frame(1,3,4) kept by (auto simp: declarations_owned_def)
  moreover have "mounted_trees s'" "layers_attached s'" "queues_bounded s'" using rest frame by auto
  ultimately show ?thesis unfolding s'_def by (rule ui_invI)
qed

section \<open>Layers and focus\<close>

definition attached_layer :: "component_ref \<Rightarrow> ui_layer_descriptor \<Rightarrow> active_layer option \<Rightarrow> active_layer" where
  "attached_layer owner d old =
     \<lparr>al_owner = owner, al_descriptor = d, al_capabilities = remdups (layer_capabilities d),
      al_focused = (case old of None \<Rightarrow> None | Some l \<Rightarrow> al_focused l),
      al_pending = (case old of None \<Rightarrow> None | Some l \<Rightarrow> al_pending l),
      al_error = (case old of None \<Rightarrow> None | Some l \<Rightarrow> al_error l)\<rparr>"

lemma attach_layer_ok:
  assumes "attach_layer owner d s = Inr s'"
  obtains inst where "us_instances s (ref_instance owner) = Some inst" "ui_active inst"
    "layer_protocol d = PORTABLE_UI_PROTOCOL_MAJOR"
    "\<And>l. map_of (us_layers s) (ui_scope inst) = Some l \<Longrightarrow> al_owner l = owner"
    "check_mounted (remdups (layer_capabilities d))
       (sees_scope (ui_scope inst) (al_focused (attached_layer owner d (map_of (us_layers s) (ui_scope inst))))) s = Inr ()"
    "s' = s\<lparr>us_layers := AList.update (ui_scope inst)
       (attached_layer owner d (map_of (us_layers s) (ui_scope inst))) (us_layers s)\<rparr>"
  using assms
  by (auto simp: attach_layer_def attached_layer_def Let_def result_simps split: option.splits if_splits)

lemma inv_attach:
  assumes inv: "ui_inv s" and ok: "attach_layer owner d s = Inr s'"
  shows "ui_inv s'"
proof -
  obtain inst where i: "us_instances s (ref_instance owner) = Some inst" "ui_active inst"
    and protocol: "layer_protocol d = PORTABLE_UI_PROTOCOL_MAJOR"
    and free: "\<And>l. map_of (us_layers s) (ui_scope inst) = Some l \<Longrightarrow> al_owner l = owner"
    and s': "s' = s\<lparr>us_layers := AList.update (ui_scope inst)
       (attached_layer owner d (map_of (us_layers s) (ui_scope inst))) (us_layers s)\<rparr>"
    using ok by (rule attach_layer_ok) blast
  have l': "al_owner (attached_layer owner d old) = owner" "al_descriptor (attached_layer owner d old) = d"
    "set (al_capabilities (attached_layer owner d old)) = set (layer_capabilities d)" for old
    by (simp_all add: attached_layer_def)
  have "layers_attached s'"
    using ui_invD(4) [OF inv] i l' protocol by (auto simp: layers_attached_def s' update_conv' distinct_update split: if_splits)
  moreover have "queues_bounded s'"
  proof -
    have "\<exists>scope l. map_of (us_layers s') scope = Some l \<and> al_owner l = qf_layer q" if q: "q \<in> set (us_focus s)" for q
    proof -
      obtain k m where "map_of (us_layers s) k = Some m" "al_owner m = qf_layer q"
        using q ui_invD(5) [OF inv] by (auto simp: queues_bounded_def)
      then show ?thesis using free l'(1) by (cases "k = ui_scope inst") (auto simp: s' update_conv')
    qed
    then show ?thesis using ui_invD(5) [OF inv] by (simp add: queues_bounded_def instance_active_def s')
  qed
  moreover have "registrations_owned s'" "declarations_owned s'" "mounted_trees s'"
    using ui_invD(1-3) [OF inv] by (simp_all add: s' cong: ui_cong)
  ultimately show ?thesis by (intro ui_invI)
qed

lemma inv_focus:
  assumes inv: "ui_inv s" and f: "length f \<le> MAX_QUEUED_WORLD_FOCUS_REQUESTS" "distinct (map qf_layer f)"
    "\<And>q. q \<in> set f \<Longrightarrow> \<exists>scope l. map_of (us_layers s) scope = Some l \<and> al_owner l = qf_layer q"
  shows "ui_inv (s\<lparr>us_focus := f\<rparr>)"
proof -
  have "queues_bounded (s\<lparr>us_focus := f\<rparr>)"
    using ui_invD(5) [OF inv] f by (simp add: queues_bounded_def instance_active_def)
  then show ?thesis using ui_invD [OF inv] by (auto intro!: ui_invI cong: ui_cong)
qed

lemma inv_filter_focus: "ui_inv s \<Longrightarrow> ui_inv (s\<lparr>us_focus := filter P (us_focus s)\<rparr>)"
  using ui_invD(5) [of s]
  by (intro inv_focus) (auto simp: queues_bounded_def distinct_map_filter intro: le_trans [OF length_filter_le])

lemma detach_layer_ok:
  assumes ok: "detach_layer owner s = Inr s'"
  obtains (unattached) "s' = s\<lparr>us_focus := filter (\<lambda>q. qf_layer q \<noteq> owner) (us_focus s)\<rparr>"
    | (attached) scope l where "map_of (us_layers s) scope = Some l" "al_owner l = owner"
      "s' = s\<lparr>us_layers := AList.delete scope (us_layers s), us_focus := filter (\<lambda>q. qf_layer q \<noteq> owner) (us_focus s)\<rparr>"
proof (cases "us_instances s (ref_instance owner)")
  case (Some inst)
  show thesis
  proof (cases "map_of (us_layers s) (ui_scope inst)")
    case None
    with Some ok show thesis by (intro unattached) (simp add: detach_layer_def)
  next
    case (Some l)
    with \<open>us_instances s (ref_instance owner) = Some inst\<close> ok show thesis
      by (intro attached [of "ui_scope inst" l]) (simp_all add: detach_layer_def split: if_split_asm)
  qed
qed (use ok in \<open>simp add: detach_layer_def\<close>)

lemma inv_detach:
  assumes inv: "ui_inv s" and ok: "detach_layer owner s = Inr s'"
  shows "ui_inv s'"
proof -
  define t where "t = s\<lparr>us_focus := filter (\<lambda>q. qf_layer q \<noteq> owner) (us_focus s)\<rparr>"
  have t: "ui_inv t" unfolding t_def by (rule inv_filter_focus [OF inv])
  from ok show ?thesis
  proof (cases rule: detach_layer_ok)
    case (attached scope l)
    note l = attached(1,2) and s' = attached(3)
    have frame: "us_layers t = us_layers s" "us_instances s' = us_instances t" "us_registered s' = us_registered t"
      "us_descriptors s' = us_descriptors t" "us_presentations s' = us_presentations t" "us_mounted s' = us_mounted t"
      "us_actions s' = us_actions t" "us_focus s' = us_focus t" "us_layers s' = AList.delete (scope) (us_layers s)"
      by (simp_all add: s' t_def)
    have "layers_attached s'"
      using ui_invD(4) [OF t] unfolding layers_attached_def frame by (auto simp: delete_conv' distinct_delete split: if_splits)
    moreover have "queues_bounded s'"
    proof -
      have "\<exists>scope l. map_of (us_layers s') scope = Some l \<and> al_owner l = qf_layer q" if q: "q \<in> set (us_focus t)" for q
      proof -
        obtain k m where "map_of (us_layers s) k = Some m" "al_owner m = qf_layer q" "qf_layer q \<noteq> owner"
          using q ui_invD(5) [OF t] by (auto simp: queues_bounded_def t_def)
        then show ?thesis using l by (intro exI [of _ k] exI [of _ m]) (auto simp: frame delete_conv')
      qed
      then show ?thesis using ui_invD(5) [OF t] by (simp add: queues_bounded_def instance_active_def frame)
    qed
    ultimately show ?thesis using ui_invD [OF t] by (auto intro!: ui_invI simp: frame cong: ui_cong)
  qed (use t in \<open>simp add: t_def\<close>)
qed

lemma update_first_map: "(\<And>x. g (f x) = g x) \<Longrightarrow> map g (update_first P f xs) = map g xs"
  by (induction xs) auto

lemma inv_queue_focus:
  assumes inv: "ui_inv s" and ok: "queue_world_focus_request owner w s = Inr s'"
  shows "ui_inv s'"
proof -
  obtain scope l where "find_layer owner s = Some (scope, l)"
    using ok by (auto simp: queue_world_focus_request_def split: option.splits)
  note l = this find_layer_Some [OF this ui_invD(4) [OF inv]]
  define queued where "queued \<longleftrightarrow> find (\<lambda>q. qf_layer q = owner) (us_focus s) \<noteq> None"
  define f where "f = (if queued then update_first (\<lambda>q. qf_layer q = owner) (\<lambda>q. q\<lparr>qf_world := w\<rparr>) (us_focus s)
    else us_focus s @ [\<lparr>qf_layer = owner, qf_world = w\<rparr>])"
  have room: "queued \<or> length (us_focus s) < MAX_QUEUED_WORLD_FOCUS_REQUESTS"
    and s': "s' = s\<lparr>us_focus := f, us_layers := AList.update scope (l\<lparr>al_pending := Some w, al_error := None\<rparr>) (us_layers s)\<rparr>"
    using ok l(1) unfolding queue_world_focus_request_def Let_def queued_def [symmetric] f_def
    by (auto split: if_splits)
  have ids: "map qf_layer f = (if queued then map qf_layer (us_focus s) else map qf_layer (us_focus s) @ [owner])"
    by (simp add: f_def update_first_map)
  have new: "queued \<or> owner \<notin> qf_layer ` set (us_focus s)"
    by (auto simp: queued_def find_None_iff)
  have old: "distinct (map qf_layer (us_focus s))" "length (us_focus s) \<le> MAX_QUEUED_WORLD_FOCUS_REQUESTS"
    "\<forall>q \<in> set (us_focus s). \<exists>scope l. map_of (us_layers s) scope = Some l \<and> al_owner l = qf_layer q"
    using ui_invD(5) [OF inv] by (simp_all add: queues_bounded_def)
  have "ui_inv (s\<lparr>us_focus := f\<rparr>)"
  proof (rule inv_focus [OF inv])
    show "length f \<le> MAX_QUEUED_WORLD_FOCUS_REQUESTS"
      using arg_cong [OF ids, of length] room old(2) by (auto split: if_splits)
    show "distinct (map qf_layer f)" unfolding ids using old(1) new by auto
    fix q assume "q \<in> set f"
    then have "qf_layer q \<in> set (map qf_layer f)" by simp
    then consider "qf_layer q \<in> set (map qf_layer (us_focus s))" | "qf_layer q = owner"
      unfolding ids by (auto split: if_splits)
    then show "\<exists>scope l. map_of (us_layers s) scope = Some l \<and> al_owner l = qf_layer q"
      by cases (use old(3) l(2,3) in auto)
  qed
  from inv_change_layer [OF this, of scope l] l(2) show ?thesis by (simp add: s' same_layer_def)
qed

lemma inv_focus_failure:
  assumes inv: "ui_inv s" and ok: "record_world_focus_failure owner w diag s = Inr s'"
  shows "ui_inv s'"
proof (cases "s' = s")
  case False
  then obtain scope l where l: "find_layer owner s = Some (scope, l)"
    "s' = s\<lparr>us_layers := AList.update scope
       (l\<lparr>al_pending := None, al_error := Some (bounded_world_focus_diagnostic diag)\<rparr>) (us_layers s)\<rparr>"
    using ok by (auto simp: record_world_focus_failure_def split: option.splits if_splits)
  from inv_change_layer [OF inv find_layer_Some(1) [OF l(1) ui_invD(4) [OF inv]]]
  show ?thesis unfolding l(2) by (simp add: same_layer_def)
qed (use inv in simp)

definition focused_layer :: "world_id \<Rightarrow> string \<Rightarrow> world_presentation \<Rightarrow> active_layer \<Rightarrow> active_layer" where
  "focused_layer w scope d l =
     l\<lparr>al_focused := Some \<lparr>fp_scope = scope, fp_world = w, fp_descriptor = d\<rparr>,
       al_pending := (if al_pending l = Some w then None else al_pending l), al_error := None\<rparr>"

lemma set_focus_ok:
  assumes "set_focused_world_scope owner w scope d s = Inr s'"
  obtains k l where "find_layer owner s = Some (k, l)" "k \<noteq> scope" "check_mounted (al_capabilities l) (\<lambda>x. x = scope) s = Inr ()"
    "s' = s\<lparr>us_layers := AList.update k (focused_layer w scope d l) (us_layers s)\<rparr>"
proof (cases "find_layer owner s")
  case (Some e)
  obtain k l where e: "e = (k, l)" by (cases e)
  show thesis
    by (rule that [of k l])
      (use assms Some in \<open>unfold e set_focused_world_scope_def focused_layer_def, simp_all add: result_simps split: if_split_asm\<close>)
qed (use assms in \<open>simp add: set_focused_world_scope_def\<close>)

lemma inv_set_focus:
  assumes inv: "ui_inv s" and ok: "set_focused_world_scope owner w scope d s = Inr s'"
  shows "ui_inv s'"
proof -
  obtain k l where l: "find_layer owner s = Some (k, l)"
    "s' = s\<lparr>us_layers := AList.update k (focused_layer w scope d l) (us_layers s)\<rparr>"
    using ok by (rule set_focus_ok) blast
  from inv_change_layer [OF inv find_layer_Some(1) [OF l(1) ui_invD(4) [OF inv]]]
  show ?thesis unfolding l(2) by (simp add: same_layer_def focused_layer_def)
qed

lemma inv_clear_focus:
  assumes inv: "ui_inv s" and ok: "clear_focused_world_scope owner s = Inr s'"
  shows "ui_inv s'"
proof -
  obtain k l where l: "find_layer owner s = Some (k, l)"
    "s' = s\<lparr>us_layers := AList.update k (l\<lparr>al_focused := None, al_pending := None, al_error := None\<rparr>) (us_layers s),
       us_focus := filter (\<lambda>q. qf_layer q \<noteq> owner) (us_focus s)\<rparr>"
    using ok by (auto simp: clear_focused_world_scope_def split: option.splits)
  from inv_change_layer [OF inv find_layer_Some(1) [OF l(1) ui_invD(4) [OF inv]],
      of "l\<lparr>al_focused := None, al_pending := None, al_error := None\<rparr>"]
  show ?thesis unfolding l(2) by (auto simp: same_layer_def dest: inv_filter_focus [where P = "\<lambda>q. qf_layer q \<noteq> owner"])
qed

lemma inv_clear_focus_all:
  assumes inv: "ui_inv s"
  shows "ui_inv (clear_focused_world_scope_for_all_layers scope s)"
proof -
  define g :: "active_layer \<Rightarrow> active_layer" where "g l = (case al_focused l of None \<Rightarrow> l | Some f \<Rightarrow> if fp_scope f = scope then l\<lparr>al_focused := None\<rparr> else l)" for l
  have same: "al_owner (g l) = al_owner l" "al_descriptor (g l) = al_descriptor l" "al_capabilities (g l) = al_capabilities l" for l
    by (auto simp: g_def split: option.split)
  define s' where "s' = clear_focused_world_scope_for_all_layers scope s"
  have layers: "us_layers s' = map (\<lambda>(k, l). (k, g l)) (us_layers s)"
    by (simp add: s'_def clear_focused_world_scope_for_all_layers_def g_def)
  then have lookup: "map_of (us_layers s') k = map_option g (map_of (us_layers s) k)" for k by (simp add: map_of_map)
  have keys: "map fst (us_layers s') = map fst (us_layers s)" by (auto simp: layers)
  have rest: "us_instances s' = us_instances s" "us_registered s' = us_registered s" "us_descriptors s' = us_descriptors s"
    "us_presentations s' = us_presentations s" "us_mounted s' = us_mounted s" "us_actions s' = us_actions s" "us_focus s' = us_focus s"
    by (simp_all add: s'_def clear_focused_world_scope_for_all_layers_def)
  have "layers_attached s'"
    using ui_invD(4) [OF inv] unfolding layers_attached_def keys lookup rest by (auto simp: same)
  moreover have "queues_bounded s'"
    using ui_invD(5) [OF inv] unfolding queues_bounded_def lookup rest instance_active_def by (fastforce simp: same)
  moreover have "registrations_owned s'" "declarations_owned s'" "mounted_trees s'"
    using ui_invD(1-3) [OF inv] rest by (simp_all cong: ui_cong)
  ultimately show ?thesis unfolding s'_def [symmetric] by (intro ui_invI)
qed

section \<open>Surfaces and actions\<close>

lemma owned_registration_ok:
  "owned_registration owner surface s = Inr r \<longleftrightarrow> us_registered s (ref_instance owner, surface) = Some r \<and> os_owner r = owner"
  by (auto simp: owned_registration_def split: option.split)

lemma present_snapshot_ok:
  assumes "present_snapshot owner c snapshot surface s = Inr s'"
  obtains inst where "us_instances s (ref_instance owner) = Some inst"
    "check_visible_layers (ui_scope inst) c snapshot s = Inr ()"
    "s' = s\<lparr>us_mounted := AList.update (ref_instance owner, surface) snapshot (us_mounted s)\<rparr>"
  using assms by (auto simp: present_snapshot_def result_simps split: option.splits)

lemma inv_mounted:
  assumes inv: "ui_inv s" and m: "mounted_trees (s\<lparr>us_mounted := m\<rparr>)"
  shows "ui_inv (s\<lparr>us_mounted := m\<rparr>)"
  using ui_invD [OF inv] m by (auto intro!: ui_invI cong: ui_cong)

lemma inv_present:
  assumes inv: "ui_inv s" and r: "us_registered s (ref_instance owner, surface) \<noteq> None"
    and tree: "ui_tree snapshot" "snap_surface snapshot = surface"
    and ok: "present_snapshot owner c snapshot surface s = Inr s'"
  shows "ui_inv s'"
proof -
  have "mounted_trees (s\<lparr>us_mounted := AList.update (ref_instance owner, surface) snapshot (us_mounted s)\<rparr>)"
    using ui_invD(3) [OF inv] r tree by (auto simp: mounted_trees_def update_conv' distinct_update)
  with inv_mounted [OF inv] ok show ?thesis by (auto elim: present_snapshot_ok)
qed

lemma mount_surface_ok:
  assumes "mount_surface owner snapshot s = Some (Inr s')"
  obtains r where "us_registered s (ref_instance owner, snap_surface snapshot) = Some r" "os_owner r = owner" "ui_tree snapshot"
    "map_of (us_mounted s) (ref_instance owner, snap_surface snapshot) = None"
    "present_snapshot owner (os_contribution r) snapshot (snap_surface snapshot) s = Inr s'"
proof -
  have "validate_snapshot snapshot = Some (Inr ())"
    using assms by (auto simp: mount_surface_def split: option.splits sum.splits)
  with assms that show thesis
    by (auto simp: mount_surface_def result_simps owned_registration_ok validate_snapshot_accepts split: if_split_asm)
qed

lemma inv_mount: "ui_inv s \<Longrightarrow> mount_surface owner snapshot s = Some (Inr s') \<Longrightarrow> ui_inv s'"
  by (erule mount_surface_ok) (rule inv_present, simp_all)

lemma apply_patch_operations_frame:
  "apply_patch_operations ps snapshot = Inr patched \<Longrightarrow>
    snap_surface patched = snap_surface snapshot \<and> snap_root patched = snap_root snapshot \<and> snap_revision patched = snap_revision snapshot"
  by (auto simp: apply_patch_operations_def result_simps)

lemma check_batch_ok:
  "check_batch owner b s = Inr (r, current) \<longleftrightarrow>
     length (batch_patches b) \<le> DEFAULT_MAX_PATCH_OPERATIONS \<and>
     us_registered s (ref_instance owner, batch_surface b) = Some r \<and> os_owner r = owner \<and>
     map_of (us_mounted s) (ref_instance owner, batch_surface b) = Some current \<and>
     snap_revision current = batch_base b \<and> checked_add_u64 (batch_base b) 1 = Some (batch_next b)"
  by (auto simp: check_batch_def result_simps owned_registration_ok)

lemma apply_patches_ok:
  assumes "apply_patches owner b s = Some (Inr s')"
  obtains r current patched where "check_batch owner b s = Inr (r, current)"
    "apply_patch_operations (batch_patches b) current = Inr patched" "ui_tree (patched\<lparr>snap_revision := batch_next b\<rparr>)"
    "present_snapshot owner (os_contribution r) (patched\<lparr>snap_revision := batch_next b\<rparr>) (batch_surface b) s = Inr s'"
  using assms
  by (auto simp: apply_patches_def Let_def validate_snapshot_accepts [symmetric] split: option.splits sum.splits)

lemma inv_patch:
  assumes inv: "ui_inv s" and ok: "apply_patches owner b s = Some (Inr s')"
  shows "ui_inv s'"
  using ok
proof (cases rule: apply_patches_ok)
  case (1 r current patched)
  then have "snap_surface patched = batch_surface b"
    using ui_invD(3) [OF inv] by (auto simp: check_batch_ok mounted_trees_def dest: apply_patch_operations_frame)
  with 1 show ?thesis by (intro inv_present [OF inv _ _ _ 1(4)]) (simp_all add: check_batch_ok)
qed

lemma inv_unmount:
  assumes inv: "ui_inv s" and ok: "unmount_surface owner surface s = Inr s'"
  shows "ui_inv s'"
proof -
  have "mounted_trees (s\<lparr>us_mounted := AList.delete key (us_mounted s)\<rparr>)" for key
    using ui_invD(3) [OF inv] by (auto simp: mounted_trees_def delete_conv' distinct_delete)
  with inv_mounted [OF inv] ok show ?thesis by (auto simp: unmount_surface_def result_simps split: if_split_asm)
qed

lemma route_action_ok:
  assumes "route_action layer_owner e s = Inr d"
  obtains scope l target r snapshot where "find_layer layer_owner s = Some (scope, l)"
    "us_instances s (event_owner_instance e) = Some target" "sees_scope scope (al_focused l) (ui_scope target)" "ui_active target"
    "us_registered s (event_owner_instance e, event_surface e) = Some r"
    "map_of (us_mounted s) (event_owner_instance e, event_surface e) = Some snapshot"
    "check_event snapshot e = Inr ()" "d = (os_owner r, e)"
  using assms by (auto simp: route_action_def result_simps split: option.splits if_split_asm)

lemma inv_actions:
  assumes inv: "ui_inv s" and f: "length f \<le> MAX_QUEUED_ACTIONS"
    "\<And>q. q \<in> set f \<Longrightarrow> instance_active s (ref_instance (qa_layer q)) \<and> instance_active s (event_owner_instance (qa_event q))"
  shows "ui_inv (s\<lparr>us_actions := f\<rparr>)"
proof -
  have "queues_bounded (s\<lparr>us_actions := f\<rparr>)"
    using ui_invD(5) [OF inv] f by (simp add: queues_bounded_def instance_active_def)
  then show ?thesis using ui_invD [OF inv] by (auto intro!: ui_invI cong: ui_cong)
qed

lemma inv_queue_action:
  assumes inv: "ui_inv s" and ok: "queue_action owner e s = Inr s'"
  shows "ui_inv s'"
proof -
  obtain d where d: "route_action owner e s = Inr d" and room: "length (us_actions s) < MAX_QUEUED_ACTIONS"
    and s': "s' = s\<lparr>us_actions := us_actions s @ [\<lparr>qa_layer = owner, qa_event = e\<rparr>]\<rparr>"
    using ok by (auto simp: queue_action_def result_simps split: if_split_asm)
  have "instance_active s (ref_instance owner) \<and> instance_active s (event_owner_instance e)"
    using d
  proof (cases rule: route_action_ok)
    case (1 scope l target r snapshot)
    with find_layer_Some [OF 1(1) ui_invD(4) [OF inv]] ui_invD(4) [OF inv] show ?thesis
      by (fastforce simp: layers_attached_def instance_active_def)
  qed
  then show ?thesis
    using ui_invD(5) [OF inv] room unfolding s' by (intro inv_actions [OF inv]) (auto simp: queues_bounded_def)
qed

section \<open>Any history\<close>

lemma inv_ui_event:
  assumes inv: "ui_inv s"
  shows "ui_inv (apply_ui_event e s)"
proof (cases e)
  case (AttachRegistered owner)
  then show ?thesis
    using inv by (auto simp: ok_or_same_def attach_registered_layer_def and_then_def intro: inv_attach split: sum.split)
next
  case DrainFocus
  then show ?thesis using inv_focus [OF inv, of "[]"] by (simp add: drain_world_focus_requests_def)
next
  case DrainActions
  then show ?thesis using inv_actions [OF inv, of "[]"] by (simp add: drain_queued_actions_def)
qed (use inv in \<open>auto simp: ok_or_same_def returned_or_same_def split: sum.split option.split
    intro: inv_register inv_register_presentation inv_unregister inv_set_active inv_attach inv_detach inv_queue_focus
      inv_focus_failure inv_set_focus inv_clear_focus inv_clear_focus_all inv_mount inv_patch inv_unmount inv_queue_action\<close>)

interpretation ui: event_history apply_ui_event ui_state_new ui_inv
  by unfold_locales (rule ui_inv_new, rule inv_ui_event)

end
