(* ===== verification/Ui_Support.thy ===== *)
theory Ui_Support
  imports Ui_Preserve
begin

text \<open>
  The capabilities of a layer against the surfaces it sees: every operation keeps them supported, except the activation of an
  instance that has already mounted surfaces.
\<close>

section \<open>Supported surfaces\<close>

definition surface_supported :: "string list \<Rightarrow> ui_contribution \<Rightarrow> ui_snapshot \<Rightarrow> bool" where
  "surface_supported capabilities c snapshot \<longleftrightarrow>
     set (contribution_capabilities c) \<union> (\<lambda>n. required_capability (node_kind n)) ` set (snap_nodes snapshot) \<subseteq> set capabilities"

lemma find_unsupported_None: "find_unsupported capabilities c snapshot = None \<longleftrightarrow> surface_supported capabilities c snapshot"
  by (auto simp: find_unsupported_def surface_supported_def required_capabilities_def find_None_iff subset_eq)

lemma ensure_supported_iff: "ensure_surface_supported capabilities c snapshot = Inr u \<longleftrightarrow> surface_supported capabilities c snapshot"
  by (auto simp: ensure_surface_supported_def find_unsupported_None [symmetric] split: option.split)

definition layers_support :: "ui_state \<Rightarrow> bool" where
  "layers_support s \<longleftrightarrow>
     (\<forall>scope l key snapshot inst r.
        map_of (us_layers s) scope = Some l \<longrightarrow> map_of (us_mounted s) key = Some snapshot \<longrightarrow>
        us_instances s (fst key) = Some inst \<longrightarrow> ui_active inst \<longrightarrow> us_registered s key = Some r \<longrightarrow>
        sees_scope scope (al_focused l) (ui_scope inst) \<longrightarrow>
        surface_supported (al_capabilities l) (os_contribution r) snapshot)"

lemma layers_supportD:
  "layers_support s \<Longrightarrow> map_of (us_layers s) scope = Some l \<Longrightarrow> map_of (us_mounted s) key = Some snapshot \<Longrightarrow>
    us_instances s (fst key) = Some inst \<Longrightarrow> ui_active inst \<Longrightarrow> us_registered s key = Some r \<Longrightarrow>
    sees_scope scope (al_focused l) (ui_scope inst) \<Longrightarrow> surface_supported (al_capabilities l) (os_contribution r) snapshot"
  unfolding layers_support_def by blast

lemma layers_supportI:
  assumes "\<And>scope l key snapshot inst r.
    map_of (us_layers s) scope = Some l \<Longrightarrow> map_of (us_mounted s) key = Some snapshot \<Longrightarrow>
    us_instances s (fst key) = Some inst \<Longrightarrow> ui_active inst \<Longrightarrow> us_registered s key = Some r \<Longrightarrow>
    sees_scope scope (al_focused l) (ui_scope inst) \<Longrightarrow> surface_supported (al_capabilities l) (os_contribution r) snapshot"
  shows "layers_support s"
  unfolding layers_support_def by (intro allI impI) (rule assms)

text \<open>Fewer layers that see less, and fewer mounted surfaces of active instances.\<close>

definition sees_less :: "ui_state \<Rightarrow> ui_state \<Rightarrow> bool" where
  "sees_less s s' \<longleftrightarrow> (\<forall>k l'. map_of (us_layers s') k = Some l' \<longrightarrow>
     (\<exists>l. map_of (us_layers s) k = Some l \<and> al_capabilities l' = al_capabilities l \<and>
        (al_focused l' = None \<or> al_focused l' = al_focused l)))"

definition shows_less :: "ui_state \<Rightarrow> ui_state \<Rightarrow> bool" where
  "shows_less s s' \<longleftrightarrow> (\<forall>key snapshot inst r.
     map_of (us_mounted s') key = Some snapshot \<longrightarrow> us_instances s' (fst key) = Some inst \<longrightarrow> ui_active inst \<longrightarrow>
     us_registered s' key = Some r \<longrightarrow>
     map_of (us_mounted s) key = Some snapshot \<and> us_registered s key = Some r \<and> us_instances s (fst key) = Some inst)"

lemma sees_less_refl: "us_layers s' = us_layers s \<Longrightarrow> sees_less s s'"
  by (simp add: sees_less_def)

lemma shows_less_refl:
  "us_mounted s' = us_mounted s \<Longrightarrow> us_registered s' = us_registered s \<Longrightarrow> us_instances s' = us_instances s \<Longrightarrow> shows_less s s'"
  by (simp add: shows_less_def)

lemma sees_scope_less: "sees_scope k f' x \<Longrightarrow> f' = None \<or> f' = f \<Longrightarrow> sees_scope k f x"
  by (auto simp: sees_scope_def split: option.splits)

lemma support_less:
  assumes s: "layers_support s" and "sees_less s s'" "shows_less s s'"
  shows "layers_support s'"
proof (rule layers_supportI)
  fix scope l' key snapshot inst r
  assume l': "map_of (us_layers s') scope = Some l'" "sees_scope scope (al_focused l') (ui_scope inst)"
    and m: "map_of (us_mounted s') key = Some snapshot" "us_instances s' (fst key) = Some inst" "ui_active inst"
      "us_registered s' key = Some r"
  obtain l where l: "map_of (us_layers s) scope = Some l" "al_capabilities l' = al_capabilities l"
    "al_focused l' = None \<or> al_focused l' = al_focused l"
    using assms(2) l'(1) unfolding sees_less_def by blast
  have "map_of (us_mounted s) key = Some snapshot" "us_registered s key = Some r" "us_instances s (fst key) = Some inst"
    using assms(3) m unfolding shows_less_def by blast+
  from layers_supportD [OF s l(1) this(1,3) m(3) this(2) sees_scope_less [OF l'(2) l(3)]]
  show "surface_supported (al_capabilities l') (os_contribution r) snapshot" by (simp add: l(2))
qed

section \<open>Operations on layers\<close>

lemma sees_less_update:
  assumes "map_of (us_layers s) k = Some l" "al_capabilities l' = al_capabilities l" "al_focused l' = None \<or> al_focused l' = al_focused l"
    and "us_layers s' = AList.update k l' (us_layers s)"
  shows "sees_less s s'"
  using assms by (auto simp: sees_less_def update_conv')

lemma sees_less_delete: "us_layers s' = AList.delete k (us_layers s) \<Longrightarrow> sees_less s s'"
  by (auto simp: sees_less_def delete_conv')

lemma support_queue_focus:
  assumes inv: "ui_inv s" and s: "layers_support s" and ok: "queue_world_focus_request owner w s = Inr s'"
  shows "layers_support s'"
proof -
  obtain k l where l: "find_layer owner s = Some (k, l)"
    and s': "us_layers s' = AList.update k (l\<lparr>al_pending := Some w, al_error := None\<rparr>) (us_layers s)"
      "us_mounted s' = us_mounted s" "us_registered s' = us_registered s" "us_instances s' = us_instances s"
    using ok by (auto simp: queue_world_focus_request_def Let_def split: option.splits if_splits)
  note k = find_layer_Some(1) [OF l ui_invD(4) [OF inv]]
  show ?thesis
    by (rule support_less [OF s sees_less_update [OF k _ _ s'(1)] shows_less_refl [OF s'(2-4)]]) simp_all
qed

lemma support_focus_failure:
  assumes inv: "ui_inv s" and s: "layers_support s" and ok: "record_world_focus_failure owner w diag s = Inr s'"
  shows "layers_support s'"
proof (cases "s' = s")
  case False
  then obtain k l where l: "find_layer owner s = Some (k, l)"
    and s': "us_layers s' = AList.update k
        (l\<lparr>al_pending := None, al_error := Some (bounded_world_focus_diagnostic diag)\<rparr>) (us_layers s)"
      "us_mounted s' = us_mounted s" "us_registered s' = us_registered s" "us_instances s' = us_instances s"
    using ok by (auto simp: record_world_focus_failure_def split: option.splits if_splits)
  note k = find_layer_Some(1) [OF l ui_invD(4) [OF inv]]
  show ?thesis
    by (rule support_less [OF s sees_less_update [OF k _ _ s'(1)] shows_less_refl [OF s'(2-4)]]) simp_all
qed (use s in simp)

lemma support_clear_focus:
  assumes inv: "ui_inv s" and s: "layers_support s" and ok: "clear_focused_world_scope owner s = Inr s'"
  shows "layers_support s'"
proof -
  obtain k l where l: "find_layer owner s = Some (k, l)"
    and s': "us_layers s' = AList.update k (l\<lparr>al_focused := None, al_pending := None, al_error := None\<rparr>) (us_layers s)"
      "us_mounted s' = us_mounted s" "us_registered s' = us_registered s" "us_instances s' = us_instances s"
    using ok by (auto simp: clear_focused_world_scope_def split: option.splits)
  note k = find_layer_Some(1) [OF l ui_invD(4) [OF inv]]
  show ?thesis
    by (rule support_less [OF s sees_less_update [OF k _ _ s'(1)] shows_less_refl [OF s'(2-4)]]) simp_all
qed

lemma support_clear_focus_all: "layers_support s \<Longrightarrow> layers_support (clear_focused_world_scope_for_all_layers scope s)"
  by (erule support_less)
    (auto simp: sees_less_def clear_focused_world_scope_for_all_layers_def map_of_map intro!: shows_less_refl split: option.split)

lemma support_detach:
  assumes s: "layers_support s" and ok: "detach_layer owner s = Inr s'"
  shows "layers_support s'"
  using ok
proof (cases rule: detach_layer_ok)
  case unattached
  then show ?thesis by (intro support_less [OF s sees_less_refl shows_less_refl]) simp_all
next
  case (attached scope l)
  then show ?thesis by (intro support_less [OF s sees_less_delete [of _ scope] shows_less_refl]) simp_all
qed

text \<open>A layer that is attached or focused anew has checked what it sees of the active instances.\<close>

lemma check_mounted_ok:
  assumes "check_mounted capabilities visible s = Inr u" "mounted_trees s"
    and m: "map_of (us_mounted s) key = Some snapshot" "us_instances s (fst key) = Some inst" "ui_active inst"
      "us_registered s key = Some r" "visible (ui_scope inst)"
  shows "surface_supported capabilities (os_contribution r) snapshot"
proof -
  have "(key, snapshot) \<in> set (us_mounted s)" using m(1) by (rule map_of_SomeD)
  then show ?thesis using assms(1) m(2-5) by (fastforce simp: check_mounted_def for_each_Inr ensure_supported_iff)
qed

lemma support_new_layer:
  assumes s: "layers_support s"
    and new: "\<And>key snapshot inst r. map_of (us_mounted s) key = Some snapshot \<Longrightarrow> us_instances s (fst key) = Some inst \<Longrightarrow>
      ui_active inst \<Longrightarrow> us_registered s key = Some r \<Longrightarrow> sees_scope k (al_focused l) (ui_scope inst) \<Longrightarrow>
      surface_supported (al_capabilities l) (os_contribution r) snapshot"
  shows "layers_support (s\<lparr>us_layers := AList.update k l (us_layers s)\<rparr>)"
proof (rule layers_supportI, goal_cases)
  case (1 scope l' key snapshot inst r)
  then show ?case using layers_supportD [OF s, of scope l' key snapshot inst r] new [of key snapshot inst r]
    by (cases "scope = k") (simp_all add: update_conv')
qed

lemma support_attach:
  assumes inv: "ui_inv s" and s: "layers_support s" and ok: "attach_layer owner d s = Inr s'"
  shows "layers_support s'"
  using ok
proof (rule attach_layer_ok)
  fix inst
  define l where "l = attached_layer owner d (map_of (us_layers s) (ui_scope inst))"
  assume "check_mounted (remdups (layer_capabilities d)) (sees_scope (ui_scope inst)
      (al_focused (attached_layer owner d (map_of (us_layers s) (ui_scope inst))))) s = Inr ()"
  then have checked: "check_mounted (al_capabilities l) (sees_scope (ui_scope inst) (al_focused l)) s = Inr ()"
    by (simp add: l_def attached_layer_def)
  assume s': "s' = s\<lparr>us_layers := AList.update (ui_scope inst)
      (attached_layer owner d (map_of (us_layers s) (ui_scope inst))) (us_layers s)\<rparr>"
  show "layers_support s'"
    unfolding s' l_def [symmetric] by (intro support_new_layer [OF s] check_mounted_ok [OF checked ui_invD(3) [OF inv]])
qed

lemma support_set_focus:
  assumes inv: "ui_inv s" and s: "layers_support s" and ok: "set_focused_world_scope owner w scope d s = Inr s'"
  shows "layers_support s'"
  using ok
proof (rule set_focus_ok)
  fix k l
  assume l: "find_layer owner s = Some (k, l)" and checked: "check_mounted (al_capabilities l) (\<lambda>x. x = scope) s = Inr ()"
    and s': "s' = s\<lparr>us_layers := AList.update k (focused_layer w scope d l) (us_layers s)\<rparr>"
  note k = find_layer_Some(1) [OF l ui_invD(4) [OF inv]]
  show "layers_support s'"
    unfolding s'
  proof (rule support_new_layer [OF s], goal_cases)
    case (1 key snapshot inst r)
    then have "ui_scope inst = k \<or> ui_scope inst = scope" by (simp add: sees_scope_def focused_layer_def) blast
    then have "surface_supported (al_capabilities l) (os_contribution r) snapshot"
      using layers_supportD [OF s k 1(1-4)] check_mounted_ok [OF checked ui_invD(3) [OF inv] 1(1-4)] by (auto simp: sees_scope_def)
    then show ?case by (simp add: focused_layer_def)
  qed
qed

section \<open>Operations on surfaces\<close>

lemma support_present:
  assumes s: "layers_support s" and attached: "layers_attached s" and r: "us_registered s (ref_instance owner, surface) = Some r"
    and ok: "present_snapshot owner (os_contribution r) snapshot surface s = Inr s'"
  shows "layers_support s'"
  using ok
proof (rule present_snapshot_ok)
  fix inst
  assume i: "us_instances s (ref_instance owner) = Some inst"
    and checked: "check_visible_layers (ui_scope inst) (os_contribution r) snapshot s = Inr ()"
    and s': "s' = s\<lparr>us_mounted := AList.update (ref_instance owner, surface) snapshot (us_mounted s)\<rparr>"
  show "layers_support s'"
  proof (rule layers_supportI, goal_cases)
    case (1 scope l key snapshot' inst' r')
    show ?case
    proof (cases "key = (ref_instance owner, surface)")
      case True
      have "(scope, l) \<in> set (us_layers s)" using 1(1) by (intro map_of_SomeD) (simp add: s')
      with checked True 1(2-6) i r show ?thesis
        by (auto simp: s' check_visible_layers_def for_each_Inr update_conv' ensure_supported_iff)
    next
      case False
      with 1 layers_supportD [OF s, of scope l key snapshot' inst' r'] show ?thesis by (simp add: s' update_conv')
    qed
  qed
qed

lemma support_unmount:
  assumes s: "layers_support s" and ok: "unmount_surface owner surface s = Inr s'"
  shows "layers_support s'"
proof -
  have "s' = s\<lparr>us_mounted := AList.delete (ref_instance owner, surface) (us_mounted s)\<rparr>"
    using ok by (auto simp: unmount_surface_def result_simps split: if_split_asm)
  then show ?thesis by (intro support_less [OF s sees_less_refl]) (auto simp: shows_less_def delete_conv')
qed

section \<open>Operations on instances\<close>

lemma support_register:
  assumes inv: "ui_inv s" and s: "layers_support s" and ok: "register_ui_instance i scope ss ls s = Inr s'"
  shows "layers_support s'"
proof (rule support_less [OF s sees_less_refl])
  note ok = register_ui_instance_ok [OF ok]
  show "us_layers s' = us_layers s" using ok(2) by simp
  have "fst key \<noteq> i" if "map_of (us_mounted s) key = Some snapshot" for key snapshot
    using that ui_invD(3) [OF inv] unregistered_surface [OF ui_invD(1) [OF inv] ok(1), of "snd key"]
    by (cases key) (fastforce simp: mounted_trees_def)
  then show "shows_less s s'"
    using ok(2) by (auto simp: shows_less_def add_surfaces_other)
qed

lemma support_withdrawn:
  assumes inv: "ui_inv s" and s: "layers_support s" and i: "us_instances s i = Some inst"
    and s': "us_mounted s' = us_mounted (withdraw_instance i inst s)" "us_layers s' = us_layers (withdraw_instance i inst s)"
      "\<And>j. j \<noteq> i \<Longrightarrow> us_instances s' j = us_instances s j" "\<And>key. fst key \<noteq> i \<Longrightarrow> us_registered s' key = us_registered s key"
  shows "layers_support s'"
proof (rule support_less [OF s])
  show "sees_less s s'" unfolding sees_less_def s'(2) by (simp add: withdrawn_layers [OF inv i])
  show "shows_less s s'" unfolding shows_less_def s'(1) by (simp add: withdrawn_mounted [OF inv i] s'(3,4))
qed

lemma support_unregister:
  assumes inv: "ui_inv s" and s: "layers_support s"
  shows "layers_support (unregister_ui_instance i s)"
proof (cases "us_instances s i")
  case (Some inst)
  show ?thesis by (rule support_withdrawn [OF inv s Some]) (simp_all add: unregister_ui_instance_def Some)
qed (use s in \<open>simp add: unregister_ui_instance_def\<close>)

text \<open>The activation of an instance that shows nothing yet, or is already active.\<close>

definition activates_unmounted :: "ui_event \<Rightarrow> ui_state \<Rightarrow> bool" where
  "activates_unmounted e s =
     (case e of
        SetActive i True \<Rightarrow> instance_active s i \<or> \<not> list_ex (\<lambda>m. fst (fst m) = i) (us_mounted s)
      | _ \<Rightarrow> True)"

lemma support_set_active:
  assumes inv: "ui_inv s" and s: "layers_support s" and ok: "set_instance_active i active s = Inr s'"
    and allowed: "activates_unmounted (SetActive i active) s"
  shows "layers_support s'"
proof -
  obtain inst where i: "us_instances s i = Some inst"
    using ok by (auto simp: set_instance_active_def split: option.splits)
  show ?thesis
  proof (cases active)
    case True
    then have s': "s' = s\<lparr>us_instances := (us_instances s)(i \<mapsto> inst\<lparr>ui_active := True\<rparr>)\<rparr>"
      using ok i by (simp add: set_instance_active_def)
    have kept: "us_instances s' (fst key) = us_instances s (fst key)" if "map_of (us_mounted s) key = Some snapshot" for key snapshot
    proof -
      have "ui_active inst \<or> fst key \<noteq> i"
        using map_of_SomeD [OF that] True allowed i by (auto simp: activates_unmounted_def instance_active_def list_ex_iff)
      moreover have "ui_active inst \<Longrightarrow> inst\<lparr>ui_active := True\<rparr> = inst" by (cases inst) simp
      ultimately show ?thesis using i by (auto simp: s')
    qed
    have frame: "us_mounted s' = us_mounted s" "us_registered s' = us_registered s" by (simp_all add: s')
    have "shows_less s s'" unfolding shows_less_def frame using kept by metis
    then show ?thesis by (intro support_less [OF s sees_less_refl]) (simp_all add: s')
  next
    case False
    then have s': "s' = withdraw_instance i inst (s\<lparr>us_instances := (us_instances s)(i \<mapsto> inst\<lparr>ui_active := False\<rparr>)\<rparr>)"
      using ok i by (simp add: set_instance_active_def)
    show ?thesis
      by (rule support_withdrawn [OF inv s i]) (simp_all add: s' withdraw_instance_def split: option.split)
  qed
qed

section \<open>Any history without such an activation\<close>

lemma support_step:
  assumes inv: "ui_inv s" and s: "layers_support s" and allowed: "activates_unmounted e s"
  shows "layers_support (apply_ui_event e s)"
proof (cases e)
  case (RegisterPresentation owner d)
  have "layers_support s'" if "register_world_presentation owner d s = Inr s'" for s'
    using that
    by (intro support_less [OF s sees_less_refl shows_less_refl])
      (auto simp: register_world_presentation_def split: option.splits if_split_asm)
  with s RegisterPresentation show ?thesis by (simp add: ok_or_same_def split: sum.split)
next
  case (SetActive i active)
  with s allowed show ?thesis by (auto simp: ok_or_same_def intro: support_set_active [OF inv] split: sum.split)
next
  case (AttachRegistered owner)
  with s show ?thesis
    by (auto simp: ok_or_same_def attach_registered_layer_def and_then_def intro: support_attach [OF inv] split: sum.split)
next
  case (Mount owner snapshot)
  have "layers_support s'" if "mount_surface owner snapshot s = Some (Inr s')" for s'
    using that by (rule mount_surface_ok) (rule support_present [OF s ui_invD(4) [OF inv]])
  with s Mount show ?thesis by (simp add: ok_or_same_def returned_or_same_def split: sum.split option.split)
next
  case (Patch owner b)
  have "layers_support s'" if "apply_patches owner b s = Some (Inr s')" for s'
    using that by (rule apply_patches_ok) (auto simp: check_batch_ok intro: support_present [OF s ui_invD(4) [OF inv]])
  with s Patch show ?thesis by (simp add: ok_or_same_def returned_or_same_def split: sum.split option.split)
next
  case (QueueAction owner ev)
  have "layers_support s'" if "queue_action owner ev s = Inr s'" for s'
    using that by (intro support_less [OF s sees_less_refl shows_less_refl]) (auto simp: queue_action_def result_simps split: if_split_asm)
  with s QueueAction show ?thesis by (simp add: ok_or_same_def split: sum.split)
next
  case DrainFocus
  show ?thesis unfolding DrainFocus
    by (rule support_less [OF s sees_less_refl shows_less_refl]) (simp_all add: drain_world_focus_requests_def)
next
  case DrainActions
  show ?thesis unfolding DrainActions
    by (rule support_less [OF s sees_less_refl shows_less_refl]) (simp_all add: drain_queued_actions_def)
qed (use s in \<open>auto simp: ok_or_same_def intro: support_register [OF inv] support_unregister [OF inv] support_attach [OF inv]
    support_detach support_queue_focus [OF inv] support_focus_failure [OF inv] support_set_focus [OF inv]
    support_clear_focus [OF inv] support_clear_focus_all support_unmount split: sum.split\<close>)

lemma support_new: "layers_support ui_state_new"
  by (simp add: layers_support_def ui_state_new_def)

interpretation ui_support: guarded_history apply_ui_event ui_state_new ui_inv activates_unmounted layers_support
  by unfold_locales (rule support_new, rule support_step)

end
