(* ===== verification/Ui_Properties.thy ===== *)
theory Ui_Properties
  imports Ui_Support
begin

text \<open>The properties of the portable UI runtime.\<close>

section \<open>Trees\<close>

text \<open>
  C20. The validation of a snapshot always ends, and it accepts exactly the trees: at most 4096 nodes with distinct identities
  and valid layouts, every child present, no node the child of two places, and every node below the root.
\<close>

theorem validate_snapshot_iff_tree:
  "(\<exists>r. validate_snapshot s = Some r) \<and> (validate_snapshot s = Some (Inr ()) \<longleftrightarrow> ui_tree s)"
  by (rule validate_snapshot_tree)

lemma history_inv: "ui_inv (ui_history es)"
  unfolding ui_history_def by (rule ui.holds_always)

definition owned_mount :: "ui_state \<Rightarrow> (string \<times> string) \<times> ui_snapshot \<Rightarrow> bool" where
  "owned_mount s m \<longleftrightarrow>
     (case us_registered s (fst m) of
        None \<Rightarrow> False
      | Some r \<Rightarrow> ref_instance (os_owner r) = fst (fst m) \<and> contribution_id (os_contribution r) = snd (fst m) \<and>
          us_instances s (fst (fst m)) \<noteq> None) \<and>
     snap_surface (snd m) = snd (fst m) \<and> ui_tree (snd m)"

text \<open>
  C17. After any history of calls, every mounted surface is a valid tree that carries the identity it is mounted under, was
  registered by a component of the instance it is mounted for, and is mounted once.
\<close>

theorem mounted_surfaces_are_owned_trees:
  "list_all (owned_mount (ui_history es)) (us_mounted (ui_history es)) \<and> distinct (map fst (us_mounted (ui_history es)))"
proof -
  let ?s = "ui_history es"
  note inv = ui_invD [OF history_inv [of es]]
  have "owned_mount ?s (key, snapshot)" if m: "map_of (us_mounted ?s) key = Some snapshot" for key snapshot
  proof -
    have "us_registered ?s key \<noteq> None \<and> snap_surface snapshot = snd key \<and> ui_tree snapshot"
      using inv(3) m unfolding mounted_trees_def by blast
    then obtain r where "us_registered ?s key = Some r" "snap_surface snapshot = snd key" "ui_tree snapshot" by blast
    then show ?thesis using inv(1) by (cases key) (fastforce simp: owned_mount_def registrations_owned_def)
  qed
  then show ?thesis using inv(3) by (auto simp: list_all_iff mounted_trees_def)
qed

section \<open>Patches\<close>

lemma apply_patch_operations_ok:
  assumes "apply_patch_operations ps old = Inr new"
  shows "fold_result spec_patch ps (find_node (snap_nodes old)) = Inr (find_node (snap_nodes new))"
    and "sorted (map node_id (snap_nodes new))"
proof -
  obtain nodes where nodes: "distinct (map node_id (snap_nodes old))" "fold_result apply_patch ps (snap_nodes old) = Inr nodes"
    "snap_nodes new = sort_key node_id nodes"
    using assms by (auto simp: apply_patch_operations_def result_simps node_map_iff)
  have distinct: "distinct (map node_id nodes)" by (rule fold_patches_distinct [OF nodes(2,1)])
  have "distinct (map node_id (sort_key node_id nodes))" using distinct by (simp add: distinct_map)
  then have "find_node (sort_key node_id nodes) = find_node nodes" by (rule find_node_set [OF _ distinct]) simp
  then show "fold_result spec_patch ps (find_node (snap_nodes old)) = Inr (find_node (snap_nodes new))"
    using fold_patches_refines [of ps "snap_nodes old"] nodes(2,3) by simp
  show "sorted (map node_id (snap_nodes new))" by (simp add: nodes(3))
qed

text \<open>
  C19. A patch batch that is accepted changes the snapshot of one mounted surface, registered by its sender, and nothing else:
  it took the snapshot at the base revision of the batch, its revision is one more, its nodes are those of the specification
  that edits a map from identities to nodes, in the order of their identities, and it is still a valid tree.
\<close>

theorem accepted_patches_edit_one_surface:
  assumes "apply_patches owner b s = Some (Inr s')"
  shows "\<exists>old new.
      map_of (us_mounted s) (ref_instance owner, batch_surface b) = Some old \<and>
      map_of (us_mounted s') = (map_of (us_mounted s))((ref_instance owner, batch_surface b) \<mapsto> new) \<and>
      s' = s\<lparr>us_mounted := us_mounted s'\<rparr> \<and>
      map_option os_owner (us_registered s (ref_instance owner, batch_surface b)) = Some owner \<and>
      snap_revision old = batch_base b \<and> uint (snap_revision new) = uint (snap_revision old) + 1 \<and>
      snap_surface new = snap_surface old \<and> snap_root new = snap_root old \<and>
      fold_result spec_patch (batch_patches b) (find_node (snap_nodes old)) = Inr (find_node (snap_nodes new)) \<and>
      sorted (map node_id (snap_nodes new)) \<and> ui_tree new"
  using assms
proof (cases rule: apply_patches_ok)
  case (1 r current patched)
  let ?new = "patched\<lparr>snap_revision := batch_next b\<rparr>"
  note batch = 1(1) [unfolded check_batch_ok]
  obtain inst where "us_instances s (ref_instance owner) = Some inst"
    and s': "s' = s\<lparr>us_mounted := AList.update (ref_instance owner, batch_surface b) ?new (us_mounted s)\<rparr>"
    using 1(4) by (rule present_snapshot_ok)
  have next_revision: "uint (batch_next b) = uint (batch_base b) + 1"
    using batch by (auto dest: checked_add_u64_Some)
  show ?thesis
    by (rule exI [of _ current], rule exI [of _ ?new])
      (use batch next_revision apply_patch_operations_ok [OF 1(2)] apply_patch_operations_frame [OF 1(2)] 1(3)
        in \<open>simp add: s' update_conv'\<close>)
qed

text \<open>
  The order in which the hash map of the nodes iterates never shows: on snapshots that hold the same nodes in another order
  a batch has the same result, errors included.
\<close>

theorem patches_ignore_node_order:
  assumes "set (snap_nodes s) = set (snap_nodes t)"
    and ids: "distinct (map node_id (snap_nodes s))" "distinct (map node_id (snap_nodes t))"
    and rest: "snap_surface s = snap_surface t" "snap_root s = snap_root t" "snap_revision s = snap_revision t"
  shows "apply_patch_operations ps s = apply_patch_operations ps t"
proof -
  have lookup: "find_node (snap_nodes s) = find_node (snap_nodes t)" by (rule find_node_set [OF ids assms(1)])
  have maps: "node_map [] (snap_nodes s) = Inr (snap_nodes s)" "node_map [] (snap_nodes t) = Inr (snap_nodes t)"
    using ids by (auto simp: node_map_iff node_ids_def)
  have same: "map_ok find_node (fold_result apply_patch ps (snap_nodes s)) = map_ok find_node (fold_result apply_patch ps (snap_nodes t))"
    by (simp add: fold_patches_refines lookup)
  show ?thesis
  proof (cases "fold_result apply_patch ps (snap_nodes s)")
    case (Inl e)
    with same have "fold_result apply_patch ps (snap_nodes t) = Inl e"
      by (cases "fold_result apply_patch ps (snap_nodes t)") auto
    with Inl maps show ?thesis by (simp add: apply_patch_operations_def)
  next
    case (Inr xs)
    with same obtain ys where ys: "fold_result apply_patch ps (snap_nodes t) = Inr ys" "find_node xs = find_node ys"
      by (cases "fold_result apply_patch ps (snap_nodes t)") auto
    have "sort_key node_id xs = sort_key node_id ys"
      using fold_patches_distinct [OF Inr ids(1)] fold_patches_distinct [OF ys(1) ids(2)] ys(2) by (rule sorted_nodes_determined)
    with Inr ys maps rest show ?thesis by (simp add: apply_patch_operations_def)
  qed
qed

section \<open>Actions\<close>

text \<open>What an action needs, without the order of the checks.\<close>

definition sees_instance :: "component_ref \<Rightarrow> string \<Rightarrow> ui_state \<Rightarrow> bool" where
  "sees_instance layer i s \<longleftrightarrow>
     (case us_instances s i of
        None \<Rightarrow> False
      | Some target \<Rightarrow> ui_active target \<and>
          list_ex (\<lambda>(scope, l). al_owner l = layer \<and> (ui_scope target = scope \<or> map_option fp_scope (al_focused l) = Some (ui_scope target)))
            (us_layers s))"

definition shows_control :: "ui_action_event \<Rightarrow> ui_snapshot \<Rightarrow> bool" where
  "shows_control e snapshot \<longleftrightarrow>
     snap_revision snapshot = event_revision e \<and>
     list_ex (\<lambda>n. node_id n = event_node e \<and> has_action (node_kind n) (event_action e) \<and>
       is_action_enabled (node_kind n) (event_action e) \<and>
       accepts_action_payload (node_kind n) (event_action e) (event_payload e)) (snap_nodes snapshot)"

definition action_allowed :: "component_ref \<Rightarrow> ui_action_event \<Rightarrow> component_ref \<Rightarrow> ui_state \<Rightarrow> bool" where
  "action_allowed layer e owner s \<longleftrightarrow>
     sees_instance layer (event_owner_instance e) s \<and>
     list_ex (\<lambda>m. fst m = (event_owner_instance e, event_surface e) \<and> shows_control e (snd m)) (us_mounted s) \<and>
     map_option os_owner (us_registered s (event_owner_instance e, event_surface e)) = Some owner"

lemma check_event_iff:
  assumes "distinct (map node_id (snap_nodes snapshot))"
  shows "check_event snapshot e = Inr u \<longleftrightarrow> shows_control e snapshot"
proof (cases "find_node (snap_nodes snapshot) (event_node e)")
  case None
  then have "n \<in> set (snap_nodes snapshot) \<Longrightarrow> node_id n \<noteq> event_node e" for n
    by (force simp: find_node_None node_ids_def)
  with None show ?thesis by (auto simp: check_event_def shows_control_def list_ex_iff)
next
  case (Some n)
  have "m = n" if "m \<in> set (snap_nodes snapshot)" "node_id m = event_node e" for m
    using find_node_unique [OF assms that(1)] that(2) Some by simp
  with find_node_Some [OF Some] Some show ?thesis
    by (auto simp: check_event_def shows_control_def list_ex_iff result_simps)
qed

lemma layer_instance:
  "layers_attached s \<Longrightarrow> map_of (us_layers s) scope = Some l \<Longrightarrow>
    \<exists>inst. us_instances s (ref_instance (al_owner l)) = Some inst \<and> ui_scope inst = scope"
  unfolding layers_attached_def by blast

lemma find_layer_unique:
  assumes attached: "layers_attached s" and l: "map_of (us_layers s) scope = Some l"
  shows "find_layer (al_owner l) s = Some (scope, l)"
proof (cases "find_layer (al_owner l) s")
  case None
  then show ?thesis using map_of_SomeD [OF l] by (auto simp: find_layer_def find_None_iff)
next
  case (Some e)
  obtain k m where e: "e = (k, m)" by (cases e)
  note found = find_layer_Some [OF Some [unfolded e] attached]
  then have "k = scope" using layer_instance [OF attached found(1)] layer_instance [OF attached l] by auto
  then show ?thesis using found l Some e by simp
qed

lemma sees_instance_iff:
  assumes attached: "layers_attached s"
  shows "sees_instance layer i s \<longleftrightarrow> (\<exists>scope l target. find_layer layer s = Some (scope, l) \<and> us_instances s i = Some target \<and>
    ui_active target \<and> sees_scope scope (al_focused l) (ui_scope target))"
proof -
  have entry: "(scope, l) \<in> set (us_layers s) \<and> al_owner l = layer \<longleftrightarrow> find_layer layer s = Some (scope, l)" for scope l
    using find_layer_unique [OF attached, of scope l] find_layer_Some [OF _ attached, of layer scope l] attached
    by (auto simp: layers_attached_def)
  have seen: "ui_scope target = scope \<or> map_option fp_scope (al_focused l) = Some (ui_scope target) \<longleftrightarrow>
      sees_scope scope (al_focused l) (ui_scope target)" for scope l target
    by (auto simp: sees_scope_def split: option.split)
  have "(\<exists>x \<in> set (us_layers s). case x of (scope, l) \<Rightarrow> al_owner l = layer \<and> B scope l) \<longleftrightarrow>
      (\<exists>scope l. find_layer layer s = Some (scope, l) \<and> B scope l)" for B
    unfolding entry [symmetric] by auto
  then show ?thesis unfolding sees_instance_def list_ex_iff seen by (auto split: option.split)
qed

text \<open>
  C18. After any history, an action that a layer reports is routed exactly when the layer sees the active instance the action
  names, that instance has the surface mounted at the revision of the action, and the surface shows a control with the action,
  enabled and accepting the payload; it goes to the component of that instance that registered the surface, as it was sent.
\<close>

theorem actions_reach_only_shown_controls:
  "(route_action layer e (ui_history es) = Inr (owner, e') \<longleftrightarrow> e' = e \<and> action_allowed layer e owner (ui_history es)) \<and>
   (route_action layer e (ui_history es) = Inr (owner, e') \<longrightarrow> ref_instance owner = event_owner_instance e)"
proof -
  let ?s = "ui_history es" and ?key = "(event_owner_instance e, event_surface e)"
  note inv = ui_invD [OF history_inv [of es]]
  have owner: "ref_instance (os_owner r) = event_owner_instance e" if "us_registered ?s ?key = Some r" for r
    using inv(1) that by (simp add: registrations_owned_def)
  have tree: "distinct (map node_id (snap_nodes snapshot))" if "map_of (us_mounted ?s) ?key = Some snapshot" for snapshot
    using inv(3) that by (auto simp: mounted_trees_def ui_tree_def)
  have mounted: "list_ex (\<lambda>m. fst m = ?key \<and> shows_control e (snd m)) (us_mounted ?s) \<longleftrightarrow>
      (\<exists>snapshot. map_of (us_mounted ?s) ?key = Some snapshot \<and> check_event snapshot e = Inr ())"
  proof -
    have "(\<exists>m \<in> set (us_mounted ?s). fst m = ?key \<and> shows_control e (snd m)) \<longleftrightarrow>
        (\<exists>snapshot. (?key, snapshot) \<in> set (us_mounted ?s) \<and> shows_control e snapshot)" by force
    moreover have "(?key, snapshot) \<in> set (us_mounted ?s) \<longleftrightarrow> map_of (us_mounted ?s) ?key = Some snapshot" for snapshot
      using inv(3) by (simp add: mounted_trees_def)
    ultimately show ?thesis unfolding list_ex_iff using tree check_event_iff by blast
  qed
  have "route_action layer e ?s = Inr (owner, e') \<longleftrightarrow> e' = e \<and> action_allowed layer e owner ?s"
    unfolding action_allowed_def sees_instance_iff [OF inv(4)] mounted
    by (auto simp: route_action_def result_simps split: option.split)
  moreover have "ref_instance owner = event_owner_instance e" if "route_action layer e ?s = Inr (owner, e')"
    using that owner by (auto elim: route_action_ok)
  ultimately show ?thesis by blast
qed

section \<open>Queues\<close>




section \<open>Withdrawal\<close>

lemma withdrawn_exactly:
  assumes inv: "ui_inv s" and i: "us_instances s i = Some inst"
  shows "us_mounted (withdraw_instance i inst s) = filter (\<lambda>m. fst (fst m) \<noteq> i) (us_mounted s)"
    and "us_layers (withdraw_instance i inst s) = filter (\<lambda>l. ref_instance (al_owner (snd l)) \<noteq> i) (us_layers s)"
proof -
  have "snd key \<in> set (ui_surfaces inst)" if "(key, snapshot) \<in> set (us_mounted s)" "fst key = i" for key snapshot
  proof -
    have "map_of (us_mounted s) key = Some snapshot" using that(1) ui_invD(3) [OF inv] by (simp add: mounted_trees_def)
    then show ?thesis using that(2) i ui_invD(1,3) [OF inv]
      unfolding registrations_owned_def mounted_trees_def by (cases key) fastforce
  qed
  then show "us_mounted (withdraw_instance i inst s) = filter (\<lambda>m. fst (fst m) \<noteq> i) (us_mounted s)"
    by (auto simp: withdraw_instance_def intro!: filter_cong)
  have layer: "scope = ui_scope inst" if "(scope, l) \<in> set (us_layers s)" "ref_instance (al_owner l) = i" for scope l
    using that i ui_invD(4) [OF inv] unfolding layers_attached_def by fastforce
  have entry: "(scope, l) \<in> set (us_layers s) \<longleftrightarrow> map_of (us_layers s) scope = Some l" for scope l
    using ui_invD(4) [OF inv] by (simp add: layers_attached_def)
  show "us_layers (withdraw_instance i inst s) = filter (\<lambda>l. ref_instance (al_owner (snd l)) \<noteq> i) (us_layers s)"
  proof (cases "\<exists>l. map_of (us_layers s) (ui_scope inst) = Some l \<and> ref_instance (al_owner l) = i")
    case True
    then obtain l where l: "map_of (us_layers s) (ui_scope inst) = Some l" "ref_instance (al_owner l) = i" by blast
    have "(case e of (k, _) \<Rightarrow> ui_scope inst \<noteq> k) \<longleftrightarrow> ref_instance (al_owner (snd e)) \<noteq> i" if "e \<in> set (us_layers s)" for e
    proof -
      obtain k m where e: "e = (k, m)" by (cases e)
      with that entry have "map_of (us_layers s) k = Some m" by blast
      with l that layer [of k m] show ?thesis unfolding e by (cases "k = ui_scope inst") auto
    qed
    then have "AList.delete (ui_scope inst) (us_layers s) = filter (\<lambda>l. ref_instance (al_owner (snd l)) \<noteq> i) (us_layers s)"
      unfolding AList.delete_eq by (rule filter_cong [OF refl])
    with l show ?thesis by (simp add: withdraw_instance_def)
  next
    case False
    then have "ref_instance (al_owner (snd e)) \<noteq> i" if "e \<in> set (us_layers s)" for e
      using that layer [of "fst e" "snd e"] entry by (cases e) auto
    with False show ?thesis by (auto simp: withdraw_instance_def split: option.split)
  qed
qed

text \<open>
  C22. The removal of an instance takes away all of it and nothing else: its registration, surfaces, layer descriptors and world
  presentations, what it has mounted, the layer it renders, and the queued actions and focus requests from it or for it.
\<close>

theorem removal_takes_exactly_the_instance:
  "let s = ui_history es; s' = unregister_ui_instance i s in
     us_instances s' = (us_instances s)(i := None) \<and>
     us_registered s' = (\<lambda>k. if fst k = i then None else us_registered s k) \<and>
     us_descriptors s' = (\<lambda>o'. if ref_instance o' = i then None else us_descriptors s o') \<and>
     us_presentations s' = (\<lambda>o'. if ref_instance o' = i then None else us_presentations s o') \<and>
     us_mounted s' = filter (\<lambda>m. fst (fst m) \<noteq> i) (us_mounted s) \<and>
     us_layers s' = filter (\<lambda>l. ref_instance (al_owner (snd l)) \<noteq> i) (us_layers s) \<and>
     us_actions s' = filter (\<lambda>q. ref_instance (qa_layer q) \<noteq> i \<and> event_owner_instance (qa_event q) \<noteq> i) (us_actions s) \<and>
     us_focus s' = filter (\<lambda>q. ref_instance (qf_layer q) \<noteq> i) (us_focus s)"
proof -
  let ?s = "ui_history es" and ?s' = "unregister_ui_instance i (ui_history es)"
  note inv = history_inv [of es]
  note parts = ui_invD [OF inv]
  show ?thesis
  proof (cases "us_instances ?s i")
    case (Some inst)
    have "surface \<in> set (ui_surfaces inst)" if "us_registered ?s (i, surface) = Some r" for surface r
      using parts(1) Some that unfolding registrations_owned_def by fastforce
    then have "us_registered ?s' = (\<lambda>k. if fst k = i then None else us_registered ?s k)"
      using Some by (fastforce simp: unregister_ui_instance_def fun_eq_iff)
    then show ?thesis using Some withdrawn_exactly [OF inv Some]
      by (simp add: Let_def unregister_ui_instance_def) (simp add: withdraw_instance_def)
  next
    case None
    have gone: "us_registered ?s k = None" if "fst k = i" for k
      using unregistered_surface [OF parts(1) None, of "snd k"] that by (cases k) auto
    have "us_descriptors ?s o' = None \<and> us_presentations ?s o' = None" if "ref_instance o' = i" for o'
      using parts(2) gone None that unfolding declarations_owned_def by (metis fst_conv not_None_eq)
    moreover have "fst (fst m) \<noteq> i" if "m \<in> set (us_mounted ?s)" for m
    proof -
      have "map_of (us_mounted ?s) (fst m) = Some (snd m)" using that parts(3) by (simp add: mounted_trees_def)
      then have "us_registered ?s (fst m) \<noteq> None" using parts(3) unfolding mounted_trees_def by blast
      then show ?thesis using gone [of "fst m"] by auto
    qed
    moreover have "ref_instance (al_owner (snd l)) \<noteq> i" if "l \<in> set (us_layers ?s)" for l
    proof -
      have "map_of (us_layers ?s) (fst l) = Some (snd l)" using that parts(4) by (simp add: layers_attached_def)
      from layer_instance [OF parts(4) this] None show ?thesis by auto
    qed
    moreover have "ref_instance (qa_layer q) \<noteq> i \<and> event_owner_instance (qa_event q) \<noteq> i" if "q \<in> set (us_actions ?s)" for q
      using that parts(5) None by (auto simp: queues_bounded_def instance_active_def)
    moreover have "ref_instance (qf_layer q) \<noteq> i" if "q \<in> set (us_focus ?s)" for q
      using that parts(4,5) None unfolding queues_bounded_def layers_attached_def by fastforce
    ultimately have kept: "(\<lambda>o'. if ref_instance o' = i then None else us_descriptors ?s o') = us_descriptors ?s"
      "(\<lambda>o'. if ref_instance o' = i then None else us_presentations ?s o') = us_presentations ?s"
      "filter (\<lambda>m. fst (fst m) \<noteq> i) (us_mounted ?s) = us_mounted ?s"
      "filter (\<lambda>l. ref_instance (al_owner (snd l)) \<noteq> i) (us_layers ?s) = us_layers ?s"
      "filter (\<lambda>q. ref_instance (qa_layer q) \<noteq> i \<and> event_owner_instance (qa_event q) \<noteq> i) (us_actions ?s) = us_actions ?s"
      "filter (\<lambda>q. ref_instance (qf_layer q) \<noteq> i) (us_focus ?s) = us_focus ?s"
      by (simp_all add: fun_eq_iff filter_id_conv)
    have "(us_instances ?s)(i := None) = us_instances ?s" "(\<lambda>k. if fst k = i then None else us_registered ?s k) = us_registered ?s"
      using None gone by auto
    with kept None show ?thesis unfolding Let_def unregister_ui_instance_def by simp
  qed
qed

section \<open>What a layer is shown\<close>

definition shown_to :: "string \<Rightarrow> focused_presentation option \<Rightarrow> ui_state \<Rightarrow> (string \<times> string) \<times> ui_snapshot \<Rightarrow> bool" where
  "shown_to scope focused s m \<longleftrightarrow>
     (case us_instances s (fst (fst m)) of
        None \<Rightarrow> False
      | Some inst \<Rightarrow> ui_active inst \<and> (ui_scope inst = scope \<or> map_option fp_scope focused = Some (ui_scope inst)))"

lemma layer_contexts_dom: "layer_contexts scope focused x \<noteq> None \<longleftrightarrow> sees_scope scope focused x"
  by (auto simp: layer_contexts_def sees_scope_def split: option.split)

lemma presentation_of_Some:
  "presentation_of (Some (layer_contexts scope focused)) s m = Some p \<longleftrightarrow>
     (\<exists>r inst c. us_registered s (fst m) = Some r \<and> us_instances s (fst (fst m)) = Some inst \<and> ui_active inst \<and>
        layer_contexts scope focused (ui_scope inst) = Some c \<and>
        p = \<lparr>pr_owner = os_owner r, pr_context = Some c, pr_contribution = os_contribution r, pr_snapshot = snd m\<rparr>)"
  by (auto simp: presentation_of_def split: option.splits if_split_asm)


lemma map_insort_key: "map g (insort_key (\<lambda>x. k (g x)) x xs) = insort_key k (g x) (map g xs)"
  by (induction xs) auto

lemma map_sort_key: "map g (sort_key (\<lambda>x. k (g x)) xs) = sort_key k (map g xs)"
  by (induction xs) (simp_all add: map_insort_key)

lemma map_filter_eq_filter:
  assumes "\<And>x. x \<in> set xs \<Longrightarrow> f x = None \<and> \<not> P x \<or> (\<exists>y. f x = Some y \<and> P x \<and> g y = x)"
  shows "map g (List.map_filter f xs) = filter P xs"
  using assms by (induction xs) (fastforce simp: map_filter_simps)+

text \<open>
  A layer is shown exactly the mounted surfaces of the active instances of its scope and of the world it is focused on,
  each once, ordered by instance and surface.
\<close>

theorem layer_is_shown_what_it_sees:
  assumes "find_layer owner (ui_history es) = Some (scope, l)"
    and "presentation_surfaces_for_layer owner (ui_history es) = Inr ps"
  shows "map (\<lambda>p. (presentation_order p, pr_snapshot p)) ps =
    sort_key fst (filter (shown_to scope (al_focused l) (ui_history es)) (us_mounted (ui_history es)))"
proof -
  let ?s = "ui_history es"
  let ?f = "presentation_of (Some (layer_contexts scope (al_focused l))) ?s" and ?g = "\<lambda>p. (presentation_order p, pr_snapshot p)"
  let ?shown = "shown_to scope (al_focused l) ?s"
  note inv = ui_invD [OF history_inv [of es]]
  have "?f m = None \<and> \<not> ?shown m \<or> (\<exists>p. ?f m = Some p \<and> ?shown m \<and> ?g p = m)" if m: "m \<in> set (us_mounted ?s)" for m
  proof -
    have "map_of (us_mounted ?s) (fst m) = Some (snd m)" using m inv(3) by (simp add: mounted_trees_def)
    then have "us_registered ?s (fst m) \<noteq> None" using inv(3) unfolding mounted_trees_def by blast
    then obtain r where r: "us_registered ?s (fst m) = Some r" by blast
    then have "(ref_instance (os_owner r), contribution_id (os_contribution r)) = fst m"
      using inv(1) by (cases "fst m") (auto simp: registrations_owned_def)
    then have order: "?g p = m" if "?f m = Some p" for p
      using that r by (cases m) (auto simp: presentation_of_Some presentation_order_def)
    have "?f m \<noteq> None \<longleftrightarrow> ?shown m"
    proof (cases "us_instances ?s (fst (fst m))")
      case (Some inst)
      have "layer_contexts scope (al_focused l) (ui_scope inst) \<noteq> None \<longleftrightarrow>
          ui_scope inst = scope \<or> map_option fp_scope (al_focused l) = Some (ui_scope inst)"
        unfolding layer_contexts_dom sees_scope_def by (auto split: option.split)
      then show ?thesis using r Some by (auto simp: presentation_of_def shown_to_def)
    qed (use r in \<open>simp add: presentation_of_def shown_to_def\<close>)
    with order show ?thesis by (cases "?f m") auto
  qed
  then have "map ?g (List.map_filter ?f (us_mounted ?s)) = filter ?shown (us_mounted ?s)" by (rule map_filter_eq_filter)
  moreover have "ps = sort_key (\<lambda>p. fst (?g p)) (List.map_filter ?f (us_mounted ?s))"
    using assms by (simp add: presentation_surfaces_for_layer_def collect_presentations_def)
  ultimately show ?thesis by (simp only: map_sort_key [of ?g fst])
qed

end
