(* ===== verification/Ui_Witnesses.thy ===== *)
theory Ui_Witnesses
  imports Ui_Properties
begin

text \<open>A renderer, an application with one panel, and an order of calls that shows the panel to a layer without its capabilities.\<close>

text \<open>The walks of the validator evaluate by their equations.\<close>

declare climb.simps [code] visit.simps [code]

section \<open>A panel\<close>

definition ex_panel :: component_ref where "ex_panel = \<lparr>ref_instance = ''app'', ref_component = ''main''\<rparr>"
definition ex_renderer :: component_ref where "ex_renderer = \<lparr>ref_instance = ''ui'', ref_component = ''main''\<rparr>"

definition ex_surface :: owned_surface where
  "ex_surface = \<lparr>os_owner = ex_panel,
     os_contribution = \<lparr>contribution_id = ''panel'', contribution_placement = Primary, contribution_semantic = None,
       contribution_activity = None, contribution_traits = [], contribution_capabilities = []\<rparr>\<rparr>"

definition ex_node :: "string \<Rightarrow> ui_node_kind \<Rightarrow> ui_node" where
  "ex_node i k = \<lparr>node_id = i, node_semantic = None, node_traits = [], node_kind = k\<rparr>"

definition ex_go :: ui_node where
  "ex_go = ex_node ''go'' (ButtonNode \<lparr>button_label = ''Go'', button_action = ''run'', button_enabled = True,
     button_appearance = DefaultAppearance\<rparr>)"

definition ex_form :: ui_snapshot where
  "ex_form = \<lparr>snap_surface = ''panel'', snap_revision = 1, snap_root = ''root'',
     snap_nodes = [ex_node ''root'' (ColumnNode [''go'']), ex_go]\<rparr>"

definition ex_descriptor :: "string list \<Rightarrow> ui_layer_descriptor" where
  "ex_descriptor capabilities = \<lparr>layer_protocol = 1, layer_capabilities = capabilities\<rparr>"

definition ex_capabilities :: "string list" where
  "ex_capabilities = [''rintawa.ui.layout.column@1'', ''rintawa.ui.button@1'', ''rintawa.ui.text@1'']"

definition ex_calls :: "ui_event list" where
  "ex_calls = [RegisterUi ''ui'' ''w'' [] [], RegisterUi ''app'' ''w'' [ex_surface] [], SetActive ''ui'' True, SetActive ''app'' True,
     Attach ex_renderer (ex_descriptor ex_capabilities), Mount ex_panel ex_form]"

definition ex_batch :: ui_patch_batch where
  "ex_batch = \<lparr>batch_surface = ''panel'', batch_base = 1, batch_next = 2,
     batch_patches = [UpsertNode (ex_node ''hint'' (TextNode ''Ready'')), InsertChild ''root'' 0 ''hint'']\<rparr>"

definition ex_event :: ui_action_event where
  "ex_event = \<lparr>event_owner_instance = ''app'', event_surface = ''panel'', event_node = ''go'', event_action = ''run'',
     event_revision = 1, event_payload = NoPayload\<rparr>"

definition ex_layer :: active_layer where
  "ex_layer = \<lparr>al_owner = ex_renderer, al_descriptor = ex_descriptor ex_capabilities, al_capabilities = ex_capabilities,
     al_focused = None, al_pending = None, al_error = None\<rparr>"

definition ex_presentation :: ui_presentation where
  "ex_presentation = \<lparr>pr_owner = ex_panel, pr_context = Some LayerLocal, pr_contribution = os_contribution ex_surface, pr_snapshot = ex_form\<rparr>"

lemma ex_mounted: "us_mounted (ui_history ex_calls) = [((''app'', ''panel''), ex_form)]"
  by code_simp

lemma ex_attached: "find_layer ex_renderer (ui_history ex_calls) = Some (''w'', ex_layer)"
  by code_simp

lemma ex_shown: "presentation_surfaces_for_layer ex_renderer (ui_history ex_calls) = Inr [ex_presentation]"
  by code_simp

lemma ex_patched: "map_option (map_ok us_mounted) (apply_patches ex_panel ex_batch (ui_history ex_calls)) =
    Some (Inr [((''app'', ''panel''),
      ex_form\<lparr>snap_revision := 2, snap_nodes := [ex_go, ex_node ''hint'' (TextNode ''Ready''), ex_node ''root'' (ColumnNode [''hint'', ''go''])]\<rparr>)])"
  by code_simp

lemma mounted_surfaces_are_owned_trees_witness:
  "owned_mount (ui_history ex_calls) ((''app'', ''panel''), ex_form)"
  using mounted_surfaces_are_owned_trees [of ex_calls] by (simp add: ex_mounted)

lemma accepted_patches_edit_one_surface_witness:
  "\<exists>s' old new. apply_patches ex_panel ex_batch (ui_history ex_calls) = Some (Inr s') \<and>
     map_of (us_mounted (ui_history ex_calls)) (''app'', ''panel'') = Some old \<and>
     map_of (us_mounted s') (''app'', ''panel'') = Some new \<and> uint (snap_revision new) = uint (snap_revision old) + 1"
proof -
  obtain r where r: "apply_patches ex_panel ex_batch (ui_history ex_calls) = Some r" "\<And>e. r \<noteq> Inl e"
    using ex_patched by fastforce
  then obtain s' where s': "apply_patches ex_panel ex_batch (ui_history ex_calls) = Some (Inr s')" by (cases r) auto
  from accepted_patches_edit_one_surface [OF this] obtain old new where
    "map_of (us_mounted (ui_history ex_calls)) (ref_instance ex_panel, batch_surface ex_batch) = Some old"
    "map_of (us_mounted s') = (map_of (us_mounted (ui_history ex_calls)))((ref_instance ex_panel, batch_surface ex_batch) \<mapsto> new)"
    "uint (snap_revision new) = uint (snap_revision old) + 1"
    by blast
  then show ?thesis using s' by (intro exI [of _ s'] exI [of _ old] exI [of _ new]) (simp add: ex_panel_def ex_batch_def)
qed

lemma patches_ignore_node_order_witness:
  "apply_patch_operations (batch_patches ex_batch) ex_form =
   apply_patch_operations (batch_patches ex_batch) (ex_form\<lparr>snap_nodes := [ex_go, ex_node ''root'' (ColumnNode [''go''])]\<rparr>)"
  by (rule patches_ignore_node_order) (auto simp: ex_form_def ex_go_def ex_node_def)

lemma actions_reach_only_shown_controls_witness:
  "route_action ex_renderer ex_event (ui_history ex_calls) = Inr (ex_panel, ex_event) \<and>
   action_allowed ex_renderer ex_event ex_panel (ui_history ex_calls)"
proof -
  have "route_action ex_renderer ex_event (ui_history ex_calls) = Inr (ex_panel, ex_event)" by code_simp
  with actions_reach_only_shown_controls [of ex_renderer ex_event ex_calls ex_panel ex_event] show ?thesis by blast
qed


lemma layer_is_shown_what_it_sees_witness:
  "[((''app'', ''panel''), ex_form)] =
    sort_key fst (filter (shown_to ''w'' None (ui_history ex_calls)) [((''app'', ''panel''), ex_form)])"
proof -
  have entry: "map (\<lambda>p. (presentation_order p, pr_snapshot p)) [ex_presentation] = [((''app'', ''panel''), ex_form)]" by code_simp
  have focused: "al_focused ex_layer = None" by (simp add: ex_layer_def)
  show ?thesis
    by (rule layer_is_shown_what_it_sees [OF ex_attached ex_shown, unfolded entry ex_mounted focused])
qed

section \<open>An order of calls that escapes the check\<close>



end
