(* ===== verification/Artifact_Text.thy ===== *)
theory Artifact_Text
  imports Rust_Text
begin

text \<open>
  The identities of packages (\<open>crates/artifacts/src\<close>): errors (\<open>error.rs\<close>), digests (\<open>digest.rs\<close>), paths inside a package
  (\<open>path.rs\<close>), content types and manifests (\<open>manifest.rs\<close>).
\<close>

unbundle bit_operations_syntax

section \<open>Errors\<close>

datatype (plugins only: code size) rtw_error =
    RtwIo string | RtwZip string | ManifestParse string | ManifestEncode string | UnsupportedFormat u32 u32
  | InvalidContentType string string | InvalidPath string string | ArchiveTooLarge u64 u64 | TooManyEntries nat nat
  | EntryTooLarge string u64 u64 | UncompressedArchiveTooLarge u64 u64 | EncryptedEntry string
  | UnsupportedCompression string | UnsupportedEntryType string | DuplicateEntry string | PathConflict string
  | MissingManifest | ManifestTooLarge u64 u64 | InvalidManifestEncoding | EntryNotFound string
  | MissingContentEntry string | SourceNotDirectory string | UnsupportedSourceEntry string
  | OutputAlreadyExists string | OutputInsideSource string | InvalidDigest string | StoredArtifactNotFound string
  | StoreCorruption string | InvalidStoreEntry string string

section \<open>Text\<close>

text \<open>\<open>str::from_utf8\<close>: the well-formed byte sequences of the Unicode standard.\<close>

definition continuation :: "byte \<Rightarrow> bool" where "continuation b \<longleftrightarrow> 128 \<le> b \<and> b \<le> 191"

fun utf8_valid :: "blob \<Rightarrow> bool" where
  "utf8_valid [] = True"
| "utf8_valid (a # bs) =
     (if a < 128 then utf8_valid bs
      else case bs of
        [] \<Rightarrow> False
      | b # bs' \<Rightarrow>
          if 194 \<le> a \<and> a \<le> 223 then continuation b \<and> utf8_valid bs'
          else case bs' of
            [] \<Rightarrow> False
          | c # bs'' \<Rightarrow>
              if 224 \<le> a \<and> a \<le> 239
              then continuation b \<and> (a = 224 \<longrightarrow> 160 \<le> b) \<and> (a = 237 \<longrightarrow> b \<le> 159) \<and> continuation c \<and> utf8_valid bs''
              else case bs'' of
                [] \<Rightarrow> False
              | d # bs''' \<Rightarrow>
                  240 \<le> a \<and> a \<le> 244 \<and> continuation b \<and> (a = 240 \<longrightarrow> 144 \<le> b) \<and> (a = 244 \<longrightarrow> b \<le> 143) \<and>
                  continuation c \<and> continuation d \<and> utf8_valid bs''')"

definition bytes_text :: "blob \<Rightarrow> string" where "bytes_text bs = map (\<lambda>b. char_of (unat b)) bs"
definition text_bytes :: "string \<Rightarrow> blob" where "text_bytes t = map (\<lambda>c. of_nat (of_char c)) t"

definition from_utf8 :: "blob \<Rightarrow> string option" where
  "from_utf8 bs = (if utf8_valid bs then Some (bytes_text bs) else None)"

text \<open>\<open>chars().any(char::is_control)\<close>: U+0000 to U+001F, U+007F, and U+0080 to U+009F, which are two bytes.\<close>

fun has_control :: "string \<Rightarrow> bool" where
  "has_control [] = False"
| "has_control (c # cs) =
     ((of_char c :: nat) < 32 \<or> (of_char c :: nat) = 127 \<or>
      (of_char c :: nat) = 194 \<and> (case cs of [] \<Rightarrow> False | d # _ \<Rightarrow> 128 \<le> (of_char d :: nat) \<and> (of_char d :: nat) < 160) \<or>
      has_control cs)"

section \<open>Digests\<close>

definition SHA256_PREFIX :: string where "SHA256_PREFIX = ''sha256:''"

definition hex_digit :: "byte \<Rightarrow> char" where
  "hex_digit n = ''0123456789abcdef'' ! unat n"

definition encode_hex :: "blob \<Rightarrow> string" where
  "encode_hex bs = concat (map (\<lambda>b. [hex_digit (drop_bit 4 b), hex_digit (b AND 15)]) bs)"

definition hex_nibble :: "char \<Rightarrow> byte" where
  "hex_nibble c =
     (if is_ascii_digit c then of_nat (of_char c) - 48
      else if 97 \<le> (of_char c :: nat) \<and> (of_char c :: nat) \<le> 102 then of_nat (of_char c) - 97 + 10
      else 0)"

fun decode_pairs :: "string \<Rightarrow> blob" where
  "decode_pairs (a # b # rest) = (push_bit 4 (hex_nibble a) OR hex_nibble b) # decode_pairs rest"
| "decode_pairs _ = []"

definition artifact_digest_parse :: "string \<Rightarrow> rtw_error + blob" where
  "artifact_digest_parse value =
     (case strip_prefix SHA256_PREFIX value of
        None \<Rightarrow> Inl (InvalidDigest value)
      | Some hex \<Rightarrow>
          if length hex \<noteq> 64 \<or> \<not> list_all is_lower_hex hex then Inl (InvalidDigest value)
          else Inr (decode_pairs hex))"

definition artifact_digest_display :: "blob \<Rightarrow> string" where
  "artifact_digest_display d = SHA256_PREFIX @ encode_hex d"

section \<open>Paths\<close>

definition without_slash :: "string \<Rightarrow> string" where
  "without_slash value = (case strip_suffix ''/'' value of None \<Rightarrow> value | Some v \<Rightarrow> v)"

definition validate_segments :: "string \<Rightarrow> bool \<Rightarrow> rtw_error + unit" where
  "validate_segments value is_directory =
     (let normalized = (if is_directory then without_slash value else value) in
      and_then (ensure (value \<noteq> []) (InvalidPath value ''path cannot be empty'')) (\<lambda>_.
      and_then (ensure (hd value \<noteq> CHR ''/'') (InvalidPath value ''absolute paths are not allowed'')) (\<lambda>_.
      and_then (ensure (CHR 0x5C \<notin> set value) (InvalidPath value ''backslashes are not allowed'')) (\<lambda>_.
      and_then (ensure (CHR '':'' \<notin> set value) (InvalidPath value ''colon is not allowed in portable artifact paths'')) (\<lambda>_.
      and_then (ensure (\<not> has_control value) (InvalidPath value ''control characters are not allowed'')) (\<lambda>_.
      and_then (ensure (normalized \<noteq> []) (InvalidPath value ''root directory entries are not allowed'')) (\<lambda>_.
      and_then (ensure ([] \<notin> set (split_on (CHR ''/'') normalized)) (InvalidPath value ''empty path segments are not allowed'')) (\<lambda>_.
      ensure (\<not> list_ex (\<lambda>segment. segment = ''.'' \<or> segment = ''..'') (split_on (CHR ''/'') normalized))
        (InvalidPath value (CHR 0x60 # ''.'' @ CHR 0x60 # '' and '' @ CHR 0x60 # ''..'' @ CHR 0x60 # '' path segments are not allowed''))))))))))"

definition validate_archive_name :: "string \<Rightarrow> bool \<Rightarrow> rtw_error + string" where
  "validate_archive_name value is_directory =
     (let candidate = (if is_directory then without_slash value else value) in
      and_then (validate_segments candidate is_directory) (\<lambda>_.
      and_then (ensure (is_directory \<or> \<not> ends_with value ''/'')
        (InvalidPath value (''regular files cannot end with '' @ CHR 0x60 # ''/'' @ [CHR 0x60]))) (\<lambda>_.
      and_then (ensure (\<not> is_directory \<or> ends_with value ''/'')
        (InvalidPath value (''directory entries must end with '' @ CHR 0x60 # ''/'' @ [CHR 0x60]))) (\<lambda>_.
      Inr candidate))))"

definition validate_file_path :: "string \<Rightarrow> rtw_error + unit" where
  "validate_file_path value =
     and_then (validate_segments value False) (\<lambda>_.
     ensure (\<not> ends_with value ''/'') (InvalidPath value (''file paths cannot end with '' @ CHR 0x60 # ''/'' @ [CHR 0x60])))"

definition artifact_path_parse :: "string \<Rightarrow> rtw_error + string" where
  "artifact_path_parse value = and_then (validate_file_path value) (\<lambda>_. Inr value)"

definition parent_paths :: "string \<Rightarrow> string list" where
  "parent_paths path = map (\<lambda>i. take i path) (filter (\<lambda>i. path ! i = CHR ''/'') [0..<length path])"

section \<open>Content types and manifests\<close>

record content_type =
  ct_id :: string
  ct_major :: u32

definition is_id_char :: "char \<Rightarrow> bool" where
  "is_id_char c \<longleftrightarrow> is_ascii_lowercase c \<or> is_ascii_digit c \<or> c = CHR ''-'' \<or> c = CHR ''_''"

fun validate_id_segments :: "string list \<Rightarrow> string + unit" where
  "validate_id_segments [] = Inr ()"
| "validate_id_segments (s # ss) =
     (if s = [] then Inl ''namespace segments cannot be empty''
      else if \<not> list_all is_id_char s
        then Inl (''identifier uses characters outside '' @ CHR 0x60 # ''[a-z0-9_-]'' @ CHR 0x60 # '' and '' @ CHR 0x60 # ''.'' @ CHR 0x60 # '' separators'')
      else if \<not> is_ascii_alphanumeric (hd s) \<or> \<not> is_ascii_alphanumeric (last s)
        then Inl ''namespace segments must start and end with an ASCII letter or digit''
      else validate_id_segments ss)"

definition validate_content_id :: "string \<Rightarrow> string + unit" where
  "validate_content_id value =
     (if length value > 128 then Inl ''identifier must not exceed 128 bytes''
      else if length (split_on (CHR ''.'') value) < 2
        then Inl (''identifier must contain at least one namespace separator '' @ CHR 0x60 # ''.'' @ [CHR 0x60])
      else validate_id_segments (split_on (CHR ''.'') value))"

definition content_type_parse :: "string \<Rightarrow> rtw_error + content_type" where
  "content_type_parse value =
     (case rsplit_once (CHR ''@'') value of
        None \<Rightarrow> Inl (InvalidContentType value (''expected '' @ CHR 0x60 # ''<namespace>.<name>@<major>'' @ [CHR 0x60]))
      | Some (i, major) \<Rightarrow>
          and_then (map_err (InvalidContentType value) (validate_content_id i)) (\<lambda>_.
          if length major > 1 \<and> hd major = CHR ''0''
            then Inl (InvalidContentType value ''major version must use canonical decimal notation'')
          else case parse_u32 major of
            None \<Rightarrow> Inl (InvalidContentType value ''major version must be an unsigned integer'')
          | Some m \<Rightarrow> Inr \<lparr>ct_id = i, ct_major = m\<rparr>))"

definition content_type_display :: "content_type \<Rightarrow> string" where
  "content_type_display c = ct_id c @ ''@'' @ show_u32 (ct_major c)"

record rtw_manifest =
  mf_format :: u32
  mf_content :: content_type
  mf_entry :: string

definition RTW_FORMAT_VERSION :: u32 where "RTW_FORMAT_VERSION = 1"
definition RTW_MANIFEST_PATH :: string where "RTW_MANIFEST_PATH = ''rtw.toml''"

definition manifest_validate :: "rtw_manifest \<Rightarrow> rtw_error + unit" where
  "manifest_validate m =
     ensure (mf_format m = RTW_FORMAT_VERSION) (UnsupportedFormat (mf_format m) RTW_FORMAT_VERSION)"

end
