(* ===== verification/Artifact_Archive.thy ===== *)
theory Artifact_Archive
  imports Artifact_Text
begin

text \<open>
  Opening and packing of package archives (\<open>crates/artifacts/src/archive.rs\<close>, \<open>pack.rs\<close>). The ZIP library and the TOML library
  are parameters: what a ZIP reader says of every entry, and the three fields of a manifest.
\<close>

section \<open>The libraries\<close>

datatype zip_method = Stored | Deflated | OtherMethod

text \<open>An entry of an archive; its contents are the bytes that can be read and the error, if any, that ends them.\<close>

record zip_entry =
  ze_name_raw :: blob
  ze_name :: string
  ze_is_dir :: bool
  ze_is_symlink :: bool
  ze_unix_mode :: "u32 option"
  ze_method :: zip_method
  ze_encrypted :: bool
  ze_size :: u64
  ze_compressed :: u64
  ze_stream :: "blob \<times> string option"

text \<open>
  \<open>ZipArchive::new\<close> with \<open>by_index\<close>; \<open>toml::from_str\<close> up to the parsers of the fields, whose errors it wraps; \<open>toml::to_string\<close>;
  a \<open>ZipWriter\<close> given a method and files in order; SHA-256.
\<close>

record artifact_externs =
  ax_zip :: "blob \<Rightarrow> string + (string + zip_entry) list"
  ax_toml :: "string \<Rightarrow> string + u32 \<times> string \<times> string"
  ax_custom :: "string \<Rightarrow> rtw_error \<Rightarrow> string"
  ax_toml_text :: "rtw_manifest \<Rightarrow> string + string"
  ax_zip_write :: "zip_method \<Rightarrow> (string \<times> blob) list \<Rightarrow> string + blob"
  ax_sha256 :: "blob \<Rightarrow> blob"

section \<open>Limits\<close>

record rtw_limits =
  max_archive_bytes :: u64
  max_entries :: nat
  max_entry_bytes :: u64
  max_uncompressed_bytes :: u64
  max_manifest_bytes :: u64

definition default_limits :: rtw_limits where
  "default_limits = \<lparr>max_archive_bytes = 1024 * 1024 * 1024, max_entries = 100000, max_entry_bytes = 256 * 1024 * 1024,
     max_uncompressed_bytes = 2 * 1024 * 1024 * 1024, max_manifest_bytes = 64 * 1024\<rparr>"

text \<open>\<open>u64::saturating_add\<close>, and the length of bytes in memory.\<close>

definition saturating_add :: "u64 \<Rightarrow> u64 \<Rightarrow> u64" where
  "saturating_add a b = (case checked_add_u64 a b of None \<Rightarrow> - 1 | Some c \<Rightarrow> c)"

definition length_u64 :: "'a list \<Rightarrow> u64" where
  "length_u64 xs = (if length xs < 2 ^ 64 then of_nat (length xs) else - 1)"

section \<open>Entries\<close>

record artifact_entry =
  ae_path :: string
  ae_compressed :: u64
  ae_uncompressed :: u64

definition validate_compression :: "zip_entry \<Rightarrow> string \<Rightarrow> rtw_error + unit" where
  "validate_compression file path = ensure (ze_method file \<in> {Stored, Deflated}) (UnsupportedCompression path)"

definition validate_zip_entry_type :: "zip_entry \<Rightarrow> string \<Rightarrow> bool \<Rightarrow> rtw_error + unit" where
  "validate_zip_entry_type file path is_directory =
     (if ze_is_symlink file then Inl (UnsupportedEntryType path)
      else case ze_unix_mode file of
        None \<Rightarrow> Inr ()
      | Some mode \<Rightarrow>
          let file_type = and mode 0xF000; expected = (if is_directory then 0x4000 else 0x8000)
          in if file_type \<noteq> 0 \<and> file_type \<noteq> expected then Inl (UnsupportedEntryType path) else Inr ())"

text \<open>
  The state of the loop over the entries. The two maps of the code, from paths to entries and to their indices, are one list,
  whose keys are the files.
\<close>

record archive_scan =
  sc_files :: "(string \<times> nat \<times> artifact_entry) list"
  sc_directories :: "string list"
  sc_total :: u64

definition scan_new :: archive_scan where
  "scan_new = \<lparr>sc_files = [], sc_directories = [], sc_total = 0\<rparr>"

definition entry_name :: "zip_entry \<Rightarrow> rtw_error + string" where
  "entry_name file =
     and_then (ok_or (InvalidPath ''<non-utf8>'' ''ZIP entry names must be UTF-8'') (from_utf8 (ze_name_raw file))) (\<lambda>raw_name.
     and_then (ensure (raw_name = ze_name file)
       (InvalidPath (ze_name file) ''ZIP entry name must use canonical UTF-8 encoding'')) (\<lambda>_.
     validate_archive_name raw_name (ze_is_dir file)))"

definition scan_entry :: "rtw_limits \<Rightarrow> nat \<times> (string + zip_entry) \<Rightarrow> archive_scan \<Rightarrow> rtw_error + archive_scan" where
  "scan_entry limits ie sc =
     and_then (map_err RtwZip (snd ie)) (\<lambda>file.
     and_then (entry_name file) (\<lambda>normalized.
     and_then (validate_zip_entry_type file normalized (ze_is_dir file)) (\<lambda>_.
     and_then (validate_compression file normalized) (\<lambda>_.
     and_then (ensure (\<not> ze_encrypted file) (EncryptedEntry normalized)) (\<lambda>_.
     let total = saturating_add (sc_total sc) (ze_size file) in
     if total > max_uncompressed_bytes limits then Inl (UncompressedArchiveTooLarge total (max_uncompressed_bytes limits))
     else if ze_is_dir file
     then (if normalized \<in> set (map fst (sc_files sc)) then Inl (PathConflict normalized)
           else if normalized \<in> set (sc_directories sc) then Inl (DuplicateEntry normalized)
           else Inr (sc\<lparr>sc_directories := sc_directories sc @ [normalized], sc_total := total\<rparr>))
     else if ze_size file > max_entry_bytes limits then Inl (EntryTooLarge normalized (ze_size file) (max_entry_bytes limits))
     else if normalized \<in> set (sc_directories sc) then Inl (PathConflict normalized)
     else if normalized \<in> set (map fst (sc_files sc)) then Inl (DuplicateEntry normalized)
     else and_then (artifact_path_parse normalized) (\<lambda>path.
       Inr (sc\<lparr>sc_files := sc_files sc @
           [(path, fst ie, \<lparr>ae_path = path, ae_compressed = ze_compressed file, ae_uncompressed = ze_size file\<rparr>)],
         sc_total := total\<rparr>)))))))"

text \<open>The code goes through hash sets here, so which of several conflicts it reports is not determined; the model takes the first.\<close>

definition find_conflict :: "string list \<Rightarrow> string list \<Rightarrow> rtw_error + unit" where
  "find_conflict files paths =
     for_each (\<lambda>path. case find (\<lambda>parent. parent \<in> set files) (parent_paths path) of
       None \<Rightarrow> Inr () | Some parent \<Rightarrow> Inl (PathConflict parent)) paths"

definition validate_entries :: "rtw_limits \<Rightarrow> (string + zip_entry) list \<Rightarrow> rtw_error + (string \<times> nat \<times> artifact_entry) list" where
  "validate_entries limits archive =
     (if length archive > max_entries limits then Inl (TooManyEntries (length archive) (max_entries limits))
      else
        and_then (fold_result (scan_entry limits) (enumerate 0 archive) scan_new) (\<lambda>sc.
        and_then (find_conflict (map fst (sc_files sc)) (map fst (sc_files sc) @ sc_directories sc)) (\<lambda>_.
        if RTW_MANIFEST_PATH \<notin> set (map fst (sc_files sc)) then Inl MissingManifest
        else Inr (sc_files sc))))"

section \<open>Bounded reads\<close>

text \<open>\<open>take(n).read_to_end\<close>: an error is met only when the bytes before it do not fill the limit.\<close>

definition read_bounded :: "blob \<times> string option \<Rightarrow> nat \<Rightarrow> rtw_error + blob" where
  "read_bounded stream n =
     (if length (fst stream) \<ge> n then Inr (take n (fst stream))
      else case snd stream of None \<Rightarrow> Inr (fst stream) | Some e \<Rightarrow> Inl (RtwIo e))"

definition read_zip_entry :: "(string + zip_entry) list \<Rightarrow> nat \<Rightarrow> string \<Rightarrow> u64 \<Rightarrow> u64 \<Rightarrow> rtw_error + blob" where
  "read_zip_entry archive index path declared_size maximum =
     (if declared_size > maximum then Inl (EntryTooLarge path declared_size maximum)
      else
        and_then (map_err RtwZip (archive ! index)) (\<lambda>file.
        and_then (read_bounded (ze_stream file) (unat (saturating_add maximum 1))) (\<lambda>contents.
        if length_u64 contents > maximum then Inl (EntryTooLarge path (length_u64 contents) maximum) else Inr contents)))"

text \<open>\<open>toml::from_str\<close> calls the parsers of the content type and of the path on its fields.\<close>

definition parse_manifest :: "artifact_externs \<Rightarrow> string \<Rightarrow> rtw_error + rtw_manifest" where
  "parse_manifest X source =
     and_then (map_err ManifestParse (ax_toml X source)) (\<lambda>(format, content, entry).
     and_then (map_err (\<lambda>e. ManifestParse (ax_custom X source e)) (content_type_parse content)) (\<lambda>content.
     and_then (map_err (\<lambda>e. ManifestParse (ax_custom X source e)) (artifact_path_parse entry)) (\<lambda>entry.
     Inr \<lparr>mf_format = format, mf_content = content, mf_entry = entry\<rparr>)))"

definition read_manifest ::
  "artifact_externs \<Rightarrow> rtw_limits \<Rightarrow> (string + zip_entry) list \<Rightarrow> (string \<times> nat \<times> artifact_entry) list \<Rightarrow> rtw_error + rtw_manifest" where
  "read_manifest X limits archive entries =
     and_then (artifact_path_parse RTW_MANIFEST_PATH) (\<lambda>manifest_path.
     and_then (ok_or MissingManifest (map_of entries manifest_path)) (\<lambda>ie.
     and_then (map_err RtwZip (archive ! fst ie)) (\<lambda>file.
     and_then (ensure (\<not> ze_size file > max_manifest_bytes limits) (ManifestTooLarge (ze_size file) (max_manifest_bytes limits))) (\<lambda>_.
     and_then (read_zip_entry archive (fst ie) RTW_MANIFEST_PATH (ze_size file) (max_manifest_bytes limits)) (\<lambda>contents.
     and_then (ok_or InvalidManifestEncoding (from_utf8 contents)) (\<lambda>source.
     parse_manifest X source))))))"

section \<open>Archives\<close>

record rtw_archive =
  ar_archive :: "(string + zip_entry) list"
  ar_manifest :: rtw_manifest
  ar_entries :: "(string \<times> nat \<times> artifact_entry) list"
  ar_limits :: rtw_limits

definition validate_reader :: "artifact_externs \<Rightarrow> rtw_limits \<Rightarrow> blob \<Rightarrow> u64 \<Rightarrow> rtw_error + rtw_archive" where
  "validate_reader X limits contents archive_bytes =
     (if archive_bytes > max_archive_bytes limits then Inl (ArchiveTooLarge archive_bytes (max_archive_bytes limits))
      else
        and_then (map_err RtwZip (ax_zip X contents)) (\<lambda>archive.
        and_then (validate_entries limits archive) (\<lambda>entries.
        and_then (read_manifest X limits archive entries) (\<lambda>manifest.
        and_then (manifest_validate manifest) (\<lambda>_.
        and_then (ensure (mf_entry manifest \<in> set (map fst entries)) (MissingContentEntry (mf_entry manifest))) (\<lambda>_.
        Inr \<lparr>ar_archive = archive, ar_manifest = manifest, ar_entries = entries, ar_limits = limits\<rparr>))))))"

definition validate_bytes :: "artifact_externs \<Rightarrow> rtw_limits \<Rightarrow> blob \<Rightarrow> rtw_error + unit" where
  "validate_bytes X limits contents = and_then (validate_reader X limits contents (length_u64 contents)) (\<lambda>_. Inr ())"

text \<open>\<open>RtwArchive::from_file\<close>, on a file with the given contents.\<close>

definition archive_from_file :: "artifact_externs \<Rightarrow> rtw_limits \<Rightarrow> blob \<Rightarrow> rtw_error + rtw_archive" where
  "archive_from_file X limits contents = validate_reader X limits contents (length_u64 contents)"

text \<open>The values of a \<open>BTreeMap\<close>, in the order of its keys.\<close>

definition archive_entries :: "rtw_archive \<Rightarrow> artifact_entry list" where
  "archive_entries a = map (\<lambda>e. snd (snd e)) (sort_key fst (ar_entries a))"

definition archive_contains :: "rtw_archive \<Rightarrow> string \<Rightarrow> bool" where
  "archive_contains a path \<longleftrightarrow> map_of (ar_entries a) path \<noteq> None"

definition archive_read_with_limit :: "rtw_archive \<Rightarrow> string \<Rightarrow> u64 \<Rightarrow> rtw_error + blob" where
  "archive_read_with_limit a path maximum_bytes =
     (case map_of (ar_entries a) path of
        None \<Rightarrow> Inl (EntryNotFound path)
      | Some (index, entry) \<Rightarrow>
          read_zip_entry (ar_archive a) index path (ae_uncompressed entry) (min maximum_bytes (max_entry_bytes (ar_limits a))))"

definition archive_read :: "rtw_archive \<Rightarrow> string \<Rightarrow> rtw_error + blob" where
  "archive_read a path = archive_read_with_limit a path (max_entry_bytes (ar_limits a))"

section \<open>Packing\<close>

definition enforce_entry_size :: "string \<Rightarrow> u64 \<Rightarrow> u64 \<Rightarrow> rtw_error + unit" where
  "enforce_entry_size path actual maximum = ensure (\<not> actual > maximum) (EntryTooLarge path actual maximum)"

text \<open>The loop over the entries, with the set of paths and the total.\<close>

definition add_memory_entry :: "rtw_limits \<Rightarrow> string \<times> blob \<Rightarrow> string list \<times> u64 \<Rightarrow> rtw_error + string list \<times> u64" where
  "add_memory_entry limits e st =
     (if fst e \<in> set (fst st) then Inl (DuplicateEntry (fst e))
      else
        and_then (enforce_entry_size (fst e) (length_u64 (snd e)) (max_entry_bytes limits)) (\<lambda>_.
        let total = saturating_add (snd st) (length_u64 (snd e)) in
        if total > max_uncompressed_bytes limits then Inl (UncompressedArchiveTooLarge total (max_uncompressed_bytes limits))
        else Inr (fst st @ [fst e], total)))"

definition validate_memory_entries :: "rtw_limits \<Rightarrow> rtw_manifest \<Rightarrow> blob \<Rightarrow> (string \<times> blob) list \<Rightarrow> rtw_error + unit" where
  "validate_memory_entries limits manifest manifest_bytes entries =
     (let actual = length_u64 manifest_bytes in
      and_then (ensure (length entries + 1 \<le> max_entries limits) (TooManyEntries (length entries + 1) (max_entries limits))) (\<lambda>_.
      and_then (enforce_entry_size RTW_MANIFEST_PATH actual (max_entry_bytes limits)) (\<lambda>_.
      and_then (ensure (\<not> actual > max_manifest_bytes limits) (ManifestTooLarge actual (max_manifest_bytes limits))) (\<lambda>_.
      and_then (ensure (\<not> actual > max_uncompressed_bytes limits)
        (UncompressedArchiveTooLarge actual (max_uncompressed_bytes limits))) (\<lambda>_.
      and_then (fold_result (add_memory_entry limits) entries ([RTW_MANIFEST_PATH], actual)) (\<lambda>st.
      and_then (find_conflict (fst st) (sort (fst st))) (\<lambda>_.
      ensure (mf_entry manifest \<in> set (fst st)) (MissingContentEntry (mf_entry manifest)))))))))"

definition pack_entries_with_compression ::
  "artifact_externs \<Rightarrow> rtw_limits \<Rightarrow> zip_method \<Rightarrow> rtw_manifest \<Rightarrow> (string \<times> blob) list \<Rightarrow> rtw_error + blob" where
  "pack_entries_with_compression X limits method manifest entries =
     and_then (manifest_validate manifest) (\<lambda>_.
     and_then (map_err ManifestEncode (ax_toml_text X manifest)) (\<lambda>text.
     let manifest_bytes = text_bytes text; sorted = sort_key fst entries in
     and_then (validate_memory_entries limits manifest manifest_bytes sorted) (\<lambda>_.
     and_then (map_err RtwZip (ax_zip_write X method ((RTW_MANIFEST_PATH, manifest_bytes) # sorted))) (\<lambda>contents.
     and_then (ensure (\<not> length_u64 contents > max_archive_bytes limits)
       (ArchiveTooLarge (length_u64 contents) (max_archive_bytes limits))) (\<lambda>_.
     and_then (validate_bytes X limits contents) (\<lambda>_.
     Inr contents))))))"

definition pack_entries :: "artifact_externs \<Rightarrow> rtw_limits \<Rightarrow> rtw_manifest \<Rightarrow> (string \<times> blob) list \<Rightarrow> rtw_error + blob" where
  "pack_entries X limits manifest entries = pack_entries_with_compression X limits Deflated manifest entries"

section \<open>Packing a directory\<close>

text \<open>
  A source tree as the packer finds it: the names in a directory are bytes. The contents of a file do not change while it is
  packed, and the path in an error is shown as its bytes.
\<close>

datatype source_node = SourceRegular blob | SourceDirectory "(blob \<times> source_node) list" | SourceSymlink | SourceOther

fun join_path :: "string list \<Rightarrow> string" where
  "join_path [] = []"
| "join_path [s] = s"
| "join_path (s # ss) = s @ CHR ''/'' # join_path ss"

definition source_path_to_artifact_path :: "blob list \<Rightarrow> rtw_error + string" where
  "source_path_to_artifact_path names =
     and_then (collect_result (\<lambda>name. ok_or
       (InvalidPath (join_path (map bytes_text names)) ''artifact paths must be valid UTF-8'') (from_utf8 name)) names) (\<lambda>segments.
     artifact_path_parse (join_path segments))"

lemma collect_result_cong [fundef_cong]:
  "xs = ys \<Longrightarrow> (\<And>x. x \<in> set ys \<Longrightarrow> f x = g x) \<Longrightarrow> collect_result f xs = collect_result g ys"
  by (induction ys arbitrary: xs) auto

function collect_source :: "string \<Rightarrow> blob list \<Rightarrow> source_node \<Rightarrow> rtw_error + (string \<times> blob) list" where
  "collect_source root names (SourceRegular contents) =
     and_then (source_path_to_artifact_path names) (\<lambda>path. Inr [(path, contents)])"
| "collect_source root names (SourceDirectory nodes) =
     and_then (collect_result (\<lambda>e. collect_source root (names @ [fst e]) (snd e)) (sort_key fst nodes)) (\<lambda>found. Inr (concat found))"
| "collect_source root names SourceSymlink = Inl (UnsupportedSourceEntry (join_path (root # map bytes_text names)))"
| "collect_source root names SourceOther = Inl (UnsupportedSourceEntry (join_path (root # map bytes_text names)))"
  by pat_completeness auto
termination
proof (relation "measure (\<lambda>(root, names, node). size node)", goal_cases)
  case (2 root names nodes e)
  then have "e \<in> set nodes" by simp
  then have "size_prod (\<lambda>_. 0) size e \<le> size_list (size_prod (\<lambda>_. 0) size) nodes" by (rule size_list_estimation') simp
  then show ?case by (cases e) simp
qed simp

definition collect_source_files :: "string \<Rightarrow> (blob \<times> source_node) list \<Rightarrow> rtw_error + (string \<times> blob) list" where
  "collect_source_files root nodes = map_ok (sort_key fst) (collect_source root [] (SourceDirectory nodes))"

fun enforce_source_sizes :: "rtw_limits \<Rightarrow> u64 \<Rightarrow> (string \<times> blob) list \<Rightarrow> rtw_error + unit" where
  "enforce_source_sizes limits before [] = Inr ()"
| "enforce_source_sizes limits before (f # fs) =
     (let actual = length_u64 (snd f); total = saturating_add before actual in
      if actual > max_entry_bytes limits then Inl (EntryTooLarge (fst f) actual (max_entry_bytes limits))
      else if fst f = RTW_MANIFEST_PATH \<and> actual > max_manifest_bytes limits
        then Inl (ManifestTooLarge actual (max_manifest_bytes limits))
      else if total > max_uncompressed_bytes limits then Inl (UncompressedArchiveTooLarge total (max_uncompressed_bytes limits))
      else enforce_source_sizes limits total fs)"

definition enforce_source_limits :: "rtw_limits \<Rightarrow> (string \<times> blob) list \<Rightarrow> rtw_error + unit" where
  "enforce_source_limits limits files =
     (if length files > max_entries limits then Inl (TooManyEntries (length files) (max_entries limits))
      else enforce_source_sizes limits 0 files)"

definition validate_source_manifest :: "artifact_externs \<Rightarrow> (string \<times> blob) list \<Rightarrow> rtw_error + unit" where
  "validate_source_manifest X files =
     and_then (ok_or MissingManifest (find (\<lambda>f. fst f = RTW_MANIFEST_PATH) files)) (\<lambda>manifest_file.
     and_then (ok_or InvalidManifestEncoding (from_utf8 (snd manifest_file))) (\<lambda>source.
     and_then (parse_manifest X source) (\<lambda>manifest.
     and_then (manifest_validate manifest) (\<lambda>_.
     ensure (list_ex (\<lambda>f. fst f = mf_entry manifest) files) (MissingContentEntry (mf_entry manifest))))))"

definition write_archive :: "artifact_externs \<Rightarrow> rtw_limits \<Rightarrow> (string \<times> blob) list \<Rightarrow> rtw_error + blob" where
  "write_archive X limits files =
     and_then (map_err RtwZip (ax_zip_write X Deflated
       ((case find (\<lambda>f. fst f = RTW_MANIFEST_PATH) files of None \<Rightarrow> [] | Some f \<Rightarrow> [f]) @
        filter (\<lambda>f. fst f \<noteq> RTW_MANIFEST_PATH) files))) (\<lambda>contents.
     and_then (archive_from_file X limits contents) (\<lambda>_.
     Inr contents))"

text \<open>\<open>pack_directory\<close> from the point where the source tree and a free output path are known: the bytes it publishes.\<close>

definition pack_directory :: "artifact_externs \<Rightarrow> rtw_limits \<Rightarrow> string \<Rightarrow> (blob \<times> source_node) list \<Rightarrow> rtw_error + blob" where
  "pack_directory X limits source nodes =
     and_then (collect_source_files source nodes) (\<lambda>files.
     and_then (enforce_source_limits limits files) (\<lambda>_.
     and_then (validate_source_manifest X files) (\<lambda>_.
     write_archive X limits files)))"

end
