(* ===== verification/Artifact_Identity.thy ===== *)
theory Artifact_Identity
  imports Artifact_Text
begin

text \<open>
  The identities of packages: a digest and its text are the same thing, the text of a content type parses back, and the
  accepted paths are exactly the canonical ones.
\<close>

section \<open>Bytes in hexadecimal\<close>

text \<open>The two halves of a byte.\<close>

lemma nibble_cases: "n \<in> set [0, 1, 2, 3, 4, 5, 6, 7, 8, 9, 10, 11, 12, 13, 14, 15]" if "n < 16" for n :: byte
proof -
  have "unat n \<in> set [0..<16]" using that by (simp add: word_less_nat_alt)
  moreover have "n = of_nat (unat n)" by simp
  ultimately have "n \<in> set (map (of_nat :: nat \<Rightarrow> byte) [0..<16])" unfolding set_map by (rule rev_image_eqI)
  moreover have "map (of_nat :: nat \<Rightarrow> byte) [0..<16] = [0, 1, 2, 3, 4, 5, 6, 7, 8, 9, 10, 11, 12, 13, 14, 15]"
    by (simp add: upt_conv_Cons)
  ultimately show ?thesis by simp
qed

lemma nibble_bits: "n < 16 \<Longrightarrow> bit n i \<Longrightarrow> i < 4" for n :: byte
proof -
  assume n: "n < 16" "bit n i"
  have "take_bit 4 (unat n) = unat n" using n(1) by (simp add: word_less_nat_alt take_bit_nat_eq_self)
  then have "bit (take_bit 4 (unat n)) i" using n(2) by (simp add: bit_unsigned_iff)
  then show ?thesis by (simp add: bit_take_bit_iff)
qed

lemma nibble_mask: "(15 :: byte) = mask 4"
  by (simp add: mask_eq_exp_minus_1)

lemma nibbles_small: "drop_bit 4 b < 16" "b AND 15 < 16" for b :: byte
proof -
  have "unat b < 2 ^ LENGTH(8)" by (rule unsigned_less)
  then have "unat (drop_bit 4 b) < 16" by (simp add: drop_bit_eq_div unat_div_distrib)
  then show "drop_bit 4 b < 16" by (simp add: word_less_nat_alt)
  have "b AND 15 \<le> 15" by (rule word_and_le1)
  then show "b AND 15 < 16" by (simp add: word_le_nat_alt word_less_nat_alt)
qed

lemma nibbles_join: "push_bit 4 (drop_bit 4 b) OR b AND 15 = b" for b :: byte
  unfolding nibble_mask by (rule bit_word_eqI) (auto simp: bit_simps)

lemma nibbles_split:
  fixes x y :: byte
  assumes "x < 16" "y < 16"
  shows "drop_bit 4 (push_bit 4 x OR y) = x" "(push_bit 4 x OR y) AND 15 = y"
proof -
  show "drop_bit 4 (push_bit 4 x OR y) = x"
    using nibble_bits [OF assms(1)] nibble_bits [OF assms(2)] by (intro bit_word_eqI) (fastforce simp: bit_simps)
  show "(push_bit 4 x OR y) AND 15 = y"
    using nibble_bits [OF assms(2)] unfolding nibble_mask by (intro bit_word_eqI) (auto simp: bit_simps)
qed

lemma hex_digits: "n < 16 \<Longrightarrow> hex_nibble (hex_digit n) = n \<and> is_lower_hex (hex_digit n)" for n :: byte
proof -
  assume "n < 16"
  moreover have "\<forall>n \<in> set [0, 1, 2, 3, 4, 5, 6, 7, 8, 9, 10, 11, 12, 13, 14, 15 :: byte].
      hex_nibble (hex_digit n) = n \<and> is_lower_hex (hex_digit n)"
    by (simp add: hex_nibble_def hex_digit_def is_lower_hex_def is_ascii_digit_def)
  ultimately show ?thesis using nibble_cases by blast
qed

lemma lower_hex_set: "is_lower_hex c \<Longrightarrow> c \<in> set ''0123456789abcdef''"
proof -
  assume "is_lower_hex c"
  then have "(of_char c :: nat) \<in> set ([48..<58] @ [97..<103])"
    unfolding is_lower_hex_def is_ascii_digit_def set_append set_upt atLeastLessThan_iff Un_iff by linarith
  then have "char_of (of_char c :: nat) \<in> set (map char_of ([48..<58] @ [97..<103 :: nat]))" by (metis image_eqI set_map)
  moreover have "map char_of ([48..<58] @ [97..<103 :: nat]) = ''0123456789abcdef''" by (simp add: char_of_def bit_0)
  ultimately show ?thesis by simp
qed

lemma lower_hex_nibble: "is_lower_hex c \<Longrightarrow> hex_nibble c < 16 \<and> hex_digit (hex_nibble c) = c"
proof -
  assume "is_lower_hex c"
  moreover have "\<forall>c \<in> set ''0123456789abcdef''. hex_nibble c < 16 \<and> hex_digit (hex_nibble c) = c"
    by (simp add: hex_nibble_def hex_digit_def is_ascii_digit_def)
  ultimately show ?thesis using lower_hex_set by blast
qed

definition hex_pair :: "byte \<Rightarrow> string" where
  "hex_pair b = [hex_digit (drop_bit 4 b), hex_digit (b AND 15)]"

lemma encode_hex_simps [simp]: "encode_hex [] = []" "encode_hex (b # bs) = hex_pair b @ encode_hex bs"
  by (simp_all add: encode_hex_def hex_pair_def)

lemma hex_pair_decodes: "decode_pairs (hex_pair b) = [b]"
  by (simp add: hex_pair_def hex_digits nibbles_small nibbles_join)

lemma hex_pair_lower: "list_all is_lower_hex (hex_pair b) \<and> length (hex_pair b) = 2"
  by (simp add: hex_pair_def hex_digits nibbles_small)

lemma decode_pair_append: "length p = 2 \<Longrightarrow> decode_pairs (p @ s) = decode_pairs p @ decode_pairs s"
  by (cases p; cases "tl p") auto

lemma decode_encode: "decode_pairs (encode_hex bs) = bs"
  by (induction bs) (simp_all add: hex_pair_decodes hex_pair_lower decode_pair_append)

lemma encode_hex_lower: "list_all is_lower_hex (encode_hex bs) \<and> length (encode_hex bs) = 2 * length bs"
  using hex_pair_lower by (induction bs) auto

lemma encode_pair:
  assumes "is_lower_hex c" "is_lower_hex d"
  shows "encode_hex (decode_pairs [c, d]) = [c, d]"
  using assms [THEN lower_hex_nibble] by (simp add: hex_pair_def nibbles_split del: drop_bit_or)

lemma encode_decode: "list_all is_lower_hex s \<Longrightarrow> even (length s) \<Longrightarrow> encode_hex (decode_pairs s) = s"
proof (induction s rule: decode_pairs.induct)
  case (1 a b rest)
  then have "encode_hex (decode_pairs [a, b]) = [a, b]" by (intro encode_pair) simp_all
  with 1 show ?case by simp
qed simp_all

lemma length_decode: "even (length s) \<Longrightarrow> 2 * length (decode_pairs s) = length s"
  by (induction s rule: decode_pairs.induct) simp_all

lemma encode_hex_inject: "encode_hex a = encode_hex b \<Longrightarrow> a = b"
  by (metis decode_encode)

text \<open>A digest of 32 bytes and its text determine each other.\<close>

lemma artifact_digest_parse_iff:
  "artifact_digest_parse t = Inr d \<longleftrightarrow> length d = 32 \<and> t = artifact_digest_display d"
proof
  assume "artifact_digest_parse t = Inr d"
  then obtain hex where hex: "t = SHA256_PREFIX @ hex" "length hex = 64" "list_all is_lower_hex hex" "d = decode_pairs hex"
    by (auto simp: artifact_digest_parse_def strip_prefix_Some split: option.splits if_splits)
  then show "length d = 32 \<and> t = artifact_digest_display d"
    using length_decode [of hex] encode_decode [of hex] by (simp add: artifact_digest_display_def)
next
  assume d: "length d = 32 \<and> t = artifact_digest_display d"
  then have "strip_prefix SHA256_PREFIX t = Some (encode_hex d)"
    by (simp add: artifact_digest_display_def strip_prefix_Some)
  with d encode_hex_lower [of d] decode_encode [of d] show "artifact_digest_parse t = Inr d"
    by (simp add: artifact_digest_parse_def)
qed

section \<open>Canonical paths\<close>

definition canonical_path :: "string \<Rightarrow> bool" where
  "canonical_path path \<longleftrightarrow>
     list_all (\<lambda>segment. segment \<notin> {[], ''.'', ''..''}) (split_on (CHR ''/'') path) \<and>
     CHR 0x5C \<notin> set path \<and> CHR '':'' \<notin> set path \<and> \<not> has_control path"

lemma split_on_leading: "[] \<in> set (split_on c (c # s))"
  by simp

lemma split_on_trailing: "split_on c (s @ [c]) = split_on c s @ [[]]"
proof (induction s)
  case (Cons x s)
  then show ?case by (cases "split_on c s") auto
qed simp

lemma validate_segments_file: "validate_segments value False = Inr () \<longleftrightarrow> canonical_path value"
proof -
  have "[] \<in> set (split_on (CHR ''/'') value)" if "value = [] \<or> hd value = CHR ''/''"
    using that by (cases "value") auto
  then show ?thesis
    unfolding validate_segments_def Let_def
    by (auto simp: result_simps canonical_path_def list_all_iff list_ex_iff)
qed

lemma canonical_no_slash: "canonical_path value \<Longrightarrow> \<not> ends_with value ''/''"
proof
  assume "canonical_path value" "ends_with value ''/''"
  then obtain s where "value = s @ ''/''" by (auto simp: ends_with_def strip_suffix_Some)
  then have "[] \<in> set (split_on (CHR ''/'') value)" by (simp add: split_on_trailing)
  with \<open>canonical_path value\<close> show False by (auto simp: canonical_path_def list_all_iff)
qed

lemma artifact_path_parse_iff: "artifact_path_parse value = Inr path \<longleftrightarrow> path = value \<and> canonical_path value"
  using canonical_no_slash [of "value"]
  by (auto simp: artifact_path_parse_def validate_file_path_def result_simps validate_segments_file)

lemma parent_paths_iff: "q \<in> set (parent_paths path) \<longleftrightarrow> (\<exists>r. path = q @ CHR ''/'' # r)"
proof
  assume "q \<in> set (parent_paths path)"
  then obtain i where "i < length path" "path ! i = CHR ''/''" "q = take i path" by (auto simp: parent_paths_def)
  then have "path = q @ CHR ''/'' # drop (Suc i) path" by (metis id_take_nth_drop)
  then show "\<exists>r. path = q @ CHR ''/'' # r" ..
next
  assume "\<exists>r. path = q @ CHR ''/'' # r"
  then obtain r where "path = q @ CHR ''/'' # r" ..
  then have "length q < length path \<and> path ! length q = CHR ''/'' \<and> q = take (length q) path" by simp
  then show "q \<in> set (parent_paths path)" unfolding parent_paths_def by force
qed

section \<open>Content types\<close>

lemma content_type_parse_Some:
  "content_type_parse value = Inr c \<longleftrightarrow>
     (\<exists>major. value = ct_id c @ CHR ''@'' # major \<and> CHR ''@'' \<notin> set major \<and> validate_content_id (ct_id c) = Inr () \<and>
        \<not> (length major > 1 \<and> hd major = CHR ''0'') \<and> parse_u32 major = Some (ct_major c))"
proof
  assume "content_type_parse value = Inr c"
  then show "\<exists>major. value = ct_id c @ CHR ''@'' # major \<and> CHR ''@'' \<notin> set major \<and> validate_content_id (ct_id c) = Inr () \<and>
        \<not> (length major > 1 \<and> hd major = CHR ''0'') \<and> parse_u32 major = Some (ct_major c)"
    by (auto simp: content_type_parse_def result_simps dest!: rsplit_once_Some split: option.splits prod.splits if_splits)
next
  assume "\<exists>major. value = ct_id c @ CHR ''@'' # major \<and> CHR ''@'' \<notin> set major \<and> validate_content_id (ct_id c) = Inr () \<and>
        \<not> (length major > 1 \<and> hd major = CHR ''0'') \<and> parse_u32 major = Some (ct_major c)"
  then show "content_type_parse value = Inr c"
    by (auto simp: content_type_parse_def rsplit_once_append)
qed

lemma show_nat_leading: "0 < n \<Longrightarrow> hd (show_nat n) \<noteq> CHR ''0''"
proof (induction n rule: show_nat.induct)
  case (1 n)
  show ?case
  proof (cases "n < 10")
    case True
    have "char_of (48 + n) \<noteq> CHR ''0''"
    proof
      assume "char_of (48 + n) = CHR ''0''"
      then have "(of_char (char_of (48 + n) :: char) :: nat) = of_char (CHR ''0'')" by simp
      then show False using 1(2) True by (simp only: digit_char) simp
    qed
    then show ?thesis using True by (simp add: show_nat.simps [of n])
  next
    case False
    with 1 show ?thesis by (simp add: show_nat.simps [of n])
  qed
qed

lemma show_u32_canonical: "\<not> (length (show_u32 w) > 1 \<and> hd (show_u32 w) = CHR ''0'')"
proof (cases "unat w = 0")
  case True
  then show ?thesis by (simp add: show_u32_def show_nat.simps [of 0])
next
  case False
  then show ?thesis using show_nat_leading [of "unat w"] by (simp add: show_u32_def)
qed

lemma digits_value_snoc: "digits_value (ds @ [c]) = 10 * digits_value ds + (of_char c - 48)"
  by (simp add: digits_value_def)

lemma digits_value_positive:
  "list_all is_ascii_digit ds \<Longrightarrow> ds \<noteq> [] \<Longrightarrow> hd ds \<noteq> CHR ''0'' \<Longrightarrow> 0 < digits_value ds"
proof (induction ds rule: rev_induct)
  case (snoc c ds)
  show ?case
  proof (cases "ds = []")
    case True
    then have "is_ascii_digit c" "c \<noteq> CHR ''0''" using snoc.prems by simp_all
    moreover have "(of_char c :: nat) \<noteq> 48"
    proof
      assume "(of_char c :: nat) = 48"
      then have "(of_char c :: nat) = of_char (CHR ''0'')" by simp
      then show False using calculation(2) by (simp only: of_char_eq_iff)
    qed
    ultimately show ?thesis using True by (simp add: digits_value_def is_ascii_digit_def)
  qed (use snoc in \<open>simp add: digits_value_snoc\<close>)
qed simp

lemma show_digits_value:
  "list_all is_ascii_digit ds \<Longrightarrow> ds \<noteq> [] \<Longrightarrow> \<not> (length ds > 1 \<and> hd ds = CHR ''0'') \<Longrightarrow> show_nat (digits_value ds) = ds"
proof (induction ds rule: rev_induct)
  case (snoc c ds)
  define d where "d = (of_char c :: nat) - 48"
  have c: "is_ascii_digit c" using snoc.prems by simp
  then have d: "d < 10" "char_of (48 + d) = c" by (auto simp: d_def is_ascii_digit_def)
  show ?case
  proof (cases "ds = []")
    case True
    then show ?thesis using d by (simp add: digits_value_def d_def [symmetric] show_nat.simps [of d])
  next
    case False
    then have lead: "hd ds \<noteq> CHR ''0''" using snoc.prems(3) by (cases ds) auto
    then have pos: "0 < digits_value ds" using snoc.prems False by (intro digits_value_positive) auto
    have "show_nat (digits_value ds) = ds" using snoc.prems False lead by (intro snoc.IH) auto
    then show ?thesis
      using pos d by (simp add: digits_value_snoc d_def [symmetric] show_nat.simps [of "10 * digits_value ds + d"])
  qed
qed simp

lemma parse_u32_canonical:
  assumes "parse_u32 ds = Some w" "CHR ''+'' \<notin> set ds" "\<not> (length ds > 1 \<and> hd ds = CHR ''0'')"
  shows "show_u32 w = ds"
proof -
  have "\<not> (ds \<noteq> [] \<and> hd ds = CHR ''+'')" using assms(2) by (cases ds) auto
  then have ds: "list_all is_ascii_digit ds" "ds \<noteq> []" "digits_value ds < 2 ^ 32" "w = of_nat (digits_value ds)"
    using assms(1) by (auto simp: parse_u32_def Let_def split: if_splits)
  then have "unat w = digits_value ds" by (simp add: unsigned_of_nat take_bit_nat_eq_self)
  then show ?thesis using show_digits_value ds(1,2) assms(3) by (simp add: show_u32_def)
qed

lemma content_type_displays:
  assumes "content_type_parse t = Inr c"
  shows "content_type_parse (content_type_display c) = Inr c"
  using assms show_u32_canonical show_u32_no_at parse_show_u32
  unfolding content_type_parse_Some content_type_display_def by auto

lemma content_type_canonical:
  assumes "content_type_parse t = Inr c" "CHR ''+'' \<notin> set t"
  shows "content_type_display c = t"
  using assms parse_u32_canonical unfolding content_type_parse_Some content_type_display_def by auto

end
