(* ===== verification/Artifact_Archive_Facts.thy ===== *)
theory Artifact_Archive_Facts
  imports Artifact_Archive Artifact_Identity
begin

text \<open>What the loop over the entries of an archive has established of those it has passed.\<close>

section \<open>Saturating sums\<close>

lemma u64_bound: "unat w \<le> 2 ^ 64 - 1" for w :: u64
proof -
  have "unat w < 2 ^ LENGTH(64)" by (rule unsigned_less)
  then show ?thesis by simp
qed

lemma unat_max_u64: "unat (- 1 :: u64) = 2 ^ 64 - 1"
  by (simp add: unsigned_minus_1_eq_mask mask_eq_exp_minus_1)

lemma unat_saturating_add: "unat (saturating_add a b) = min (2 ^ 64 - 1) (unat a + unat b)"
proof (cases "checked_add_u64 a b")
  case None
  then have "\<not> int (unat a + unat b) < int (2 ^ 64)" by (simp add: checked_add_u64_def split: if_splits)
  then have "\<not> unat a + unat b < 2 ^ 64" unfolding of_nat_less_iff .
  with None show ?thesis by (simp add: saturating_add_def unat_max_u64)
next
  case (Some c)
  then have "int (unat c) = int (unat a + unat b)" using checked_add_u64_Some by simp
  then have "unat c = unat a + unat b" by (simp only: of_nat_eq_iff)
  with Some u64_bound [of c] show ?thesis by (simp add: saturating_add_def)
qed

lemma unat_length_u64: "unat (length_u64 xs) = min (2 ^ 64 - 1) (length xs)"
  by (simp add: length_u64_def unsigned_of_nat take_bit_nat_eq_self unat_max_u64)

section \<open>The entries passed\<close>

text \<open>What is established of one file: where it is in the archive and what it is.\<close>

definition scanned_file :: "rtw_limits \<Rightarrow> (string + zip_entry) list \<Rightarrow> string \<times> nat \<times> artifact_entry \<Rightarrow> bool" where
  "scanned_file limits archive f \<longleftrightarrow>
     (case f of (path, index, e) \<Rightarrow> index < length archive \<and>
       (\<exists>file. archive ! index = Inr file \<and> entry_name file = Inr path \<and> canonical_path path \<and>
          \<not> ze_is_dir file \<and> \<not> ze_is_symlink file \<and> \<not> ze_encrypted file \<and> ze_method file \<in> {Stored, Deflated} \<and>
          ze_size file \<le> max_entry_bytes limits \<and>
          e = \<lparr>ae_path = path, ae_compressed = ze_compressed file, ae_uncompressed = ze_size file\<rparr>))"

definition scan_inv :: "rtw_limits \<Rightarrow> (string + zip_entry) list \<Rightarrow> archive_scan \<Rightarrow> bool" where
  "scan_inv limits archive sc \<longleftrightarrow>
     distinct (map fst (sc_files sc)) \<and> distinct (sc_directories sc) \<and>
     set (map fst (sc_files sc)) \<inter> set (sc_directories sc) = {} \<and>
     list_all (scanned_file limits archive) (sc_files sc) \<and>
     min (2 ^ 64 - 1) (sum_list (map (\<lambda>f. unat (ae_uncompressed (snd (snd f)))) (sc_files sc))) \<le> unat (sc_total sc) \<and>
     unat (sc_total sc) \<le> unat (max_uncompressed_bytes limits)"

lemma scan_new_inv: "scan_inv limits archive scan_new"
  by (simp add: scan_inv_def scan_new_def)

lemma scan_entry_inv:
  assumes inv: "scan_inv limits archive sc" and i: "i < length archive"
    and ok: "scan_entry limits (i, archive ! i) sc = Inr sc'"
  shows "scan_inv limits archive sc'"
proof -
  obtain z name where z: "archive ! i = Inr z" "entry_name z = Inr name"
    "validate_zip_entry_type z name (ze_is_dir z) = Inr ()" "validate_compression z name = Inr ()" "\<not> ze_encrypted z"
    and rest: "(let total = saturating_add (sc_total sc) (ze_size z) in
     if total > max_uncompressed_bytes limits then Inl (UncompressedArchiveTooLarge total (max_uncompressed_bytes limits))
     else if ze_is_dir z
     then (if name \<in> set (map fst (sc_files sc)) then Inl (PathConflict name)
           else if name \<in> set (sc_directories sc) then Inl (DuplicateEntry name)
           else Inr (sc\<lparr>sc_directories := sc_directories sc @ [name], sc_total := total\<rparr>))
     else if ze_size z > max_entry_bytes limits then Inl (EntryTooLarge name (ze_size z) (max_entry_bytes limits))
     else if name \<in> set (sc_directories sc) then Inl (PathConflict name)
     else if name \<in> set (map fst (sc_files sc)) then Inl (DuplicateEntry name)
     else and_then (artifact_path_parse name) (\<lambda>path.
       Inr (sc\<lparr>sc_files := sc_files sc @
           [(path, fst (i, archive ! i), \<lparr>ae_path = path, ae_compressed = ze_compressed z, ae_uncompressed = ze_size z\<rparr>)],
         sc_total := total\<rparr>))) = Inr sc'"
    using ok by (auto simp: scan_entry_def result_simps)
  define total where "total = saturating_add (sc_total sc) (ze_size z)"
  have small: "unat total \<le> unat (max_uncompressed_bytes limits)" and grown: "unat (sc_total sc) \<le> unat total"
    and all: "min (2 ^ 64 - 1) (unat (sc_total sc) + unat (ze_size z)) \<le> unat total"
    using rest u64_bound [of "sc_total sc"]
    by (auto simp: Let_def total_def unat_saturating_add word_less_nat_alt split: if_splits)
  show ?thesis
  proof (cases "ze_is_dir z")
    case True
    then have "name \<notin> set (map fst (sc_files sc))" "name \<notin> set (sc_directories sc)"
      "sc' = sc\<lparr>sc_directories := sc_directories sc @ [name], sc_total := total\<rparr>"
      using rest by (auto simp: Let_def total_def split: if_splits)
    then show ?thesis using inv small grown by (auto simp: scan_inv_def)
  next
    case False
    then have "name \<notin> set (map fst (sc_files sc))" "name \<notin> set (sc_directories sc)" "ze_size z \<le> max_entry_bytes limits"
      "canonical_path name"
      and sc': "sc' = sc\<lparr>sc_files := sc_files sc @
        [(name, i, \<lparr>ae_path = name, ae_compressed = ze_compressed z, ae_uncompressed = ze_size z\<rparr>)], sc_total := total\<rparr>"
      using rest by (auto simp: Let_def total_def result_simps artifact_path_parse_iff split: if_splits)
    moreover have "scanned_file limits archive
        (name, i, \<lparr>ae_path = name, ae_compressed = ze_compressed z, ae_uncompressed = ze_size z\<rparr>)"
      using calculation z i False
      by (auto simp: scanned_file_def validate_zip_entry_type_def validate_compression_def result_simps split: if_splits)
    ultimately show ?thesis using inv small all by (auto simp: scan_inv_def)
  qed
qed

lemma scan_entries_inv:
  "scan_inv limits archive sc \<Longrightarrow> (\<forall>ie \<in> set ies. fst ie < length archive \<and> snd ie = archive ! fst ie) \<Longrightarrow>
    fold_result (scan_entry limits) ies sc = Inr sc' \<Longrightarrow> scan_inv limits archive sc'"
proof (induction ies arbitrary: sc)
  case (Cons ie ies)
  then obtain sc1 where "scan_entry limits ie sc = Inr sc1" "fold_result (scan_entry limits) ies sc1 = Inr sc'"
    by (auto simp: result_simps)
  moreover have "ie = (fst ie, archive ! fst ie)" using Cons.prems(2) by (cases ie) auto
  ultimately show ?case using Cons scan_entry_inv [of limits archive sc "fst ie" sc1] by auto
qed simp

text \<open>The conflict of a file with a directory prefix.\<close>

lemma find_conflict_ok:
  "find_conflict files paths = Inr () \<longleftrightarrow> (\<forall>p \<in> set paths. \<forall>q \<in> set files. \<forall>r. p \<noteq> q @ CHR ''/'' # r)"
  by (auto simp: find_conflict_def for_each_Inr find_None_iff parent_paths_iff split: option.splits dest!: find_Some_set)

lemma validate_entries_ok:
  assumes "validate_entries limits archive = Inr entries"
  shows "distinct (map fst entries)" "list_all (scanned_file limits archive) entries"
    "min (2 ^ 64 - 1) (sum_list (map (\<lambda>f. unat (ae_uncompressed (snd (snd f)))) entries)) \<le> unat (max_uncompressed_bytes limits)"
    "\<forall>p \<in> fst ` set entries. \<forall>q \<in> fst ` set entries. \<forall>r. p \<noteq> q @ CHR ''/'' # r"
    "RTW_MANIFEST_PATH \<in> fst ` set entries" "length archive \<le> max_entries limits"
proof -
  have n: "length archive \<le> max_entries limits" using assms by (simp add: validate_entries_def split: if_splits)
  then obtain sc u where sc0: "fold_result (scan_entry limits) (enumerate 0 archive) scan_new = Inr sc"
    "find_conflict (map fst (sc_files sc)) (map fst (sc_files sc) @ sc_directories sc) = Inr u"
    "(if RTW_MANIFEST_PATH \<notin> set (map fst (sc_files sc)) then Inl MissingManifest else Inr (sc_files sc)) = Inr entries"
    using assms unfolding validate_entries_def and_then_Inr by (simp only: not_less [symmetric] if_False and_then_Inr) blast
  have sc: "fold_result (scan_entry limits) (enumerate 0 archive) scan_new = Inr sc"
    "find_conflict (map fst (sc_files sc)) (map fst (sc_files sc) @ sc_directories sc) = Inr ()"
    "RTW_MANIFEST_PATH \<in> set (map fst (sc_files sc))" "entries = sc_files sc"
    using sc0 by (simp_all del: set_map split: if_splits)
  have "scan_inv limits archive sc"
    by (rule scan_entries_inv [OF scan_new_inv _ sc(1)]) (auto simp: in_set_enumerate_eq)
  then show "distinct (map fst entries)" "list_all (scanned_file limits archive) entries"
    "min (2 ^ 64 - 1) (sum_list (map (\<lambda>f. unat (ae_uncompressed (snd (snd f)))) entries)) \<le> unat (max_uncompressed_bytes limits)"
    by (auto simp: scan_inv_def sc(4))
  show "\<forall>p \<in> fst ` set entries. \<forall>q \<in> fst ` set entries. \<forall>r. p \<noteq> q @ CHR ''/'' # r"
    using sc(2) by (auto simp: find_conflict_ok sc(4))
  show "RTW_MANIFEST_PATH \<in> fst ` set entries" "length archive \<le> max_entries limits" using sc(3,4) n by auto
qed

section \<open>Archives\<close>

lemma validate_reader_ok:
  assumes "validate_reader X limits contents n = Inr a"
  shows "ax_zip X contents = Inr (ar_archive a)" "validate_entries limits (ar_archive a) = Inr (ar_entries a)"
    "read_manifest X limits (ar_archive a) (ar_entries a) = Inr (ar_manifest a)" "mf_format (ar_manifest a) = RTW_FORMAT_VERSION"
    "mf_entry (ar_manifest a) \<in> fst ` set (ar_entries a)" "ar_limits a = limits" "n \<le> max_archive_bytes limits"
  using assms unfolding set_map [symmetric] by (auto simp: validate_reader_def result_simps manifest_validate_def simp del: set_map split: if_splits)

lemma read_zip_entry_length:
  assumes "read_zip_entry archive index path declared maximum = Inr contents"
  shows "length contents \<le> unat maximum \<or> unat maximum = 2 ^ 64 - 1"
  using assms u64_bound [of maximum]
  by (auto simp: read_zip_entry_def result_simps word_less_nat_alt unat_length_u64 split: if_splits)

text \<open>A file is read as it is, when its size is what the archive says and nothing fails.\<close>

lemma read_zip_entry_whole:
  assumes "archive ! index = Inr file" "ze_stream file = (contents, None)" "length contents \<le> unat maximum"
    and "declared \<le> maximum"
  shows "read_zip_entry archive index path declared maximum = Inr contents"
proof -
  have bounded: "length contents \<le> unat (saturating_add maximum 1)" "length contents < 2 ^ 64"
    using assms(3) u64_bound [of maximum] by (auto simp: unat_saturating_add)
  then have "read_bounded (ze_stream file) (unat (saturating_add maximum 1)) = Inr contents"
    using assms(2) by (auto simp: read_bounded_def)
  moreover have "\<not> length_u64 contents > maximum"
    using assms(3) bounded(2) by (simp add: word_less_nat_alt unat_length_u64)
  ultimately show ?thesis using assms(1,4) by (simp add: read_zip_entry_def)
qed

end
