(* ===== verification/Artifact_Pack_Facts.thy ===== *)
theory Artifact_Pack_Facts
  imports Artifact_Archive_Facts
begin

text \<open>
  Packing followed by reading. What the ZIP and TOML libraries document, their writers against their readers, are the
  hypotheses \<open>zip_faithful\<close> and \<open>toml_faithful\<close>.
\<close>

section \<open>The libraries\<close>

text \<open>A path as the type \<open>ArtifactPath\<close> holds it: a canonical string, which in Rust is UTF-8.\<close>

definition portable_path :: "string \<Rightarrow> bool" where
  "portable_path path \<longleftrightarrow> canonical_path path \<and> utf8_valid (text_bytes path)"

lemma manifest_path_portable: "portable_path RTW_MANIFEST_PATH"
  by (simp add: portable_path_def canonical_path_def RTW_MANIFEST_PATH_def text_bytes_def)

definition written_entry :: "string \<times> blob \<Rightarrow> zip_entry \<Rightarrow> bool" where
  "written_entry f z \<longleftrightarrow>
     ze_name_raw z = text_bytes (fst f) \<and> ze_name z = fst f \<and> \<not> ze_is_dir z \<and>
     unat (ze_size z) = length (snd f) \<and> ze_stream z = (snd f, None)"

text \<open>A written archive has the files in their order, with their names and contents.\<close>

definition zip_faithful :: "artifact_externs \<Rightarrow> bool" where
  "zip_faithful X \<longleftrightarrow>
     (\<forall>compression files bs. list_all (\<lambda>f. portable_path (fst f)) files \<longrightarrow> ax_zip_write X compression files = Inr bs \<longrightarrow>
        (\<exists>zs. ax_zip X bs = Inr (map Inr zs) \<and> list_all2 written_entry files zs))"

text \<open>A written manifest has the fields it was written with.\<close>

definition toml_faithful :: "artifact_externs \<Rightarrow> bool" where
  "toml_faithful X \<longleftrightarrow>
     (\<forall>m t. ax_toml_text X m = Inr t \<longrightarrow>
        utf8_valid (text_bytes t) \<and> ax_toml X t = Inr (mf_format m, content_type_display (mf_content m), mf_entry m))"

text \<open>A manifest whose fields are values of their types.\<close>

definition proper_manifest :: "rtw_manifest \<Rightarrow> bool" where
  "proper_manifest m \<longleftrightarrow> (\<exists>t. content_type_parse t = Inr (mf_content m)) \<and> canonical_path (mf_entry m)"

lemma bytes_text_text_bytes: "bytes_text (text_bytes t) = t"
proof -
  have "unat (of_nat (of_char c) :: byte) = of_char c" for c :: char
    by (simp add: unsigned_of_nat take_bit_nat_eq_self)
  then show ?thesis by (simp add: bytes_text_def text_bytes_def comp_def)
qed

section \<open>The entries of an accepted archive\<close>

lemma entry_name_file: "entry_name z = Inr p \<Longrightarrow> \<not> ze_is_dir z \<Longrightarrow> p = ze_name z"
  by (auto simp: entry_name_def validate_archive_name_def result_simps Let_def)

lemma entry_name_written:
  assumes "ze_name_raw z = text_bytes p" "ze_name z = p" "\<not> ze_is_dir z" "portable_path p"
  shows "entry_name z = Inr p"
proof -
  have "validate_segments p False = Inr ()" "\<not> ends_with p ''/''"
    using assms(4) canonical_no_slash by (auto simp: portable_path_def validate_segments_file)
  then show ?thesis
    using assms by (simp add: entry_name_def from_utf8_def bytes_text_text_bytes portable_path_def validate_archive_name_def
      and_then_def ensure_def ok_or_def)
qed

definition entry_of :: "nat \<Rightarrow> zip_entry \<Rightarrow> string \<times> nat \<times> artifact_entry" where
  "entry_of i z = (ze_name z, i, \<lparr>ae_path = ze_name z, ae_compressed = ze_compressed z, ae_uncompressed = ze_size z\<rparr>)"

lemma scan_entry_keeps: "scan_entry limits ie sc = Inr sc' \<Longrightarrow> set (sc_files sc) \<subseteq> set (sc_files sc')"
  by (auto simp: scan_entry_def result_simps Let_def simp del: set_map split: if_splits)

lemma scan_entry_adds:
  assumes "scan_entry limits (i, Inr z) sc = Inr sc'" "\<not> ze_is_dir z"
  shows "entry_of i z \<in> set (sc_files sc')"
proof -
  from assms(1) obtain p where "entry_name z = Inr p" by (auto simp: scan_entry_def result_simps simp del: set_map)
  with assms entry_name_file [of z p] show ?thesis
    by (auto simp: scan_entry_def result_simps Let_def artifact_path_parse_iff entry_of_def simp del: set_map split: if_splits)
qed

lemma scan_entries_keep: "fold_result (scan_entry limits) ies sc = Inr sc' \<Longrightarrow> set (sc_files sc) \<subseteq> set (sc_files sc')"
proof (induction ies arbitrary: sc)
  case (Cons ie ies)
  then obtain sc1 where "scan_entry limits ie sc = Inr sc1" "fold_result (scan_entry limits) ies sc1 = Inr sc'"
    by (auto simp: result_simps)
  with Cons.IH [of sc1] scan_entry_keeps show ?case by blast
qed simp

lemma scan_entries_add:
  "fold_result (scan_entry limits) ies sc = Inr sc' \<Longrightarrow> (i, Inr z) \<in> set ies \<Longrightarrow> \<not> ze_is_dir z \<Longrightarrow>
    entry_of i z \<in> set (sc_files sc')"
proof (induction ies arbitrary: sc)
  case (Cons ie ies)
  then obtain sc1 where "scan_entry limits ie sc = Inr sc1" "fold_result (scan_entry limits) ies sc1 = Inr sc'"
    by (auto simp: result_simps)
  with Cons scan_entries_keep [of limits ies sc1 sc'] scan_entry_adds [of limits i z sc sc1] show ?case by auto
qed simp

lemma validate_entries_complete:
  assumes "validate_entries limits archive = Inr entries" "i < length archive" "archive ! i = Inr z" "\<not> ze_is_dir z"
  shows "entry_of i z \<in> set entries"
proof -
  have "\<not> length archive > max_entries limits" using validate_entries_ok(6) [OF assms(1)] by simp
  then obtain sc where "fold_result (scan_entry limits) (enumerate 0 archive) scan_new = Inr sc" "entries = sc_files sc"
    using assms(1) by (auto simp: validate_entries_def result_simps simp del: set_map split: if_splits)
  moreover have "(i, Inr z) \<in> set (enumerate 0 archive)" using assms(2,3) by (auto simp: in_set_enumerate_eq)
  ultimately show ?thesis using scan_entries_add assms(4) by metis
qed

text \<open>A read that succeeds gives the bytes of the entry, when its size is the number of its bytes.\<close>

lemma read_zip_entry_exact:
  assumes "archive ! i = Inr z" "written_entry f z" "read_zip_entry archive i path declared maximum = Inr c"
  shows "c = snd f"
proof -
  have size: "length (snd f) \<le> 2 ^ 64 - 1" using assms(2) u64_bound [of "ze_size z"] by (auto simp: written_entry_def)
  from assms have bounded: "read_bounded (snd f, None) (unat (saturating_add maximum 1)) = Inr c" "\<not> length_u64 c > maximum"
    by (auto simp: read_zip_entry_def result_simps written_entry_def split: if_splits)
  show ?thesis
  proof (cases "unat (saturating_add maximum 1) \<le> length (snd f)")
    case False
    with bounded(1) show ?thesis by (simp add: read_bounded_def)
  next
    case True
    then have c: "c = take (unat (saturating_add maximum 1)) (snd f)" using bounded(1) by (simp add: read_bounded_def)
    with True size have "unat (length_u64 c) = unat (saturating_add maximum 1)" by (simp add: unat_length_u64)
    then have "unat (saturating_add maximum 1) = 2 ^ 64 - 1"
      using bounded(2) by (simp add: word_less_nat_alt unat_saturating_add)
    with c size show ?thesis by simp
  qed
qed

text \<open>An archive that holds exactly the written files.\<close>

lemma written_archive:
  assumes "validate_reader X limits bs n = Inr a" "ax_zip X bs = Inr (map Inr zs)" "list_all2 written_entry files zs"
  shows "fst ` set (ar_entries a) = fst ` set files"
    and "f \<in> set files \<Longrightarrow> \<exists>i z. i < length zs \<and> zs ! i = z \<and> written_entry f z \<and> map_of (ar_entries a) (fst f) = Some (snd (entry_of i z))"
proof -
  note ok = validate_reader_ok [OF assms(1)]
  have archive: "ar_archive a = map Inr zs" using ok(1) assms(2) by simp
  note entries = validate_entries_ok [OF ok(2)]
  have found: "\<exists>i z. i < length zs \<and> zs ! i = z \<and> written_entry f z \<and> map_of (ar_entries a) (fst f) = Some (snd (entry_of i z))"
    if f: "f \<in> set files" for f
  proof -
    obtain i where i: "i < length files" "files ! i = f" using f by (auto simp: in_set_conv_nth)
    then have w: "i < length zs" "written_entry f (zs ! i)" using assms(3) by (auto simp: list_all2_conv_all_nth)
    then have "entry_of i (zs ! i) \<in> set (ar_entries a)"
      using validate_entries_complete [OF ok(2), of i "zs ! i"] archive by (simp add: written_entry_def)
    then have "map_of (ar_entries a) (fst (entry_of i (zs ! i))) = Some (snd (entry_of i (zs ! i)))"
      using entries(1) by (intro map_of_is_SomeI) auto
    moreover have "fst (entry_of i (zs ! i)) = fst f" using w(2) by (simp add: written_entry_def entry_of_def)
    ultimately show ?thesis using w by auto
  qed
  then show "f \<in> set files \<Longrightarrow> \<exists>i z. i < length zs \<and> zs ! i = z \<and> written_entry f z \<and>
      map_of (ar_entries a) (fst f) = Some (snd (entry_of i z))" .
  have named: "p \<in> fst ` set files" if "(p, i, e) \<in> set (ar_entries a)" for p i e
  proof -
    have "scanned_file limits (map Inr zs) (p, i, e)" using that entries(2) archive by (auto simp: list_all_iff)
    then have "i < length zs" "p = ze_name (zs ! i)"
      using entry_name_file [of "zs ! i" p] by (auto simp: scanned_file_def)
    then have "i < length files" "p = fst (files ! i)" using assms(3) by (auto simp: list_all2_conv_all_nth written_entry_def)
    then show ?thesis by simp
  qed
  have listed: "fst f \<in> fst ` set (ar_entries a)" if "f \<in> set files" for f
    using found [OF that] map_of_SomeD by force
  show "fst ` set (ar_entries a) = fst ` set files"
  proof (intro equalityI subsetI)
    fix p assume "p \<in> fst ` set (ar_entries a)"
    then obtain i e where "(p, i, e) \<in> set (ar_entries a)" by force
    then show "p \<in> fst ` set files" by (rule named)
  qed (use listed in blast)
qed

end
