(* ===== verification/Artifact_Store.thy ===== *)
theory Artifact_Store
  imports Artifact_Archive
begin

text \<open>
  The content-addressed stores of packages and of assets (\<open>crates/artifacts/src/store.rs\<close>, \<open>asset.rs\<close>). A store is the
  directory of its digests: what is found under a file name. A reader is the list of what its reads return; temporary files,
  synchronisation and the creation of the directories are left out.
\<close>

section \<open>Directories and readers\<close>

datatype store_node = StoredFile blob | NotRegular

type_synonym store_directory = "string \<rightharpoonup> store_node"

type_synonym reader = "(string + blob) list"

definition COPY_BUFFER_BYTES :: nat where "COPY_BUFFER_BYTES = 64 * 1024"

text \<open>Reading a file in buffers.\<close>

function buffers :: "nat \<Rightarrow> blob \<Rightarrow> blob list" where
  "buffers n bs = (if n = 0 \<or> bs = [] then [] else take n bs # buffers n (drop n bs))"
  by auto
termination by (relation "measure (\<lambda>(n, bs). length bs)") auto

declare buffers.simps [simp del]

definition file_reader :: "blob \<Rightarrow> reader" where
  "file_reader contents = map Inr (buffers COPY_BUFFER_BYTES contents)"

text \<open>
  The loop of \<open>copy_and_hash\<close> and \<open>hash_open_file\<close>, for both stores: it ends at the end of the reader or at an empty read,
  and returns the bytes it has copied and hashed with their number.
\<close>

fun copy_loop :: "(string \<Rightarrow> 'e) \<Rightarrow> (u64 \<Rightarrow> u64 \<Rightarrow> 'e) \<Rightarrow> u64 \<Rightarrow> u64 \<Rightarrow> blob \<Rightarrow> reader \<Rightarrow> 'e + blob \<times> u64" where
  "copy_loop io too_large maximum so_far copied [] = Inr (copied, so_far)"
| "copy_loop io too_large maximum so_far copied (Inl e # reads) = Inl (io e)"
| "copy_loop io too_large maximum so_far copied (Inr buffer # reads) =
     (if buffer = [] then Inr (copied, so_far)
      else let new_total = saturating_add so_far (length_u64 buffer) in
        if new_total > maximum then Inl (too_large new_total maximum)
        else copy_loop io too_large maximum new_total (copied @ buffer) reads)"

section \<open>The store of packages\<close>

datatype import_disposition = Imported | AlreadyPresent

definition artifact_path_for :: "blob \<Rightarrow> string" where
  "artifact_path_for digest = encode_hex digest @ ''.rtw''"

definition copy_and_hash :: "artifact_externs \<Rightarrow> u64 \<Rightarrow> reader \<Rightarrow> rtw_error + blob \<times> blob" where
  "copy_and_hash X maximum_bytes source =
     and_then (copy_loop RtwIo ArchiveTooLarge maximum_bytes 0 [] source) (\<lambda>(copied, total). Inr (ax_sha256 X copied, copied))"

definition hash_open_file :: "artifact_externs \<Rightarrow> u64 \<Rightarrow> blob \<Rightarrow> rtw_error + blob" where
  "hash_open_file X maximum_bytes contents =
     (if length_u64 contents > maximum_bytes then Inl (ArchiveTooLarge (length_u64 contents) maximum_bytes)
      else
        and_then (copy_loop RtwIo ArchiveTooLarge maximum_bytes 0 [] (file_reader contents)) (\<lambda>(copied, total).
        Inr (ax_sha256 X copied)))"

definition regular_artifact :: "blob \<Rightarrow> store_directory \<Rightarrow> rtw_error + blob" where
  "regular_artifact digest s =
     (case s (artifact_path_for digest) of
        None \<Rightarrow> Inl (StoredArtifactNotFound (artifact_digest_display digest))
      | Some NotRegular \<Rightarrow> Inl (InvalidStoreEntry (artifact_path_for digest) ''digest path must be a regular file'')
      | Some (StoredFile contents) \<Rightarrow> Inr contents)"

definition open_artifact :: "artifact_externs \<Rightarrow> rtw_limits \<Rightarrow> blob \<Rightarrow> store_directory \<Rightarrow> rtw_error + rtw_archive" where
  "open_artifact X limits digest s =
     and_then (regular_artifact digest s) (\<lambda>contents.
     and_then (hash_open_file X (max_archive_bytes limits) contents) (\<lambda>actual.
     if actual \<noteq> digest then Inl (StoreCorruption (artifact_digest_display digest))
     else archive_from_file X limits contents))"

definition verify_artifact :: "artifact_externs \<Rightarrow> rtw_limits \<Rightarrow> blob \<Rightarrow> store_directory \<Rightarrow> rtw_error + unit" where
  "verify_artifact X limits digest s = and_then (open_artifact X limits digest s) (\<lambda>_. Inr ())"

text \<open>\<open>hard_link\<close> onto a name of the store: the name is taken, or it is created.\<close>

definition link_artifact ::
  "artifact_externs \<Rightarrow> rtw_limits \<Rightarrow> blob \<Rightarrow> blob \<Rightarrow> store_directory \<Rightarrow> rtw_error + import_disposition \<times> store_directory" where
  "link_artifact X limits contents digest s =
     (if s (artifact_path_for digest) \<noteq> None
      then and_then (open_artifact X limits digest s) (\<lambda>_. Inr (AlreadyPresent, s))
      else Inr (Imported, s(artifact_path_for digest \<mapsto> StoredFile contents)))"

definition publish_cross_device ::
  "artifact_externs \<Rightarrow> rtw_limits \<Rightarrow> blob \<Rightarrow> blob \<Rightarrow> store_directory \<Rightarrow> rtw_error + import_disposition \<times> store_directory" where
  "publish_cross_device X limits contents digest s =
     and_then (copy_and_hash X (max_archive_bytes limits) (file_reader contents)) (\<lambda>(copied_digest, copied).
     if copied_digest \<noteq> digest then Inl (StoreCorruption (artifact_digest_display digest))
     else link_artifact X limits copied digest s)"

text \<open>Whether the temporary directory is on another device than the digests is a parameter of the publication.\<close>

definition publish_temporary ::
  "artifact_externs \<Rightarrow> rtw_limits \<Rightarrow> bool \<Rightarrow> blob \<Rightarrow> blob \<Rightarrow> store_directory \<Rightarrow> rtw_error + import_disposition \<times> store_directory" where
  "publish_temporary X limits crosses_devices contents digest s =
     (if crosses_devices then publish_cross_device X limits contents digest s
      else link_artifact X limits contents digest s)"

record artifact_import =
  im_digest :: blob
  im_disposition :: import_disposition

definition import_reader ::
  "artifact_externs \<Rightarrow> rtw_limits \<Rightarrow> bool \<Rightarrow> reader \<Rightarrow> store_directory \<Rightarrow> rtw_error + artifact_import \<times> store_directory" where
  "import_reader X limits crosses_devices source s =
     and_then (copy_and_hash X (max_archive_bytes limits) source) (\<lambda>(digest, copied).
     and_then (archive_from_file X limits copied) (\<lambda>_.
     and_then (publish_temporary X limits crosses_devices copied digest s) (\<lambda>(disposition, s).
     Inr (\<lparr>im_digest = digest, im_disposition = disposition\<rparr>, s))))"

definition import_artifact ::
  "artifact_externs \<Rightarrow> rtw_limits \<Rightarrow> bool \<Rightarrow> string \<Rightarrow> source_node \<Rightarrow> store_directory \<Rightarrow> rtw_error + artifact_import \<times> store_directory" where
  "import_artifact X limits crosses_devices path source s =
     (case source of
        SourceRegular contents \<Rightarrow> import_reader X limits crosses_devices (file_reader contents) s
      | _ \<Rightarrow> Inl (UnsupportedSourceEntry path))"

definition import_bytes ::
  "artifact_externs \<Rightarrow> rtw_limits \<Rightarrow> bool \<Rightarrow> blob \<Rightarrow> store_directory \<Rightarrow> rtw_error + artifact_import \<times> store_directory" where
  "import_bytes X limits crosses_devices contents s = import_reader X limits crosses_devices (file_reader contents) s"

section \<open>The store of assets\<close>

datatype (plugins only: code size) asset_error =
    AssetIo string | AssetInvalidDigest string | InvalidMediaType string string | UnsupportedSource string
  | AssetTooLarge u64 u64 | StoredAssetNotFound string | AssetStoreCorruption string | SizeMismatch string u64 u64
  | InvalidAssetStoreEntry string string

definition asset_digest_parse :: "string \<Rightarrow> asset_error + blob" where
  "asset_digest_parse value = map_err (\<lambda>_. AssetInvalidDigest value) (artifact_digest_parse value)"

definition is_media_type_token :: "char \<Rightarrow> bool" where
  "is_media_type_token c \<longleftrightarrow> is_ascii_alphanumeric c \<or> c \<in> set (''!#$%&'' @ CHR 0x27 # ''*+-.^_'' @ CHR 0x60 # ''|~'')"

text \<open>\<open>str::split_once\<close>: the parts before and after the first separator.\<close>

definition split_once :: "char \<Rightarrow> string \<Rightarrow> (string \<times> string) option" where
  "split_once c s = (if c \<in> set s then Some (takeWhile (\<lambda>x. x \<noteq> c) s, tl (dropWhile (\<lambda>x. x \<noteq> c) s)) else None)"

definition MAX_MEDIA_TYPE_BYTES :: nat where "MAX_MEDIA_TYPE_BYTES = 127"

definition media_type_parse :: "string \<Rightarrow> asset_error + string" where
  "media_type_parse value =
     (if value = [] \<or> length value > MAX_MEDIA_TYPE_BYTES
      then Inl (InvalidMediaType value ''media type must contain 1..=127 bytes'')
      else case split_once (CHR ''/'') value of
        None \<Rightarrow> Inl (InvalidMediaType value (''expected '' @ CHR 0x60 # ''type/subtype'' @ [CHR 0x60]))
      | Some (kind, subtype) \<Rightarrow>
          if kind = [] \<or> subtype = [] \<or> CHR ''/'' \<in> set subtype
          then Inl (InvalidMediaType value (''expected exactly one '' @ CHR 0x60 # ''/'' @ CHR 0x60 # '' separator''))
          else if \<not> list_all is_media_type_token kind \<or> \<not> list_all is_media_type_token subtype
          then Inl (InvalidMediaType value ''type and subtype must use MIME token characters'')
          else Inr (to_ascii_lowercase value))"

record asset_ref =
  as_digest :: blob
  as_size :: u64
  as_media_type :: string

definition asset_ref_new :: "blob \<Rightarrow> u64 \<Rightarrow> string \<Rightarrow> asset_error + asset_ref" where
  "asset_ref_new digest n media_type =
     and_then (media_type_parse media_type) (\<lambda>m. Inr \<lparr>as_digest = digest, as_size = n, as_media_type = m\<rparr>)"

definition asset_path_for :: "blob \<Rightarrow> string" where
  "asset_path_for digest = encode_hex digest"

definition asset_copy_and_hash :: "artifact_externs \<Rightarrow> u64 \<Rightarrow> reader \<Rightarrow> asset_error + (blob \<times> u64) \<times> blob" where
  "asset_copy_and_hash X maximum_bytes source =
     and_then (copy_loop AssetIo AssetTooLarge maximum_bytes 0 [] source) (\<lambda>(copied, total).
     Inr ((ax_sha256 X copied, total), copied))"

definition asset_hash_open_file :: "artifact_externs \<Rightarrow> u64 \<Rightarrow> blob \<Rightarrow> asset_error + blob \<times> u64" where
  "asset_hash_open_file X maximum_bytes contents =
     (if length_u64 contents > maximum_bytes then Inl (AssetTooLarge (length_u64 contents) maximum_bytes)
      else map_ok fst (asset_copy_and_hash X maximum_bytes (file_reader contents)))"

definition regular_asset :: "blob \<Rightarrow> store_directory \<Rightarrow> asset_error + blob" where
  "regular_asset digest s =
     (case s (asset_path_for digest) of
        None \<Rightarrow> Inl (StoredAssetNotFound (artifact_digest_display digest))
      | Some NotRegular \<Rightarrow> Inl (InvalidAssetStoreEntry (asset_path_for digest) ''digest path must be a regular file'')
      | Some (StoredFile contents) \<Rightarrow> Inr contents)"

text \<open>The opened file is given by its contents.\<close>

definition open_asset :: "artifact_externs \<Rightarrow> u64 \<Rightarrow> asset_ref \<Rightarrow> store_directory \<Rightarrow> asset_error + blob" where
  "open_asset X maximum r s =
     and_then (regular_asset (as_digest r) s) (\<lambda>contents.
     and_then (asset_hash_open_file X maximum contents) (\<lambda>(actual_digest, actual_size).
     if actual_digest \<noteq> as_digest r then Inl (AssetStoreCorruption (artifact_digest_display (as_digest r)))
     else if actual_size \<noteq> as_size r
     then Inl (SizeMismatch (artifact_digest_display (as_digest r)) (as_size r) actual_size)
     else Inr contents))"

definition verify_asset :: "artifact_externs \<Rightarrow> u64 \<Rightarrow> asset_ref \<Rightarrow> store_directory \<Rightarrow> asset_error + unit" where
  "verify_asset X maximum r s = and_then (open_asset X maximum r s) (\<lambda>_. Inr ())"

definition import_asset_reader ::
  "artifact_externs \<Rightarrow> u64 \<Rightarrow> reader \<Rightarrow> string \<Rightarrow> store_directory \<Rightarrow> asset_error + (asset_ref \<times> import_disposition) \<times> store_directory" where
  "import_asset_reader X maximum source media_type s =
     and_then (asset_copy_and_hash X maximum source) (\<lambda>((digest, n), copied).
     let r = \<lparr>as_digest = digest, as_size = n, as_media_type = media_type\<rparr>; name = asset_path_for digest in
     if s name \<noteq> None then and_then (open_asset X maximum r s) (\<lambda>_. Inr ((r, AlreadyPresent), s))
     else Inr ((r, Imported), s(name \<mapsto> StoredFile copied)))"

definition import_asset ::
  "artifact_externs \<Rightarrow> u64 \<Rightarrow> string \<Rightarrow> source_node \<Rightarrow> string \<Rightarrow> store_directory \<Rightarrow>
    asset_error + (asset_ref \<times> import_disposition) \<times> store_directory" where
  "import_asset X maximum path source media_type s =
     and_then (media_type_parse media_type) (\<lambda>m.
     case source of
       SourceRegular contents \<Rightarrow> import_asset_reader X maximum (file_reader contents) m s
     | _ \<Rightarrow> Inl (UnsupportedSource path))"

definition import_asset_bytes ::
  "artifact_externs \<Rightarrow> u64 \<Rightarrow> blob \<Rightarrow> string \<Rightarrow> store_directory \<Rightarrow>
    asset_error + (asset_ref \<times> import_disposition) \<times> store_directory" where
  "import_asset_bytes X maximum contents media_type s =
     and_then (media_type_parse media_type) (\<lambda>m. import_asset_reader X maximum (file_reader contents) m s)"

end
