(* ===== verification/Artifact_Store_Facts.thy ===== *)
theory Artifact_Store_Facts
  imports Artifact_Store Artifact_Archive_Facts
begin

text \<open>
  What both stores promise: the copying loop keeps what it reads, a stored file has the digest it is named after, and a name
  that is taken is never written again.
\<close>

section \<open>Copies\<close>

text \<open>The bytes a reader gives: until its end, an empty read or an error.\<close>

fun read_all :: "reader \<Rightarrow> blob" where
  "read_all [] = []"
| "read_all (Inl e # reads) = []"
| "read_all (Inr buffer # reads) = (if buffer = [] then [] else buffer @ read_all reads)"

lemma copy_loop_reads:
  "copy_loop io too_large maximum so_far copied reads = Inr (bs, n) \<Longrightarrow>
    bs = copied @ read_all reads \<and> unat n = min (2 ^ 64 - 1) (unat so_far + length (read_all reads)) \<and>
    (so_far \<le> maximum \<longrightarrow> n \<le> maximum)"
proof (induction reads arbitrary: so_far copied)
  case Nil
  then show ?case using u64_bound [of so_far] by simp
next
  case (Cons r reads)
  show ?case
  proof (cases r)
    case (Inl e)
    with Cons.prems show ?thesis by simp
  next
    case (Inr buffer)
    show ?thesis
    proof (cases "buffer = []")
      case True
      with Inr Cons.prems u64_bound [of so_far] show ?thesis by simp
    next
      case False
      define grown where "grown = saturating_add so_far (length_u64 buffer)"
      have small: "\<not> grown > maximum" and loop: "copy_loop io too_large maximum grown (copied @ buffer) reads = Inr (bs, n)"
        using Cons.prems Inr False by (simp_all add: Let_def grown_def split: if_splits)
      have "unat grown = min (2 ^ 64 - 1) (unat so_far + length buffer)"
        by (auto simp: grown_def unat_saturating_add unat_length_u64)
      with Cons.IH [OF loop] Inr False small show ?thesis by (auto simp: not_less min_def)
    qed
  qed
qed

lemma buffers_concat: "0 < n \<Longrightarrow> concat (buffers n bs) = bs"
proof (induction n bs rule: buffers.induct)
  case (1 n bs)
  then show ?case by (cases "bs = []") (simp_all add: buffers.simps [of n bs] buffers.simps [of n "[]"])
qed

lemma buffers_nonempty: "b \<in> set (buffers n bs) \<Longrightarrow> b \<noteq> []"
proof (induction n bs rule: buffers.induct)
  case (1 n bs)
  then show ?case by (auto simp: buffers.simps [of n bs] split: if_splits)
qed

lemma read_all_buffers: "list_all (\<lambda>b. b \<noteq> []) bss \<Longrightarrow> read_all (map Inr bss) = concat bss"
  by (induction bss) simp_all

lemma read_all_file: "read_all (file_reader contents) = contents"
  using buffers_nonempty by (auto simp: file_reader_def read_all_buffers buffers_concat list_all_iff COPY_BUFFER_BYTES_def)

text \<open>A file that fits is copied whole.\<close>

lemma copy_loop_fits:
  "list_all (\<lambda>b. b \<noteq> []) bss \<Longrightarrow> min (2 ^ 64 - 1) (unat so_far + length (concat bss)) \<le> unat maximum \<Longrightarrow>
    \<exists>n. copy_loop io too_large maximum so_far copied (map Inr bss) = Inr (copied @ concat bss, n)"
proof (induction bss arbitrary: so_far copied)
  case (Cons b bss)
  define grown where "grown = saturating_add so_far (length_u64 b)"
  have g: "unat grown = min (2 ^ 64 - 1) (unat so_far + length b)"
    by (auto simp: grown_def unat_saturating_add unat_length_u64)
  then have "\<not> grown > maximum" "min (2 ^ 64 - 1) (unat grown + length (concat bss)) \<le> unat maximum"
    using Cons.prems(2) by (auto simp: word_less_nat_alt min_def split: if_splits)
  with Cons.IH [of grown "copied @ b"] Cons.prems(1) show ?case by (auto simp: Let_def grown_def [symmetric])
qed simp

lemma copy_loop_file:
  assumes "length_u64 contents \<le> maximum"
  shows "\<exists>n. copy_loop io too_large maximum 0 [] (file_reader contents) = Inr (contents, n)"
proof -
  have "min (2 ^ 64 - 1) (length contents) \<le> unat maximum" using assms by (simp add: word_le_nat_alt unat_length_u64)
  then show ?thesis
    using copy_loop_fits [of "buffers COPY_BUFFER_BYTES contents" 0 maximum io too_large "[]"] buffers_nonempty
    by (auto simp: file_reader_def buffers_concat list_all_iff COPY_BUFFER_BYTES_def)
qed

lemma hash_open_file_iff:
  "hash_open_file X maximum contents = Inr d \<longleftrightarrow> length_u64 contents \<le> maximum \<and> d = ax_sha256 X contents"
  using copy_loop_file [of contents maximum RtwIo ArchiveTooLarge]
  by (auto simp: hash_open_file_def result_simps dest!: copy_loop_reads simp: read_all_file)

lemma copy_and_hash_Inr:
  assumes "copy_and_hash X maximum source = Inr (d, bs)"
  shows "bs = read_all source \<and> d = ax_sha256 X bs"
  using assms by (auto simp: copy_and_hash_def result_simps dest!: copy_loop_reads)

lemma asset_copy_and_hash_Inr:
  assumes "asset_copy_and_hash X maximum source = Inr ((d, n), bs)"
  shows "bs = read_all source \<and> d = ax_sha256 X bs \<and> n = length_u64 bs \<and> n \<le> maximum"
proof -
  have "bs = read_all source \<and> d = ax_sha256 X bs \<and> unat n = unat (length_u64 bs) \<and> n \<le> maximum"
    using assms by (auto simp: asset_copy_and_hash_def result_simps unat_length_u64 dest!: copy_loop_reads)
  then show ?thesis by (simp add: word_unat_eq_iff)
qed

lemma asset_hash_open_file_iff:
  "asset_hash_open_file X maximum contents = Inr (d, n) \<longleftrightarrow>
     length_u64 contents \<le> maximum \<and> d = ax_sha256 X contents \<and> n = length_u64 contents"
proof (cases "length_u64 contents \<le> maximum")
  case True
  then obtain m where "copy_loop AssetIo AssetTooLarge maximum 0 [] (file_reader contents) = Inr (contents, m)"
    using copy_loop_file by blast
  then have "asset_copy_and_hash X maximum (file_reader contents) = Inr ((ax_sha256 X contents, m), contents)"
    by (simp add: asset_copy_and_hash_def)
  with asset_copy_and_hash_Inr [OF this] True show ?thesis by (auto simp: asset_hash_open_file_def)
qed (auto simp: asset_hash_open_file_def)

end
