(* ===== verification/Artifact_Contract.thy ===== *)
theory Artifact_Contract
  imports Artifact_Store_Facts
begin

text \<open>
  The contract of a content-addressed store, proved once: an operation leaves the directory as it is or adds, under the digest
  of some acceptable bytes, those bytes at a free name. Both stores are instances.
\<close>

section \<open>Histories\<close>

text \<open>A failed operation leaves the directory as it is.\<close>

definition directory_after :: "'e + 'o \<times> store_directory \<Rightarrow> store_directory \<Rightarrow> store_directory" where
  "directory_after outcome s = (case outcome of Inl _ \<Rightarrow> s | Inr (_, s') \<Rightarrow> s')"

fun store_history :: "('i \<Rightarrow> store_directory \<Rightarrow> 'e + 'o \<times> store_directory) \<Rightarrow> 'i list \<Rightarrow> store_directory \<Rightarrow> store_directory" where
  "store_history step [] s = s"
| "store_history step (i # is) s = store_history step is (directory_after (step i s) s)"

lemma store_history_append: "store_history step (es @ later) s = store_history step later (store_history step es s)"
  by (induction es arbitrary: s) simp_all

text \<open>Every name is that of the digest of the bytes it holds.\<close>

definition content_addressed :: "(blob \<Rightarrow> string) \<Rightarrow> (blob \<Rightarrow> blob) \<Rightarrow> (blob \<Rightarrow> bool) \<Rightarrow> store_directory \<Rightarrow> bool" where
  "content_addressed name_of hash acceptable s \<longleftrightarrow>
     (\<forall>name node. s name = Some node \<longrightarrow> (\<exists>c. node = StoredFile c \<and> name = name_of (hash c) \<and> acceptable c))"

lemma content_addressed_empty: "content_addressed name_of hash acceptable Map.empty"
  by (simp add: content_addressed_def)

section \<open>The contract\<close>

locale content_store =
  fixes name_of :: "blob \<Rightarrow> string"
    and hash :: "blob \<Rightarrow> blob"
    and acceptable :: "blob \<Rightarrow> bool"
    and step :: "'i \<Rightarrow> store_directory \<Rightarrow> 'e + 'o \<times> store_directory"
  assumes name_inject: "name_of d = name_of d' \<Longrightarrow> d = d'"
    and step_adds: "step i s = Inr (out, s') \<Longrightarrow>
      s' = s \<or> (\<exists>c. acceptable c \<and> s (name_of (hash c)) = None \<and> s' = s(name_of (hash c) \<mapsto> StoredFile c))"
begin

lemma step_keeps: "s name = Some node \<Longrightarrow> directory_after (step i s) s name = Some node"
  using step_adds by (fastforce simp: directory_after_def split: sum.splits)

lemma step_addressed:
  assumes "content_addressed name_of hash acceptable s"
  shows "content_addressed name_of hash acceptable (directory_after (step i s) s)"
proof (cases "step i s")
  case (Inr r)
  obtain out s' where r: "r = (out, s')" by (cases r)
  from step_adds [of i s out s'] Inr r assms show ?thesis
    by (auto simp: directory_after_def content_addressed_def split: if_splits)
qed (use assms in \<open>simp add: directory_after_def\<close>)

lemma history_keeps: "s name = Some node \<Longrightarrow> store_history step is s name = Some node"
  by (induction "is" arbitrary: s) (simp_all add: step_keeps)

lemma history_addressed:
  "content_addressed name_of hash acceptable s \<Longrightarrow> content_addressed name_of hash acceptable (store_history step is s)"
  by (induction "is" arbitrary: s) (simp_all add: step_addressed)

lemma addressed_lookup:
  assumes "content_addressed name_of hash acceptable s" "s (name_of d) = Some node"
  obtains c where "node = StoredFile c" "hash c = d" "acceptable c"
  using assms name_inject unfolding content_addressed_def by metis

end

section \<open>The store of packages\<close>

datatype store_import = ImportFile string source_node | ImportBytes blob

text \<open>An import, with whether the publication crosses devices.\<close>

definition artifact_step ::
  "artifact_externs \<Rightarrow> rtw_limits \<Rightarrow> bool \<times> store_import \<Rightarrow> store_directory \<Rightarrow> rtw_error + artifact_import \<times> store_directory" where
  "artifact_step X limits i s =
     (case snd i of
        ImportFile path source \<Rightarrow> import_artifact X limits (fst i) path source s
      | ImportBytes contents \<Rightarrow> import_bytes X limits (fst i) contents s)"

definition valid_package :: "artifact_externs \<Rightarrow> rtw_limits \<Rightarrow> blob \<Rightarrow> bool" where
  "valid_package X limits c \<longleftrightarrow> (\<exists>a. archive_from_file X limits c = Inr a)"

lemma artifact_name_inject: "artifact_path_for d = artifact_path_for d' \<Longrightarrow> d = d'"
  using encode_hex_inject by (auto simp: artifact_path_for_def)

lemma open_artifact_iff:
  "open_artifact X limits d s = Inr a \<longleftrightarrow>
     (\<exists>c. s (artifact_path_for d) = Some (StoredFile c) \<and> ax_sha256 X c = d \<and> archive_from_file X limits c = Inr a)"
proof -
  have "archive_from_file X limits c = Inr a \<Longrightarrow> length_u64 c \<le> max_archive_bytes limits" for c a
    using validate_reader_ok(7) by (simp add: archive_from_file_def)
  then show ?thesis
    by (auto simp: open_artifact_def regular_artifact_def result_simps hash_open_file_iff split: option.splits store_node.splits if_splits)
qed

lemma link_artifact_Inr:
  "link_artifact X limits c d s = Inr (disposition, s') \<longleftrightarrow>
     (if s (artifact_path_for d) = None then disposition = Imported \<and> s' = s(artifact_path_for d \<mapsto> StoredFile c)
      else disposition = AlreadyPresent \<and> s' = s \<and> (\<exists>a. open_artifact X limits d s = Inr a))"
  by (auto simp: link_artifact_def result_simps)

lemma publish_temporary_Inr:
  assumes "ax_sha256 X c = d" "length_u64 c \<le> max_archive_bytes limits"
  shows "publish_temporary X limits crosses c d s = link_artifact X limits c d s"
proof -
  obtain n where "copy_loop RtwIo ArchiveTooLarge (max_archive_bytes limits) 0 [] (file_reader c) = Inr (c, n)"
    using copy_loop_file assms(2) by blast
  then show ?thesis using assms(1) by (simp add: publish_temporary_def publish_cross_device_def copy_and_hash_def)
qed

text \<open>What an accepted import has done.\<close>

lemma import_reader_Inr:
  assumes "import_reader X limits crosses source s = Inr (r, s')"
  defines "c \<equiv> read_all source"
  shows "im_digest r = ax_sha256 X c" "valid_package X limits c"
    "link_artifact X limits c (ax_sha256 X c) s = Inr (im_disposition r, s')"
proof -
  from assms(1) obtain d copied a disposition where
    steps: "copy_and_hash X (max_archive_bytes limits) source = Inr (d, copied)" "archive_from_file X limits copied = Inr a"
      "publish_temporary X limits crosses copied d s = Inr (disposition, s')"
      "r = \<lparr>im_digest = d, im_disposition = disposition\<rparr>"
    by (auto simp: import_reader_def result_simps)
  have c: "copied = c" "d = ax_sha256 X c" using copy_and_hash_Inr [OF steps(1)] by (auto simp: c_def)
  have "length_u64 c \<le> max_archive_bytes limits"
    using validate_reader_ok(7) steps(2) c(1) by (simp add: archive_from_file_def)
  then show "im_digest r = ax_sha256 X c" "valid_package X limits c"
    "link_artifact X limits c (ax_sha256 X c) s = Inr (im_disposition r, s')"
    using steps c publish_temporary_Inr [of X c d limits crosses s] by (auto simp: valid_package_def)
qed

lemma artifact_step_reader:
  assumes "artifact_step X limits i s = Inr (r, s')"
  obtains crosses source where "import_reader X limits crosses source s = Inr (r, s')"
  using assms
  by (auto simp: artifact_step_def import_artifact_def import_bytes_def split: store_import.splits source_node.splits)

interpretation package_store: content_store artifact_path_for "ax_sha256 X" "valid_package X limits" "artifact_step X limits"
proof
  fix i s out s' assume "artifact_step X limits i s = Inr (out, s')"
  then obtain crosses source where "import_reader X limits crosses source s = Inr (out, s')" by (rule artifact_step_reader)
  from import_reader_Inr [OF this]
  show "s' = s \<or> (\<exists>c. valid_package X limits c \<and> s (artifact_path_for (ax_sha256 X c)) = None \<and>
      s' = s(artifact_path_for (ax_sha256 X c) \<mapsto> StoredFile c))"
    by (auto simp: link_artifact_Inr split: if_splits)
qed (rule artifact_name_inject)

section \<open>The store of assets\<close>

datatype asset_import = ImportAsset string source_node string | ImportAssetBytes blob string

definition asset_step ::
  "artifact_externs \<Rightarrow> u64 \<Rightarrow> asset_import \<Rightarrow> store_directory \<Rightarrow> asset_error + (asset_ref \<times> import_disposition) \<times> store_directory" where
  "asset_step X maximum i s =
     (case i of
        ImportAsset path source media_type \<Rightarrow> import_asset X maximum path source media_type s
      | ImportAssetBytes contents media_type \<Rightarrow> import_asset_bytes X maximum contents media_type s)"

lemma asset_name_inject: "asset_path_for d = asset_path_for d' \<Longrightarrow> d = d'"
  using encode_hex_inject by (simp add: asset_path_for_def)

lemma open_asset_iff:
  "open_asset X maximum r s = Inr c \<longleftrightarrow>
     s (asset_path_for (as_digest r)) = Some (StoredFile c) \<and> ax_sha256 X c = as_digest r \<and> length_u64 c = as_size r \<and>
     length_u64 c \<le> maximum"
  by (auto simp: open_asset_def regular_asset_def result_simps asset_hash_open_file_iff split: option.splits store_node.splits if_splits)

lemma import_asset_reader_Inr:
  assumes "import_asset_reader X maximum source media_type s = Inr ((r, disposition), s')"
  defines "c \<equiv> read_all source"
  shows "r = \<lparr>as_digest = ax_sha256 X c, as_size = length_u64 c, as_media_type = media_type\<rparr>" "length_u64 c \<le> maximum"
    "if s (asset_path_for (as_digest r)) = None
     then disposition = Imported \<and> s' = s(asset_path_for (as_digest r) \<mapsto> StoredFile c)
     else disposition = AlreadyPresent \<and> s' = s \<and> (\<exists>stored. open_asset X maximum r s = Inr stored)"
proof -
  from assms(1) obtain d n copied where copy: "asset_copy_and_hash X maximum source = Inr ((d, n), copied)"
    and rest: "(let r = \<lparr>as_digest = d, as_size = n, as_media_type = media_type\<rparr>; name = asset_path_for d in
      if s name \<noteq> None then and_then (open_asset X maximum r s) (\<lambda>_. Inr ((r, AlreadyPresent), s))
      else Inr ((r, Imported), s(name \<mapsto> StoredFile copied))) = Inr ((r, disposition), s')"
    by (auto simp: import_asset_reader_def result_simps)
  have c: "copied = c" "d = ax_sha256 X c" "n = length_u64 c" "n \<le> maximum"
    using asset_copy_and_hash_Inr [OF copy] by (auto simp: c_def)
  show "r = \<lparr>as_digest = ax_sha256 X c, as_size = length_u64 c, as_media_type = media_type\<rparr>" "length_u64 c \<le> maximum"
    "if s (asset_path_for (as_digest r)) = None
     then disposition = Imported \<and> s' = s(asset_path_for (as_digest r) \<mapsto> StoredFile c)
     else disposition = AlreadyPresent \<and> s' = s \<and> (\<exists>stored. open_asset X maximum r s = Inr stored)"
    using rest c by (auto simp: Let_def result_simps split: if_splits)
qed

text \<open>An accepted import of either kind reads its source through the loop, under a media type that parses.\<close>

lemma asset_step_reader:
  assumes "asset_step X maximum i s = Inr (out, s')"
  obtains source media_type where "import_asset_reader X maximum source media_type s = Inr (out, s')"
proof (cases i)
  case (ImportAsset path source media_type)
  with assms that show thesis
    by (cases source) (auto simp: asset_step_def import_asset_def result_simps)
next
  case (ImportAssetBytes contents media_type)
  with assms that show thesis by (auto simp: asset_step_def import_asset_bytes_def result_simps)
qed

interpretation asset_store:
  content_store asset_path_for "ax_sha256 X" "\<lambda>c. length_u64 c \<le> maximum" "asset_step X maximum"
proof
  fix i s out s' assume "asset_step X maximum i s = Inr (out, s')"
  then obtain source media_type where "import_asset_reader X maximum source media_type s = Inr (out, s')"
    by (rule asset_step_reader)
  moreover obtain r disposition where "out = (r, disposition)" by (cases out)
  ultimately show "s' = s \<or> (\<exists>c. length_u64 c \<le> maximum \<and> s (asset_path_for (ax_sha256 X c)) = None \<and>
      s' = s(asset_path_for (ax_sha256 X c) \<mapsto> StoredFile c))"
    using import_asset_reader_Inr [of X maximum source media_type s r disposition s'] by (auto split: if_splits)
qed (rule asset_name_inject)

end
