(* ===== verification/Artifact_Properties.thy ===== *)
theory Artifact_Properties
  imports Artifact_Pack_Facts Artifact_Contract
begin

text \<open>What the packages and the stores of the artifacts crate promise.\<close>

section \<open>Reads\<close>

lemma read_zip_entry_bounded:
  assumes "read_zip_entry archive index path declared maximum = Inr contents"
  shows "length contents \<le> unat maximum"
proof -
  have "length contents \<le> unat (saturating_add maximum 1)" "\<not> length_u64 contents > maximum"
    using assms by (auto simp: read_zip_entry_def read_bounded_def result_simps split: if_splits option.splits)
  then show ?thesis by (auto simp: word_less_nat_alt unat_length_u64 unat_saturating_add min_def split: if_splits)
qed

lemma archive_read_bounded:
  assumes "archive_read_with_limit a path maximum = Inr contents"
  shows "length contents \<le> unat (min maximum (max_entry_bytes (ar_limits a)))"
  using assms read_zip_entry_bounded by (auto simp: archive_read_with_limit_def split: option.splits prod.splits)

section \<open>Media types\<close>

lemma lowercase_code:
  "is_ascii_uppercase c \<Longrightarrow> (of_char (char_of ((of_char c :: nat) + 32) :: char) :: nat) = of_char c + 32"
  by (simp add: is_ascii_uppercase_def of_char_of)

lemma to_ascii_lowercase_idem: "to_ascii_lowercase (to_ascii_lowercase s) = to_ascii_lowercase s"
  by (simp add: to_ascii_lowercase_def) (auto simp: is_ascii_uppercase_def of_char_of)

lemma lowercase_token:
  assumes "is_media_type_token c"
  shows "list_all is_media_type_token (to_ascii_lowercase [c])"
proof (cases "is_ascii_uppercase c")
  case True
  then have "is_ascii_lowercase (char_of ((of_char c :: nat) + 32))"
    using lowercase_code [OF True] by (simp add: is_ascii_lowercase_def is_ascii_uppercase_def)
  with True show ?thesis by (simp add: to_ascii_lowercase_def is_media_type_token_def is_ascii_alphanumeric_def)
qed (use assms in \<open>simp add: to_ascii_lowercase_def\<close>)

lemma lowercase_tokens: "list_all is_media_type_token s \<Longrightarrow> list_all is_media_type_token (to_ascii_lowercase s)"
proof (induction s)
  case (Cons c s)
  with lowercase_token [of c] show ?case by (simp add: to_ascii_lowercase_def)
qed (simp add: to_ascii_lowercase_def)

lemma token_no_slash: "list_all is_media_type_token s \<Longrightarrow> CHR ''/'' \<notin> set s"
proof
  assume "list_all is_media_type_token s" "CHR ''/'' \<in> set s"
  then have "is_media_type_token (CHR ''/'')" by (auto simp: list_all_iff)
  moreover have "\<not> is_media_type_token (CHR ''/'')" by code_simp
  ultimately show False by simp
qed

lemma split_once_append: "c \<notin> set a \<Longrightarrow> split_once c (a @ c # b) = Some (a, b)"
proof -
  assume "c \<notin> set a"
  then have "takeWhile (\<lambda>x. x \<noteq> c) (a @ c # b) = a" "dropWhile (\<lambda>x. x \<noteq> c) (a @ c # b) = c # b"
    by (induction a) auto
  then show ?thesis by (simp add: split_once_def)
qed

lemma split_once_Some: "split_once c s = Some (a, b) \<Longrightarrow> s = a @ c # b"
proof -
  assume a: "split_once c s = Some (a, b)"
  then have "c \<in> set s" by (auto simp: split_once_def split: if_splits)
  then obtain u v where "s = u @ c # v" "c \<notin> set u" by (metis split_list_first)
  with a show ?thesis by (simp add: split_once_append)
qed

lemma media_type_parse_Inr:
  "media_type_parse v = Inr m \<longleftrightarrow>
     length v \<le> MAX_MEDIA_TYPE_BYTES \<and> m = to_ascii_lowercase v \<and>
     (\<exists>a b. v = a @ CHR ''/'' # b \<and> a \<noteq> [] \<and> b \<noteq> [] \<and> list_all is_media_type_token a \<and> list_all is_media_type_token b)"
proof
  assume v: "media_type_parse v = Inr m"
  then obtain a b where ab: "split_once (CHR ''/'') v = Some (a, b)"
    by (auto simp: media_type_parse_def split: if_splits option.splits)
  with v have "a \<noteq> [] \<and> b \<noteq> [] \<and> list_all is_media_type_token a \<and> list_all is_media_type_token b \<and>
      length v \<le> MAX_MEDIA_TYPE_BYTES \<and> m = to_ascii_lowercase v"
    by (simp add: media_type_parse_def split: if_splits)
  with split_once_Some [OF ab] show "length v \<le> MAX_MEDIA_TYPE_BYTES \<and> m = to_ascii_lowercase v \<and>
     (\<exists>a b. v = a @ CHR ''/'' # b \<and> a \<noteq> [] \<and> b \<noteq> [] \<and> list_all is_media_type_token a \<and> list_all is_media_type_token b)"
    by blast
next
  assume "length v \<le> MAX_MEDIA_TYPE_BYTES \<and> m = to_ascii_lowercase v \<and>
     (\<exists>a b. v = a @ CHR ''/'' # b \<and> a \<noteq> [] \<and> b \<noteq> [] \<and> list_all is_media_type_token a \<and> list_all is_media_type_token b)"
  then show "media_type_parse v = Inr m"
    using token_no_slash by (auto simp: media_type_parse_def split_once_append not_le [symmetric])
qed

text \<open>A media type that was parsed is its own canonical form.\<close>

lemma media_type_canonical: "media_type_parse v = Inr m \<Longrightarrow> media_type_parse m = Inr m"
proof -
  assume "media_type_parse v = Inr m"
  then obtain a b where v: "length v \<le> MAX_MEDIA_TYPE_BYTES" "m = to_ascii_lowercase v" "v = a @ CHR ''/'' # b" "a \<noteq> []" "b \<noteq> []"
    "list_all is_media_type_token a" "list_all is_media_type_token b"
    unfolding media_type_parse_Inr by blast
  have "to_ascii_lowercase v = to_ascii_lowercase a @ CHR ''/'' # to_ascii_lowercase b"
    using v(3) by (simp add: to_ascii_lowercase_def is_ascii_uppercase_def)
  moreover have "length (to_ascii_lowercase v) = length v" "to_ascii_lowercase a \<noteq> []" "to_ascii_lowercase b \<noteq> []"
    using v(4,5) by (simp_all add: to_ascii_lowercase_def)
  ultimately show ?thesis
    unfolding media_type_parse_Inr using v lowercase_tokens to_ascii_lowercase_idem by metis
qed

section \<open>Packages\<close>

text \<open>
  C25. An archive that is opened is within the limits and safe to unpack: its files have distinct canonical paths (relative,
  no empty, \<open>.\<close> or \<open>..\<close> segment), none lies below another, none is a link or encrypted, each and all of them are within the size
  limits (sums saturate at \<open>2 ^ 64 - 1\<close>); the manifest is there, of the supported format, and its entry is there; and no read
  returns more bytes than it was allowed.
\<close>

theorem accepted_archives_are_safe:
  assumes "validate_reader X limits contents n = Inr a"
  shows "n \<le> max_archive_bytes limits \<and> length (ar_archive a) \<le> max_entries limits \<and>
    distinct (map fst (ar_entries a)) \<and> list_all (scanned_file limits (ar_archive a)) (ar_entries a) \<and>
    (\<forall>p \<in> fst ` set (ar_entries a). canonical_path p \<and> (\<forall>q \<in> fst ` set (ar_entries a). \<forall>r. p \<noteq> q @ CHR ''/'' # r)) \<and>
    min (2 ^ 64 - 1) (sum_list (map (\<lambda>f. unat (ae_uncompressed (snd (snd f)))) (ar_entries a))) \<le> unat (max_uncompressed_bytes limits) \<and>
    archive_contains a RTW_MANIFEST_PATH \<and> archive_contains a (mf_entry (ar_manifest a)) \<and>
    mf_format (ar_manifest a) = RTW_FORMAT_VERSION \<and>
    (\<forall>path maximum bytes. archive_read_with_limit a path maximum = Inr bytes \<longrightarrow>
      length bytes \<le> unat (min maximum (max_entry_bytes limits)))"
proof -
  note ok = validate_reader_ok [OF assms]
  note entries = validate_entries_ok [OF ok(2)]
  have contained: "archive_contains a p" if "p \<in> fst ` set (ar_entries a)" for p
    using that by (auto simp: archive_contains_def map_of_eq_None_iff)
  have "canonical_path p" if "p \<in> fst ` set (ar_entries a)" for p
    using that entries(2) by (auto simp: list_all_iff scanned_file_def)
  then show ?thesis
    using entries ok(4-7) contained archive_read_bounded [of a] by simp
qed

text \<open>The two reads of an archive of written files: the manifest, and a file.\<close>

lemma written_manifest:
  assumes a: "validate_reader X limits bs n = Inr a" and zs: "ax_zip X bs = Inr (map Inr zs)" "list_all2 written_entry files zs"
    and t: "toml_faithful X" "ax_toml_text X m = Inr t" "(RTW_MANIFEST_PATH, text_bytes t) \<in> set files" and m: "proper_manifest m"
  shows "ar_manifest a = m"
proof -
  note ok = validate_reader_ok [OF a]
  have archive: "ar_archive a = map Inr zs" using ok(1) zs(1) by simp
  obtain i z where z: "i < length zs" "zs ! i = z" "written_entry (RTW_MANIFEST_PATH, text_bytes t) z"
    "map_of (ar_entries a) RTW_MANIFEST_PATH = Some (snd (entry_of i z))"
    using written_archive(2) [OF a zs t(3)] by auto
  have at: "(map Inr zs :: (string + zip_entry) list) ! i = Inr z" using z(1,2) by simp
  obtain c where c: "read_zip_entry (map Inr zs) i RTW_MANIFEST_PATH (ze_size z) (max_manifest_bytes limits) = Inr c"
    and parsed: "\<exists>source. from_utf8 c = Some source \<and> parse_manifest X source = Inr (ar_manifest a)"
    using ok(3) z(4) at by (auto simp: read_manifest_def result_simps archive entry_of_def artifact_path_parse_iff)
  have "c = text_bytes t" using read_zip_entry_exact [OF at z(3) c] by simp
  with parsed have "parse_manifest X t = Inr (ar_manifest a)" by (auto simp: from_utf8_def bytes_text_text_bytes split: if_splits)
  moreover have "ax_toml X t = Inr (mf_format m, content_type_display (mf_content m), mf_entry m)"
    using t(1,2) by (simp add: toml_faithful_def)
  moreover have "content_type_parse (content_type_display (mf_content m)) = Inr (mf_content m)"
    using m content_type_displays by (auto simp: proper_manifest_def)
  ultimately have "\<lparr>mf_format = mf_format m, mf_content = mf_content m, mf_entry = mf_entry m\<rparr> = ar_manifest a"
    using m by (auto simp: parse_manifest_def result_simps artifact_path_parse_iff proper_manifest_def)
  then show ?thesis by (cases m) simp
qed

lemma written_file_reads:
  assumes a: "validate_reader X limits bs n = Inr a" and zs: "ax_zip X bs = Inr (map Inr zs)" "list_all2 written_entry files zs"
    and f: "(path, contents) \<in> set files"
  shows "archive_read a path = Inr contents"
proof -
  note ok = validate_reader_ok [OF a]
  have archive: "ar_archive a = map Inr zs" using ok(1) zs(1) by simp
  obtain i z where z: "i < length zs" "zs ! i = z" "written_entry (path, contents) z"
    "map_of (ar_entries a) path = Some (snd (entry_of i z))"
    using written_archive(2) [OF a zs f] by auto
  have "entry_of i z \<in> set (ar_entries a)"
    using validate_entries_complete [OF ok(2), of i z] z(1-3) archive by (simp add: written_entry_def)
  then have small: "ze_size z \<le> max_entry_bytes limits"
    using validate_entries_ok(2) [OF ok(2)] z(1,2) archive by (auto simp: list_all_iff scanned_file_def entry_of_def)
  then have "length contents \<le> unat (max_entry_bytes limits)" using z(3) by (simp add: written_entry_def word_le_nat_alt)
  then show ?thesis
    using z small ok(6) read_zip_entry_whole [of "map Inr zs" i z contents "max_entry_bytes limits" "ze_size z" path]
    by (simp add: archive_read_def archive_read_with_limit_def archive entry_of_def written_entry_def)
qed

text \<open>
  C26. What was packed is read back: an archive packed from entries in memory opens, with the manifest it was packed with, holds
  exactly the manifest and the packed paths, and every path reads exactly the bytes packed under it, provided the ZIP and TOML
  libraries read what they write.
\<close>

theorem packed_archives_read_back:
  assumes libraries: "zip_faithful X" "toml_faithful X"
    and m: "proper_manifest m" and portable: "list_all (\<lambda>e. portable_path (fst e)) entries"
    and packed: "pack_entries_with_compression X limits compression m entries = Inr bs"
  shows "\<exists>a. archive_from_file X limits bs = Inr a \<and> ar_manifest a = m \<and>
    fst ` set (ar_entries a) = insert RTW_MANIFEST_PATH (fst ` set entries) \<and>
    (\<forall>(path, contents) \<in> set entries. archive_read a path = Inr contents)"
proof -
  from packed obtain t a where t: "ax_toml_text X m = Inr t"
    and written: "ax_zip_write X compression ((RTW_MANIFEST_PATH, text_bytes t) # sort_key fst entries) = Inr bs"
    and a: "validate_reader X limits bs (length_u64 bs) = Inr a"
    by (auto simp: pack_entries_with_compression_def validate_bytes_def result_simps Let_def)
  define files where "files = (RTW_MANIFEST_PATH, text_bytes t) # sort_key fst entries"
  have "list_all (\<lambda>f. portable_path (fst f)) files" using portable manifest_path_portable by (simp add: files_def list_all_iff)
  then obtain zs where zs: "ax_zip X bs = Inr (map Inr zs)" "list_all2 written_entry files zs"
    using libraries(1) written unfolding zip_faithful_def files_def by blast
  have "ar_manifest a = m" using written_manifest [OF a zs libraries(2) t _ m] by (simp add: files_def)
  moreover have "archive_read a path = Inr contents" if e: "(path, contents) \<in> set entries" for path contents
    using e by (intro written_file_reads [OF a zs]) (simp add: files_def)
  ultimately show ?thesis using a written_archive(1) [OF a zs] by (auto simp: archive_from_file_def files_def)
qed

section \<open>Stores\<close>

text \<open>The bytes an import is given.\<close>

definition source_contents :: "source_node \<Rightarrow> blob option" where
  "source_contents source = (case source of SourceRegular c \<Rightarrow> Some c | _ \<Rightarrow> None)"

definition imported_contents :: "store_import \<Rightarrow> blob option" where
  "imported_contents i = (case i of ImportFile path source \<Rightarrow> source_contents source | ImportBytes c \<Rightarrow> Some c)"

lemma artifact_step_contents:
  assumes "artifact_step X limits i s = Inr (r, s')"
  obtains c where "imported_contents (snd i) = Some c" "import_reader X limits (fst i) (file_reader c) s = Inr (r, s')"
  using assms
  by (auto simp: artifact_step_def import_artifact_def import_bytes_def imported_contents_def source_contents_def
      split: store_import.splits source_node.splits)

lemma import_reader_present:
  assumes "valid_package X limits c" "open_artifact X limits (ax_sha256 X c) s = Inr a"
  shows "import_reader X limits crosses (file_reader c) s = Inr (\<lparr>im_digest = ax_sha256 X c, im_disposition = AlreadyPresent\<rparr>, s)"
proof -
  obtain b where b: "archive_from_file X limits c = Inr b" using assms(1) by (auto simp: valid_package_def)
  then have small: "length_u64 c \<le> max_archive_bytes limits" using validate_reader_ok(7) by (simp add: archive_from_file_def)
  then obtain n where "copy_loop RtwIo ArchiveTooLarge (max_archive_bytes limits) 0 [] (file_reader c) = Inr (c, n)"
    using copy_loop_file by blast
  moreover have "link_artifact X limits c (ax_sha256 X c) s = Inr (AlreadyPresent, s)"
    using assms(2) open_artifact_iff [of X limits "ax_sha256 X c" s a] by (auto simp: link_artifact_Inr)
  ultimately show ?thesis
    using b publish_temporary_Inr [OF refl small] by (simp add: import_reader_def copy_and_hash_def)
qed

text \<open>
  C27. An accepted import is there to be opened: its digest is the hash of the bytes of the source, and opening that digest
  succeeds. The name was free and the store has exactly these bytes under it now, or it was taken, by a valid package of the
  same digest, and the store is unchanged. Importing the same source again finds it already present and changes nothing.
\<close>

theorem imported_packages_open:
  assumes "artifact_step X limits i s = Inr (r, s')"
  shows "\<exists>c. imported_contents (snd i) = Some c \<and> im_digest r = ax_sha256 X c \<and> (\<exists>a. open_artifact X limits (im_digest r) s' = Inr a) \<and>
    (if s (artifact_path_for (im_digest r)) = None
     then im_disposition r = Imported \<and> s' = s(artifact_path_for (im_digest r) \<mapsto> StoredFile c)
     else im_disposition r = AlreadyPresent \<and> s' = s) \<and>
    artifact_step X limits i s' = Inr (\<lparr>im_digest = im_digest r, im_disposition = AlreadyPresent\<rparr>, s')"
proof -
  obtain c where c: "imported_contents (snd i) = Some c" and imported: "import_reader X limits (fst i) (file_reader c) s = Inr (r, s')"
    using assms by (rule artifact_step_contents)
  note facts = import_reader_Inr [OF imported, unfolded read_all_file]
  have opens: "\<exists>a. open_artifact X limits (im_digest r) s' = Inr a"
  proof (cases "s (artifact_path_for (im_digest r))")
    case None
    then have "s' = s(artifact_path_for (im_digest r) \<mapsto> StoredFile c)" using facts by (simp add: link_artifact_Inr)
    then show ?thesis using facts(1,2) by (auto simp: open_artifact_iff valid_package_def)
  next
    case (Some node)
    then show ?thesis using facts by (auto simp: link_artifact_Inr)
  qed
  have again: "import_reader X limits (fst i) (file_reader c) s' = Inr (\<lparr>im_digest = im_digest r, im_disposition = AlreadyPresent\<rparr>, s')"
    using opens facts(1,2) import_reader_present by metis
  have "artifact_step X limits i s' = import_reader X limits (fst i) (file_reader c) s'"
    using c by (auto simp: artifact_step_def import_artifact_def import_bytes_def imported_contents_def source_contents_def
      split: store_import.splits source_node.splits)
  then show ?thesis using c facts opens again by (auto simp: link_artifact_Inr split: if_splits)
qed

text \<open>The directory of a new store after a history of imports.\<close>

definition package_store_after :: "artifact_externs \<Rightarrow> rtw_limits \<Rightarrow> (bool \<times> store_import) list \<Rightarrow> store_directory" where
  "package_store_after X limits es = store_history (artifact_step X limits) es Map.empty"

text \<open>
  C28. Over any history of imports into an empty store of packages, whatever fails on the way, every name of the directory is
  that of the digest of the bytes it holds, a digest opens exactly when its name is there, and what is there stays as it is
  whatever is imported later.
\<close>

theorem package_store_is_content_addressed:
  "(\<forall>name node. package_store_after X limits es name = Some node \<longrightarrow> (\<exists>c. node = StoredFile c \<and> name = artifact_path_for (ax_sha256 X c))) \<and>
    (\<forall>d. (\<exists>a. open_artifact X limits d (package_store_after X limits es) = Inr a) \<longleftrightarrow>
      package_store_after X limits es (artifact_path_for d) \<noteq> None) \<and>
    (\<forall>later name node. package_store_after X limits es name = Some node \<longrightarrow>
      package_store_after X limits (es @ later) name = Some node)"
proof -
  define s where "s = package_store_after X limits es"
  have addressed: "content_addressed artifact_path_for (ax_sha256 X) (valid_package X limits) s"
    unfolding s_def package_store_after_def by (rule package_store.history_addressed) (rule content_addressed_empty)
  have opens: "(\<exists>a. open_artifact X limits d s = Inr a) \<longleftrightarrow> s (artifact_path_for d) \<noteq> None" for d
  proof
    assume "s (artifact_path_for d) \<noteq> None"
    then obtain node where node: "s (artifact_path_for d) = Some node" by blast
    then obtain c where "node = StoredFile c" "ax_sha256 X c = d" "valid_package X limits c"
      by (rule package_store.addressed_lookup [OF addressed])
    with node show "\<exists>a. open_artifact X limits d s = Inr a" by (auto simp: open_artifact_iff valid_package_def)
  qed (auto simp: open_artifact_iff)
  have kept: "package_store_after X limits (es @ later) name = Some node" if "s name = Some node" for later name node
  proof -
    have "store_history (artifact_step X limits) later s name = Some node" using that by (rule package_store.history_keeps)
    then show ?thesis by (simp add: s_def package_store_after_def store_history_append)
  qed
  have named: "\<forall>name node. s name = Some node \<longrightarrow> (\<exists>c. node = StoredFile c \<and> name = artifact_path_for (ax_sha256 X c))"
    using addressed unfolding content_addressed_def by blast
  show ?thesis
    unfolding s_def [symmetric]
  proof (intro conjI allI impI)
    fix name node assume "s name = Some node"
    with named show "\<exists>c. node = StoredFile c \<and> name = artifact_path_for (ax_sha256 X c)" by blast
  qed (rule opens, rule kept)
qed

definition imported_asset :: "asset_import \<Rightarrow> (blob \<times> string) option" where
  "imported_asset i =
     (case i of ImportAsset path source media_type \<Rightarrow> map_option (\<lambda>c. (c, media_type)) (source_contents source)
      | ImportAssetBytes c media_type \<Rightarrow> Some (c, media_type))"

text \<open>
  C29. The reference an asset import returns is a proper one: its digest and size are those of the bytes of the source, its media
  type is its own canonical form, and opening it succeeds, with bytes of that digest and size within the limit; the store has
  got exactly these bytes under a name that was free, or is unchanged.
\<close>

theorem imported_assets_open:
  assumes "asset_step X maximum i s = Inr ((r, disposition), s')"
  shows "\<exists>c media_type stored. imported_asset i = Some (c, media_type) \<and> media_type_parse media_type = Inr (as_media_type r) \<and>
    media_type_parse (as_media_type r) = Inr (as_media_type r) \<and> as_digest r = ax_sha256 X c \<and> as_size r = length_u64 c \<and>
    open_asset X maximum r s' = Inr stored \<and> ax_sha256 X stored = as_digest r \<and> length_u64 stored = as_size r \<and> as_size r \<le> maximum \<and>
    (if s (asset_path_for (as_digest r)) = None
     then disposition = Imported \<and> s' = s(asset_path_for (as_digest r) \<mapsto> StoredFile c) \<and> stored = c
     else disposition = AlreadyPresent \<and> s' = s)"
proof -
  obtain c media_type m where i: "imported_asset i = Some (c, media_type)" "media_type_parse media_type = Inr m"
    "import_asset_reader X maximum (file_reader c) m s = Inr ((r, disposition), s')"
  proof (cases i)
    case (ImportAsset path source media_type)
    with assms that show thesis
      by (cases source) (auto simp: asset_step_def import_asset_def result_simps imported_asset_def source_contents_def)
  next
    case (ImportAssetBytes contents media_type)
    with assms that show thesis by (auto simp: asset_step_def import_asset_bytes_def result_simps imported_asset_def)
  qed
  note facts = import_asset_reader_Inr [OF i(3), unfolded read_all_file]
  have "\<exists>stored. open_asset X maximum r s' = Inr stored \<and> (s (asset_path_for (as_digest r)) = None \<longrightarrow> stored = c)"
    using facts by (auto simp: open_asset_iff split: if_splits)
  then obtain stored where opened: "open_asset X maximum r s' = Inr stored"
    and fresh: "s (asset_path_for (as_digest r)) = None \<longrightarrow> stored = c"
    by (elim exE conjE) (rule that)
  have r: "as_digest r = ax_sha256 X c" "as_size r = length_u64 c" "as_media_type r = m" using facts(1) by simp_all
  have "ax_sha256 X stored = as_digest r" "length_u64 stored = as_size r" "as_size r \<le> maximum"
    using opened by (auto simp: open_asset_iff)
  then show ?thesis
    using i(1,2) r facts(3) opened fresh media_type_canonical [OF i(2)]
    by (intro exI [of _ c] exI [of _ media_type] exI [of _ stored]) (simp split: if_splits)
qed

end
