(* ===== verification/Artifact_Witnesses.thy ===== *)
theory Artifact_Witnesses
  imports Artifact_Properties
begin

text \<open>A package of one file, with libraries that know it, and what the properties say of it.\<close>

definition ex_manifest :: rtw_manifest where
  "ex_manifest = \<lparr>mf_format = 1, mf_content = \<lparr>ct_id = ''rintawa.world'', ct_major = 1\<rparr>, mf_entry = ''data/world.bin''\<rparr>"

definition ex_toml :: string where "ex_toml = ''format = 1''"

definition ex_packed_files :: "(string \<times> blob) list" where
  "ex_packed_files = [(''data/world.bin'', [1, 2, 3])]"

definition ex_zip_entry :: "string \<Rightarrow> blob \<Rightarrow> zip_entry" where
  "ex_zip_entry path contents =
     \<lparr>ze_name_raw = text_bytes path, ze_name = path, ze_is_dir = False, ze_is_symlink = False, ze_unix_mode = Some 0x81A4,
      ze_method = Deflated, ze_encrypted = False, ze_size = of_nat (length contents), ze_compressed = 5, ze_stream = (contents, None)\<rparr>"

definition ex_package :: blob where "ex_package = [80, 75, 3, 4]"

definition ex_zip_entries :: "zip_entry list" where
  "ex_zip_entries = [ex_zip_entry RTW_MANIFEST_PATH (text_bytes ex_toml), ex_zip_entry ''data/world.bin'' [1, 2, 3]]"

definition ex_artifact_externs :: artifact_externs where
  "ex_artifact_externs =
     \<lparr>ax_zip = (\<lambda>bs. if bs = ex_package then Inr (map Inr ex_zip_entries) else Inl ''not a ZIP archive''),
      ax_toml = (\<lambda>t. if t = ex_toml then Inr (1, ''rintawa.world@1'', ''data/world.bin'') else Inl ''not TOML''),
      ax_custom = (\<lambda>t e. ''invalid field''),
      ax_toml_text = (\<lambda>m. if m = ex_manifest then Inr ex_toml else Inl ''not representable''),
      ax_zip_write = (\<lambda>compression files.
        if files = (RTW_MANIFEST_PATH, text_bytes ex_toml) # ex_packed_files then Inr ex_package else Inl ''not writable''),
      ax_sha256 = (\<lambda>bs. take 32 (bs @ replicate 32 0))\<rparr>"

definition ex_limits :: rtw_limits where
  "ex_limits = \<lparr>max_archive_bytes = 1000, max_entries = 10, max_entry_bytes = 100, max_uncompressed_bytes = 500, max_manifest_bytes = 100\<rparr>"

definition ex_archive :: rtw_archive where
  "ex_archive =
     \<lparr>ar_archive = map Inr ex_zip_entries, ar_manifest = ex_manifest,
      ar_entries =
        [(RTW_MANIFEST_PATH, 0, \<lparr>ae_path = RTW_MANIFEST_PATH, ae_compressed = 5, ae_uncompressed = 10\<rparr>),
         (''data/world.bin'', 1, \<lparr>ae_path = ''data/world.bin'', ae_compressed = 5, ae_uncompressed = 3\<rparr>)],
      ar_limits = ex_limits\<rparr>"

lemma ex_content_type: "content_type_parse ''rintawa.world@1'' = Inr \<lparr>ct_id = ''rintawa.world'', ct_major = 1\<rparr>"
proof -
  have "validate_content_id ''rintawa.world'' = Inr ()"
    by (simp add: validate_content_id_def is_id_char_def is_ascii_lowercase_def is_ascii_alphanumeric_def)
  moreover have "parse_u32 ''1'' = Some 1" by (simp add: parse_u32_def digits_value_def is_ascii_digit_def)
  ultimately show ?thesis unfolding content_type_parse_Some by (intro exI [of _ "''1''"]) simp
qed

lemma ex_path_portable: "portable_path ''data/world.bin''"
  by (simp add: portable_path_def canonical_path_def text_bytes_def)

lemma ex_entry_names:
  "entry_name (ex_zip_entry RTW_MANIFEST_PATH c) = Inr RTW_MANIFEST_PATH"
  "entry_name (ex_zip_entry ''data/world.bin'' c) = Inr ''data/world.bin''"
  by (rule entry_name_written; simp add: ex_zip_entry_def manifest_path_portable ex_path_portable)+

lemma ex_paths_parse:
  "artifact_path_parse RTW_MANIFEST_PATH = Inr RTW_MANIFEST_PATH" "artifact_path_parse ''data/world.bin'' = Inr ''data/world.bin''"
  using manifest_path_portable ex_path_portable by (auto simp: artifact_path_parse_iff portable_path_def)

lemmas ex_steps = and_then_def ensure_def ok_or_def map_err_def

lemma ex_scanned:
  "scan_entry ex_limits (i, Inr (ex_zip_entry p c)) sc =
     Inr (sc\<lparr>sc_files := sc_files sc @ [(p, i, \<lparr>ae_path = p, ae_compressed = 5, ae_uncompressed = of_nat (length c)\<rparr>)],
       sc_total := saturating_add (sc_total sc) (of_nat (length c))\<rparr>)"
  if "p = RTW_MANIFEST_PATH \<or> p = ''data/world.bin''" "p \<notin> set (map fst (sc_files sc))" "sc_directories sc = []"
    "\<not> saturating_add (sc_total sc) (of_nat (length c)) > 500" "\<not> (of_nat (length c) :: u64) > 100"
proof -
  have "entry_name (ex_zip_entry p c) = Inr p" "artifact_path_parse p = Inr p"
    using that(1) ex_entry_names ex_paths_parse by auto
  then show ?thesis
    using that(2-) by (simp add: scan_entry_def ex_steps validate_zip_entry_type_def validate_compression_def ex_zip_entry_def ex_limits_def)
qed

lemma ex_entries_accepted: "validate_entries ex_limits (map Inr ex_zip_entries) = Inr (ar_entries ex_archive)"
proof -
  have "RTW_MANIFEST_PATH \<noteq> ''data/world.bin''" by (simp add: RTW_MANIFEST_PATH_def)
  moreover have "length ex_toml = 10" by (simp add: ex_toml_def)
  ultimately have "fold_result (scan_entry ex_limits) (enumerate 0 (map Inr ex_zip_entries)) scan_new =
      Inr \<lparr>sc_files = ar_entries ex_archive, sc_directories = [], sc_total = 13\<rparr>"
    by (simp add: ex_zip_entries_def ex_scanned scan_new_def ex_archive_def saturating_add_def checked_add_u64_def and_then_def
        text_bytes_def)
  moreover have "find_conflict (map fst (ar_entries ex_archive)) (map fst (ar_entries ex_archive)) = Inr ()"
    by (auto simp: find_conflict_ok ex_archive_def RTW_MANIFEST_PATH_def Cons_eq_append_conv)
  ultimately show ?thesis
    by (simp add: validate_entries_def ex_steps ex_zip_entries_def ex_limits_def ex_archive_def)
qed

lemma ex_archive_accepted: "validate_reader ex_artifact_externs ex_limits ex_package 4 = Inr ex_archive"
proof -
  have archive: "ax_zip ex_artifact_externs ex_package = Inr (map Inr ex_zip_entries)" by (simp add: ex_artifact_externs_def)
  have "read_zip_entry (map Inr ex_zip_entries) 0 RTW_MANIFEST_PATH 10 100 = Inr (text_bytes ex_toml)"
    by (rule read_zip_entry_whole [of _ _ "ex_zip_entry RTW_MANIFEST_PATH (text_bytes ex_toml)"])
      (simp_all add: ex_zip_entries_def ex_zip_entry_def ex_toml_def text_bytes_def)
  moreover have "utf8_valid (text_bytes ex_toml)" by (simp add: ex_toml_def text_bytes_def)
  moreover have "parse_manifest ex_artifact_externs ex_toml = Inr ex_manifest"
    using ex_content_type ex_paths_parse by (simp add: parse_manifest_def ex_steps ex_artifact_externs_def ex_manifest_def)
  moreover have "ze_size (ex_zip_entry RTW_MANIFEST_PATH (text_bytes ex_toml)) = 10"
    by (simp add: ex_zip_entry_def ex_toml_def text_bytes_def)
  ultimately have "read_manifest ex_artifact_externs ex_limits (map Inr ex_zip_entries) (ar_entries ex_archive) = Inr ex_manifest"
    using ex_paths_parse
    by (simp add: read_manifest_def ex_steps ex_archive_def ex_limits_def from_utf8_def bytes_text_text_bytes ex_zip_entries_def)
  then show ?thesis
    using archive ex_entries_accepted
    by (simp add: validate_reader_def ex_steps manifest_validate_def RTW_FORMAT_VERSION_def ex_limits_def [of] ex_archive_def ex_manifest_def)
qed

lemma ex_package_opens: "archive_from_file ex_artifact_externs ex_limits ex_package = Inr ex_archive"
  using ex_archive_accepted by (simp add: archive_from_file_def length_u64_def ex_package_def)

theorem accepted_archives_are_safe_witness:
  "distinct (map fst (ar_entries ex_archive)) \<and> archive_contains ex_archive (mf_entry (ar_manifest ex_archive)) \<and>
   length (ar_archive ex_archive) \<le> max_entries ex_limits"
  using accepted_archives_are_safe [OF ex_archive_accepted] by blast

lemma ex_zip_faithful: "zip_faithful ex_artifact_externs"
proof -
  have "list_all2 written_entry ((RTW_MANIFEST_PATH, text_bytes ex_toml) # ex_packed_files) ex_zip_entries"
    by (simp add: ex_zip_entries_def ex_packed_files_def ex_zip_entry_def written_entry_def ex_toml_def text_bytes_def)
  then show ?thesis by (auto simp: zip_faithful_def ex_artifact_externs_def)
qed

lemma ex_toml_faithful: "toml_faithful ex_artifact_externs"
proof -
  have "utf8_valid (text_bytes ex_toml)" by (simp add: ex_toml_def text_bytes_def)
  moreover have "content_type_display (mf_content ex_manifest) = ''rintawa.world@1''" by code_simp
  ultimately show ?thesis
    by (auto simp: toml_faithful_def ex_artifact_externs_def ex_manifest_def split: if_splits)
qed

lemma ex_manifest_proper: "proper_manifest ex_manifest"
proof -
  have "content_type_parse ''rintawa.world@1'' = Inr (mf_content ex_manifest)" using ex_content_type by (simp add: ex_manifest_def)
  moreover have "canonical_path (mf_entry ex_manifest)" using ex_path_portable by (simp add: ex_manifest_def portable_path_def)
  ultimately show ?thesis by (auto simp: proper_manifest_def)
qed

lemma ex_packed_portable: "list_all (\<lambda>e. portable_path (fst e)) ex_packed_files"
  by (simp add: ex_packed_files_def ex_path_portable)

lemma ex_packed: "pack_entries_with_compression ex_artifact_externs ex_limits Deflated ex_manifest ex_packed_files = Inr ex_package"
proof -
  have "validate_memory_entries ex_limits ex_manifest (text_bytes ex_toml) ex_packed_files = Inr ()"
  proof -
    have "find_conflict [RTW_MANIFEST_PATH, ''data/world.bin''] (sort [RTW_MANIFEST_PATH, ''data/world.bin'']) = Inr ()"
      by (auto simp: find_conflict_ok RTW_MANIFEST_PATH_def Cons_eq_append_conv)
    then show ?thesis
      by (simp add: validate_memory_entries_def ex_steps enforce_entry_size_def add_memory_entry_def length_u64_def ex_toml_def
          text_bytes_def ex_packed_files_def ex_limits_def saturating_add_def checked_add_u64_def ex_manifest_def RTW_MANIFEST_PATH_def)
  qed
  moreover have "validate_bytes ex_artifact_externs ex_limits ex_package = Inr ()"
    using ex_package_opens by (simp add: validate_bytes_def archive_from_file_def ex_steps)
  moreover have "ax_toml_text ex_artifact_externs ex_manifest = Inr ex_toml"
    "ax_zip_write ex_artifact_externs Deflated ((RTW_MANIFEST_PATH, text_bytes ex_toml) # ex_packed_files) = Inr ex_package"
    by (simp_all add: ex_artifact_externs_def)
  moreover have "sort_key fst ex_packed_files = ex_packed_files" "manifest_validate ex_manifest = Inr ()"
    "\<not> length_u64 ex_package > max_archive_bytes ex_limits"
    by (simp_all add: ex_packed_files_def manifest_validate_def ex_manifest_def RTW_FORMAT_VERSION_def ensure_def length_u64_def
        ex_package_def ex_limits_def)
  ultimately show ?thesis by (simp add: pack_entries_with_compression_def ex_steps)
qed

theorem packed_archives_read_back_witness:
  "\<exists>a. archive_from_file ex_artifact_externs ex_limits ex_package = Inr a \<and> ar_manifest a = ex_manifest \<and>
     archive_read a ''data/world.bin'' = Inr [1, 2, 3]"
  using packed_archives_read_back [OF ex_zip_faithful ex_toml_faithful ex_manifest_proper ex_packed_portable ex_packed]
  by (auto simp: ex_packed_files_def)

section \<open>Stores\<close>

lemma ex_file_reader: "file_reader ex_package = [Inr ex_package]"
  by (simp add: file_reader_def buffers.simps [of 65536] COPY_BUFFER_BYTES_def ex_package_def)

lemma ex_copied: "copy_loop io too_large 1000 0 [] (file_reader ex_package) = Inr (ex_package, 4)"
proof -
  have "saturating_add 0 (length_u64 ex_package) = 4" "ex_package \<noteq> []"
    by (simp_all add: ex_package_def length_u64_def saturating_add_def checked_add_u64_def)
  then show ?thesis by (simp add: ex_file_reader Let_def)
qed

definition ex_digest :: blob where "ex_digest = ax_sha256 ex_artifact_externs ex_package"

lemma ex_imported:
  "artifact_step ex_artifact_externs ex_limits (False, ImportBytes ex_package) Map.empty =
     Inr (\<lparr>im_digest = ex_digest, im_disposition = Imported\<rparr>, [artifact_path_for ex_digest \<mapsto> StoredFile ex_package])"
proof -
  have "max_archive_bytes ex_limits = 1000" by (simp add: ex_limits_def)
  then show ?thesis
    by (simp add: artifact_step_def import_bytes_def import_reader_def copy_and_hash_def ex_copied ex_package_opens
        publish_temporary_def link_artifact_def ex_digest_def)
qed

theorem imported_packages_open_witness:
  "\<exists>a. open_artifact ex_artifact_externs ex_limits ex_digest [artifact_path_for ex_digest \<mapsto> StoredFile ex_package] = Inr a"
  using imported_packages_open [OF ex_imported] by auto

theorem package_store_is_content_addressed_witness:
  "package_store_after ex_artifact_externs ex_limits [(False, ImportBytes ex_package), (True, ImportBytes [1])]
     (artifact_path_for ex_digest) = Some (StoredFile ex_package)"
proof -
  have "package_store_after ex_artifact_externs ex_limits [(False, ImportBytes ex_package)] (artifact_path_for ex_digest) =
      Some (StoredFile ex_package)"
    by (simp add: package_store_after_def directory_after_def ex_imported)
  with package_store_is_content_addressed [of ex_artifact_externs ex_limits "[(False, ImportBytes ex_package)]"]
  have "package_store_after ex_artifact_externs ex_limits ([(False, ImportBytes ex_package)] @ [(True, ImportBytes [1])])
      (artifact_path_for ex_digest) = Some (StoredFile ex_package)" by blast
  then show ?thesis by simp
qed

lemma ex_asset_imported:
  "asset_step ex_artifact_externs 1000 (ImportAssetBytes ex_package ''Image/PNG'') Map.empty =
     Inr ((\<lparr>as_digest = ex_digest, as_size = 4, as_media_type = ''image/png''\<rparr>, Imported),
       [asset_path_for ex_digest \<mapsto> StoredFile ex_package])"
proof -
  have "media_type_parse ''Image/PNG'' = Inr ''image/png''" by code_simp
  then show ?thesis
    by (simp add: asset_step_def import_asset_bytes_def import_asset_reader_def asset_copy_and_hash_def ex_copied ex_digest_def Let_def)
qed

theorem imported_assets_open_witness:
  "open_asset ex_artifact_externs 1000 \<lparr>as_digest = ex_digest, as_size = 4, as_media_type = ''image/png''\<rparr>
     [asset_path_for ex_digest \<mapsto> StoredFile ex_package] = Inr ex_package"
  using imported_assets_open [OF ex_asset_imported] by (auto simp: imported_asset_def)

end
