(* ===== verification/Spec2Isabelle.thy ===== *)
theory Spec2Isabelle
  imports Runtime_Witnesses Extension_Witnesses Ui_Witnesses Artifact_Witnesses
begin

text \<open>
  A verification of the core of Rintawa: the world model, its SQLite storage, the runtime that processes
  commands, the part of the extension engine that decides which component may call which, the runtime of the
  portable user interface, and the packages that extensions and worlds are distributed in.

  \<^bold>\<open>The program.\<close> A world is a set of typed entities, relations, facets and control grants. Clients submit
  commands (\<open>crates/world/src/command.rs\<close>); a system turns a command and a snapshot of the world
  into a transaction (\<open>transaction.rs\<close>) of mutations, event drafts and effect drafts; the storage
  (\<open>crates/storage/src/sqlite\<close>) commits it atomically, answers repeated commands from their receipts, and
  keeps the effects in an outbox from which workers lease jobs. Extensions consist of components that define, provide
  and consume contracts; the extension engine (\<open>crates/extension-engine/src\<close>) binds consumers to providers, orders the
  activation of instances and routes the calls between components. Components mount surfaces, trees of renderer-neutral
  nodes, in the UI runtime (\<open>crates/ui-runtime/src\<close>); the layer attached to a scope shows them and sends actions back.
  Packages (\<open>crates/artifacts/src\<close>) are ZIP archives with a manifest, kept in a store under the hash of their bytes.

  \<^bold>\<open>Theories, bottom up.\<close>

  \<^item> Prelude: results (\<open>'e + 'a\<close> for \<open>Result\<close>, with \<open>and_then\<close> for \<open>?\<close>), loops that stop at the first
    error, checked conversions between integer widths, big-endian byte arrays, keyed lists. The
    collections \<open>result_simps\<close> and \<open>table_simps\<close> carry the component proofs.
  \<^item> Rust_Text, Schema_Keys: the string functions the code uses, and \<open>crates/sdk/src/world.rs\<close> (opaque
    128-bit identifiers, schema keys with parser, printer and order).
  \<^item> Json: \<open>serde_json::Value\<close> and \<open>canonical_json\<close>.
  \<^item> World_Model, World_Model_Facts: \<open>crates/world/src\<close>, one section per file; registration and
    validation.
  \<^item> Sql_Tables: the tables of \<open>migration.rs\<close> as lists of row records; inserts, upserts and cascading
    deletes are partial functions that fail where SQLite refuses a row.
  \<^item> Sql_Codec (\<open>codec.rs\<close>, \<open>error.rs\<close>), Sql_Query (\<open>query.rs\<close>), Sql_Commit (\<open>commit.rs\<close>), Sql_Schemas
    (\<open>register_schema\<close> and \<open>register_schemas\<close> of \<open>mod.rs\<close>), Sql_Migration (\<open>migration.rs\<close>, opening a file),
    Sql_Outbox (\<open>outbox.rs\<close>), Sql_Snapshot (\<open>snapshot.rs\<close>): the operations, each a function from the
    database to a result and a database; a failed transaction returns the database it was given.
  \<^item> World_Spec: the abstract world, four finite maps, and what each mutation means there. Sql_Refinement
    proves that the tables implement it, by a functional simulation through \<open>abs_db\<close>.
  \<^item> Sql_Invariant, Sql_Preservation, Sql_Reads, Sql_Outcome, Sql_Receipts, Sql_Digest, Sql_Logs,
    Sql_Outbox_Facts, Sql_Replay: the invariant \<open>db_wf\<close> and its preservation, reads, the complete outcome
    of a commit, receipts, digests, event and mutation logs, the outbox as a map from jobs to states.
  \<^item> Sql_System: the storage component as a step relation over all its calls. Its contracts are two
    locales, \<open>command_store\<close> (a store of idempotent commands) and \<open>job_history\<close> (the life of a job),
    interpreted there on the model.
  \<^item> Storage_Properties, Outbox_Properties: what the component promises over whole runs.
  \<^item> World_Runtime: the command runtime (\<open>crates/world-runtime/src\<close>): registration, start, and the three stages of
    \<open>process_command\<close>, each with the database it finds. World_Runtime_Facts: what is stored once a command was
    answered, and what a system without privileges can do to grants.
  \<^item> World_Worker: the worker of a world with its bounded queue as a state machine (\<open>submit\<close>, \<open>shutdown\<close>,
    \<open>worker_loop\<close>), interleaved with other users of the storage, and its invariant. Runtime_Properties: what it
    promises; a run of the worker takes a list of clock readings, four for each queued command and four more
    are enough.
  \<^item> Extension_Secrets (\<open>crates/sdk/src/secrets.rs\<close> and the engine's \<open>secrets.rs\<close>): secret paths, patterns and grants.
    Contracts (\<open>crates/sdk/src/contracts.rs\<close>, \<open>services.rs\<close>): contract keys, definitions and endpoints.
  \<^item> Extension_Composition (\<open>composition.rs\<close>): which providers each consumer is bound to, that it follows the policy of the
    contract and does not depend on the order of registration.
  \<^item> Extension_Activation (\<open>activation.rs\<close>), Extension_Activation_Facts, Extension_Plans: the planner, the invariant of its
    loop, and its promise: an order with providers first, or a genuine cycle.
  \<^item> Extension_Services (\<open>services.rs\<close>): the registered instances, routes and provider handles. Extension_Routing: the
    invariant over all histories of the runtime and its policy; caches are invisible and handles never outlive
    what they stand for. Extension_Calls: nested calls with the stack, the locks and the limits; they always return.
  \<^item> Ui_Nodes (\<open>crates/sdk/src/ui\<close>), Ui_Validation (\<open>validation.rs\<close>), Ui_Tree: the protocol, the validator, and that it
    accepts exactly the trees. Ui_Runtime, Ui_Surfaces (\<open>runtime.rs\<close>): instances, layers and focus; mounting, patches,
    presentation and actions. Ui_Patches: patches as operations on maps, whatever the order of the nodes. Ui_Invariant,
    Ui_Preserve, Ui_Support: the invariant over all histories and what layers are shown, as the locales \<open>event_history\<close> and
    \<open>guarded_history\<close>, interpreted on the runtime. Ui_Properties: what it promises.
  \<^item> Artifact_Text (\<open>digest.rs\<close>, \<open>path.rs\<close>, \<open>manifest.rs\<close>, \<open>error.rs\<close>), Artifact_Archive (\<open>archive.rs\<close>, \<open>pack.rs\<close>),
    Artifact_Store (\<open>store.rs\<close>, \<open>asset.rs\<close>): packages and the two content-addressed stores. Artifact_Identity: a digest and its
    text determine each other, the accepted paths are the canonical ones, content types parse from what they print.
    Artifact_Archive_Facts, Artifact_Pack_Facts: what a validated archive has, and that packed files are found in it.
    Artifact_Store_Facts, Artifact_Contract: the copying loop, and the contract of a store as the locale \<open>content_store\<close>,
    interpreted on both stores. Artifact_Properties: what they promise.
  \<^item> World_Contracts, World_Service (\<open>world_system.rs\<close>,
    \<open>service.rs\<close>), World_Projection (\<open>world_projection.rs\<close>, \<open>projection.rs\<close>), World_Effect (\<open>effect.rs\<close>): systems,
    projections and effect handlers of extensions, called as services. World_Dialogue: the loop of rounds and reads that the
    first two share, as the locale \<open>read_dialogue\<close>, interpreted on both; the rounds are counted down from 8, as in
    the code.
  \<^item> World_Examples, World_Witnesses, Runtime_Witnesses, Extension_Witnesses, Ui_Witnesses, Artifact_Witnesses: a small
    world, a scope with two instances, a panel with its renderer and a package of one file, built by the operations, and the general theorems applied to them.

  \<^bold>\<open>Correspondence.\<close> Fixed-width integers are words where the code computes with them and integers in SQL
  columns; identifiers are 128-bit words and their blobs the big-endian bytes; a \<open>BTreeSet\<close> is its
  sorted list; \<open>SELECT ... ORDER BY\<close> is a stable sort of the rows. A step of \<open>storage_step\<close> is one
  serialised call, as the writer mutex and \<open>BEGIN IMMEDIATE\<close> make it; a read transaction is the pinned
  contents of the database. A step of \<open>runtime_step\<close> is one call of a client, one access of the worker to the storage, or
  one step of another user of the storage; the answers are recorded in the state in the order they were sent.

  \<^bold>\<open>Parameters.\<close> \<open>serde_json\<close> text coding, the derived coder of \<open>WorldMutation\<close>, \<open>jsonschema\<close>, UUID text
  and SHA-256 are fields of the record \<open>externs\<close>. What is assumed of them is named where it is used:
  \<open>json_stable\<close> and \<open>mutation_stable\<close> (a value survives its round trip), \<open>collision_free\<close> (no collision
  between two given texts). A provider of a service is a function of the number of the call, the contract and the bytes; the
  identities drawn for event and effect drafts are given by the record \<open>fresh_ids\<close>. Of the systems of a runtime it is
  assumed that their outputs fit the bounds of a commit (\<open>systems_admissible\<close>). A component of an extension is its
  state, a limit on messages, and a handler whose run is the tree of the calls it makes on its context. The ZIP and TOML libraries
  and SHA-256 are fields of the record \<open>artifact_externs\<close>: what a reader finds in the bytes of an archive, with the bytes each
  entry yields before its end or an error; \<open>zip_faithful\<close> and \<open>toml_faithful\<close> say that they read what they write. The reader of
  an import is the list of what its reads return; whether a publication crosses devices is an argument.

  \<^bold>\<open>Bounds.\<close> \<open>commit_bounded\<close> states what the types and the host give: a clock within 64 bits, at most
  \<open>2 ^ 32\<close> drafts of each kind, scopes that are sets, grants that expire at positions below \<open>2 ^ 63\<close>. The policy of secrets counts its
  changes in 64 bits, so histories of fewer than \<open>2 ^ 64\<close> operations are considered. Recursion is structural with these
  exceptions: the loops of the activation planner and the walks of the UI validator, which are proved to end (as are the reads
  of a file in buffers), and the
  nesting of service calls, which is fuel: one more than the number of registered components is proved to be enough.

  \<^bold>\<open>Not modelled.\<close> File-system access, connection pragmas and busy timeouts (pure I/O); UUID generation; the
  lifecycle of extension instances and the WebAssembly adapters, which mostly call wasmtime, and the host. Of the artifacts:
  temporary files and synchronisation, creation of the store directories, the checks of the path a package is written to, errors
  while a stored file is read, and files that others change while they are packed or checked. In the service and UI
  runtimes: the poisoning of the lock of their state; in the service runtime also a policy that changes while an operation
  runs (the operation then starts over).
\<close>

end
